(* ===== verification/Js_Prelude.thy ===== *)
theory Js_Prelude
  imports Complex_Main "HOL-Library.Word" "HOL-Library.List_Lexorder" "HOL-Library.Monad_Syntax"
    "HOL-Library.AList" "HOL-Library.Multiset" "HOL-Library.Sublist" "HOL-Library.Product_Lexorder"
begin

text \<open>
  The prelude of the development: the JavaScript runtime the code rests on and the generic
  lemmas the components share.  A JavaScript string is the list of its UTF-16 code units,
  \<open>js\<close> turns a literal into one, and \<open><\<close> on strings is the language's code unit order
  (HOL-Library.List_Lexorder).  A thrown exception is \<open>None\<close>: \<open>traverse\<close> is
  \<open>Array.prototype.map\<close> with a callback that may throw.  A JavaScript \<open>Map\<close> is an
  association list in insertion order, a \<open>Set\<close> a distinct list in insertion order
  (\<open>add_new\<close>).  Numbers that the code keeps as \<open>BigInt\<close> are \<open>int\<close>.
\<close>

unbundle bit_operations_syntax

named_theorems option_elims \<open>inversion of computations that may throw\<close>
named_theorems text_simps \<open>the pieces of a rendered text: splitting, joining, digits\<close>

section \<open>Strings as UTF-16 code units\<close>

type_synonym unit16 = "16 word"
type_synonym jstr = "unit16 list"

abbreviation uc :: "char \<Rightarrow> unit16" where
  "uc c \<equiv> of_char c"

text \<open>The code units the parsers name.\<close>

abbreviation cDot :: unit16 where "cDot \<equiv> 46"
abbreviation cColon :: unit16 where "cColon \<equiv> 58"
abbreviation cPercent :: unit16 where "cPercent \<equiv> 37"
abbreviation cSpace :: unit16 where "cSpace \<equiv> 32"
abbreviation cQuote :: unit16 where "cQuote \<equiv> 34"
abbreviation cBackslash :: unit16 where "cBackslash \<equiv> 92"
abbreviation cSlash :: unit16 where "cSlash \<equiv> 47"
abbreviation cComma :: unit16 where "cComma \<equiv> 44"
abbreviation cMinus :: unit16 where "cMinus \<equiv> 45"
abbreviation cPlus :: unit16 where "cPlus \<equiv> 43"
abbreviation cLBrace :: unit16 where "cLBrace \<equiv> 123"
abbreviation cRBrace :: unit16 where "cRBrace \<equiv> 125"
abbreviation cLBrack :: unit16 where "cLBrack \<equiv> 91"
abbreviation cRBrack :: unit16 where "cRBrack \<equiv> 93"

definition js :: "string \<Rightarrow> jstr" where
  "js s = map uc s"

lemma unat_of_char [simp]: "unat (of_char c :: 16 word) = of_char c"
proof -
  have "(of_char c :: 16 word) = of_nat (of_char c)"
    by (simp only: of_nat_of_char)
  moreover have "(of_char c :: nat) mod 65536 = of_char c"
    by (rule mod_less, rule less_trans [OF nat_of_char_less_256]) simp
  ultimately show ?thesis by (simp add: unat_of_nat)
qed

lemma of_char_unit_eq [simp]: "(of_char c :: 16 word) = of_char d \<longleftrightarrow> c = d"
  by (metis unat_of_char of_char_eq_iff)

lemma inj_uc: "inj uc"
  by (simp add: inj_def)

lemma js_eq_iff [simp]: "js s = js t \<longleftrightarrow> s = t"
  by (simp add: js_def inj_map_eq_map inj_uc)

lemma js_Nil [simp]: "js [] = []"
  by (simp add: js_def)

lemma js_eq_Nil [simp]: "js s = [] \<longleftrightarrow> s = []"
  by (simp add: js_def)

lemma length_js [simp]: "length (js s) = length s"
  by (simp add: js_def)

text \<open>Every white space or line terminator that \<open>String.prototype.trim\<close> removes.\<close>

definition is_space :: "unit16 \<Rightarrow> bool" where
  "is_space c \<longleftrightarrow> 9 \<le> c \<and> c \<le> 13 \<or> c = 0x20 \<or> c = 0xa0 \<or> c = 0x1680 \<or>
     0x2000 \<le> c \<and> c \<le> 0x200a \<or> c = 0x2028 \<or> c = 0x2029 \<or> c = 0x202f \<or> c = 0x205f \<or>
     c = 0x3000 \<or> c = 0xfeff"

definition trim :: "jstr \<Rightarrow> jstr" where
  "trim s = rev (dropWhile is_space (rev (dropWhile is_space s)))"

lemma dropWhile_none: "\<forall>c \<in> set s. \<not> P c \<Longrightarrow> dropWhile P s = s"
  by (cases s) auto

lemma dropWhile_hd: "s = [] \<or> \<not> P (hd s) \<Longrightarrow> dropWhile P s = s"
  by (cases s) auto

lemma trim_no_space: "\<forall>c \<in> set s. \<not> is_space c \<Longrightarrow> trim s = s"
  by (simp add: trim_def dropWhile_none)

lemma trim_trim [simp]: "trim (trim s) = trim s"
proof -
  have last: "dropWhile P xs = [] \<or> \<not> P (hd (dropWhile P xs))" for P :: "unit16 \<Rightarrow> bool" and xs
    by (metis hd_dropWhile)
  let ?d = "dropWhile is_space s" and ?r = "dropWhile is_space (rev (dropWhile is_space s))"
  have "rev ?r = [] \<or> \<not> is_space (hd (rev ?r))"
  proof (cases "?r = []")
    case False
    obtain ys where ys: "rev ?d = ys @ ?r" by (metis takeWhile_dropWhile_id)
    then have "?d = rev ?r @ rev ys" by (metis rev_append rev_rev_ident)
    with False have "hd ?d = hd (rev ?r)" "?d \<noteq> []"
      by (metis hd_append2 rev_is_Nil_conv) (metis False dropWhile.simps(1) rev.simps(1))
    with last [of is_space s] show ?thesis by metis
  qed simp
  then have "dropWhile is_space (rev ?r) = rev ?r" by (rule dropWhile_hd)
  moreover have "dropWhile is_space ?r = ?r" by (rule dropWhile_idem)
  ultimately show ?thesis by (simp add: trim_def)
qed

section \<open>Splitting and joining\<close>

text \<open>\<open>s.split(c)\<close> for a separator of one code unit, and \<open>s.split(cc)\<close> for a separator
  of two equal ones (the only two shapes in the code).\<close>

fun split_on :: "'a \<Rightarrow> 'a list \<Rightarrow> 'a list list" where
  "split_on c [] = [[]]"
| "split_on c (x # xs) =
     (if x = c then [] # split_on c xs
      else (case split_on c xs of [] \<Rightarrow> [[x]] | p # ps \<Rightarrow> (x # p) # ps))"

fun split_pair :: "'a \<Rightarrow> 'a list \<Rightarrow> 'a list list" where
  "split_pair c [] = [[]]"
| "split_pair c [x] = [[x]]"
| "split_pair c (x # y # xs) =
     (if x = c \<and> y = c then [] # split_pair c xs
      else (case split_pair c (y # xs) of [] \<Rightarrow> [[x]] | p # ps \<Rightarrow> (x # p) # ps))"

fun join :: "'a list \<Rightarrow> 'a list list \<Rightarrow> 'a list" where
  "join sep [] = []"
| "join sep [p] = p"
| "join sep (p # q # ps) = p @ sep @ join sep (q # ps)"

lemma split_on_not_Nil [simp]: "split_on c s \<noteq> []"
  by (cases s) (auto split: list.splits)

lemma split_pair_not_Nil [simp]: "split_pair c s \<noteq> []"
  by (induction c s rule: split_pair.induct) (auto split: list.splits)

lemma split_on_plain [text_simps]: "c \<notin> set p \<Longrightarrow> split_on c p = [p]"
  by (induction p) auto

lemma split_on_append [text_simps]:
  "c \<notin> set p \<Longrightarrow> split_on c (p @ c # s) = p # split_on c s"
  by (induction p) auto

lemma split_on_join [text_simps]:
  "ps \<noteq> [] \<Longrightarrow> \<forall>p \<in> set ps. c \<notin> set p \<Longrightarrow> split_on c (join [c] ps) = ps"
proof (induction "[c]" ps rule: join.induct)
  case 1 then show ?case by simp
next
  case (2 p) then show ?case by (simp add: split_on_plain)
next
  case (3 p q ps) then show ?case by (simp add: split_on_append)
qed

lemma split_on_pieces: "p \<in> set (split_on c s) \<Longrightarrow> c \<notin> set p"
  by (induction s arbitrary: p) (auto split: if_splits list.splits)

lemma join_split_on: "join [c] (split_on c s) = s"
proof (induction s)
  case Nil show ?case by simp
next
  case (Cons x s)
  then show ?case
    by (cases "split_on c s"; cases "tl (split_on c s)")
       (auto simp: neq_Nil_conv split: list.splits)
qed

lemma set_join: "set (join [c] ps) \<subseteq> insert c (\<Union> (set ` set ps))"
  by (induction "[c]" ps rule: join.induct) auto

text \<open>A text with no two adjacent separators is one piece of the pair split.\<close>

fun no_pair :: "'a \<Rightarrow> 'a list \<Rightarrow> bool" where
  "no_pair c (x # y # xs) \<longleftrightarrow> \<not> (x = c \<and> y = c) \<and> no_pair c (y # xs)"
| "no_pair c _ \<longleftrightarrow> True"

lemma split_pair_plain [text_simps]: "no_pair c s \<Longrightarrow> split_pair c s = [s]"
  by (induction c s rule: no_pair.induct) auto

lemma split_pair_append [text_simps]:
  assumes "no_pair c s" "s = [] \<or> last s \<noteq> c"
  shows "split_pair c (s @ c # c # t) = s # split_pair c t"
  using assms
proof (induction s rule: induct_list012)
  case (2 x) then show ?case by (cases t) auto
qed (auto split: if_splits)

lemma no_pair_append:
  "no_pair c (s @ t) \<longleftrightarrow>
     no_pair c s \<and> no_pair c t \<and> \<not> (s \<noteq> [] \<and> t \<noteq> [] \<and> last s = c \<and> hd t = c)"
  by (induction c s rule: no_pair.induct) (auto simp: neq_Nil_conv; cases t; auto)+

lemma no_pair_notin: "c \<notin> set s \<Longrightarrow> no_pair c s"
  by (induction c s rule: no_pair.induct) auto

lemma hd_last_join:
  assumes "ps \<noteq> []" "\<forall>p \<in> set ps. p \<noteq> [] \<and> c \<notin> set p"
  shows "join [c] ps \<noteq> [] \<and> hd (join [c] ps) \<noteq> c \<and> last (join [c] ps) \<noteq> c \<and> no_pair c (join [c] ps)"
  using assms
proof (induction "[c]" ps rule: join.induct)
  case 1 then show ?case by simp
next
  case (2 p)
  then show ?case by (auto simp: no_pair_notin dest: hd_in_set last_in_set)
next
  case (3 p q ps)
  then have rest: "join [c] (q # ps) \<noteq> []" "hd (join [c] (q # ps)) \<noteq> c"
    "last (join [c] (q # ps)) \<noteq> c" "no_pair c (join [c] (q # ps))" by auto
  from 3(3) have p: "p \<noteq> []" "c \<notin> set p" by auto
  from p have "hd p \<noteq> c" "last p \<noteq> c" using hd_in_set last_in_set by metis+
  moreover have "no_pair c (c # join [c] (q # ps))"
    using rest by (cases "join [c] (q # ps)") auto
  ultimately show ?case using rest p by (simp add: no_pair_append no_pair_notin)
qed


section \<open>Numerals: \<open>toString(radix)\<close> and the readers of digits\<close>

definition is_digit :: "unit16 \<Rightarrow> bool" where
  "is_digit c \<longleftrightarrow> 48 \<le> c \<and> c \<le> 57"

definition is_hex :: "unit16 \<Rightarrow> bool" where
  "is_hex c \<longleftrightarrow> is_digit c \<or> 65 \<le> c \<and> c \<le> 70 \<or> 97 \<le> c \<and> c \<le> 102"

definition digit_unit :: "nat \<Rightarrow> unit16" where
  "digit_unit d = (if d < 10 then of_nat (48 + d) else of_nat (87 + d))"

definition digit_val :: "unit16 \<Rightarrow> nat" where
  "digit_val c = (if c \<le> 57 then unat c - 48 else if c \<le> 70 then unat c - 55 else unat c - 87)"

definition digits_val :: "nat \<Rightarrow> jstr \<Rightarrow> nat" where
  "digits_val b s = foldl (\<lambda>a c. a * b + digit_val c) 0 s"

function radix :: "nat \<Rightarrow> nat \<Rightarrow> jstr" where
  "radix b n = (if b < 2 \<or> n < b then [digit_unit n] else radix b (n div b) @ [digit_unit (n mod b)])"
  by pat_completeness auto
termination
  by (relation "measure snd") auto

declare radix.simps [simp del]

abbreviation dec :: "nat \<Rightarrow> jstr" where
  "dec \<equiv> radix 10"

abbreviation hex :: "nat \<Rightarrow> jstr" where
  "hex \<equiv> radix 16"

lemma less_16_cases: "d < (16::nat) \<Longrightarrow>
    d = 0 \<or> d = 1 \<or> d = 2 \<or> d = 3 \<or> d = 4 \<or> d = 5 \<or> d = 6 \<or> d = 7 \<or> d = 8 \<or> d = 9 \<or>
    d = 10 \<or> d = 11 \<or> d = 12 \<or> d = 13 \<or> d = 14 \<or> d = 15"
  by presburger

lemma digit_val_unit [text_simps]: "d < 16 \<Longrightarrow> digit_val (digit_unit d) = d"
  by (drule less_16_cases) (elim disjE; simp add: digit_val_def digit_unit_def)

lemma is_digit_unit [text_simps]: "d < 10 \<Longrightarrow> is_digit (digit_unit d)"
  using less_16_cases [of d] by (auto simp: is_digit_def digit_unit_def)

lemma is_hex_unit [text_simps]: "d < 16 \<Longrightarrow> is_hex (digit_unit d)"
  by (drule less_16_cases) (elim disjE; simp add: is_hex_def is_digit_def digit_unit_def)

lemma digits_val_Nil [simp]: "digits_val b [] = 0"
  by (simp add: digits_val_def)

lemma digits_val_snoc [text_simps]: "digits_val b (s @ [c]) = digits_val b s * b + digit_val c"
  by (simp add: digits_val_def)

lemma digits_val_radix [text_simps]:
  "2 \<le> b \<Longrightarrow> b \<le> 16 \<Longrightarrow> digits_val b (radix b n) = n"
proof (induction b n rule: radix.induct)
  case (1 b n)
  show ?case
  proof (cases "n < b")
    case True
    with 1 show ?thesis by (subst radix.simps) (simp add: digits_val_def digit_val_unit)
  next
    case False
    have "n mod b < 16" using 1 by (meson less_le_trans mod_less_divisor zero_less_numeral)
    with 1 False show ?thesis
      by (subst radix.simps) (simp add: digits_val_snoc digit_val_unit)
  qed
qed

lemma radix_units:
  "2 \<le> b \<Longrightarrow> c \<in> set (radix b n) \<Longrightarrow> \<exists>d < b. c = digit_unit d"
proof (induction b n rule: radix.induct)
  case (1 b n)
  show ?case
  proof (cases "n < b")
    case True
    with 1 show ?thesis by (auto simp: radix.simps [of b n])
  next
    case False
    with 1 show ?thesis
      by (auto simp: radix.simps [of b n] intro: exI [of _ "n mod b"])
  qed
qed

lemma dec_is_digit [text_simps]: "\<forall>c \<in> set (dec n). is_digit c"
  using radix_units [of 10] is_digit_unit by auto

lemma hex_is_hex [text_simps]: "\<forall>c \<in> set (hex n). is_hex c"
  using radix_units [of 16] is_hex_unit by auto

lemma radix_not_Nil [simp]: "radix b n \<noteq> []"
  by (subst radix.simps) simp

lemma length_radix_le: "2 \<le> b \<Longrightarrow> 0 < k \<Longrightarrow> n < b ^ k \<Longrightarrow> length (radix b n) \<le> k"
proof (induction k arbitrary: n)
  case 0 then show ?case by simp
next
  case (Suc k)
  show ?case
  proof (cases "n < b")
    case True then show ?thesis by (subst radix.simps) simp
  next
    case False
    with Suc.prems have "0 < k" by (cases k) auto
    moreover have "n div b < b ^ k" using Suc.prems
      by (metis div_less_iff_less_mult less_le_trans mult.commute pos2 power_Suc)
    ultimately have "length (radix b (n div b)) \<le> k" using Suc by simp
    with False show ?thesis by (subst radix.simps) simp
  qed
qed

text \<open>No leading zero: the first digit of a positive number is not \<open>0\<close>.\<close>

lemma hd_radix: "2 \<le> b \<Longrightarrow> b \<le> 16 \<Longrightarrow> 0 < n \<Longrightarrow> \<exists>d. 0 < d \<and> d < b \<and> hd (radix b n) = digit_unit d"
proof (induction b n rule: radix.induct)
  case (1 b n)
  show ?case
  proof (cases "n < b")
    case True with 1 show ?thesis by (subst radix.simps) auto
  next
    case False
    with 1 have "0 < n div b" by (simp add: div_greater_zero_iff)
    with 1 False obtain d where "0 < d" "d < b" "hd (radix b (n div b)) = digit_unit d" by auto
    with False 1 show ?thesis by (subst radix.simps) auto
  qed
qed

lemma radix_0 [simp]: "2 \<le> b \<Longrightarrow> radix b 0 = [48]"
  by (subst radix.simps) (simp add: digit_unit_def)

section \<open>Computations that may throw\<close>

fun traverse :: "('a \<Rightarrow> 'b option) \<Rightarrow> 'a list \<Rightarrow> 'b list option" where
  "traverse f [] = Some []"
| "traverse f (x # xs) = do { y \<leftarrow> f x; ys \<leftarrow> traverse f xs; Some (y # ys) }"

lemma traverse_length: "traverse f xs = Some ys \<Longrightarrow> length ys = length xs"
  by (induction xs arbitrary: ys) (auto split: Option.bind_splits)

lemma traverse_nth:
  "traverse f xs = Some ys \<Longrightarrow> i < length xs \<Longrightarrow> f (xs ! i) = Some (ys ! i)"
  by (induction xs arbitrary: ys i) (auto simp: nth_Cons split: Option.bind_splits nat.splits)

lemma traverse_set:
  "traverse f xs = Some ys \<Longrightarrow> y \<in> set ys \<Longrightarrow> \<exists>x \<in> set xs. f x = Some y"
  by (induction xs arbitrary: ys) (auto split: Option.bind_splits)

lemma traverse_map: "traverse f (map g xs) = traverse (\<lambda>x. f (g x)) xs"
  by (induction xs) auto

lemma traverse_Some_map: "(\<And>x. x \<in> set xs \<Longrightarrow> f x = Some (g x)) \<Longrightarrow> traverse f xs = Some (map g xs)"
  by (induction xs) auto

lemma traverse_all:
  "traverse f xs = Some ys \<Longrightarrow> (\<And>x y. x \<in> set xs \<Longrightarrow> f x = Some y \<Longrightarrow> P y) \<Longrightarrow> \<forall>y \<in> set ys. P y"
  using traverse_set by metis

text \<open>\<open>guard\<close> is the one-line check \<open>if (!condition) throw\<close>.\<close>

definition guard :: "bool \<Rightarrow> unit option" where
  "guard b = (if b then Some () else None)"

lemma guard_Some [simp]: "guard b = Some u \<longleftrightarrow> b"
  by (simp add: guard_def)

lemma guard_True [simp]: "guard True = Some ()"
  by (simp add: guard_def)

lemma guard_False [simp]: "guard False = None"
  by (simp add: guard_def)

lemma bind_Some_iff [option_elims]:
  "Option.bind m f = Some y \<longleftrightarrow> (\<exists>x. m = Some x \<and> f x = Some y)"
  by (cases m) auto

section \<open>Maps and sets in insertion order\<close>

definition add_new :: "'a \<Rightarrow> 'a list \<Rightarrow> 'a list" where
  "add_new x xs = (if x \<in> set xs then xs else xs @ [x])"

lemma set_add_new [simp]: "set (add_new x xs) = insert x (set xs)"
  by (auto simp: add_new_def)

lemma distinct_add_new [simp]: "distinct (add_new x xs) \<longleftrightarrow> distinct xs"
  by (auto simp: add_new_def)

lemma length_add_new: "length (add_new x xs) = length xs + (if x \<in> set xs then 0 else 1)"
  by (simp add: add_new_def)

definition set_of_list :: "'a list \<Rightarrow> 'a list" where
  "set_of_list xs = foldl (\<lambda>s x. add_new x s) [] xs"

lemma foldl_add_new_set: "set (foldl (\<lambda>s x. add_new x s) s xs) = set s \<union> set xs"
  by (induction xs arbitrary: s) auto

lemma foldl_add_new_distinct: "distinct s \<Longrightarrow> distinct (foldl (\<lambda>s x. add_new x s) s xs)"
  by (induction xs arbitrary: s) auto

lemma set_set_of_list [simp]: "set (set_of_list xs) = set xs"
  by (simp add: set_of_list_def foldl_add_new_set)

lemma distinct_set_of_list [simp]: "distinct (set_of_list xs)"
  by (simp add: set_of_list_def foldl_add_new_distinct)

lemma length_set_of_list: "length (set_of_list xs) = card (set xs)"
  by (metis distinct_card distinct_set_of_list set_set_of_list)

text \<open>\<open>new Set(xs).size === xs.length\<close> is the code's test that a list has no duplicates.\<close>

lemma no_duplicates_test: "length (set_of_list xs) = length xs \<longleftrightarrow> distinct xs"
  by (metis card_distinct distinct_card length_set_of_list)

end
