(* ===== verification/Ip_Text.thy ===== *)
theory Ip_Text
  imports Js_Prelude
begin

text \<open>
  What the code's address readers and writers have in common: the octet and word grammars
  of their regular expressions, the folds that shift parts into a \<open>BigInt\<close>, the masks that
  take them out again, and the search for the zero run that the IPv6 writers abbreviate.
  Four files of the client carry their own copy of these loops; the lemmas here are stated
  once and used by the theory of each of them.
\<close>

section \<open>Renderings that can be read back\<close>

text \<open>
  The contract between a writer and a reader of texts: what is rendered from a valid value
  reads back as that value.  A client may then compare renderings instead of values.
\<close>

locale text_codec =
  fixes render :: "'v \<Rightarrow> jstr"
    and reader :: "jstr \<Rightarrow> 'v option"
    and valid :: "'v \<Rightarrow> bool"
  assumes read_back: "valid v \<Longrightarrow> reader (render v) = Some v"
begin

lemma render_eq_iff: "valid v \<Longrightarrow> valid w \<Longrightarrow> render v = render w \<longleftrightarrow> v = w"
  by (metis option.inject read_back)

lemma distinct_renderings:
  "\<forall>v \<in> set vs. valid v \<Longrightarrow> distinct (map render vs) \<longleftrightarrow> distinct vs"
  by (auto simp: distinct_map inj_on_def render_eq_iff)

lemma read_all: "\<forall>v \<in> set vs. valid v \<Longrightarrow> traverse reader (map render vs) = Some vs"
  by (induction vs) (auto simp: read_back)

end

section \<open>The grammars of the parts\<close>

text \<open>The regular expression of a decimal octet, one to three digits without a leading zero.\<close>

definition dec_octet :: "jstr \<Rightarrow> bool" where
  "dec_octet p \<longleftrightarrow> p = js ''0'' \<or>
     (p \<noteq> [] \<and> length p \<le> 3 \<and> 49 \<le> hd p \<and> hd p \<le> 57 \<and> (\<forall>c \<in> set p. is_digit c))"

text \<open>The regular expression of an IPv6 word, one to four hexadecimal digits.\<close>

definition hex_word :: "jstr \<Rightarrow> bool" where
  "hex_word p \<longleftrightarrow> p \<noteq> [] \<and> length p \<le> 4 \<and> (\<forall>c \<in> set p. is_hex c)"

lemma digits_val_bound:
  "(\<forall>c \<in> set s. digit_val c < b) \<Longrightarrow> digits_val b s < b ^ length s"
proof (induction s rule: rev_induct)
  case Nil then show ?case by simp
next
  case (snoc c s)
  then have less: "digits_val b s + 1 \<le> b ^ length s" "digit_val c < b" by auto
  from less(1) have "(digits_val b s + 1) * b \<le> b ^ length s * b" by (rule mult_le_mono1)
  then have "digits_val b s * b + b \<le> b ^ length (s @ [c])"
    by (simp only: add_mult_distrib mult_1 length_append_singleton power_Suc2)
  then show ?case using less(2) by (simp only: digits_val_snoc)
qed

lemma is_hex_val: "is_hex c \<Longrightarrow> digit_val c < 16"
  by (auto simp: is_hex_def is_digit_def digit_val_def word_le_nat_alt)

lemma is_digit_val: "is_digit c \<Longrightarrow> digit_val c < 10"
  by (auto simp: is_digit_def digit_val_def word_le_nat_alt)

lemma hex_word_bound: "hex_word p \<Longrightarrow> digits_val 16 p < 65536"
proof -
  assume p: "hex_word p"
  then have "digits_val 16 p < 16 ^ length p"
    by (intro digits_val_bound) (auto simp: hex_word_def is_hex_val)
  also have "(16::nat) ^ length p \<le> 16 ^ 4"
    using p by (intro power_increasing) (auto simp: hex_word_def)
  finally show ?thesis by simp
qed

lemma hex_word_hex [text_simps]: "w < 65536 \<Longrightarrow> hex_word (hex w)"
  using length_radix_le [of 16 4 w] by (simp add: hex_word_def hex_is_hex)

interpretation dec_codec: text_codec dec "\<lambda>t. Some (digits_val 10 t)" "\<lambda>_. True"
  by unfold_locales (simp add: digits_val_radix)

interpretation hex_codec: text_codec hex "\<lambda>t. if hex_word t then Some (digits_val 16 t) else None"
  "\<lambda>w. w < 65536"
  by unfold_locales (simp add: digits_val_radix hex_word_hex)

lemma dec_octet_dec [text_simps]: "n < 1000 \<Longrightarrow> dec_octet (dec n)"
proof (cases "n = 0")
  case True
  then show ?thesis by (simp add: dec_octet_def js_def)
next
  case False
  assume "n < 1000"
  then have "length (dec n) \<le> 3" using length_radix_le [of 10 3 n] by simp
  moreover from False obtain d where "0 < d" "d < 10" "hd (dec n) = digit_unit d"
    using hd_radix [of 10 n] by auto
  then have "49 \<le> hd (dec n) \<and> hd (dec n) \<le> 57"
    using less_16_cases [of d] by (auto simp: digit_unit_def)
  ultimately show ?thesis by (simp add: dec_octet_def dec_is_digit)
qed

lemma sep_notin_hex [text_simps]: "cColon \<notin> set (hex w)" "cDot \<notin> set (hex w)"
  "cPercent \<notin> set (hex w)" "cSpace \<notin> set (hex w)"
  using hex_is_hex [of w] by (auto simp: is_hex_def is_digit_def)

lemma sep_notin_dec [text_simps]: "cColon \<notin> set (dec w)" "cDot \<notin> set (dec w)"
  "cPercent \<notin> set (dec w)" "cSpace \<notin> set (dec w)"
  using dec_is_digit [of w] by (auto simp: is_digit_def)

section \<open>Shifting parts in and out\<close>

text \<open>\<open>parts.reduce((n, p) => (n << k) | BigInt(p), 0n)\<close> and its inverse, the list of
  \<open>(value >> shift) & mask\<close> from the most significant part down.\<close>

definition shift_in :: "nat \<Rightarrow> nat list \<Rightarrow> int" where
  "shift_in k ws = foldl (\<lambda>n w. push_bit k n OR int w) 0 ws"

definition shift_out :: "nat \<Rightarrow> nat \<Rightarrow> int \<Rightarrow> nat list" where
  "shift_out k n v = map (\<lambda>i. nat (drop_bit (k * i) v AND mask k)) (rev [0..<n])"

lemma push_or_add:
  fixes a :: int
  assumes "w < 2 ^ k"
  shows "push_bit k a OR int w = a * 2 ^ k + int w"
proof -
  have "push_bit k a AND int w = 0"
    using assms by (auto simp: bit_eq_iff bit_simps dest: bit_imp_possible_bit)
      (metis assms bit_of_nat_iff_bit not_le nat_take_bit_eq take_bit_nat_eq_self_iff bit_take_bit_iff)
  then have "push_bit k a OR int w = push_bit k a + int w"
    by (simp add: disjunctive_add_eq_or)
  then show ?thesis by (simp add: push_bit_eq_mult)
qed

lemma foldl_shift:
  "(\<forall>w \<in> set ws. w < 2 ^ k) \<Longrightarrow>
     foldl (\<lambda>n w. push_bit k n OR int w) a ws = foldl (\<lambda>n w. n * 2 ^ k + int w) a ws"
  by (induction ws arbitrary: a) (auto simp: push_or_add)

lemma horner_bound:
  "0 \<le> a \<Longrightarrow> (\<forall>w \<in> set ws. w < 2 ^ k) \<Longrightarrow> a < 2 ^ m \<Longrightarrow>
     0 \<le> foldl (\<lambda>n w. n * 2 ^ k + int w) a ws \<and>
     foldl (\<lambda>n w. n * 2 ^ k + int w) a ws < 2 ^ (m + k * length ws)"
proof (induction ws arbitrary: a m)
  case Nil then show ?case by simp
next
  case (Cons w ws)
  from Cons.prems have w: "int w < 2 ^ k" by (simp flip: of_nat_power)
  from Cons.prems have "a + 1 \<le> 2 ^ m" by simp
  then have "(a + 1) * 2 ^ k \<le> 2 ^ m * 2 ^ k" by (intro mult_right_mono) auto
  then have "a * 2 ^ k + 2 ^ k \<le> 2 ^ (m + k)" by (simp only: distrib_right mult_1 power_add)
  with w have "a * 2 ^ k + int w < 2 ^ (m + k)" by linarith
  then show ?case using Cons.IH [of "a * 2 ^ k + int w" "m + k"] Cons.prems
    by (simp add: add.assoc)
qed

lemma shift_in_bound:
  "(\<forall>w \<in> set ws. w < 2 ^ k) \<Longrightarrow> 0 \<le> shift_in k ws \<and> shift_in k ws < 2 ^ (k * length ws)"
  using horner_bound [of 0 ws k 0] by (simp add: shift_in_def foldl_shift)

lemma part_eq: "drop_bit i v AND mask k = v div 2 ^ i mod 2 ^ k" for v :: int
  by (simp add: drop_bit_eq_div take_bit_eq_mod flip: take_bit_eq_mask)

lemma shift_out_bound: "\<forall>w \<in> set (shift_out k n v). w < 2 ^ k"
  by (auto simp: shift_out_def part_eq nat_less_iff)

lemma length_shift_out [simp]: "length (shift_out k n v) = n"
  by (simp add: shift_out_def)

lemma horner_shift_out:
  "foldl (\<lambda>n w. n * 2 ^ k + int w) a (shift_out k n v) = a * 2 ^ (k * n) + v mod 2 ^ (k * n)"
proof (induction n arbitrary: a)
  case 0 then show ?case by (simp add: shift_out_def)
next
  case (Suc n)
  have "shift_out k (Suc n) v = nat (v div 2 ^ (k * n) mod 2 ^ k) # shift_out k n v"
    by (simp add: shift_out_def part_eq)
  moreover have "v mod (2 ^ (k * n) * 2 ^ k) = 2 ^ (k * n) * (v div 2 ^ (k * n) mod 2 ^ k) + v mod 2 ^ (k * n)"
    by (rule zmod_zmult2_eq) simp
  moreover have "foldl (\<lambda>n w. n * 2 ^ k + int w) a (shift_out k (Suc n) v) =
      (a * 2 ^ k + v div 2 ^ (k * n) mod 2 ^ k) * 2 ^ (k * n) + v mod 2 ^ (k * n)"
    by (simp add: calculation(1) Suc.IH)
  ultimately show ?case by (simp add: power_add algebra_simps)
qed

lemma shift_in_out [text_simps]:
  "0 \<le> v \<Longrightarrow> v < 2 ^ (k * n) \<Longrightarrow> shift_in k (shift_out k n v) = v"
  using horner_shift_out [of k 0 n v] shift_out_bound [of k n v]
  by (simp add: shift_in_def foldl_shift)

section \<open>The zero run an IPv6 writer abbreviates\<close>

text \<open>
  The loop keeps the first longest run of zero words of length at least two: \<open>best\<close> is
  the pair \<open>(bestStart, bestLen)\<close>, \<open>None\<close> for \<open>(-1, 0)\<close>.
\<close>

function zero_run :: "nat list \<Rightarrow> nat \<Rightarrow> (nat \<times> nat) option \<Rightarrow> (nat \<times> nat) option" where
  "zero_run ws i best =
     (if length ws \<le> i then best
      else if ws ! i \<noteq> 0 then zero_run ws (Suc i) best
      else let n = length (takeWhile (\<lambda>w. w = 0) (drop i ws)) in
        zero_run ws (i + n)
          (if (case best of None \<Rightarrow> 0 | Some (_, l) \<Rightarrow> l) < n \<and> 2 \<le> n then Some (i, n) else best))"
  by pat_completeness auto
termination
proof (relation "measure (\<lambda>(ws, i, best). length ws - i)", goal_cases)
  case (3 ws i best n)
  then have "drop i ws \<noteq> []" "hd (drop i ws) = 0" by (auto simp: hd_drop_conv_nth)
  then have "0 < n" using 3 by (cases "drop i ws") auto
  with 3(1) show ?case by simp
qed auto

declare zero_run.simps [simp del]

definition zero_slice :: "nat list \<Rightarrow> nat \<Rightarrow> nat \<Rightarrow> bool" where
  "zero_slice ws i n \<longleftrightarrow> 2 \<le> n \<and> i + n \<le> length ws \<and> take n (drop i ws) = replicate n 0"

lemma takeWhile_zero: "n = length (takeWhile (\<lambda>w. w = 0) xs) \<Longrightarrow> n \<le> length xs \<and> take n xs = replicate n (0::nat)"
  by (induction xs arbitrary: n) auto

lemma zero_run_slice:
  "(\<forall>s l. best = Some (s, l) \<longrightarrow> zero_slice ws s l) \<Longrightarrow>
     zero_run ws i best = Some (s, l) \<Longrightarrow> zero_slice ws s l"
proof (induction ws i best rule: zero_run.induct)
  case (1 ws i best)
  let ?n = "length (takeWhile (\<lambda>w. w = 0) (drop i ws))"
  have n: "?n \<le> length ws - i" "take ?n (drop i ws) = replicate ?n 0"
    using takeWhile_zero [of ?n "drop i ws"] by auto
  show ?case
  proof (cases "length ws \<le> i \<or> ws ! i \<noteq> 0")
    case True
    with 1 show ?thesis by (auto simp: zero_run.simps [of ws i best] split: if_splits)
  next
    case False
    then have step: "zero_run ws i best = zero_run ws (i + ?n)
        (if (case best of None \<Rightarrow> 0 | Some (_, l) \<Rightarrow> l) < ?n \<and> 2 \<le> ?n then Some (i, ?n) else best)"
      by (subst zero_run.simps) (simp add: Let_def)
    have "\<forall>s l. (if (case best of None \<Rightarrow> 0 | Some (_, l) \<Rightarrow> l) < ?n \<and> 2 \<le> ?n then Some (i, ?n) else best) =
        Some (s, l) \<longrightarrow> zero_slice ws s l"
      using 1(3) n False by (auto simp: zero_slice_def split: if_splits)
    then show ?thesis using 1(2) [of ?n] False 1(4) step by simp
  qed
qed

lemma zero_run_rebuild [text_simps]:
  assumes "zero_run ws 0 None = Some (s, l)"
  shows "take s ws @ replicate l 0 @ drop (s + l) ws = ws" "2 \<le> l" "s + l \<le> length ws"
proof -
  have z: "zero_slice ws s l" using zero_run_slice [of None ws 0 s l] assms by simp
  have "ws = take s ws @ take l (drop s ws) @ drop l (drop s ws)"
    by (metis append_take_drop_id)
  with z show "take s ws @ replicate l 0 @ drop (s + l) ws = ws"
    by (simp add: zero_slice_def add.commute)
  from z show "2 \<le> l" "s + l \<le> length ws" by (auto simp: zero_slice_def)
qed

end
