(* ===== verification/Common_Prefix.thy ===== *)
theory Common_Prefix
  imports Ip_Text
begin

text \<open>
  \<open>frontend/common-prefix.js\<close>: addresses of one family are reduced to their bits, the
  longest prefix they share is read off the exclusive or of the smallest and the largest, and
  the enclosing block is printed as a CIDR and as a range.  The theory proves that the prefix
  is the longest common one of all members, that the block holds exactly the values with that
  prefix, that every printed address reads back as the value it prints, and the accounting of
  the report over a list of inputs.  The regular expression \<open>/::/g\<close> counts
  non-overlapping pairs, so its test coincides with the one on \<open>halves.length\<close> that follows
  it in the code; \<open>rawAddresses\<close> is the list of strings its only caller passes.
\<close>

section \<open>Families and parsed addresses\<close>

datatype family = V4 | V6

instantiation family :: linorder
begin

text \<open>\<open>'v4'.localeCompare('v6')\<close> is negative.\<close>

definition less_eq_family :: "family \<Rightarrow> family \<Rightarrow> bool" where
  "less_eq_family a b \<longleftrightarrow> a = V4 \<or> b = V6"

definition less_family :: "family \<Rightarrow> family \<Rightarrow> bool" where
  "less_family a b \<longleftrightarrow> a = V4 \<and> b = V6"

instance
proof
  fix x y z :: family
  show "x < y \<longleftrightarrow> x \<le> y \<and> \<not> y \<le> x"
    by (cases x; cases y) (auto simp: less_eq_family_def less_family_def)
  show "x \<le> x" by (cases x) (auto simp: less_eq_family_def)
  show "x \<le> y \<Longrightarrow> y \<le> z \<Longrightarrow> x \<le> z"
    by (cases x; cases y) (auto simp: less_eq_family_def)
  show "x \<le> y \<Longrightarrow> y \<le> x \<Longrightarrow> x = y"
    by (cases x; cases y) (auto simp: less_eq_family_def)
  show "x \<le> y \<or> y \<le> x" by (cases x; cases y) (auto simp: less_eq_family_def)
qed

end

record addr_bits =
  fam :: family
  width :: nat
  bval :: int

definition ipv4_byte :: "jstr \<Rightarrow> nat option" where
  "ipv4_byte part =
     (if \<not> dec_octet part then None
      else if 255 < digits_val 10 part then None
      else Some (digits_val 10 part))"

definition ipv4Bits :: "jstr \<Rightarrow> addr_bits option" where
  "ipv4Bits text =
     (let parts = split_on cDot text in
      if length parts \<noteq> 4 then None
      else do {
        bytes \<leftarrow> traverse ipv4_byte parts;
        Some \<lparr>fam = V4, width = 32, bval = shift_in 8 bytes\<rparr> })"

fun parse_parts :: "bool \<Rightarrow> jstr list \<Rightarrow> nat list option" where
  "parse_parts allowV4Tail [] = Some []"
| "parse_parts allowV4Tail (part # rest) = do {
     ws \<leftarrow> (if cDot \<in> set part
           then (if \<not> allowV4Tail \<or> rest \<noteq> [] then None
                 else map_option (\<lambda>v4. [nat (drop_bit 16 (bval v4) AND 0xffff), nat (bval v4 AND 0xffff)])
                        (ipv4Bits part))
           else (if hex_word part then Some [digits_val 16 part] else None));
     more \<leftarrow> parse_parts allowV4Tail rest;
     Some (ws @ more) }"

definition parseHalf :: "jstr \<Rightarrow> bool \<Rightarrow> nat list option" where
  "parseHalf half allowV4Tail =
     (if half = [] then Some [] else parse_parts allowV4Tail (split_on cColon half))"

text \<open>The eight words of the two halves around \<open>::\<close> (or of the whole text).\<close>

definition ipv6_group :: "jstr list \<Rightarrow> nat list option" where
  "ipv6_group halves =
     (case halves of
        [h] \<Rightarrow> do { left \<leftarrow> parseHalf h True; if length left \<noteq> 8 then None else Some left }
      | [h, t] \<Rightarrow> do {
          left \<leftarrow> parseHalf h False;
          right \<leftarrow> parseHalf t True;
          (if length left + length right < 8
           then Some (left @ replicate (8 - length left - length right) 0 @ right) else None) }
      | _ \<Rightarrow> None)"

text \<open>An IPv4-mapped address is an address of the IPv4 family.\<close>

definition ipv6_bits :: "nat list \<Rightarrow> addr_bits" where
  "ipv6_bits words =
     (if (\<forall>w \<in> set (take 5 words). w = 0) \<and> words ! 5 = 0xffff
      then \<lparr>fam = V4, width = 32, bval = push_bit 16 (int (words ! 6)) OR int (words ! 7)\<rparr>
      else \<lparr>fam = V6, width = 128, bval = shift_in 16 words\<rparr>)"

definition ipv6Words :: "jstr \<Rightarrow> addr_bits option" where
  "ipv6Words text =
     (let zoneAt = takeWhile (\<lambda>c. c \<noteq> cPercent) text; zone = drop (Suc (length zoneAt)) text in
      if cPercent \<in> set text \<and> zone = [] then None
      else (let address = zoneAt in
        if cColon \<notin> set address then None
        else do {
          words \<leftarrow> ipv6_group (split_pair cColon address);
          Some (ipv6_bits words) }))"

definition parseAddressBits :: "jstr \<Rightarrow> addr_bits option" where
  "parseAddressBits rawText =
     (let text = trim rawText in
      if text = [] \<or> cSpace \<in> set text then None
      else (case ipv4Bits text of Some b \<Rightarrow> Some b | None \<Rightarrow> ipv6Words text))"

section \<open>Printing a value\<close>

definition v6_text :: "nat list \<Rightarrow> jstr" where
  "v6_text words =
     (case zero_run words 0 None of
        None \<Rightarrow> join (js '':'') (map hex words)
      | Some (bestStart, bestLen) \<Rightarrow>
          join (js '':'') (map hex (take bestStart words)) @ js ''::'' @
          join (js '':'') (map hex (drop (bestStart + bestLen) words)))"

definition formatValue :: "int \<Rightarrow> family \<Rightarrow> jstr" where
  "formatValue v f =
     (case f of
        V4 \<Rightarrow> join (js ''.'') (map dec (shift_out 8 4 v))
      | V6 \<Rightarrow> v6_text (shift_out 16 8 v))"

section \<open>The prefix of a group\<close>

function bit_len :: "nat \<Rightarrow> nat" where
  "bit_len cursor = (if cursor = 0 then 0 else Suc (bit_len (drop_bit 1 cursor)))"
  by pat_completeness auto
termination
  by (relation "measure id") (auto simp: drop_bit_Suc)

declare bit_len.simps [simp del]

record prefix_group =
  gfamily :: family
  gcount :: nat
  sharedBits :: "nat option"
  cidr :: "jstr option"
  rangeFirst :: jstr
  rangeLast :: "jstr option"
  firstDiffBit :: "nat option"
  alone :: bool
  gmembers :: "jstr list"

definition min_max :: "int list \<Rightarrow> int \<times> int" where
  "min_max vs = foldl (\<lambda>(mn, mx) v. (if v < mn then v else mn, if v > mx then v else mx))
     (hd vs, hd vs) (tl vs)"

definition shared_bits :: "nat \<Rightarrow> int \<times> int \<Rightarrow> nat" where
  "shared_bits w mm = (case mm of (mn, mx) \<Rightarrow>
     if mn = mx then w else w - bit_len (nat (mn XOR mx)))"

definition low_mask :: "nat \<Rightarrow> nat \<Rightarrow> int" where
  "low_mask w shared = (if 0 < w - shared then push_bit (w - shared) 1 - 1 else 0)"

definition computeGroup :: "addr_bits list \<Rightarrow> prefix_group" where
  "computeGroup members =
     (let (mn, mx) = min_max (map bval members);
          w = width (hd members);
          shared = shared_bits w (mn, mx);
          f = fam (hd members);
          lowMask = low_mask w shared;
          first = mn AND NOT lowMask;
          lst = mn OR lowMask
      in \<lparr>gfamily = f, gcount = length members, sharedBits = Some shared,
          cidr = Some (formatValue first f @ js ''/'' @ dec shared),
          rangeFirst = formatValue first f, rangeLast = Some (formatValue lst f),
          firstDiffBit = (if shared = w then None else Some (shared + 1)), alone = False,
          gmembers = map (\<lambda>m. formatValue (bval m) f) members\<rparr>)"

section \<open>The analysis of a list of inputs\<close>

definition COMMON_MAX_ADDRESSES :: nat where
  "COMMON_MAX_ADDRESSES = 64"

record prefix_report =
  totalInput :: nat
  analyzed :: nat
  truncated :: bool
  parsed :: nat
  skipped :: "jstr list"
  groups :: "prefix_group list"

type_synonym group_map = "(family \<times> addr_bits list) list"

definition group_push :: "addr_bits \<Rightarrow> group_map \<Rightarrow> group_map" where
  "group_push b g = AList.update (fam b) ((case map_of g (fam b) of None \<Rightarrow> [] | Some ms \<Rightarrow> ms) @ [b]) g"

fun collect :: "jstr list \<Rightarrow> group_map \<Rightarrow> jstr list \<Rightarrow> group_map \<times> jstr list" where
  "collect [] g sk = (g, sk)"
| "collect (raw # rest) g sk =
     (let text = trim raw in
      if text = [] then collect rest g sk
      else (case parseAddressBits text of
              None \<Rightarrow> collect rest g (sk @ [text])
            | Some b \<Rightarrow> collect rest (group_push b g) sk))"

definition result_group :: "family \<times> addr_bits list \<Rightarrow> prefix_group" where
  "result_group fm = (case fm of (f, members) \<Rightarrow>
     if length members < 2
     then \<lparr>gfamily = f, gcount = length members, sharedBits = None, cidr = None,
           rangeFirst = formatValue (bval (hd members)) f, rangeLast = None, firstDiffBit = None,
           alone = True, gmembers = [formatValue (bval (hd members)) f]\<rparr>
     else (computeGroup members)\<lparr>alone := False\<rparr>)"

definition commonPrefix :: "jstr list \<Rightarrow> prefix_report" where
  "commonPrefix rawList =
     (let trunc = length rawList > COMMON_MAX_ADDRESSES;
          working = (if trunc then take COMMON_MAX_ADDRESSES rawList else rawList);
          (g, sk) = collect working [] []
      in \<lparr>totalInput = length rawList, analyzed = min (length rawList) COMMON_MAX_ADDRESSES,
          truncated = trunc, parsed = sum_list (map (\<lambda>fm. length (snd fm)) g), skipped = sk,
          groups = map result_group (sort_key fst g)\<rparr>)"


section \<open>The bit length loop and the exclusive or\<close>

lemma bit_len_0 [simp]: "bit_len 0 = 0"
  by (simp add: bit_len.simps)

lemma bit_len_pos: "0 < n \<Longrightarrow> bit_len n = Suc (bit_len (n div 2))"
  by (subst bit_len.simps) (simp add: drop_bit_Suc)

lemma bit_len_upper: "n < 2 ^ bit_len n"
proof (induction n rule: bit_len.induct)
  case (1 n)
  show ?case
  proof (cases "n = 0")
    case False
    with 1 have "n div 2 < 2 ^ bit_len (n div 2)" by (simp add: drop_bit_Suc)
    then show ?thesis using False by (simp add: bit_len_pos)
  qed simp
qed

lemma bit_len_top: "0 < n \<Longrightarrow> bit n (bit_len n - 1)"
proof (induction n rule: bit_len.induct)
  case (1 n)
  show ?case
  proof (cases "n = 1")
    case True then show ?thesis by (simp add: bit_len_pos bit_0)
  next
    case False
    with 1 have "0 < n div 2" "bit (n div 2) (bit_len (n div 2) - 1)" by (auto simp: drop_bit_Suc)
    then show ?thesis using 1(2) by (simp add: bit_len_pos bit_Suc)
  qed
qed

lemma bit_len_least: "n < 2 ^ k \<Longrightarrow> bit_len n \<le> k"
proof (rule ccontr)
  assume n: "n < 2 ^ k" and "\<not> bit_len n \<le> k"
  then have "k \<le> bit_len n - 1" "0 < n" by (cases n; simp)+
  with n bit_len_top [of n] show False
    by (metis bit_take_bit_iff not_le take_bit_nat_eq_self)
qed

lemma xor_zero_eq: "a XOR b = 0 \<Longrightarrow> a = b" for a b :: int
  by (metis xor.assoc xor_self_eq xor.left_neutral xor.right_neutral)

lemma xor_split:
  fixes a b :: int
  assumes "0 \<le> a" "0 \<le> b" "a \<noteq> b"
  defines "L \<equiv> bit_len (nat (a XOR b))"
  shows "drop_bit L a = drop_bit L b" "0 < L" "bit a (L - 1) \<noteq> bit b (L - 1)"
    "a < 2 ^ w \<Longrightarrow> b < 2 ^ w \<Longrightarrow> L \<le> w"
proof -
  have nonneg: "0 \<le> a XOR b" using assms(1,2) by simp
  have "a XOR b \<noteq> 0" using assms(3) xor_zero_eq by blast
  with nonneg have "0 < a XOR b" by (metis order_le_less)
  then have pos: "0 < nat (a XOR b)" by (simp only: zero_less_nat_eq)
  have "nat (a XOR b) < 2 ^ L" unfolding L_def by (rule bit_len_upper)
  then have "a XOR b < 2 ^ L" using nonneg by (simp only: nat_less_iff of_nat_power of_nat_numeral)
  then have "drop_bit L (a XOR b) = 0" using nonneg by (simp add: drop_bit_eq_div)
  then show "drop_bit L a = drop_bit L b" by (rule xor_zero_eq [OF trans [OF drop_bit_xor [symmetric]]])
  show "0 < L" unfolding L_def bit_len_pos [OF pos] by simp
  have "bit (nat (a XOR b)) (L - 1)" unfolding L_def by (rule bit_len_top [OF pos])
  then have "bit (a XOR b) (L - 1)" by (simp only: bit_nat_iff)
  then show "bit a (L - 1) \<noteq> bit b (L - 1)" by (simp add: bit_xor_iff)
  assume "a < 2 ^ w" "b < 2 ^ w"
  with assms(1,2) have "take_bit w a = a" "take_bit w b = b" by (simp_all only: take_bit_int_eq_self)
  then have "take_bit w (a XOR b) = a XOR b" by (simp only: take_bit_xor)
  then have "a XOR b < 2 ^ w" using take_bit_int_less_exp [of w "a XOR b"] by (simp only:)
  then have "nat (a XOR b) < 2 ^ w"
    using nonneg by (simp only: nat_less_iff of_nat_power of_nat_numeral)
  then show "L \<le> w" unfolding L_def by (rule bit_len_least)
qed

lemma foldl_min_max:
  "mn \<le> mx \<Longrightarrow> foldl (\<lambda>(mn, mx) v. (if v < mn then v else mn, if v > mx then v else mx)) (mn, mx) vs =
     (Min (insert mn (set vs)), Max (insert mx (set vs)))" for mn :: int
proof (induction vs arbitrary: mn mx)
  case Nil then show ?case by simp
next
  case (Cons v vs)
  have step: "(if v < mn then v else mn) = min mn v" "(if v > mx then v else mx) = max mx v"
    by auto
  have le: "min mn v \<le> max mx v" using Cons.prems by linarith
  have "Min (insert (min mn v) (set vs)) = Min (insert mn (insert v (set vs)))"
    by (cases "vs = []") (simp_all add: min.assoc)
  moreover have "Max (insert (max mx v) (set vs)) = Max (insert mx (insert v (set vs)))"
    by (cases "vs = []") (simp_all add: max.assoc)
  ultimately show ?case using Cons.IH [OF le] by (simp only: foldl_Cons prod.case step list.set)
qed

lemma min_max_eq: "vs \<noteq> [] \<Longrightarrow> min_max vs = (Min (set vs), Max (set vs))"
  by (cases vs) (auto simp: min_max_def foldl_min_max)

lemma drop_bit_between:
  "a \<le> v \<Longrightarrow> v \<le> b \<Longrightarrow> drop_bit k a = drop_bit k b \<Longrightarrow> drop_bit k v = drop_bit k a" for a v b :: int
  by (simp add: drop_bit_eq_div) (metis order_antisym zdiv_mono1 zero_less_numeral zero_less_power)

section \<open>The longest shared prefix of a list of values\<close>

definition longest_shared :: "nat \<Rightarrow> int set \<Rightarrow> nat \<Rightarrow> bool" where
  "longest_shared w vs s \<longleftrightarrow> s \<le> w \<and>
     (\<forall>m \<in> vs. \<forall>n \<in> vs. drop_bit (w - s) m = drop_bit (w - s) n) \<and>
     (s < w \<longrightarrow> (\<exists>m \<in> vs. \<exists>n \<in> vs. bit m (w - s - 1) \<noteq> bit n (w - s - 1)))"

lemma shared_bits_longest:
  assumes vs: "vs \<noteq> []" "\<forall>v \<in> set vs. 0 \<le> v \<and> v < 2 ^ w"
  shows "longest_shared w (set vs) (shared_bits w (min_max vs))"
proof -
  let ?a = "Min (set vs)" and ?b = "Max (set vs)"
  have mem: "?a \<in> set vs" "?b \<in> set vs" and bounds: "\<forall>v \<in> set vs. ?a \<le> v \<and> v \<le> ?b"
    using vs by simp_all
  have mm: "min_max vs = (?a, ?b)" using vs(1) by (rule min_max_eq)
  show ?thesis
  proof (cases "?a = ?b")
    case True
    then have "\<forall>v \<in> set vs. v = ?a" using bounds by fastforce
    then have "\<forall>m \<in> set vs. \<forall>n \<in> set vs. m = n" by metis
    then show ?thesis using True mm by (simp add: shared_bits_def longest_shared_def)
  next
    case False
    let ?L = "bit_len (nat (?a XOR ?b))"
    have ab: "0 \<le> ?a" "0 \<le> ?b" "?a < 2 ^ w" "?b < 2 ^ w" using mem vs(2) by blast+
    note x = xor_split [OF ab(1,2) False]
    have L: "?L \<le> w" using x(4) ab by blast
    have s: "shared_bits w (min_max vs) = w - ?L" using False mm by (simp add: shared_bits_def)
    have d: "w - (w - ?L) = ?L" using L by simp
    have same: "drop_bit ?L v = drop_bit ?L ?a" if "v \<in> set vs" for v
      by (rule drop_bit_between [OF _ _ x(1)]) (use bounds that in blast)+
    show ?thesis unfolding longest_shared_def s d
    proof (intro conjI ballI impI)
      show "w - ?L \<le> w" by (rule diff_le_self)
      show "drop_bit ?L m = drop_bit ?L n" if "m \<in> set vs" "n \<in> set vs" for m n
        using that same by metis
      show "\<exists>m \<in> set vs. \<exists>n \<in> set vs. bit m (?L - 1) \<noteq> bit n (?L - 1)"
        using mem x(3) by blast
    qed
  qed
qed

lemma low_mask_eq: "low_mask w s = mask (w - s)"
  by (simp add: low_mask_def mask_eq_exp_minus_1)

lemma and_not_mask_eq: "v AND NOT (mask k) = drop_bit k v * 2 ^ k" for v :: int
proof -
  have "v AND NOT (mask k) = push_bit k (drop_bit k v)"
    by (rule bit_eqI) (auto simp: bit_simps)
  then show ?thesis by (simp add: push_bit_eq_mult)
qed

lemma or_mask_eq: "v OR mask k = drop_bit k v * 2 ^ k + (2 ^ k - 1)" for v :: int
proof -
  have "v OR mask k = push_bit k (drop_bit k v) OR mask k"
    by (rule bit_eqI) (auto simp: bit_simps)
  also have "\<dots> = push_bit k (drop_bit k v) + mask k"
    by (rule disjunctive_add [symmetric]) (auto simp: bit_simps)
  finally show ?thesis by (simp add: push_bit_eq_mult mask_eq_exp_minus_1)
qed

text \<open>The block between the two masked values is exactly the set with the same prefix.\<close>

lemma block_eq: "{v AND NOT (mask k) .. v OR mask k} = {u. drop_bit k u = drop_bit k v}" for v :: int
proof -
  have "drop_bit k v * 2 ^ k \<le> u \<and> u \<le> drop_bit k v * 2 ^ k + (2 ^ k - 1) \<longleftrightarrow> u div 2 ^ k = drop_bit k v"
    for u :: int
  proof
    assume u: "drop_bit k v * 2 ^ k \<le> u \<and> u \<le> drop_bit k v * 2 ^ k + (2 ^ k - 1)"
    show "u div 2 ^ k = drop_bit k v"
      by (rule int_div_pos_eq [of _ _ _ "u - drop_bit k v * 2 ^ k"])
        (use u in \<open>simp_all add: mult.commute\<close>)
  next
    assume "u div 2 ^ k = drop_bit k v"
    then have "u = drop_bit k v * 2 ^ k + u mod 2 ^ k" by (metis div_mult_mod_eq)
    moreover have "0 \<le> u mod 2 ^ k" "u mod 2 ^ k < 2 ^ k" by simp_all
    ultimately show "drop_bit k v * 2 ^ k \<le> u \<and> u \<le> drop_bit k v * 2 ^ k + (2 ^ k - 1)"
      by linarith
  qed
  then show ?thesis
    by (simp only: and_not_mask_eq or_mask_eq atLeastAtMost_def atLeast_def atMost_def
        drop_bit_eq_div) blast
qed


section \<open>What the reader accepts\<close>

definition fwidth :: "family \<Rightarrow> nat" where
  "fwidth f = (case f of V4 \<Rightarrow> 32 | V6 \<Rightarrow> 128)"

definition wf_bits :: "addr_bits \<Rightarrow> bool" where
  "wf_bits b \<longleftrightarrow> width b = fwidth (fam b) \<and> 0 \<le> bval b \<and> bval b < 2 ^ fwidth (fam b)"

lemma ipv4_byte_bound: "ipv4_byte p = Some n \<Longrightarrow> n < 256"
  by (auto simp: ipv4_byte_def split: if_splits)

lemma ipv4_byte_dec [text_simps]: "n < 256 \<Longrightarrow> ipv4_byte (dec n) = Some n"
  by (simp add: ipv4_byte_def text_simps)

interpretation byte_codec: text_codec dec ipv4_byte "\<lambda>n. n < 256"
  by unfold_locales (simp add: ipv4_byte_dec)

lemma ipv4Bits_wf:
  assumes "ipv4Bits t = Some b"
  shows "fam b = V4" "wf_bits b"
proof -
  from assms obtain bytes where bytes: "traverse ipv4_byte (split_on cDot t) = Some bytes"
    "length (split_on cDot t) = 4" and b: "b = \<lparr>fam = V4, width = 32, bval = shift_in 8 bytes\<rparr>"
    by (auto simp: ipv4Bits_def Let_def option_elims split: if_splits)
  have "length bytes = 4" using traverse_length bytes by metis
  moreover have "\<forall>w \<in> set bytes. w < 2 ^ 8"
    using bytes(1) by (rule traverse_all) (simp add: ipv4_byte_bound)
  ultimately have "0 \<le> shift_in 8 bytes \<and> shift_in 8 bytes < 2 ^ 32"
    using shift_in_bound [of bytes 8] by simp
  with b show "fam b = V4" "wf_bits b" by (simp_all add: wf_bits_def fwidth_def)
qed

lemma and_ffff: "v AND 65535 = v mod 65536" for v :: int
proof -
  have "(65535 :: int) = mask 16" by (simp add: mask_eq_exp_minus_1)
  then have "v AND 65535 = take_bit 16 v" by (simp only: take_bit_eq_mask)
  then show ?thesis by (simp add: take_bit_eq_mod)
qed

lemma parse_parts_bound: "parse_parts v ps = Some ws \<Longrightarrow> \<forall>w \<in> set ws. w < 65536"
proof (induction v ps arbitrary: ws rule: parse_parts.induct)
  case (1 v) then show ?case by simp
next
  case (2 v part rest)
  let ?here = "if cDot \<in> set part
    then (if \<not> v \<or> rest \<noteq> [] then None
          else map_option (\<lambda>v4. [nat (drop_bit 16 (bval v4) AND 0xffff), nat (bval v4 AND 0xffff)]) (ipv4Bits part))
    else (if hex_word part then Some [digits_val 16 part] else None)"
  from 2(2) obtain here more where here: "?here = Some here"
    and more: "parse_parts v rest = Some more" "ws = here @ more"
    by (auto simp only: parse_parts.simps option_elims)
  have "\<forall>w \<in> set here. w < 65536"
    using here by (auto simp: and_ffff hex_word_bound nat_less_iff split: if_splits)
  with 2(1) [OF here more(1)] more(2) show ?case by auto
qed

lemma parseHalf_bound: "parseHalf h v = Some ws \<Longrightarrow> \<forall>w \<in> set ws. w < 65536"
  using parse_parts_bound by (auto simp: parseHalf_def split: if_splits)

lemma ipv6_group_bound: "ipv6_group hs = Some ws \<Longrightarrow> length ws = 8 \<and> (\<forall>w \<in> set ws. w < 65536)"
  by (auto simp: ipv6_group_def option_elims dest!: parseHalf_bound split: list.splits if_splits)

lemma push_two_words: "a < 65536 \<Longrightarrow> b < 65536 \<Longrightarrow> push_bit 16 (int a) OR int b = int (a * 65536 + b)"
  by (simp add: push_or_add)

lemma ipv6_bits_wf:
  assumes "length ws = 8" "\<forall>w \<in> set ws. w < 65536"
  shows "wf_bits (ipv6_bits ws)"
proof -
  from assms have "ws ! 6 < 65536" "ws ! 7 < 65536" by (auto simp: all_set_conv_all_nth)
  moreover have "0 \<le> shift_in 16 ws \<and> shift_in 16 ws < 2 ^ 128"
    using shift_in_bound [of ws 16] assms by simp
  ultimately show ?thesis by (simp add: ipv6_bits_def wf_bits_def fwidth_def push_two_words)
qed

lemma ipv6Words_wf: "ipv6Words t = Some b \<Longrightarrow> wf_bits b"
  by (auto simp: ipv6Words_def Let_def option_elims dest!: ipv6_group_bound
      intro: ipv6_bits_wf split: if_splits)

lemma parse_wf: "parseAddressBits t = Some b \<Longrightarrow> wf_bits b"
  using ipv4Bits_wf ipv6Words_wf
  by (auto simp: parseAddressBits_def Let_def split: if_splits option.splits)

section \<open>What is printed reads back\<close>

lemma length_4_map: "length (shift_out k 4 v) = 4"
  by simp

lemma ipv4Bits_join:
  assumes "length bytes = 4" "\<forall>w \<in> set bytes. w < 256"
  shows "ipv4Bits (join (js ''.'') (map dec bytes)) =
    Some \<lparr>fam = V4, width = 32, bval = shift_in 8 bytes\<rparr>"
proof -
  have "split_on cDot (join [cDot] (map dec bytes)) = map dec bytes"
    by (rule split_on_join) (use assms in \<open>auto simp: text_simps\<close>)
  moreover have "traverse ipv4_byte (map dec bytes) = Some bytes"
    using assms(2) by (rule byte_codec.read_all)
  ultimately show ?thesis using assms(1) by (simp add: ipv4Bits_def js_def)
qed

lemma parse_parts_hex:
  "\<forall>w \<in> set ws. w < 65536 \<Longrightarrow> parse_parts v (map hex ws) = Some ws"
  by (induction ws) (auto simp: text_simps)

lemma parseHalf_hex:
  assumes "\<forall>w \<in> set ws. w < 65536"
  shows "parseHalf (join [cColon] (map hex ws)) v = Some ws"
proof (cases "ws = []")
  case True then show ?thesis by (simp add: parseHalf_def)
next
  case False
  have "split_on cColon (join [cColon] (map hex ws)) = map hex ws"
    by (rule split_on_join) (use False in \<open>auto simp: text_simps\<close>)
  moreover have "join [cColon] (map hex ws) \<noteq> []"
    using hd_last_join [of "map hex ws" "cColon"] False by (auto simp: text_simps)
  ultimately show ?thesis by (simp add: parseHalf_def parse_parts_hex assms)
qed

lemma hex_text_ends:
  "ws \<noteq> [] \<Longrightarrow> join [cColon] (map hex ws) \<noteq> [] \<and>
     last (join [cColon] (map hex ws)) \<noteq> cColon \<and>
     no_pair cColon (join [cColon] (map hex ws))"
  using hd_last_join [of "map hex ws" "cColon"] by (auto simp: text_simps)

lemma hex_text_last: "join [cColon] (map hex ws) = [] \<or> last (join [cColon] (map hex ws)) \<noteq> cColon"
  by (cases "ws = []") (use hex_text_ends in auto)

lemma no_pair_hex: "no_pair cColon (join [cColon] (map hex ws))"
  by (cases "ws = []") (use hex_text_ends in auto)

lemma ipv6_group_text:
  assumes ws: "length ws = 8" "\<forall>w \<in> set ws. w < 65536"
  shows "ipv6_group (split_pair cColon (v6_text ws)) = Some ws"
proof (cases "zero_run ws 0 None")
  case None
  then show ?thesis using ws
    by (simp add: v6_text_def js_def split_pair_plain no_pair_hex ipv6_group_def parseHalf_hex)
next
  case (Some sl)
  obtain s l where sl: "sl = (s, l)" by (cases sl)
  note z = zero_run_rebuild [OF Some [unfolded sl]]
  let ?a = "join [cColon] (map hex (take s ws))" and ?b = "join [cColon] (map hex (drop (s + l) ws))"
  have "split_pair cColon (?a @ cColon # cColon # ?b) = [?a, ?b]"
    by (subst split_pair_append [OF no_pair_hex hex_text_last])
      (simp add: no_pair_hex split_pair_plain)
  moreover have "parseHalf ?a False = Some (take s ws)"
    by (rule parseHalf_hex) (use ws(2) in \<open>auto dest: in_set_takeD\<close>)
  moreover have "parseHalf ?b True = Some (drop (s + l) ws)"
    by (rule parseHalf_hex) (use ws(2) in \<open>auto dest: in_set_dropD\<close>)
  moreover have "8 - s - (8 - (s + l)) = l" "min 8 s + (8 - (s + l)) < 8" "min 8 s = s"
    using z(2,3) ws(1) by auto
  ultimately show ?thesis using z(1) ws(1) Some sl
    by (simp add: v6_text_def js_def ipv6_group_def)
qed


definition plain_unit :: "unit16 \<Rightarrow> bool" where
  "plain_unit c \<longleftrightarrow> is_hex c \<or> c = cColon \<or> c = cDot"

lemma plain_text:
  assumes "\<forall>c \<in> set s. plain_unit c"
  shows "trim s = s" "cSpace \<notin> set s" "cPercent \<notin> set s"
proof -
  have "\<not> is_space c \<and> c \<noteq> cSpace \<and> c \<noteq> cPercent" if "plain_unit c" for c
    using that by (auto simp: plain_unit_def is_hex_def is_digit_def is_space_def word_le_nat_alt
        word_unat_eq_iff)
  with assms show "trim s = s" "cSpace \<notin> set s" "cPercent \<notin> set s"
    by (auto intro!: trim_no_space)
qed

lemma plain_dec: "\<forall>c \<in> set (dec n). plain_unit c"
  using dec_is_digit [of n] by (auto simp: plain_unit_def is_hex_def)

lemma plain_hex: "\<forall>c \<in> set (hex n). plain_unit c"
  using hex_is_hex [of n] by (auto simp: plain_unit_def)

lemma plain_join:
  "plain_unit c \<Longrightarrow> \<forall>p \<in> set ps. \<forall>d \<in> set p. plain_unit d \<Longrightarrow> \<forall>d \<in> set (join [c] ps). plain_unit d"
  using set_join [of c ps] by blast

lemma plain_seps [simp]: "plain_unit cColon" "plain_unit cDot"
  by (simp_all add: plain_unit_def)

lemma plain_v6_text: "\<forall>c \<in> set (v6_text ws). plain_unit c"
  by (auto simp: v6_text_def js_def plain_hex dest!: plain_join [THEN bspec, rotated 2]
      split: option.splits)

lemma parse_format_v4:
  assumes "0 \<le> v" "v < 2 ^ 32"
  shows "parseAddressBits (formatValue v V4) = Some \<lparr>fam = V4, width = 32, bval = v\<rparr>"
proof -
  let ?t = "join [cDot] (map dec (shift_out 8 4 v))"
  have "\<forall>c \<in> set ?t. plain_unit c" by (rule plain_join) (auto simp: plain_dec)
  note plain = plain_text [OF this]
  have "?t \<noteq> []" by (simp add: shift_out_def upt_rec)
  moreover have "ipv4Bits ?t = Some \<lparr>fam = V4, width = 32, bval = v\<rparr>"
    using ipv4Bits_join [of "shift_out 8 4 v"] shift_out_bound [of 8 4 v] shift_in_out [of v 8 4] assms
    by (simp add: js_def)
  ultimately show ?thesis using plain by (simp add: parseAddressBits_def formatValue_def js_def)
qed

lemma shift_out_8: "shift_out 16 8 v =
    map nat [v div 2 ^ 112 mod 2 ^ 16, v div 2 ^ 96 mod 2 ^ 16, v div 2 ^ 80 mod 2 ^ 16,
      v div 2 ^ 64 mod 2 ^ 16, v div 2 ^ 48 mod 2 ^ 16, v div 2 ^ 32 mod 2 ^ 16,
      v div 2 ^ 16 mod 2 ^ 16, v mod 2 ^ 16]"
  by (simp add: shift_out_def part_eq upt_rec)

lemma mapped_words:
  assumes "0 \<le> v" "v < 2 ^ 128"
  defines "ws \<equiv> shift_out 16 8 v"
  shows "(\<forall>w \<in> set (take 5 ws). w = 0) \<and> ws ! 5 = 0xffff \<longleftrightarrow> v div 2 ^ 32 = 0xffff"
proof
  assume c: "(\<forall>w \<in> set (take 5 ws). w = 0) \<and> ws ! 5 = 0xffff"
  have "length ws = Suc (Suc (Suc (Suc (Suc (Suc (Suc (Suc 0)))))))" by (simp add: ws_def)
  then obtain z0 z1 z2 z3 z4 z5 a b where "ws = [z0, z1, z2, z3, z4, z5, a, b]"
    by (auto simp: length_Suc_conv)
  with c have "ws = [0, 0, 0, 0, 0, 0xffff, a, b]" by simp
  moreover have bound: "\<forall>w \<in> set ws. w < 2 ^ 16" unfolding ws_def by (rule shift_out_bound)
  moreover have "v = shift_in 16 ws" using shift_in_out [of v 16 8] assms(1,2) by (simp add: ws_def)
  then have "v = foldl (\<lambda>n w. n * 2 ^ 16 + int w) 0 ws"
    by (simp only: shift_in_def foldl_shift [OF bound])
  ultimately have v: "v = 0xffff * 2 ^ 32 + (int a * 65536 + int b)" and ab: "a < 65536" "b < 65536"
    by simp_all
  show "v div 2 ^ 32 = 0xffff"
    by (rule int_div_pos_eq [of _ _ _ "int a * 65536 + int b"]) (use v ab in simp_all)
next
  assume v: "v div 2 ^ 32 = 0xffff"
  have "v div 2 ^ (32 + k) = 0xffff div 2 ^ k" for k :: nat
    using v by (simp add: power_add zdiv_zmult2_eq)
  from this [of 16] this [of 32] this [of 48] this [of 64] this [of 80] v
  show "(\<forall>w \<in> set (take 5 ws). w = 0) \<and> ws ! 5 = 0xffff"
    by (simp add: ws_def shift_out_8)
qed

lemma ipv6_bits_shift_out:
  assumes "0 \<le> v" "v < 2 ^ 128"
  shows "ipv6_bits (shift_out 16 8 v) =
    (if v div 2 ^ 32 = 0xffff then \<lparr>fam = V4, width = 32, bval = v mod 2 ^ 32\<rparr>
     else \<lparr>fam = V6, width = 128, bval = v\<rparr>)"
proof -
  have "push_bit 16 (int (shift_out 16 8 v ! 6)) OR int (shift_out 16 8 v ! 7) = v mod 2 ^ 32"
  proof -
    have "v mod (2 ^ 16 * 2 ^ 16) = 2 ^ 16 * (v div 2 ^ 16 mod 2 ^ 16) + v mod 2 ^ 16"
      by (rule zmod_zmult2_eq) simp
    moreover have "push_bit 16 (int (shift_out 16 8 v ! 6)) OR int (shift_out 16 8 v ! 7) =
        int (shift_out 16 8 v ! 6 * 65536 + shift_out 16 8 v ! 7)"
      by (rule push_two_words) (simp_all add: shift_out_8 nat_less_iff)
    ultimately show ?thesis by (simp add: shift_out_8)
  qed
  with mapped_words [OF assms] shift_in_out [of v 16 8] assms show ?thesis
    by (simp add: ipv6_bits_def)
qed

lemma colon_in_v6_text: "length ws = 8 \<Longrightarrow> cColon \<in> set (v6_text ws)"
  by (auto simp: v6_text_def js_def length_Suc_conv numeral_eq_Suc split: option.splits)

lemma dot_notin_hex_join: "cDot \<notin> set (join [cColon] (map hex ws))"
  using set_join [of cColon "map hex ws"] sep_notin_hex by auto

lemma dot_notin_v6_text: "cDot \<notin> set (v6_text ws)"
  by (auto simp: v6_text_def js_def dot_notin_hex_join split: option.splits)

lemma parse_format_v6:
  assumes "0 \<le> v" "v < 2 ^ 128"
  shows "parseAddressBits (formatValue v V6) =
    Some (if v div 2 ^ 32 = 0xffff then \<lparr>fam = V4, width = 32, bval = v mod 2 ^ 32\<rparr>
     else \<lparr>fam = V6, width = 128, bval = v\<rparr>)"
proof -
  let ?ws = "shift_out 16 8 v" let ?t = "v6_text ?ws"
  note plain = plain_text [OF plain_v6_text, of ?ws]
  have colon: "cColon \<in> set ?t" by (rule colon_in_v6_text) simp
  then have "?t \<noteq> []" by auto
  moreover have "ipv4Bits ?t = None"
    by (simp add: ipv4Bits_def split_on_plain dot_notin_v6_text)
  moreover have whole: "takeWhile (\<lambda>c. c \<noteq> cPercent) ?t = ?t"
    using plain(3) by (auto simp: takeWhile_eq_all_conv)
  moreover have "ipv6_group (split_pair cColon ?t) = Some ?ws"
    by (rule ipv6_group_text) (use shift_out_bound [of 16 8 v] in simp_all)
  ultimately show ?thesis using plain colon ipv6_bits_shift_out [OF assms]
    by (simp add: parseAddressBits_def formatValue_def ipv6Words_def whole Let_def)
qed


text \<open>The reader of one family, and the values its texts stand for.\<close>

definition family_reader :: "family \<Rightarrow> jstr \<Rightarrow> int option" where
  "family_reader f t = (case parseAddressBits t of
     None \<Rightarrow> None | Some b \<Rightarrow> if fam b = f then Some (bval b) else None)"

definition family_value :: "family \<Rightarrow> int \<Rightarrow> bool" where
  "family_value f v \<longleftrightarrow> 0 \<le> v \<and> v < 2 ^ fwidth f \<and> (f = V6 \<longrightarrow> v div 2 ^ 32 \<noteq> 0xffff)"

interpretation address_codec: text_codec "\<lambda>v. formatValue v f" "family_reader f" "family_value f" for f
proof
  fix v
  assume "family_value f v"
  then show "family_reader f (formatValue v f) = Some v"
    by (cases f) (auto simp: family_reader_def family_value_def fwidth_def parse_format_v4 parse_format_v6)
qed

section \<open>Collecting the groups\<close>

definition members_of :: "jstr list \<Rightarrow> family \<Rightarrow> addr_bits list" where
  "members_of raws f = filter (\<lambda>b. fam b = f) (List.map_filter parseAddressBits raws)"

definition blank :: "jstr \<Rightarrow> bool" where
  "blank raw \<longleftrightarrow> trim raw = []"

lemma parse_trim [simp]: "parseAddressBits (trim raw) = parseAddressBits raw"
  by (simp add: parseAddressBits_def)

lemma parse_blank: "trim raw = [] \<Longrightarrow> parseAddressBits raw = None"
  by (simp add: parseAddressBits_def)

definition members_in :: "group_map \<Rightarrow> family \<Rightarrow> addr_bits list" where
  "members_in g f = (case map_of g f of None \<Rightarrow> [] | Some ms \<Rightarrow> ms)"

lemma members_in_push: "members_in (group_push b g) f = members_in g f @ (if fam b = f then [b] else [])"
  by (auto simp: members_in_def group_push_def update_conv' split: option.splits)

lemma members_of_Cons:
  "members_of (raw # rest) f =
     (case parseAddressBits raw of None \<Rightarrow> [] | Some b \<Rightarrow> if fam b = f then [b] else []) @ members_of rest f"
  by (simp add: members_of_def List.map_filter_simps split: option.splits)

lemma collect_members:
  "members_in (fst (collect raws g sk)) f = members_in g f @ members_of raws f"
  by (induction raws g sk rule: collect.induct)
     (auto simp: Let_def members_in_push members_of_Cons parse_blank members_of_def
       List.map_filter_simps split: option.splits)

definition wf_groups :: "group_map \<Rightarrow> bool" where
  "wf_groups g \<longleftrightarrow> distinct (map fst g) \<and>
     (\<forall>f ms. (f, ms) \<in> set g \<longrightarrow> ms \<noteq> [] \<and> (\<forall>b \<in> set ms. fam b = f \<and> wf_bits b))"

lemma wf_groups_push:
  assumes "wf_groups g" "wf_bits b"
  shows "wf_groups (group_push b g)"
proof -
  let ?ms = "(case map_of g (fam b) of None \<Rightarrow> [] | Some ms \<Rightarrow> ms) @ [b]"
  have new: "\<forall>x \<in> set ?ms. fam x = fam b \<and> wf_bits x"
  proof (cases "map_of g (fam b)")
    case None with assms(2) show ?thesis by simp
  next
    case (Some ms)
    then have "(fam b, ms) \<in> set g" by (rule map_of_SomeD)
    with assms Some show ?thesis by (simp add: wf_groups_def)
  qed
  have sub: "set (AList.update (fam b) ?ms g) \<subseteq> insert (fam b, ?ms) (set g)"
    by (induction g) auto
  have "distinct (map fst (AList.update (fam b) ?ms g))"
    using assms(1) by (simp add: wf_groups_def distinct_update)
  moreover have "ms \<noteq> [] \<and> (\<forall>x \<in> set ms. fam x = f \<and> wf_bits x)"
    if "(f, ms) \<in> set (AList.update (fam b) ?ms g)" for f ms
  proof (cases "(f, ms) \<in> set g")
    case True then show ?thesis using assms(1) by (simp add: wf_groups_def)
  next
    case False
    with that sub have "f = fam b" "ms = ?ms" by blast+
    with new show ?thesis by simp
  qed
  ultimately show ?thesis unfolding wf_groups_def group_push_def by blast
qed

lemma wf_groups_collect: "wf_groups g \<Longrightarrow> wf_groups (fst (collect raws g sk))"
  by (induction raws arbitrary: g sk)
     (auto simp: Let_def split: option.splits dest: wf_groups_push [OF _ parse_wf])

definition analysed_inputs :: "jstr list \<Rightarrow> jstr list" where
  "analysed_inputs raws = take COMMON_MAX_ADDRESSES raws"

lemma groups_result:
  assumes "g \<in> set (groups (commonPrefix raws))"
  obtains f ms where "g = result_group (f, ms)" "ms = members_of (analysed_inputs raws) f" "ms \<noteq> []"
    "\<forall>b \<in> set ms. fam b = f \<and> wf_bits b"
proof -
  let ?c = "collect (analysed_inputs raws) [] []"
  have working: "(if length raws > COMMON_MAX_ADDRESSES then take COMMON_MAX_ADDRESSES raws else raws) =
      analysed_inputs raws"
    by (simp add: analysed_inputs_def)
  then have "groups (commonPrefix raws) = map result_group (sort_key fst (fst ?c))"
    by (simp add: commonPrefix_def Let_def split: prod.splits)
  then obtain f ms where g: "g = result_group (f, ms)" "(f, ms) \<in> set (fst ?c)"
    using assms by auto
  have wf: "wf_groups (fst ?c)" by (rule wf_groups_collect) (simp add: wf_groups_def)
  with g(2) have "map_of (fst ?c) f = Some ms" by (simp add: wf_groups_def)
  then have "ms = members_of (analysed_inputs raws) f"
    using collect_members [of "analysed_inputs raws" "[]" "[]" f] by (simp add: members_in_def)
  with g wf that show thesis by (auto simp: wf_groups_def)
qed


lemma gfamily_result [simp]: "gfamily (result_group (f, ms)) = (if length ms < 2 then f else fam (hd ms))"
  by (simp add: result_group_def computeGroup_def Let_def split: prod.splits)

lemma alone_result [simp]: "alone (result_group (f, ms)) \<longleftrightarrow> length ms < 2"
  by (simp add: result_group_def)

lemma gcount_result [simp]: "gcount (result_group (f, ms)) = length ms"
  by (simp add: result_group_def computeGroup_def Let_def split: prod.splits)

lemma gcount_fm: "gcount (result_group fm) = length (snd fm)"
  by (cases fm) simp

text \<open>Every group of at least two members is the result of \<open>computeGroup\<close> on the members of
  its family, in input order.\<close>

lemma computed_group:
  assumes "g \<in> set (groups (commonPrefix raws))" "\<not> alone g"
  shows "g = computeGroup (members_of (analysed_inputs raws) (gfamily g))"
    "2 \<le> length (members_of (analysed_inputs raws) (gfamily g))"
    "\<forall>b \<in> set (members_of (analysed_inputs raws) (gfamily g)). fam b = gfamily g \<and> wf_bits b"
proof -
  from assms(1) obtain f ms where g: "g = result_group (f, ms)"
    and ms: "ms = members_of (analysed_inputs raws) f" "ms \<noteq> []" "\<forall>b \<in> set ms. fam b = f \<and> wf_bits b"
    by (rule groups_result)
  from assms(2) g have two: "2 \<le> length ms" by simp
  have "gfamily g = f" using g ms(2,3) by simp
  moreover have "g = computeGroup ms" using g two
    by (simp add: result_group_def computeGroup_def Let_def split: prod.splits)
  ultimately show "g = computeGroup (members_of (analysed_inputs raws) (gfamily g))"
    "2 \<le> length (members_of (analysed_inputs raws) (gfamily g))"
    "\<forall>b \<in> set (members_of (analysed_inputs raws) (gfamily g)). fam b = gfamily g \<and> wf_bits b"
    using ms two by simp_all
qed

lemma computeGroup_fields:
  assumes "2 \<le> length ms" "\<forall>b \<in> set ms. fam b = f \<and> wf_bits b"
  obtains s mn where "longest_shared (fwidth f) (bval ` set ms) s" "mn \<in> bval ` set ms"
    "sharedBits (computeGroup ms) = Some s"
    "firstDiffBit (computeGroup ms) = (if s = fwidth f then None else Some (s + 1))"
    "rangeFirst (computeGroup ms) = formatValue (mn AND NOT (mask (fwidth f - s))) f"
    "rangeLast (computeGroup ms) = Some (formatValue (mn OR mask (fwidth f - s)) f)"
    "cidr (computeGroup ms) = Some (formatValue (mn AND NOT (mask (fwidth f - s))) f @ js ''/'' @ dec s)"
proof -
  have ne: "ms \<noteq> []" "map bval ms \<noteq> []" using assms(1) by auto
  then have hd: "fam (hd ms) = f" "width (hd ms) = fwidth f" using assms(2) by (simp_all add: wf_bits_def)
  have range: "\<forall>v \<in> set (map bval ms). 0 \<le> v \<and> v < 2 ^ fwidth f"
    using assms(2) by (auto simp: wf_bits_def)
  let ?s = "shared_bits (fwidth f) (min_max (map bval ms))"
  have long: "longest_shared (fwidth f) (bval ` set ms) ?s"
    using shared_bits_longest [OF ne(2) range] by simp
  obtain mn mx where mm: "min_max (map bval ms) = (mn, mx)" by (cases "min_max (map bval ms)")
  have "mn = Min (set (map bval ms))" using mm min_max_eq [OF ne(2)] by simp
  then have "mn \<in> bval ` set ms" using ne by (metis Min_in List.finite_set set_empty set_map)
  with long show thesis
    by (intro that [of ?s mn]) (simp_all add: computeGroup_def Let_def mm hd low_mask_eq)
qed

section \<open>Counting the inputs\<close>

definition member_total :: "group_map \<Rightarrow> nat" where
  "member_total g = sum_list (map (\<lambda>fm. length (snd fm)) g)"

lemma member_total_push [simp]: "member_total (group_push b g) = Suc (member_total g)"
proof -
  have "member_total (AList.update k ((case map_of g k of None \<Rightarrow> [] | Some ms \<Rightarrow> ms) @ [b]) g) =
      Suc (member_total g)" for k
    by (induction g) (auto simp: member_total_def)
  then show ?thesis by (simp add: group_push_def)
qed

lemma collect_count:
  "member_total (fst (collect raws g sk)) + length (snd (collect raws g sk)) + length (filter blank raws) =
     member_total g + length sk + length raws"
  by (induction raws arbitrary: g sk) (auto simp: Let_def blank_def split: option.splits)

lemma sum_list_sort_key: "sum_list (map h (sort_key k xs)) = sum_list (map h xs)" for h :: "'a \<Rightarrow> nat"
  by (metis mset_map mset_sort sum_mset_sum_list)

lemma sorted_families:
  assumes "wf_groups g"
  shows "sorted_wrt (<) (map gfamily (map result_group (sort_key fst g)))"
proof -
  have "gfamily (result_group fm) = fst fm" if "fm \<in> set g" for fm
  proof (cases fm)
    case (Pair f ms)
    with that assms have "ms \<noteq> []" "\<forall>b \<in> set ms. fam b = f" unfolding wf_groups_def by blast+
    with Pair show ?thesis by simp
  qed
  then have eq: "map gfamily (map result_group (sort_key fst g)) = map fst (sort_key fst g)" by simp
  have "mset (map fst (sort_key fst g)) = mset (map fst g)" by simp
  then have "distinct (map fst (sort_key fst g))"
    using assms by (metis wf_groups_def mset_eq_imp_distinct_iff)
  then show ?thesis unfolding eq strict_sorted_iff by simp
qed

section \<open>Properties\<close>

text \<open>
  C10: in every group of at least two addresses that \<open>commonPrefix\<close> reports, \<open>sharedBits\<close> is
  the length of the longest prefix that all analysed addresses of that family have in common
  (all agree on it, and two of them differ in the next bit), \<open>count\<close> is their number, and
  \<open>firstDiffBit\<close> is the position after the prefix, \<open>null\<close> when all are equal.
\<close>

theorem commonPrefix_longest:
  assumes "g \<in> set (groups (commonPrefix raws))" "\<not> alone g"
  shows "\<exists>s. sharedBits g = Some s \<and>
    gcount g = length (members_of (analysed_inputs raws) (gfamily g)) \<and>
    longest_shared (fwidth (gfamily g)) (bval ` set (members_of (analysed_inputs raws) (gfamily g))) s \<and>
    firstDiffBit g = (if s = fwidth (gfamily g) then None else Some (s + 1))"
proof -
  note g = computed_group [OF assms]
  let ?ms = "members_of (analysed_inputs raws) (gfamily g)"
  have "gcount g = length ?ms"
    by (subst g(1)) (simp add: computeGroup_def Let_def split: prod.splits)
  moreover obtain s where "longest_shared (fwidth (gfamily g)) (bval ` set ?ms) s"
    "sharedBits (computeGroup ?ms) = Some s"
    "firstDiffBit (computeGroup ?ms) = (if s = fwidth (gfamily g) then None else Some (s + 1))"
    using computeGroup_fields [OF g(2,3)] by metis
  ultimately show ?thesis using g(1) by metis
qed

text \<open>
  C33: the CIDR and the range of such a group describe the same block: the printed first and
  last addresses are the bounds of exactly the set of values that share the prefix with every
  member, the block has \<open>2^(width - sharedBits)\<close> addresses and is aligned to its size.
\<close>

theorem commonPrefix_block:
  assumes "g \<in> set (groups (commonPrefix raws))" "\<not> alone g"
  shows "\<exists>s lo hi. sharedBits g = Some s \<and> rangeFirst g = formatValue lo (gfamily g) \<and>
    rangeLast g = Some (formatValue hi (gfamily g)) \<and>
    cidr g = Some (formatValue lo (gfamily g) @ js ''/'' @ dec s) \<and>
    (\<forall>m \<in> set (members_of (analysed_inputs raws) (gfamily g)). {lo..hi} =
       {v. drop_bit (fwidth (gfamily g) - s) v = drop_bit (fwidth (gfamily g) - s) (bval m)}) \<and>
    hi - lo + 1 = 2 ^ (fwidth (gfamily g) - s) \<and> 2 ^ (fwidth (gfamily g) - s) dvd lo"
proof -
  note g = computed_group [OF assms]
  let ?ms = "members_of (analysed_inputs raws) (gfamily g)" and ?W = "fwidth (gfamily g)"
  obtain s mn where s: "longest_shared ?W (bval ` set ?ms) s" "mn \<in> bval ` set ?ms"
    "sharedBits g = Some s"
    "rangeFirst g = formatValue (mn AND NOT (mask (?W - s))) (gfamily g)"
    "rangeLast g = Some (formatValue (mn OR mask (?W - s)) (gfamily g))"
    "cidr g = Some (formatValue (mn AND NOT (mask (?W - s))) (gfamily g) @ js ''/'' @ dec s)"
    using computeGroup_fields [OF g(2,3)] g(1) by metis
  have "{mn AND NOT (mask (?W - s)) .. mn OR mask (?W - s)} = {v. drop_bit (?W - s) v = drop_bit (?W - s) (bval m)}"
    if "m \<in> set ?ms" for m
  proof -
    have "drop_bit (?W - s) mn = drop_bit (?W - s) (bval m)"
      using s(1,2) that unfolding longest_shared_def by blast
    then show ?thesis by (simp only: block_eq)
  qed
  moreover have "(mn OR mask (?W - s)) - (mn AND NOT (mask (?W - s))) + 1 = 2 ^ (?W - s)"
    "2 ^ (?W - s) dvd mn AND NOT (mask (?W - s))"
    by (simp_all only: and_not_mask_eq or_mask_eq) simp_all
  ultimately show ?thesis using s by blast
qed

text \<open>
  C31: \<open>formatValue\<close> and \<open>parseAddressBits\<close> are inverse: every printed address reads back as
  the value and family it was printed from; the only texts that read back in another family
  are IPv6 values inside \<open>::ffff:0:0/96\<close>, which read as the IPv4 address they embed.
\<close>

theorem formatted_address_reads_back:
  assumes "0 \<le> v" "v < 2 ^ fwidth f"
  shows "parseAddressBits (formatValue v f) =
    Some (if f = V6 \<and> v div 2 ^ 32 = 0xffff then \<lparr>fam = V4, width = 32, bval = v mod 2 ^ 32\<rparr>
          else \<lparr>fam = f, width = fwidth f, bval = v\<rparr>)"
  using assms by (cases f) (auto simp: fwidth_def parse_format_v4 parse_format_v6)


definition example_inputs :: "jstr list" where
  "example_inputs = [js ''10.0.0.1'', js ''10.0.0.6'', js ''x'']"

lemma example_group:
  "hd (groups (commonPrefix example_inputs)) \<in> set (groups (commonPrefix example_inputs))"
  "\<not> alone (hd (groups (commonPrefix example_inputs)))"
  by code_simp+


text \<open>
  C36: the report accounts for every input: at most 64 are analysed (the first ones, with
  \<open>truncated\<close> set exactly when more were given), each analysed input is counted once as
  parsed, skipped or blank, the group counts add up to \<open>parsed\<close>, and there is at most one
  group per family, IPv4 first.
\<close>

theorem commonPrefix_accounting:
  "totalInput (commonPrefix raws) = length raws \<and>
   analyzed (commonPrefix raws) = length (analysed_inputs raws) \<and> length (analysed_inputs raws) \<le> 64 \<and>
   (truncated (commonPrefix raws) = (64 < length raws)) \<and>
   parsed (commonPrefix raws) + length (skipped (commonPrefix raws)) +
     length (filter blank (analysed_inputs raws)) = analyzed (commonPrefix raws) \<and>
   sum_list (map gcount (groups (commonPrefix raws))) = parsed (commonPrefix raws) \<and>
   sorted_wrt (<) (map gfamily (groups (commonPrefix raws)))"
proof -
  let ?c = "collect (analysed_inputs raws) [] []"
  have working: "(if length raws > COMMON_MAX_ADDRESSES then take COMMON_MAX_ADDRESSES raws else raws) =
      analysed_inputs raws"
    by (simp add: analysed_inputs_def)
  have r: "commonPrefix raws = \<lparr>totalInput = length raws, analyzed = min (length raws) COMMON_MAX_ADDRESSES,
      truncated = COMMON_MAX_ADDRESSES < length raws, parsed = member_total (fst ?c), skipped = snd ?c,
      groups = map result_group (sort_key fst (fst ?c))\<rparr>"
    using working by (simp add: commonPrefix_def member_total_def Let_def split: prod.splits)
  have "sum_list (map gcount (map result_group (sort_key fst (fst ?c)))) = member_total (fst ?c)"
    by (simp add: member_total_def comp_def gcount_fm sum_list_sort_key)
  moreover have "sorted_wrt (<) (map gfamily (map result_group (sort_key fst (fst ?c))))"
    by (rule sorted_families, rule wf_groups_collect) (simp add: wf_groups_def)
  moreover have "member_total (fst ?c) + length (snd ?c) + length (filter blank (analysed_inputs raws)) =
      length (analysed_inputs raws)"
    using collect_count [of "analysed_inputs raws" "[]" "[]"] by (simp add: member_total_def)
  ultimately show ?thesis unfolding r by (simp add: analysed_inputs_def COMMON_MAX_ADDRESSES_def)
qed

section \<open>Witnesses\<close>

theorem commonPrefix_longest_witness:
  "sharedBits (hd (groups (commonPrefix example_inputs))) = Some 29"
proof -
  note g = commonPrefix_longest [OF example_group]
  have "sharedBits (hd (groups (commonPrefix example_inputs))) = Some 29" by code_simp
  with g show ?thesis by metis
qed

theorem commonPrefix_block_witness:
  "\<exists>lo hi. rangeFirst (hd (groups (commonPrefix example_inputs))) = formatValue lo V4 \<and>
     rangeLast (hd (groups (commonPrefix example_inputs))) = Some (formatValue hi V4) \<and> hi - lo + 1 = 8"
proof -
  have "sharedBits (hd (groups (commonPrefix example_inputs))) = Some 29"
    "gfamily (hd (groups (commonPrefix example_inputs))) = V4" by code_simp+
  with commonPrefix_block [OF example_group] show ?thesis by (auto simp: fwidth_def)
qed

theorem formatted_address_reads_back_witness:
  "parseAddressBits (formatValue 1 V6) = Some \<lparr>fam = V6, width = 128, bval = 1\<rparr>"
  using formatted_address_reads_back [of 1 V6] by (simp add: fwidth_def)

end
