(* ===== verification/Js_Values.thy ===== *)
theory Js_Values
  imports Js_Prelude
begin

text \<open>
  JavaScript values as the validators of \<open>frontend/state.js\<close> meet them, and the validators'
  primitives.  An object is its identity, whether its prototype is \<open>Object.prototype\<close>, and
  its own properties as descriptors (data or accessor, enumerable or not) under string or
  symbol keys; an array is its identity, whether its prototype is \<open>Array.prototype\<close>, and the
  descriptors of its slots.  Sparse arrays and arrays with further own properties are not
  represented: \<open>JSON.parse\<close> makes neither.  Functions, symbols and bigints are \<open>JOther\<close>.
  A thrown \<open>TypeError\<close> is \<open>None\<close>: every caller under src/ catches it and drops its text.
  Numbers are exact rationals, the values of the doubles.
\<close>

section \<open>Numbers\<close>

datatype jnum = NaN | PInf | NInf | NZero | Fin rat

fun num_rat :: "jnum \<Rightarrow> rat option" where
  "num_rat NZero = Some 0"
| "num_rat (Fin r) = Some r"
| "num_rat _ = None"

definition num_int :: "jnum \<Rightarrow> int option" where
  "num_int n = (case num_rat n of
     Some r \<Rightarrow> if of_int \<lfloor>r\<rfloor> = r then Some \<lfloor>r\<rfloor> else None | None \<Rightarrow> None)"

definition jint :: "int \<Rightarrow> jnum" where
  "jint i = Fin (of_int i)"

definition MAX_SAFE :: int where
  "MAX_SAFE = 9007199254740991"

definition MAX_VALUE :: rat where
  "MAX_VALUE = (2 ^ 53 - 1) * 2 ^ 971"

lemma num_int_jint [simp]: "num_int (jint i) = Some i"
  by (simp add: num_int_def jint_def)

lemma num_int_Fin [simp]: "num_int (Fin (numeral k)) = Some (numeral k)" "num_int (Fin 0) = Some 0"
  "num_int (Fin 1) = Some 1" "num_int NZero = Some 0"
  by (simp_all add: num_int_def)

section \<open>Values and property descriptors\<close>

datatype jkey = Key jstr | Symbol nat

datatype jval = JUndef | JNull | JBool bool | JNum jnum | JStr jstr | JOther
  | JArr nat bool "jdesc list"
  | JObj nat bool "(jkey \<times> jdesc) list"
and jdesc = Data bool jval | Accessor bool

type_synonym props = "(jkey \<times> jdesc) list"

fun is_data :: "jdesc \<Rightarrow> bool" where
  "is_data (Data e v) = True"
| "is_data (Accessor e) = False"

fun is_enum :: "jdesc \<Rightarrow> bool" where
  "is_enum (Data e v) = e"
| "is_enum (Accessor e) = e"

fun desc_value :: "jdesc \<Rightarrow> jval" where
  "desc_value (Data e v) = v"
| "desc_value (Accessor e) = JUndef"

text \<open>An object literal and an array literal, as \<open>JSON.parse\<close> makes them.\<close>

definition obj :: "(string \<times> jval) list \<Rightarrow> jval" where
  "obj kvs = JObj 0 True (map (\<lambda>(k, v). (Key (js k), Data True v)) kvs)"

definition arr :: "jval list \<Rightarrow> jval" where
  "arr vs = JArr 0 True (map (Data True) vs)"

definition str :: "string \<Rightarrow> jval" where
  "str s = JStr (js s)"

definition num :: "int \<Rightarrow> jval" where
  "num i = JNum (jint i)"

text \<open>\<open>Object.hasOwn(value, key)\<close> and \<open>ownValue\<close>: the own data value of a key.\<close>

definition hasOwn :: "props \<Rightarrow> jstr \<Rightarrow> bool" where
  "hasOwn ps k \<longleftrightarrow> map_of ps (Key k) \<noteq> None"

definition ownValue :: "props \<Rightarrow> jstr \<Rightarrow> jval" where
  "ownValue ps k = (case map_of ps (Key k) of Some (Data e v) \<Rightarrow> v | _ \<Rightarrow> JUndef)"

text \<open>A property read \<open>source.key\<close> of an object whose properties are all data.\<close>

abbreviation get :: "props \<Rightarrow> string \<Rightarrow> jval" where
  "get ps k \<equiv> ownValue ps (js k)"

abbreviation has :: "props \<Rightarrow> string \<Rightarrow> bool" where
  "has ps k \<equiv> hasOwn ps (js k)"

section \<open>The validators' primitives\<close>

definition rejectAccessors :: "jdesc list \<Rightarrow> unit option" where
  "rejectAccessors ds = guard (\<forall>d \<in> set ds. is_data d)"

fun v_object :: "jval \<Rightarrow> props option" where
  "v_object (JObj i plain ps) = do { guard plain; rejectAccessors (map snd ps); Some ps }"
| "v_object _ = None"

fun v_array :: "jval \<Rightarrow> nat \<Rightarrow> jval list option" where
  "v_array (JArr i plain ds) limit =
     do { guard plain; rejectAccessors ds; guard (length ds \<le> limit); Some (map desc_value ds) }"
| "v_array _ limit = None"

definition STRING_LIMIT :: nat where
  "STRING_LIMIT = 4096"

fun v_text :: "bool \<Rightarrow> nat \<Rightarrow> jval \<Rightarrow> jstr option" where
  "v_text required limit (JStr s) =
     do { guard (length s \<le> limit); guard (\<not> required \<or> s \<noteq> []); Some s }"
| "v_text required limit _ = None"

abbreviation req_text :: "jval \<Rightarrow> jstr option" where
  "req_text \<equiv> v_text True STRING_LIMIT"

abbreviation any_text :: "jval \<Rightarrow> jstr option" where
  "any_text \<equiv> v_text False STRING_LIMIT"

definition v_optionalText :: "nat \<Rightarrow> jval \<Rightarrow> jstr option" where
  "v_optionalText limit v = (if v = JUndef \<or> v = JNull \<or> v = JStr [] then Some [] else v_text False limit v)"

fun v_enum :: "jstr list \<Rightarrow> jval \<Rightarrow> jstr option" where
  "v_enum allowed (JStr s) = (if s \<in> set allowed then Some s else None)"
| "v_enum allowed _ = None"

fun v_integer :: "int \<Rightarrow> int \<Rightarrow> jval \<Rightarrow> int option" where
  "v_integer lo hi (JNum n) =
     do { i \<leftarrow> num_int n; guard (\<bar>i\<bar> \<le> MAX_SAFE); guard (lo \<le> i \<and> i \<le> hi); Some i }"
| "v_integer lo hi _ = None"

fun v_finite :: "rat \<Rightarrow> rat \<Rightarrow> jval \<Rightarrow> jnum option" where
  "v_finite lo hi (JNum n) = do { r \<leftarrow> num_rat n; guard (lo \<le> r \<and> r \<le> hi); Some n }"
| "v_finite lo hi _ = None"

fun v_boolean :: "jval \<Rightarrow> bool option" where
  "v_boolean (JBool b) = Some b"
| "v_boolean _ = None"

text \<open>\<open>Date.parse\<close> of an arbitrary text is implementation-defined, so it is the parameter
  \<open>dp\<close>: the texts it accepts.\<close>

definition v_timestamp :: "(jstr \<Rightarrow> bool) \<Rightarrow> jval \<Rightarrow> jstr option" where
  "v_timestamp dp v = do { t \<leftarrow> req_text v; guard (dp t); Some t }"

definition requireFields :: "props \<Rightarrow> string list \<Rightarrow> unit option" where
  "requireFields ps required = guard (\<forall>k \<in> set required.
     case map_of ps (Key (js k)) of Some d \<Rightarrow> is_enum d \<and> is_data d | None \<Rightarrow> False)"

fun allowed_key :: "jstr list \<Rightarrow> jkey \<Rightarrow> bool" where
  "allowed_key allowed (Key k) = (k \<in> set allowed)"
| "allowed_key allowed (Symbol n) = False"

definition allowedFields :: "props \<Rightarrow> string list \<Rightarrow> string list \<Rightarrow> unit option" where
  "allowedFields ps required optional =
     do { guard (\<forall>(k, d) \<in> set ps. allowed_key (map js (required @ optional)) k \<and> is_enum d \<and> is_data d);
          requireFields ps required }"

abbreviation exactFields :: "props \<Rightarrow> string list \<Rightarrow> unit option" where
  "exactFields ps expected \<equiv> allowedFields ps expected []"

definition normalizeStringArray :: "nat \<Rightarrow> jval \<Rightarrow> jstr list option" where
  "normalizeStringArray limit v = do { vs \<leftarrow> v_array v limit; traverse req_text vs }"

text \<open>A field that may be absent, and one that may be absent, \<open>null\<close> or \<open>undefined\<close>.\<close>

definition if_present :: "props \<Rightarrow> string \<Rightarrow> (jval \<Rightarrow> 'a option) \<Rightarrow> 'a option option" where
  "if_present ps k f = (if has ps k then map_option Some (f (get ps k)) else Some None)"

definition if_given :: "jval \<Rightarrow> (jval \<Rightarrow> 'a option) \<Rightarrow> 'a option option" where
  "if_given v f = (if v = JUndef \<or> v = JNull then Some None else map_option Some (f v))"

section \<open>What a primitive guarantees\<close>

lemma v_text_Some [option_elims]:
  "v_text required limit v = Some s \<longleftrightarrow> v = JStr s \<and> length s \<le> limit \<and> (required \<longrightarrow> s \<noteq> [])"
  by (cases v) (auto simp: option_elims)

lemma v_enum_Some [option_elims]: "v_enum allowed v = Some s \<longleftrightarrow> v = JStr s \<and> s \<in> set allowed"
  by (cases v) auto

lemma v_boolean_Some [option_elims]: "v_boolean v = Some b \<longleftrightarrow> v = JBool b"
  by (cases v) auto

lemma v_integer_bounds: "v_integer lo hi v = Some i \<Longrightarrow> lo \<le> i \<and> i \<le> hi \<and> \<bar>i\<bar> \<le> MAX_SAFE"
  by (cases v) (auto simp: option_elims)

lemma v_finite_bounds: "v_finite lo hi v = Some n \<Longrightarrow> \<exists>r. num_rat n = Some r \<and> lo \<le> r \<and> r \<le> hi"
  by (cases v) (auto simp: option_elims)

lemma v_array_length: "v_array v limit = Some vs \<Longrightarrow> length vs \<le> limit"
  by (cases v) (auto simp: option_elims)

lemma v_array_traverse_length: "v_array v limit = Some vs \<Longrightarrow> traverse f vs = Some ys \<Longrightarrow> length ys \<le> limit"
  by (metis traverse_length v_array_length)

lemma v_optionalText_length: "v_optionalText limit v = Some s \<Longrightarrow> length s \<le> limit"
  by (auto simp: v_optionalText_def option_elims split: if_splits)

lemma v_array_arr [simp]: "v_array (arr vs) limit = (if length vs \<le> limit then Some vs else None)"
  by (simp add: arr_def rejectAccessors_def comp_def)

definition props_of :: "(string \<times> jval) list \<Rightarrow> props" where
  "props_of kvs = map (\<lambda>(k, v). (Key (js k), Data True v)) kvs"

lemma v_object_obj [simp]: "v_object (obj kvs) = Some (props_of kvs)"
  by (simp add: obj_def rejectAccessors_def case_prod_beta props_of_def)

lemma map_of_props_of: "map_of (props_of kvs) (Key (js k)) = map_option (Data True) (map_of kvs k)"
  by (induction kvs) (auto simp: props_of_def js_eq_iff)

lemma get_props_of [simp]: "get (props_of kvs) k = (case map_of kvs k of Some v \<Rightarrow> v | None \<Rightarrow> JUndef)"
  by (simp add: ownValue_def map_of_props_of split: option.splits)

lemma has_props_of [simp]: "has (props_of kvs) k \<longleftrightarrow> map_of kvs k \<noteq> None"
  by (simp add: hasOwn_def map_of_props_of)

lemma ownValue_props_of: "ownValue (props_of kvs) k = (case map_of (map (\<lambda>(k, v). (js k, v)) kvs) k of Some v \<Rightarrow> v | None \<Rightarrow> JUndef)"
  by (induction kvs) (auto simp: props_of_def ownValue_def)

lemma map_snd_props_of: "map snd (props_of kvs) = map (\<lambda>(k, v). Data True v) kvs"
  by (simp add: props_of_def case_prod_beta comp_def)

end
