(* ===== verification/Js_Number.thy ===== *)
theory Js_Number
  imports Js_Values "HOL-Library.Log_Nat"
begin

text \<open>
  The conversions the forms and validators rely on: \<open>Number(text)\<close>, with the rounding of its
  exact value to a double, and the decimal literals shared by the JSON scanners.
\<close>

section \<open>Decimal literals\<close>

text \<open>The longest run of digits at the front, and the rest.\<close>

definition take_digits :: "jstr \<Rightarrow> jstr \<times> jstr" where
  "take_digits s = (takeWhile is_digit s, dropWhile is_digit s)"

definition pow10 :: "int \<Rightarrow> rat" where
  "pow10 k = (if 0 \<le> k then 10 ^ nat k else 1 / 10 ^ nat (- k))"

definition decimal_value :: "jstr \<Rightarrow> jstr \<Rightarrow> int \<Rightarrow> rat" where
  "decimal_value whole fraction ex =
     of_nat (digits_val 10 (whole @ fraction)) * pow10 (ex - int (length fraction))"

lemma take_digits_append: "take_digits s = (ds, rest) \<Longrightarrow> s = ds @ rest \<and> (\<forall>c \<in> set ds. is_digit c)"
  by (auto simp: take_digits_def dest: set_takeWhileD)

lemma take_digits_all [simp]: "\<forall>c \<in> set ds. is_digit c \<Longrightarrow> take_digits ds = (ds, [])"
  by (simp add: take_digits_def takeWhile_eq_all_conv dropWhile_eq_Nil_conv)

lemma pow10_add: "pow10 (a + b) = pow10 a * pow10 b"
proof -
  have "pow10 k = 10 powi k" for k
    by (simp add: pow10_def power_int_def inverse_eq_divide power_one_over)
  then show ?thesis by (simp add: power_int_add)
qed

lemma pow10_pos: "0 < pow10 k"
  by (simp add: pow10_def)

lemma digit_unit_val: "is_digit c \<Longrightarrow> digit_unit (digit_val c) = c \<and> digit_val c < 10"
proof -
  assume "is_digit c"
  then have c: "48 \<le> unat c" "unat c \<le> 57" "c \<le> 57" by (simp_all add: is_digit_def word_le_nat_alt)
  then have v: "digit_val c = unat c - 48" "unat c - 48 < 10" "48 + (unat c - 48) = unat c"
    by (simp_all add: digit_val_def)
  have "digit_unit (digit_val c) = of_nat (48 + (unat c - 48))"
    using v(2) unfolding v(1) digit_unit_def by (simp only: if_True)
  then show ?thesis using v unfolding v(3) by simp
qed

lemma dec_snoc: "0 < n \<Longrightarrow> d < 10 \<Longrightarrow> dec (n * 10 + d) = dec n @ [digit_unit d]"
  by (subst radix.simps) simp

text \<open>A digit text without a leading zero is the decimal text of its value.\<close>

lemma dec_digits_val:
  "s \<noteq> [] \<Longrightarrow> \<forall>c \<in> set s. is_digit c \<Longrightarrow> hd s \<noteq> 48 \<Longrightarrow> 0 < digits_val 10 s \<and> dec (digits_val 10 s) = s"
proof (induction s rule: rev_induct)
  case (snoc c s)
  then have c: "digit_unit (digit_val c) = c" "digit_val c < 10" using digit_unit_val by auto
  show ?case
  proof (cases "s = []")
    case True
    with snoc.prems c have "0 < digit_val c" by (cases "digit_val c = 0") (auto simp: digit_unit_def)
    with True c show ?thesis using digits_val_snoc [of 10 "[]" c] by (simp add: radix.simps [of 10 "digit_val c"])
  next
    case False
    with snoc c show ?thesis by (simp add: digits_val_snoc dec_snoc)
  qed
qed simp

section \<open>Rounding to a double\<close>

definition round_even :: "rat \<Rightarrow> int" where
  "round_even r = (let f = \<lfloor>r\<rfloor>; d = r - of_int f in
     if d < 1/2 then f else if d > 1/2 then f + 1 else if even f then f else f + 1)"

text \<open>The position of the top bit of a positive rational: \<open>2^k \<le> r < 2^(k+1)\<close>.\<close>

definition top_bit :: "rat \<Rightarrow> int" where
  "top_bit r = (if 1 \<le> r then int (floorlog 2 (nat \<lfloor>r\<rfloor>)) - 1
     else - int (floorlog 2 (nat (\<lceil>1 / r\<rceil> - 1))))"

definition pow2 :: "int \<Rightarrow> rat" where
  "pow2 k = (if 0 \<le> k then 2 ^ nat k else 1 / 2 ^ nat (- k))"

definition round_double :: "rat \<Rightarrow> jnum" where
  "round_double r = (if r = 0 then Fin 0 else
     let e = max (top_bit \<bar>r\<bar> - 52) (-1074); v = of_int (round_even (\<bar>r\<bar> / pow2 e)) * pow2 e in
     if 2 ^ 1024 \<le> v then (if r < 0 then NInf else PInf)
     else if v = 0 then (if r < 0 then NZero else Fin 0)
     else Fin (if r < 0 then - v else v))"

lemma round_even_int [simp]: "round_even (of_int i) = i"
  by (simp add: round_even_def Let_def)

lemma floorlog_53: "n < 2 ^ k \<Longrightarrow> floorlog 2 n \<le> k"
  by (rule floorlog_leI) simp_all

lemma top_bit_int: "0 < i \<Longrightarrow> i < 2 ^ k \<Longrightarrow> top_bit (of_int i) < int k"
proof -
  assume i: "0 < i" "i < 2 ^ k"
  then have "nat i < 2 ^ k" by (simp add: nat_less_numeral_power_cancel_iff nat_less_iff)
  then show ?thesis using i floorlog_53 [of "nat i" k] by (simp add: top_bit_def)
qed

text \<open>Every integer of at most 53 bits is a double.\<close>

lemma round_double_int:
  assumes "\<bar>i\<bar> < 2 ^ 53"
  shows "round_double (of_int i) = jint i"
proof (cases "i = 0")
  case False
  define e where "e = max (top_bit \<bar>of_int i\<bar> - 52) (-1074)"
  have e: "e \<le> 0" "-1074 \<le> e"
    using top_bit_int [of "\<bar>i\<bar>" 53] assms False by (auto simp: e_def)
  have whole: "\<bar>of_int i\<bar> / pow2 e = of_int (\<bar>i\<bar> * 2 ^ nat (- e))"
    using e by (auto simp: pow2_def)
  have "of_int (round_even (\<bar>of_int i\<bar> / pow2 e)) * pow2 e = of_int \<bar>i\<bar>"
    using e unfolding whole round_even_int by (simp add: pow2_def)
  moreover have "\<not> (2 ^ 1024 \<le> (of_int \<bar>i\<bar> :: rat))"
  proof -
    have "(of_int \<bar>i\<bar> :: rat) < of_int (2 ^ 53)" using assms by (simp only: of_int_less_iff)
    also have "\<dots> \<le> 2 ^ 1024" by simp
    finally show ?thesis by simp
  qed
  ultimately show ?thesis using False
    by (auto simp: round_double_def Let_def jint_def simp flip: e_def)
qed (simp add: round_double_def jint_def)

section \<open>\<open>Number(text)\<close>\<close>

fun exponent_part :: "jstr \<Rightarrow> int option" where
  "exponent_part [] = Some 0"
| "exponent_part (c # s) = (if c \<noteq> uc CHR ''e'' \<and> c \<noteq> uc CHR ''E'' then None else
     let (neg, ds) = (case s of [] \<Rightarrow> (False, [])
           | d # t \<Rightarrow> if d = cMinus then (True, t) else if d = cPlus then (False, t) else (False, s))
     in if ds \<noteq> [] \<and> (\<forall>d \<in> set ds. is_digit d)
        then Some ((if neg then - 1 else 1) * int (digits_val 10 ds)) else None)"

text \<open>\<open>StrUnsignedDecimalLiteral\<close> without \<open>Infinity\<close>: digits with an optional fraction and exponent.\<close>

definition unsigned_decimal :: "jstr \<Rightarrow> rat option" where
  "unsigned_decimal s = (let (whole, r) = take_digits s;
     (fraction, r) = (case r of c # t \<Rightarrow> if c = cDot then take_digits t else ([], r) | [] \<Rightarrow> ([], r)) in
     if whole = [] \<and> fraction = [] then None
     else map_option (decimal_value whole fraction) (exponent_part r))"

definition radix_literal :: "jstr \<Rightarrow> nat option" where
  "radix_literal s = (case s of z # x # ds \<Rightarrow>
     let b = (if x \<in> {uc CHR ''x'', uc CHR ''X''} then 16 else if x \<in> {uc CHR ''o'', uc CHR ''O''} then 8
              else if x \<in> {uc CHR ''b'', uc CHR ''B''} then 2 else 0 :: nat)
     in if z = uc CHR ''0'' \<and> 0 < b \<and> ds \<noteq> [] \<and> (\<forall>d \<in> set ds. is_hex d \<and> digit_val d < b)
        then Some (digits_val b ds) else None
   | _ \<Rightarrow> None)"

definition neg_num :: "jnum \<Rightarrow> jnum" where
  "neg_num n = (case n of Fin r \<Rightarrow> if r = 0 then NZero else Fin (- r)
     | NZero \<Rightarrow> Fin 0 | PInf \<Rightarrow> NInf | NInf \<Rightarrow> PInf | NaN \<Rightarrow> NaN)"

definition unsigned_number :: "jstr \<Rightarrow> jnum option" where
  "unsigned_number s = (if s = js ''Infinity'' then Some PInf
     else map_option round_double (unsigned_decimal s))"

definition text_number :: "jstr \<Rightarrow> jnum" where
  "text_number raw = (let s = trim raw in
     if s = [] then Fin 0
     else case radix_literal s of Some n \<Rightarrow> round_double (of_nat n)
     | None \<Rightarrow> (let r = (if hd s = cMinus then map_option neg_num (unsigned_number (tl s))
          else if hd s = cPlus then unsigned_number (tl s) else unsigned_number s)
        in case r of Some n \<Rightarrow> n | None \<Rightarrow> NaN))"

lemma digits_text_number:
  assumes "ds \<noteq> []" "\<forall>c \<in> set ds. is_digit c" "trim ds = ds" "radix_literal ds = None"
    "digits_val 10 ds < 2 ^ 53"
  shows "text_number ds = jint (int (digits_val 10 ds))"
proof -
  have "hd ds \<noteq> cMinus" "hd ds \<noteq> cPlus" "ds \<noteq> js ''Infinity''"
    using assms(1,2) by (auto simp: is_digit_def js_def neq_Nil_conv)
  moreover have "unsigned_number ds = Some (jint (int (digits_val 10 ds)))"
    using calculation assms round_double_int [of "int (digits_val 10 ds)"]
    by (simp add: unsigned_number_def unsigned_decimal_def decimal_value_def pow10_def)
  ultimately show ?thesis using assms by (simp add: text_number_def Let_def)
qed

section \<open>\<open>String(value)\<close>\<close>

definition top_digit :: "rat \<Rightarrow> int" where
  "top_digit r = (if 1 \<le> r then int (length (dec (nat \<lfloor>r\<rfloor>)))
     else 1 - (if \<lceil>1 / r\<rceil> = 1 then 0 else int (length (dec (nat (\<lceil>1 / r\<rceil> - 1))))))"

text \<open>The shortest decimal digits that read back as the double, nearest to it: \<open>k\<close> digits are
  tried until they do (17 always do).\<close>

fun shortest_digits :: "nat \<Rightarrow> nat \<Rightarrow> rat \<Rightarrow> jstr \<times> int" where
  "shortest_digits 0 k r = ([], 0)"
| "shortest_digits (Suc fuel) k r =
     (let n = top_digit r; s = round_even (r / pow10 (n - int k)); text = dec (nat s)
      in if round_double (of_int s * pow10 (n - int k)) = Fin r
         then (rev (dropWhile (\<lambda>c. c = uc CHR ''0'') (rev text)), n + int (length text) - int k)
         else shortest_digits fuel (k + 1) r)"

definition digits_text :: "jstr \<Rightarrow> int \<Rightarrow> jstr" where
  "digits_text ds n = (let k = int (length ds); zeros = (\<lambda>m. replicate (nat m) (uc CHR ''0''));
      ex = (if 0 < n then cPlus # dec (nat (n - 1)) else cMinus # dec (nat (1 - n)))
   in if k \<le> n \<and> n \<le> 21 then ds @ zeros (n - k)
      else if 0 < n \<and> n \<le> 21 then take (nat n) ds @ cDot # drop (nat n) ds
      else if - 6 < n \<and> n \<le> 0 then uc CHR ''0'' # cDot # zeros (- n) @ ds
      else if k = 1 then ds @ uc CHR ''e'' # ex
      else hd ds # cDot # tl ds @ uc CHR ''e'' # ex)"

definition positive_text :: "rat \<Rightarrow> jstr" where
  "positive_text r = (case shortest_digits 17 1 r of (ds, n) \<Rightarrow> digits_text ds n)"

fun number_text :: "jnum \<Rightarrow> jstr" where
  "number_text NaN = js ''NaN''"
| "number_text PInf = js ''Infinity''"
| "number_text NInf = js ''-Infinity''"
| "number_text NZero = js ''0''"
| "number_text (Fin r) = (if r = 0 then js ''0''
     else if of_int \<lfloor>r\<rfloor> = r \<and> \<bar>r\<bar> \<le> of_int MAX_SAFE then (if r < 0 then [cMinus] else []) @ dec (nat \<bar>\<lfloor>r\<rfloor>\<bar>)
     else if r < 0 then cMinus # positive_text (- r) else positive_text r)"

text \<open>A value whose own properties redefine the conversion throws, as does \<open>JOther\<close>, which
  stands for values outside the model.\<close>

fun js_String :: "jval \<Rightarrow> jstr option" and js_elements :: "jdesc list \<Rightarrow> jstr list option" where
  "js_String JUndef = Some (js ''undefined'')"
| "js_String JNull = Some (js ''null'')"
| "js_String (JBool b) = Some (if b then js ''true'' else js ''false'')"
| "js_String (JNum n) = Some (number_text n)"
| "js_String (JStr s) = Some s"
| "js_String JOther = None"
| "js_String (JArr i plain ds) = map_option (join [cComma]) (js_elements ds)"
| "js_String (JObj i plain ps) = (if plain \<and> \<not> has ps ''toString'' then Some (js ''[object Object]'') else None)"
| "js_elements [] = Some []"
| "js_elements (Accessor e # ds) = None"
| "js_elements (Data e v # ds) = do {
     t \<leftarrow> (if v = JUndef \<or> v = JNull then Some [] else js_String v);
     ts \<leftarrow> js_elements ds;
     Some (t # ts) }"

text \<open>\<open>Number(value)\<close>; an array or object converts by its text.\<close>

definition js_Number :: "jval \<Rightarrow> jnum option" where
  "js_Number v = (case v of JNum n \<Rightarrow> Some n | JStr s \<Rightarrow> Some (text_number s)
     | JBool b \<Rightarrow> Some (if b then Fin 1 else Fin 0) | JNull \<Rightarrow> Some (Fin 0) | JUndef \<Rightarrow> Some NaN
     | JObj i plain ps \<Rightarrow> if plain \<and> \<not> has ps ''toString'' \<and> \<not> has ps ''valueOf'' then Some NaN else None
     | v \<Rightarrow> map_option text_number (js_String v))"

definition coalesce :: "jval \<Rightarrow> jval \<Rightarrow> jval" where
  "coalesce a b = (if a = JUndef \<or> a = JNull then b else a)"

fun truthy :: "jval \<Rightarrow> bool" where
  "truthy JUndef = False"
| "truthy JNull = False"
| "truthy (JBool b) = b"
| "truthy (JNum n) = (n \<noteq> NaN \<and> n \<noteq> NZero \<and> n \<noteq> Fin 0)"
| "truthy (JStr s) = (s \<noteq> [])"
| "truthy _ = True"

end
