(* ===== verification/Request_Lane.thy ===== *)
theory Request_Lane
  imports Js_Number
begin

text \<open>
  The request lanes of \<open>frontend/state.js\<close>: the state machine that owns a lane's pending request
  (\<open>createRequestLane\<close>, \<open>ownsRequest\<close>, \<open>transitionRequest\<close>), the normalisation of what a failed
  request rejects with, and the client-side timings.  A lane holds at most one request; an event
  of a request that no longer owns the lane must change nothing.
\<close>

section \<open>Machines whose requests have an owner\<close>

text \<open>
  The contract the page relies on: an event addressed to an owner is without effect unless that
  owner holds the machine, and it never hands the machine to another owner.  The interleaving of
  late events of superseded requests is then irrelevant.
\<close>

locale owned_machine =
  fixes step :: "'e \<Rightarrow> 's \<Rightarrow> 's" and holder :: "'s \<Rightarrow> 'o option" and addressed :: "'e \<Rightarrow> 'o option"
  assumes stale: "addressed e = Some w \<Longrightarrow> holder s \<noteq> Some w \<Longrightarrow> step e s = s"
    and releases: "addressed e = Some w \<Longrightarrow> holder (step e s) = holder s \<or> holder (step e s) = None"
begin

lemma free_machine:
  "\<forall>e \<in> set es. addressed e \<noteq> None \<Longrightarrow> holder s = None \<Longrightarrow> fold step es s = s"
proof (induction es arbitrary: s)
  case (Cons e es)
  then have "step e s = s" by (metis list.set_intros(1) option.distinct(1) option.exhaust stale)
  with Cons show ?case by simp
qed simp

lemma only_the_holder_counts:
  assumes "\<forall>e \<in> set es. addressed e \<noteq> None" "holder s = None \<or> holder s = Some w"
  shows "fold step es s = fold step (filter (\<lambda>e. addressed e = Some w) es) s"
  using assms
proof (induction es arbitrary: s)
  case (Cons e es)
  show ?case
  proof (cases "addressed e = Some w")
    case True
    with releases [OF True, of s] Cons show ?thesis by auto
  next
    case False
    then have "step e s = s"
      using Cons.prems by (metis list.set_intros(1) option.distinct(1) option.exhaust option.inject stale)
    with False Cons show ?thesis by simp
  qed
qed simp

end

section \<open>What a failed request rejects with\<close>

datatype error_kind = EHttp | ENetwork | ETimeout | EInvalidResponse | ECancelled

record request_error =
  ekind :: error_kind
  ecode :: jstr
  estatus :: "int option"
  emessage :: jstr
  eretryAt :: "jnum option"
  eretryable :: bool

text \<open>A rejection value: falsy, or an object with whether it is a \<open>TypeError\<close> and what its
  properties (own and inherited) read as.\<close>

datatype thrown = Falsy | Thrown bool "(string \<times> jval) list"

fun reads :: "thrown \<Rightarrow> string \<Rightarrow> jval" where
  "reads Falsy k = JUndef"
| "reads (Thrown t ps) k = (case map_of ps k of Some v \<Rightarrow> v | None \<Rightarrow> JUndef)"

fun is_type_error :: "thrown \<Rightarrow> bool" where
  "is_type_error Falsy = False"
| "is_type_error (Thrown t ps) = t"

definition finite_num :: "jval \<Rightarrow> jnum option" where
  "finite_num v = (case v of JNum n \<Rightarrow> if num_rat n = None then None else Some n | _ \<Rightarrow> None)"

definition integer_num :: "jval \<Rightarrow> int option" where
  "integer_num v = (case v of JNum n \<Rightarrow> num_int n | _ \<Rightarrow> None)"

definition if_finite :: "jnum option \<Rightarrow> jnum option" where
  "if_finite x = (case x of Some n \<Rightarrow> if num_rat n = None then None else Some n | None \<Rightarrow> None)"

lemma if_finite_id: "\<forall>t. x = Some t \<longrightarrow> num_rat t \<noteq> None \<Longrightarrow> if_finite x = x"
  by (auto simp: if_finite_def split: option.splits)

lemma if_finite_Some: "if_finite x = Some t \<Longrightarrow> x = Some t \<and> num_rat t \<noteq> None"
  by (auto simp: if_finite_def split: option.splits if_splits)

lemma if_finite_None [simp]: "if_finite None = None"
  by (simp add: if_finite_def)

definition normalizedError :: "error_kind \<Rightarrow> jstr \<Rightarrow> int option \<Rightarrow> jstr \<Rightarrow> jnum option \<Rightarrow> bool \<Rightarrow> request_error" where
  "normalizedError kind code status message retryAt retryable =
     \<lparr>ekind = kind, ecode = code, estatus = status, emessage = message,
      eretryAt = if_finite retryAt,
      eretryable = retryable\<rparr>"

definition ERROR_KINDS :: "(jstr \<times> error_kind) list" where
  "ERROR_KINDS = [(js ''http'', EHttp), (js ''network'', ENetwork), (js ''timeout'', ETimeout),
     (js ''invalid-response'', EInvalidResponse), (js ''cancelled'', ECancelled)]"

definition timeout_error :: request_error where
  "timeout_error = normalizedError ETimeout (js ''timeout'') None (js ''The request timed out.'') None True"

definition network_error :: request_error where
  "network_error = normalizedError ENetwork (js ''network_error'') None
     (js ''The network request could not be completed.'') None True"

text \<open>The \<open>input\<close> and what its property \<open>error\<close> reads as: a truthy one makes \<open>input\<close> a wrapper.\<close>

definition failure_reason :: "thrown \<Rightarrow> thrown \<Rightarrow> jval" where
  "failure_reason input nested =
     (if input \<noteq> Falsy \<and> nested \<noteq> Falsy
      then coalesce (reads input ''reason'') (coalesce (reads input ''abortReason'')
             (coalesce (reads nested ''reason'') (reads nested ''cause'')))
      else coalesce (reads input ''reason'') (reads input ''cause''))"

text \<open>The last two statements: an error that names a kind and a code is taken over.\<close>

definition typed_error :: "thrown \<Rightarrow> request_error" where
  "typed_error e = (case (reads e ''kind'', reads e ''code'') of
     (JStr kind, JStr code) \<Rightarrow>
       (case map_of ERROR_KINDS kind of
          None \<Rightarrow> network_error
        | Some k \<Rightarrow> normalizedError k code (integer_num (reads e ''status''))
            (case reads e ''message'' of JStr t \<Rightarrow> take STRING_LIMIT t | _ \<Rightarrow> js ''The request failed.'')
            (finite_num (reads e ''retryAt'')) (truthy (reads e ''retryable'')))
   | _ \<Rightarrow> network_error)"

definition normalizeRequestError :: "thrown \<Rightarrow> thrown \<Rightarrow> request_error" where
  "normalizeRequestError input nested =
     (let e = (if input \<noteq> Falsy \<and> nested \<noteq> Falsy then nested else input);
          reason = failure_reason input nested; name = reads e ''name''
      in if reason = str ''timeout'' \<or> name = str ''TimeoutError'' then timeout_error
      else if name = str ''AbortError'' then
        normalizedError ECancelled (js ''cancelled'') None (js ''The request was cancelled.'') None False
      else if is_type_error e \<or> name = str ''TypeError'' then network_error
      else typed_error e)"

section \<open>The lane\<close>

datatype phase = Idle | Loading | Ready | Failed | Cancelled
datatype purpose = Diagnostics | Topology
datatype cancel_reason = User | Navigation | InputChange

record lane_request =
  a_owner :: jstr
  a_signature :: jstr
  a_startedAt :: jnum

record 'r lane_result =
  r_owner :: jstr
  r_signature :: jstr
  r_report :: 'r
  r_completedAt :: jnum

record 'r lane =
  l_purpose :: purpose
  l_phase :: phase
  l_signature :: jstr
  l_active :: "lane_request option"
  l_result :: "'r lane_result option"
  l_error :: "request_error option"
  l_cancellation :: "cancel_reason option"

definition createRequestLane :: "purpose \<Rightarrow> 'r lane" where
  "createRequestLane p = \<lparr>l_purpose = p, l_phase = Idle, l_signature = [], l_active = None, l_result = None,
     l_error = None, l_cancellation = None\<rparr>"

text \<open>
  An event: the fields the transition reads, \<open>None\<close> for an absent one, and the value of
  \<open>Date.now()\<close> when it is handled.  A \<open>report\<close> is carried along unread.
\<close>

record 'r request_event =
  e_type :: jstr
  e_owner :: "jstr option"
  e_inputSignature :: "jstr option"
  e_signature :: "jstr option"
  e_time :: "jval"
  e_report :: 'r
  e_error :: "thrown \<times> thrown"
  e_reason :: "jstr option"
  e_now :: jnum

text \<open>\<open>toUpperCase\<close> as far as it matters to a comparison with ASCII names: the letters whose
  upper case is ASCII; other units are kept, as no name contains what they become.\<close>

definition upper_unit :: "unit16 \<Rightarrow> jstr" where
  "upper_unit c = (if 97 \<le> c \<and> c \<le> 122 then [c - 32]
     else if c = 0x131 then js ''I'' else if c = 0x17F then js ''S'' else if c = 0xDF then js ''SS''
     else if c = 0xFB00 then js ''FF'' else if c = 0xFB01 then js ''FI'' else if c = 0xFB02 then js ''FL''
     else if c = 0xFB03 then js ''FFI'' else if c = 0xFB04 then js ''FFL''
     else if c = 0xFB05 \<or> c = 0xFB06 then js ''ST'' else [c])"

definition eventType :: "jstr \<Rightarrow> jstr" where
  "eventType t = map (\<lambda>c. if c = cMinus then uc CHR ''_'' else c) (concat (map upper_unit (trim t)))"

datatype event_class = InputChange_ev | Start_ev | Finalize_ev | Success_ev | Failure_ev | Cancel_ev | Other_ev

definition classify :: "jstr \<Rightarrow> event_class" where
  "classify t = (let u = eventType t in
     if u = js ''INPUT_CHANGED'' \<or> u = js ''INPUT_INVALIDATED'' then InputChange_ev
     else if u = js ''REQUEST_STARTED'' \<or> u = js ''START'' then Start_ev
     else if u = js ''REQUEST_FINALIZED'' \<or> u = js ''FINALIZE'' then Finalize_ev
     else if u = js ''REQUEST_SUCCEEDED'' \<or> u = js ''SUCCESS'' then Success_ev
     else if u = js ''REQUEST_FAILED'' \<or> u = js ''FAILURE'' \<or> u = js ''ERROR'' then Failure_ev
     else if u = js ''REQUEST_CANCELLED'' \<or> u = js ''CANCEL'' then Cancel_ev
     else Other_ev)"

definition given_signature :: "'r request_event \<Rightarrow> jstr" where
  "given_signature e = (case e_inputSignature e of Some s \<Rightarrow> s | None \<Rightarrow>
     (case e_signature e of Some s \<Rightarrow> s | None \<Rightarrow> []))"

definition event_time :: "'r request_event \<Rightarrow> jnum option" where
  "event_time e = v_finite 0 MAX_VALUE (coalesce (e_time e) (JNum (e_now e)))"

definition ownsRequest :: "'r lane \<Rightarrow> jstr option \<Rightarrow> jstr \<Rightarrow> bool" where
  "ownsRequest s w sig \<longleftrightarrow> l_phase s = Loading \<and>
     (case l_active s of None \<Rightarrow> False
      | Some a \<Rightarrow> Some (a_owner a) = w \<and> a_signature a = sig \<and> l_signature s = sig)"

datatype lane_error = StartIncomplete | BadTime | BadReason | UnsupportedEvent

definition reason_of :: "jstr option \<Rightarrow> cancel_reason option" where
  "reason_of r = (case r of None \<Rightarrow> Some User
     | Some t \<Rightarrow> map_of [(js ''user'', User), (js ''navigation'', Navigation), (js ''input-change'', InputChange)] t)"

definition settle :: "event_class \<Rightarrow> 'r request_event \<Rightarrow> 'r lane \<Rightarrow> lane_error + 'r lane" where
  "settle c e s = (case c of
     Success_ev \<Rightarrow> (case event_time e of None \<Rightarrow> Inl BadTime
       | Some t \<Rightarrow> Inr (s\<lparr>l_phase := Ready, l_result := Some \<lparr>r_owner = the (e_owner e),
           r_signature = given_signature e, r_report = e_report e, r_completedAt = t\<rparr>,
           l_error := None, l_cancellation := None\<rparr>))
   | Failure_ev \<Rightarrow> Inr (s\<lparr>l_phase := Failed, l_result := None,
       l_error := Some (normalizeRequestError (fst (e_error e)) (snd (e_error e))), l_cancellation := None\<rparr>)
   | Cancel_ev \<Rightarrow> (case reason_of (e_reason e) of None \<Rightarrow> Inl BadReason
       | Some r \<Rightarrow> Inr (s\<lparr>l_phase := Cancelled, l_result := None, l_error := None, l_cancellation := Some r\<rparr>))
   | _ \<Rightarrow> Inl UnsupportedEvent)"

definition transitionRequest :: "'r lane \<Rightarrow> 'r request_event \<Rightarrow> lane_error + 'r lane" where
  "transitionRequest s e = (case classify (e_type e) of
     InputChange_ev \<Rightarrow> Inr (s\<lparr>l_phase := Idle, l_signature := given_signature e, l_active := None,
       l_result := None, l_error := None, l_cancellation := None\<rparr>)
   | Start_ev \<Rightarrow> (let sig = given_signature e; w = (case e_owner e of Some x \<Rightarrow> x | None \<Rightarrow> []) in
       if w = [] \<or> sig = [] then Inl StartIncomplete
       else case event_time e of None \<Rightarrow> Inl BadTime
       | Some t \<Rightarrow> Inr (s\<lparr>l_phase := Loading, l_signature := sig,
           l_active := Some \<lparr>a_owner = w, a_signature = sig, a_startedAt = t\<rparr>,
           l_result := None, l_error := None, l_cancellation := None\<rparr>))
   | Finalize_ev \<Rightarrow> (case l_active s of None \<Rightarrow> Inr s
       | Some a \<Rightarrow> if Some (a_owner a) \<noteq> e_owner e then Inr s
           else if e_inputSignature e \<noteq> None \<and> Some (a_signature a) \<noteq> e_inputSignature e then Inr s
           else Inr (s\<lparr>l_active := None\<rparr>))
   | c \<Rightarrow> if \<not> ownsRequest s (e_owner e) (given_signature e) then Inr s else settle c e s)"

text \<open>The page's assignment \<open>lane = transitionRequest(lane, event)\<close>: a thrown error leaves it.\<close>

definition lane_step :: "'r request_event \<Rightarrow> 'r lane \<Rightarrow> 'r lane" where
  "lane_step e s = (case transitionRequest s e of Inl _ \<Rightarrow> s | Inr s' \<Rightarrow> s')"

section \<open>Owners and stale events\<close>

text \<open>The request an event speaks for; input changes and starts speak for the page itself.\<close>

definition speaks_for :: "'r request_event \<Rightarrow> jstr option option" where
  "speaks_for e = (case classify (e_type e) of InputChange_ev \<Rightarrow> None | Start_ev \<Rightarrow> None | _ \<Rightarrow> Some (e_owner e))"

definition lane_owner :: "'r lane \<Rightarrow> jstr option option" where
  "lane_owner s = map_option (\<lambda>a. Some (a_owner a)) (l_active s)"

lemma not_owner [simp]: "lane_owner s \<noteq> Some w \<Longrightarrow> \<not> ownsRequest s w sig"
  by (auto simp: lane_owner_def ownsRequest_def split: option.splits)

lemma stale_event: "speaks_for e = Some w \<Longrightarrow> lane_owner s \<noteq> Some w \<Longrightarrow> lane_step e s = s"
  by (cases "classify (e_type e)")
    (auto simp: speaks_for_def lane_step_def transitionRequest_def, auto simp: lane_owner_def split: option.splits)

lemma settle_keeps:
  "settle c e s = Inr s' \<Longrightarrow> l_active s' = l_active s \<and> l_signature s' = l_signature s \<and> l_purpose s' = l_purpose s"
  by (auto simp: settle_def split: event_class.splits option.splits)

lemma event_releases:
  "speaks_for e = Some w \<Longrightarrow> lane_owner (lane_step e s) = lane_owner s \<or> lane_owner (lane_step e s) = None"
  by (cases "classify (e_type e)")
    (auto simp: speaks_for_def lane_step_def transitionRequest_def lane_owner_def dest: settle_keeps
      split: option.splits sum.splits)

interpretation request_lane: owned_machine "lane_step :: 'r request_event \<Rightarrow> _" lane_owner speaks_for
  by unfold_locales (fact stale_event, fact event_releases)

section \<open>Reachable lanes\<close>

inductive lane_reaches :: "purpose \<Rightarrow> 'r request_event list \<Rightarrow> 'r lane \<Rightarrow> bool" for p where
  created: "lane_reaches p [] (createRequestLane p)"
| handled: "lane_reaches p es s \<Longrightarrow> lane_reaches p (es @ [e]) (lane_step e s)"

text \<open>The lane's coherence: each phase carries exactly its own payload, and whatever the lane
  holds belongs to its current input.\<close>

definition lane_ok :: "'r lane \<Rightarrow> bool" where
  "lane_ok s \<longleftrightarrow>
     (l_result s \<noteq> None \<longleftrightarrow> l_phase s = Ready) \<and> (l_error s \<noteq> None \<longleftrightarrow> l_phase s = Failed) \<and>
     (l_cancellation s \<noteq> None \<longleftrightarrow> l_phase s = Cancelled) \<and> (l_phase s = Idle \<longrightarrow> l_active s = None) \<and>
     (\<forall>a. l_active s = Some a \<longrightarrow> a_signature a = l_signature s \<and> a_owner a \<noteq> [] \<and> a_signature a \<noteq> []) \<and>
     (\<forall>r. l_result s = Some r \<longrightarrow> r_signature r = l_signature s)"

lemma lane_ok_created: "lane_ok (createRequestLane p)"
  by (simp add: lane_ok_def createRequestLane_def)

lemma settle_ok: "lane_ok s \<Longrightarrow> ownsRequest s w (given_signature e) \<Longrightarrow> settle c e s = Inr s' \<Longrightarrow> lane_ok s'"
  by (auto simp: lane_ok_def settle_def ownsRequest_def split: event_class.splits option.splits)

lemma transition_ok: "lane_ok s \<Longrightarrow> transitionRequest s e = Inr s' \<Longrightarrow> lane_ok s'"
  unfolding transitionRequest_def
  by (cases "classify (e_type e)")
    (auto simp: Let_def intro: settle_ok split: option.splits if_splits; simp add: lane_ok_def)+

lemma lane_ok_step: "lane_ok s \<Longrightarrow> lane_ok (lane_step e s)"
  by (auto simp: lane_step_def dest: transition_ok split: sum.splits)

lemma lane_ok_reached: "lane_reaches p es s \<Longrightarrow> lane_ok s \<and> l_purpose s = p"
proof (induction rule: lane_reaches.induct)
  case created then show ?case using lane_ok_created [of p] by (simp add: createRequestLane_def)
next
  case (handled es s e)
  moreover have "l_purpose (lane_step e s) = l_purpose s"
    by (cases "classify (e_type e)")
      (auto simp: lane_step_def transitionRequest_def Let_def dest: settle_keeps split: sum.splits option.splits)
  ultimately show ?case by (simp add: lane_ok_step)
qed

section \<open>Where a held request and a shown report come from\<close>

definition accepted_start :: "'r request_event \<Rightarrow> bool" where
  "accepted_start e \<longleftrightarrow> classify (e_type e) = Start_ev \<and> e_owner e \<noteq> None \<and> e_owner e \<noteq> Some [] \<and>
     given_signature e \<noteq> [] \<and> event_time e \<noteq> None"

definition resets :: "'r request_event \<Rightarrow> bool" where
  "resets e \<longleftrightarrow> classify (e_type e) = InputChange_ev \<or> accepted_start e"

definition started_by :: "'r request_event list \<Rightarrow> jstr \<Rightarrow> jstr \<Rightarrow> bool" where
  "started_by es w sig \<longleftrightarrow> (\<exists>pre st mid. es = pre @ st # mid \<and> accepted_start st \<and> e_owner st = Some w \<and>
     given_signature st = sig \<and> (\<forall>x \<in> set mid. \<not> resets x))"

definition answered_by :: "'r request_event list \<Rightarrow> 'r lane_result \<Rightarrow> bool" where
  "answered_by es r \<longleftrightarrow> (\<exists>pre su post. es = pre @ su # post \<and> started_by pre (r_owner r) (r_signature r) \<and>
     classify (e_type su) = Success_ev \<and> e_owner su = Some (r_owner r) \<and> given_signature su = r_signature r \<and>
     e_report su = r_report r \<and> (\<forall>x \<in> set post. \<not> resets x))"

definition history :: "'r request_event list \<Rightarrow> 'r lane \<Rightarrow> bool" where
  "history es s \<longleftrightarrow> (\<forall>a. l_active s = Some a \<longrightarrow> started_by es (a_owner a) (a_signature a)) \<and>
     (\<forall>r. l_result s = Some r \<longrightarrow> answered_by es r)"

lemma started_by_later: "started_by es w sig \<Longrightarrow> \<not> resets e \<Longrightarrow> started_by (es @ [e]) w sig"
  unfolding started_by_def
  by (elim exE conjE, rule_tac x = pre in exI, rule_tac x = st in exI, rule_tac x = "mid @ [e]" in exI) auto

lemma answered_by_later: "answered_by es r \<Longrightarrow> \<not> resets e \<Longrightarrow> answered_by (es @ [e]) r"
  unfolding answered_by_def
  by (elim exE conjE, rule_tac x = pre in exI, rule_tac x = su in exI, rule_tac x = "post @ [e]" in exI) auto

lemma history_later: "history es s \<Longrightarrow> \<not> resets e \<Longrightarrow> history (es @ [e]) s"
  by (simp add: history_def started_by_later answered_by_later)

lemma history_start: "accepted_start e \<Longrightarrow> e_owner e = Some w \<Longrightarrow> started_by (es @ [e]) w (given_signature e)"
  unfolding started_by_def by (rule exI [of _ es], rule exI [of _ e], rule exI [of _ "[]"]) simp

lemma history_success:
  "history es s \<Longrightarrow> ownsRequest s (e_owner e) (given_signature e) \<Longrightarrow> classify (e_type e) = Success_ev \<Longrightarrow>
   answered_by (es @ [e]) \<lparr>r_owner = the (e_owner e), r_signature = given_signature e, r_report = e_report e,
     r_completedAt = t\<rparr>"
proof -
  assume h: "history es s" "ownsRequest s (e_owner e) (given_signature e)" "classify (e_type e) = Success_ev"
  then obtain w where "e_owner e = Some w" "started_by es w (given_signature e)"
    by (auto simp: history_def ownsRequest_def eq_commute [of "Some _" "e_owner e"] split: option.splits)
  with h(3) show ?thesis unfolding answered_by_def
    by (intro exI [of _ es] exI [of _ e] exI [of _ "[]"]) simp
qed

lemma history_step:
  assumes "history es s"
  shows "history (es @ [e]) (lane_step e s)"
proof (cases "classify (e_type e)")
  case InputChange_ev
  then show ?thesis by (simp add: lane_step_def transitionRequest_def history_def)
next
  case Start_ev
  show ?thesis
  proof (cases "accepted_start e")
    case True
    then obtain w t where "e_owner e = Some w" "w \<noteq> []" "given_signature e \<noteq> []" "event_time e = Some t"
      by (auto simp: accepted_start_def)
    with True Start_ev history_start [OF True, of w es] show ?thesis
      by (simp add: lane_step_def transitionRequest_def history_def Let_def)
  next
    case False
    with Start_ev have "lane_step e s = s" "\<not> resets e"
      by (auto simp: lane_step_def transitionRequest_def Let_def accepted_start_def resets_def split: option.splits)
    then show ?thesis using assms by (simp add: history_later)
  qed
next
  case Success_ev
  then have "\<not> resets e" by (simp add: resets_def accepted_start_def)
  with assms have later: "history (es @ [e]) s" by (rule history_later)
  then show ?thesis using Success_ev history_success [OF assms]
    by (auto simp: lane_step_def transitionRequest_def settle_def history_def split: option.splits)
qed (use assms history_later [OF assms, of e] in
  \<open>auto simp: lane_step_def transitionRequest_def settle_def history_def resets_def accepted_start_def
     split: option.splits\<close>)

lemma history_reached: "lane_reaches p es s \<Longrightarrow> history es s"
  by (induction rule: lane_reaches.induct) (auto simp: history_step, simp add: history_def createRequestLane_def)

text \<open>
  C2: the report a lane shows is always the answer to its current input: in every reachable lane
  of phase \<open>ready\<close>, the report is that of a success event whose owner and signature are those of
  the last accepted start, that signature is the lane's current input signature, and neither a
  start nor an input change was handled between the start and now.
\<close>

theorem shown_report_is_current:
  assumes "lane_reaches p es s" "l_phase s = Ready"
  shows "\<exists>r. l_result s = Some r \<and> r_signature r = l_signature s \<and> answered_by es r"
  using lane_ok_reached [OF assms(1)] history_reached [OF assms(1)] assms(2)
  by (auto simp: lane_ok_def history_def)

text \<open>
  In every reachable lane each phase carries exactly its payload (a result only when ready, an
  error only when failed, a cancellation reason only when cancelled, no pending request when
  idle), and the pending request belongs to the lane's current input.
\<close>

theorem lane_phase_payload:
  assumes "lane_reaches p es s"
  shows "(l_result s \<noteq> None \<longleftrightarrow> l_phase s = Ready) \<and> (l_error s \<noteq> None \<longleftrightarrow> l_phase s = Failed) \<and>
    (l_cancellation s \<noteq> None \<longleftrightarrow> l_phase s = Cancelled) \<and> (l_phase s = Idle \<longrightarrow> l_active s = None) \<and>
    (\<forall>a. l_active s = Some a \<longrightarrow> a_signature a = l_signature s \<and> started_by es (a_owner a) (l_signature s)) \<and>
    l_purpose s = p"
  using lane_ok_reached [OF assms] history_reached [OF assms] by (auto simp: lane_ok_def history_def)

text \<open>
  C23: late events of superseded requests are harmless: once a request holds the lane, any
  interleaving of settling and finalizing events, of any owners, leaves the lane as the holder's
  own events alone would.
\<close>

theorem superseded_requests_are_inert:
  assumes "l_active s = Some a" "\<forall>e \<in> set es. classify (e_type e) \<noteq> InputChange_ev \<and> classify (e_type e) \<noteq> Start_ev"
  shows "fold lane_step es s = fold lane_step (filter (\<lambda>e. e_owner e = Some (a_owner a)) es) s"
proof -
  have spoken: "speaks_for e = Some (e_owner e)" if "e \<in> set es" for e
    using assms(2) that by (auto simp: speaks_for_def split: event_class.splits)
  then have "filter (\<lambda>e. speaks_for e = Some (Some (a_owner a))) es = filter (\<lambda>e. e_owner e = Some (a_owner a)) es"
    by (auto intro: filter_cong)
  with request_lane.only_the_holder_counts [of es s "Some (a_owner a)"] spoken assms(1) show ?thesis
    by (simp add: lane_owner_def)
qed

definition kind_text :: "error_kind \<Rightarrow> jstr" where
  "kind_text k = (case k of EHttp \<Rightarrow> js ''http'' | ENetwork \<Rightarrow> js ''network'' | ETimeout \<Rightarrow> js ''timeout''
     | EInvalidResponse \<Rightarrow> js ''invalid-response'' | ECancelled \<Rightarrow> js ''cancelled'')"

text \<open>A normalised error as the object it is.\<close>

definition thrown_error :: "request_error \<Rightarrow> thrown" where
  "thrown_error e = Thrown False
     ([(''kind'', JStr (kind_text (ekind e))), (''code'', JStr (ecode e)),
       (''status'', case estatus e of None \<Rightarrow> JNull | Some i \<Rightarrow> num i),
       (''message'', JStr (emessage e)), (''retryable'', JBool (eretryable e))]
      @ (case eretryAt e of None \<Rightarrow> [] | Some t \<Rightarrow> [(''retryAt'', JNum t)]))"

lemma kind_of_text [simp]: "map_of ERROR_KINDS (kind_text k) = Some k"
  by (cases k) (simp_all add: ERROR_KINDS_def kind_text_def js_eq_iff)

lemma reads_thrown_error [simp]:
  "reads (thrown_error e) ''kind'' = JStr (kind_text (ekind e))"
  "reads (thrown_error e) ''code'' = JStr (ecode e)"
  "reads (thrown_error e) ''message'' = JStr (emessage e)"
  "reads (thrown_error e) ''retryable'' = JBool (eretryable e)"
  "reads (thrown_error e) ''status'' = (case estatus e of None \<Rightarrow> JNull | Some i \<Rightarrow> num i)"
  "reads (thrown_error e) ''name'' = JUndef" "reads (thrown_error e) ''reason'' = JUndef"
  "reads (thrown_error e) ''cause'' = JUndef" "is_type_error (thrown_error e) = False"
  "reads (thrown_error e) ''retryAt'' = (case eretryAt e of None \<Rightarrow> JUndef | Some t \<Rightarrow> JNum t)"
  by (simp_all add: thrown_error_def map_add_def split: option.splits)

lemma integer_num_status [simp]: "integer_num (case x of None \<Rightarrow> JNull | Some i \<Rightarrow> num i) = x"
  by (simp add: integer_num_def num_def split: option.splits)

lemma finite_num_retryAt:
  "\<forall>t. x = Some t \<longrightarrow> num_rat t \<noteq> None \<Longrightarrow> finite_num (case x of None \<Rightarrow> JUndef | Some t \<Rightarrow> JNum t) = x"
  by (cases x) (auto simp: finite_num_def)

lemma typed_error_thrown:
  assumes "length (emessage e) \<le> STRING_LIMIT" "\<forall>t. eretryAt e = Some t \<longrightarrow> num_rat t \<noteq> None"
  shows "typed_error (thrown_error e) = e"
  unfolding typed_error_def reads_thrown_error using finite_num_retryAt [OF assms(2)] if_finite_id [OF assms(2)] assms(1)
  by (simp add: normalizedError_def)

lemma normalizeRequestError_thrown:
  "length (emessage e) \<le> STRING_LIMIT \<Longrightarrow> \<forall>t. eretryAt e = Some t \<longrightarrow> num_rat t \<noteq> None \<Longrightarrow>
   normalizeRequestError (thrown_error e) Falsy = e"
  by (simp add: normalizeRequestError_def failure_reason_def coalesce_def typed_error_thrown str_def)

definition within_limits :: "request_error \<Rightarrow> bool" where
  "within_limits e \<longleftrightarrow> length (emessage e) \<le> STRING_LIMIT \<and> (\<forall>t. eretryAt e = Some t \<longrightarrow> num_rat t \<noteq> None)"

lemma fixed_errors_within [simp]: "within_limits network_error" "within_limits timeout_error"
  "within_limits (normalizedError k c st (js ''The request was cancelled.'') None b)"
  by (simp_all add: within_limits_def network_error_def timeout_error_def normalizedError_def STRING_LIMIT_def)

lemma typed_message_within:
  "length (case v of JStr t \<Rightarrow> take STRING_LIMIT t | _ \<Rightarrow> js ''The request failed.'') \<le> STRING_LIMIT"
  by (cases v) (simp_all add: STRING_LIMIT_def)

lemma typed_error_within: "within_limits (typed_error e)"
proof -
  have "within_limits (normalizedError k c st (case v of JStr t \<Rightarrow> take STRING_LIMIT t
      | _ \<Rightarrow> js ''The request failed.'') (finite_num w) b)" for k c st v w b
    using typed_message_within by (auto simp: within_limits_def normalizedError_def dest: if_finite_Some)
  then show ?thesis unfolding typed_error_def
    by (cases "reads e ''kind''"; cases "reads e ''code''") (simp_all split: option.split)
qed

lemma normalized_fields: "within_limits (normalizeRequestError input nested)"
  by (simp add: normalizeRequestError_def Let_def typed_error_within)

text \<open>
  normalising a failure yields one of the five error kinds with a message of at most 4096
  units, and is idempotent: an error that is already normalised passes through unchanged.
\<close>

theorem normalizeRequestError_idempotent:
  "length (emessage (normalizeRequestError input nested)) \<le> 4096 \<and>
   normalizeRequestError (thrown_error (normalizeRequestError input nested)) Falsy = normalizeRequestError input nested"
proof -
  note fields = normalized_fields [of input nested, unfolded within_limits_def]
  then have "normalizeRequestError (thrown_error (normalizeRequestError input nested)) Falsy =
      normalizeRequestError input nested" by (intro normalizeRequestError_thrown) blast+
  with fields show ?thesis by (simp add: STRING_LIMIT_def)
qed

section \<open>Witnesses\<close>

definition example_event :: "string \<Rightarrow> string \<Rightarrow> nat \<Rightarrow> nat request_event" where
  "example_event t w r = \<lparr>e_type = js t, e_owner = Some (js w), e_inputSignature = Some (js ''sig''),
     e_signature = None, e_time = JUndef, e_report = r, e_error = (Falsy, Falsy), e_reason = None, e_now = Fin 5\<rparr>"

lemma example_classes: "classify (js ''start'') = Start_ev" "classify (js ''request-succeeded'') = Success_ev"
  "classify (js ''failure'') = Failure_ev" "classify (js ''success'') = Success_ev"
  by code_simp+

lemma example_fields [simp]: "e_type (example_event t w r) = js t" "e_owner (example_event t w r) = Some (js w)"
  "given_signature (example_event t w r) = js ''sig''" "e_report (example_event t w r) = r"
  by (simp_all add: example_event_def given_signature_def)

lemma example_time [simp]: "event_time (example_event t w r) = Some (Fin 5)"
  by (simp add: event_time_def example_event_def coalesce_def MAX_VALUE_def guard_def)

definition example_loading :: "nat lane" where
  "example_loading = lane_step (example_event ''start'' ''a'' 0) (createRequestLane Diagnostics)"

definition example_ready :: "nat lane" where
  "example_ready = lane_step (example_event ''request-succeeded'' ''a'' 7) example_loading"

lemma example_reached:
  "lane_reaches Diagnostics [example_event ''start'' ''a'' 0, example_event ''request-succeeded'' ''a'' 7] example_ready"
  using handled [OF handled [OF created [of Diagnostics]], of "example_event ''start'' ''a'' 0"
      "example_event ''request-succeeded'' ''a'' 7"] by (simp add: example_loading_def example_ready_def)

lemma example_loading_eq:
  "l_active example_loading = Some \<lparr>a_owner = js ''a'', a_signature = js ''sig'', a_startedAt = Fin 5\<rparr>"
  "l_phase example_loading = Loading" "l_signature example_loading = js ''sig''"
  by (simp_all add: example_loading_def lane_step_def transitionRequest_def example_classes Let_def)

lemma example_ready_eq: "l_phase example_ready = Ready" "l_signature example_ready = js ''sig''"
  "map_option r_report (l_result example_ready) = Some 7"
  using example_loading_eq
  by (simp_all add: example_ready_def lane_step_def transitionRequest_def settle_def ownsRequest_def example_classes)

theorem shown_report_is_current_witness:
  "\<exists>r. l_result example_ready = Some r \<and> r_report r = 7 \<and> r_signature r = js ''sig''"
  using shown_report_is_current [OF example_reached] example_ready_eq by auto

theorem lane_phase_payload_witness: "l_error example_ready = None \<and> l_result example_ready \<noteq> None"
  using lane_phase_payload [OF example_reached] example_ready_eq by auto

theorem superseded_requests_are_inert_witness:
  "fold lane_step [example_event ''failure'' ''b'' 0, example_event ''success'' ''a'' 7] example_loading =
   lane_step (example_event ''success'' ''a'' 7) example_loading"
  using superseded_requests_are_inert [OF example_loading_eq(1),
      of "[example_event ''failure'' ''b'' 0, example_event ''success'' ''a'' 7]"]
  by (simp add: js_eq_iff example_classes)

end
