(* ===== verification/Json_Text.thy ===== *)
theory Json_Text
  imports Js_Number
begin

text \<open>
  The texts of \<open>JSON.stringify\<close> that the page builds: quoted strings, integers and arrays, with
  what makes a text readable again: its parts are prefix codes.
\<close>

section \<open>Quoted strings\<close>

definition is_high :: "unit16 \<Rightarrow> bool" where
  "is_high c \<longleftrightarrow> 0xD800 \<le> c \<and> c \<le> 0xDBFF"

definition is_low :: "unit16 \<Rightarrow> bool" where
  "is_low c \<longleftrightarrow> 0xDC00 \<le> c \<and> c \<le> 0xDFFF"

abbreviation cU :: unit16 where "cU \<equiv> 117"

definition unicode_escape :: "unit16 \<Rightarrow> jstr" where
  "unicode_escape c = (let h = hex (unat c) in [cBackslash, cU] @ replicate (4 - length h) 48 @ h)"

definition escape_unit :: "unit16 \<Rightarrow> jstr" where
  "escape_unit c = (if c = cQuote \<or> c = cBackslash then [cBackslash, c]
     else if c = 8 then [cBackslash, 98] else if c = 9 then [cBackslash, 116] else if c = 10 then [cBackslash, 110]
     else if c = 12 then [cBackslash, 102] else if c = 13 then [cBackslash, 114]
     else if c < 32 then unicode_escape c else [c])"

fun quote_units :: "jstr \<Rightarrow> jstr" where
  "quote_units [] = []"
| "quote_units [c] = (if is_high c \<or> is_low c then unicode_escape c else escape_unit c)"
| "quote_units (c # d # s) = (if is_high c \<and> is_low d then c # d # quote_units s
     else (if is_high c \<or> is_low c then unicode_escape c else escape_unit c) @ quote_units (d # s))"

definition quote :: "jstr \<Rightarrow> jstr" where
  "quote s = cQuote # quote_units s @ [cQuote]"

text \<open>The inverse: reading up to the closing quote.\<close>

definition simple_escape :: "unit16 \<Rightarrow> unit16" where
  "simple_escape e = (if e = 98 then 8 else if e = 116 then 9 else if e = 110 then 10 else if e = 102 then 12
     else if e = 114 then 13 else e)"

definition push_unit :: "unit16 \<Rightarrow> (jstr \<times> jstr) option \<Rightarrow> (jstr \<times> jstr) option" where
  "push_unit c = map_option (\<lambda>(s, r). (c # s, r))"

fun unquote :: "jstr \<Rightarrow> (jstr \<times> jstr) option" where
  "unquote [] = None"
| "unquote (c # r) = (if c = cQuote then Some ([], r)
     else if c = cBackslash then
       (case r of e # r1 \<Rightarrow>
          if e = cU then (case r1 of x1 # x2 # x3 # x4 # r2 \<Rightarrow>
              push_unit (of_nat (digits_val 16 [x1, x2, x3, x4])) (unquote r2) | _ \<Rightarrow> None)
          else push_unit (simple_escape e) (unquote r1)
        | [] \<Rightarrow> None)
     else push_unit c (unquote r))"

lemma digits_val_zeros: "digits_val b (replicate k 48 @ s) = digits_val b s"
proof -
  have "foldl (\<lambda>a c. a * b + digit_val c) 0 (replicate k 48) = 0"
    by (induction k) (simp_all add: digit_val_def)
  then show ?thesis by (simp add: digits_val_def)
qed

lemma four_units: "length xs = 4 \<Longrightarrow> \<exists>a b c d. xs = [a, b, c, d]"
  by (auto simp: length_Suc_conv eval_nat_numeral)

lemma unicode_escape_eq:
  "\<exists>x1 x2 x3 x4. unicode_escape c = [cBackslash, cU, x1, x2, x3, x4] \<and> digits_val 16 [x1, x2, x3, x4] = unat c"
proof -
  have "unat c < 16 ^ 4" using unsigned_less [of c] by simp
  then have "length (replicate (4 - length (hex (unat c))) 48 @ hex (unat c)) = 4"
    using length_radix_le [of 16 4 "unat c"] by simp
  then obtain x1 x2 x3 x4 where x: "replicate (4 - length (hex (unat c))) 48 @ hex (unat c) = [x1, x2, x3, x4]"
    using four_units by blast
  then have "digits_val 16 [x1, x2, x3, x4] = unat c"
    using digits_val_zeros [of 16 "4 - length (hex (unat c))" "hex (unat c)"] by (simp add: digits_val_radix)
  with x show ?thesis by (auto simp: unicode_escape_def Let_def)
qed

lemma unquote_unicode: "unquote (unicode_escape c @ r) = push_unit c (unquote r)"
proof -
  obtain x1 x2 x3 x4 where "unicode_escape c = [cBackslash, cU, x1, x2, x3, x4]"
    "digits_val 16 [x1, x2, x3, x4] = unat c" using unicode_escape_eq by blast
  then show ?thesis by simp
qed

lemma unquote_escape: "unquote (escape_unit c @ r) = push_unit c (unquote r)"
  unfolding escape_unit_def by (simp add: unquote_unicode simple_escape_def)

lemma unquote_surrogate: "is_high c \<or> is_low c \<Longrightarrow> unquote (c # r) = push_unit c (unquote r)"
  by (auto simp: is_high_def is_low_def)

lemma unquote_quote: "unquote (quote_units s @ cQuote # r) = Some (s, r)"
proof (induction s rule: quote_units.induct)
  case 1 then show ?case by simp
next
  case (2 c) then show ?case by (simp add: unquote_unicode unquote_escape push_unit_def)
next
  case (3 c d s)
  show ?case
  proof (cases "is_high c \<and> is_low d")
    case True
    with 3 show ?thesis by (simp add: unquote_surrogate push_unit_def del: unquote.simps)
  next
    case False
    then have "quote_units (c # d # s) =
        (if is_high c \<or> is_low c then unicode_escape c else escape_unit c) @ quote_units (d # s)" by auto
    with 3(2) [OF False] show ?thesis by (simp add: unquote_unicode unquote_escape push_unit_def del: unquote.simps quote_units.simps)
  qed
qed

lemma quote_prefix: "quote s @ r = quote t @ r' \<longleftrightarrow> s = t \<and> r = r'"
  by (auto simp: quote_def) (metis option.inject prod.inject unquote_quote)+

section \<open>Prefix codes\<close>

lemma join_Cons: "join [c] (p # ps) = p @ (if ps = [] then [] else c # join [c] ps)"
  by (cases ps) simp_all

text \<open>Texts of which one that is followed by a stop unit is never the start of another such.\<close>

locale prefix_code =
  fixes enc :: "'a \<Rightarrow> jstr" and ok :: "'a \<Rightarrow> bool" and stop :: "unit16 \<Rightarrow> bool"
  assumes unique: "ok x \<Longrightarrow> ok y \<Longrightarrow> stop c \<Longrightarrow> stop d \<Longrightarrow> enc x @ c # r = enc y @ d # r' \<Longrightarrow>
      x = y \<and> c # r = d # r'"
    and opens: "ok x \<Longrightarrow> enc x \<noteq> [] \<and> hd (enc x) \<noteq> cRBrack"
    and stops: "stop cComma" "stop cRBrack"
begin

lemma enc_not_bracket: "ok x \<Longrightarrow> enc x @ s \<noteq> cRBrack # r"
  using opens [of x] by (cases "enc x") auto

text \<open>The texts of a list between its brackets are a code again.\<close>

lemma list_unique:
  assumes "\<forall>x \<in> set xs. ok x" "\<forall>y \<in> set ys. ok y"
    "join [cComma] (map enc xs) @ cRBrack # r = join [cComma] (map enc ys) @ cRBrack # r'"
  shows "xs = ys \<and> r = r'"
  using assms
proof (induction xs arbitrary: ys)
  case Nil
  then show ?case using enc_not_bracket by (cases ys) (auto simp: join_Cons dest: sym)
next
  case (Cons x xs)
  then obtain y ys' where ys: "ys = y # ys'"
    using enc_not_bracket by (cases ys) (auto simp: join_Cons)
  define c where "c = (if xs = [] then cRBrack else cComma)"
  define d where "d = (if ys' = [] then cRBrack else cComma)"
  define a where "a = (if xs = [] then r else join [cComma] (map enc xs) @ cRBrack # r)"
  define b where "b = (if ys' = [] then r' else join [cComma] (map enc ys') @ cRBrack # r')"
  have "enc x @ c # a = enc y @ d # b"
    using Cons.prems(3) unfolding ys by (auto simp: join_Cons a_def b_def c_def d_def)
  moreover have "stop c" "stop d" using stops by (simp_all add: c_def d_def)
  ultimately have "x = y" "c = d" "a = b" using unique [of x y c d a b] Cons.prems(1,2) ys by auto
  then show ?case using Cons ys by (auto simp: a_def b_def c_def d_def split: if_splits)
qed

end

interpretation quoted: prefix_code quote "\<lambda>_. True" "\<lambda>_. True"
  by unfold_locales (auto simp: quote_prefix, simp_all add: quote_def)

text \<open>A decimal number ends at the first unit that is not a digit.\<close>

lemma digits_then_stop:
  "\<forall>x \<in> set xs. P x \<Longrightarrow> \<forall>y \<in> set ys. P y \<Longrightarrow> \<not> P c \<Longrightarrow> \<not> P d \<Longrightarrow> xs @ c # r = ys @ d # r' \<Longrightarrow> xs = ys"
proof (induction xs arbitrary: ys)
  case Nil then show ?case by (cases ys) auto
next
  case (Cons x xs) then show ?case by (cases ys) auto
qed

lemma dec_inject: "dec m = dec n \<longleftrightarrow> m = n"
proof -
  have "digits_val 10 (dec k) = k" for k by (simp add: digits_val_radix)
  then show ?thesis by metis
qed

interpretation numeric: prefix_code dec "\<lambda>_. True" "\<lambda>c. \<not> is_digit c"
proof
  fix x y c d r r' assume "\<not> is_digit c" "\<not> is_digit d" "dec x @ c # r = dec y @ d # r'"
  moreover from this have "dec x = dec y"
    using digits_then_stop [of "dec x" is_digit "dec y"] dec_is_digit by blast
  ultimately show "x = y \<and> c # r = d # r'" by (simp add: dec_inject)
next
  fix x show "dec x \<noteq> [] \<and> hd (dec x) \<noteq> cRBrack"
  proof -
    have "is_digit (hd (dec x))" using dec_is_digit [of x] hd_in_set [OF radix_not_Nil [of 10 x]] by blast
    then show ?thesis by (auto simp: is_digit_def)
  qed
qed (simp_all add: is_digit_def)

end
