(* ===== verification/Request_Input.thy ===== *)
theory Request_Input
  imports Request_Lane Json_Text
begin

text \<open>
  The canonical inputs of \<open>frontend/state.js\<close>: what the forms submit is checked, defaulted and
  reduced to one canonical value, and its JSON text is the signature by which a lane recognises
  the requests of its current input; then the client-side timings.  \<open>URL\<close> belongs to the Web
  platform, not to the language: its parser is the parameter \<open>purl\<close>.
\<close>

section \<open>Checked integers\<close>

definition numericInteger :: "int \<Rightarrow> int \<Rightarrow> int option \<Rightarrow> jval \<Rightarrow> int option" where
  "numericInteger lo hi fallback v =
     (if (v = JUndef \<or> v = JNull \<or> v = JStr []) \<and> fallback \<noteq> None then fallback
      else do { n \<leftarrow> js_Number v; i \<leftarrow> num_int n; guard (lo \<le> i \<and> i \<le> hi); Some i })"

lemma numericInteger_bounds:
  "numericInteger lo hi fallback v = Some i \<Longrightarrow> \<forall>f. fallback = Some f \<longrightarrow> lo \<le> f \<and> f \<le> hi \<Longrightarrow> lo \<le> i \<and> i \<le> hi"
  by (auto simp: numericInteger_def option_elims split: if_splits)

lemma numericInteger_num: "lo \<le> i \<Longrightarrow> i \<le> hi \<Longrightarrow> numericInteger lo hi fallback (num i) = Some i"
  by (simp add: numericInteger_def num_def js_Number_def)

section \<open>The API base\<close>

record url =
  protocol :: jstr
  username :: jstr
  password :: jstr
  host :: jstr
  pathname :: jstr
  search :: jstr
  hash :: jstr
  marks :: jstr

type_synonym url_parser = "jstr \<Rightarrow> url option"

datatype base_error = BadURL | BadProtocol | HasExtras

text \<open>\<open>href\<close> of a special URL without credentials and with an empty query and fragment; \<open>marks\<close> are the
  question mark and the hash that \<open>href\<close> keeps of a query and a fragment that are empty but present.\<close>

definition url_string :: "url \<Rightarrow> jstr" where
  "url_string u = protocol u @ js ''//'' @ host u @ pathname u @ marks u"

definition strip_slashes :: "jstr \<Rightarrow> jstr" where
  "strip_slashes p = rev (dropWhile (\<lambda>c. c = cSlash) (rev p))"

definition canonicalAPIBase :: "url_parser \<Rightarrow> jstr \<Rightarrow> base_error + jstr" where
  "canonicalAPIBase purl value = (case purl (trim value) of
     None \<Rightarrow> Inl BadURL
   | Some u \<Rightarrow>
       if protocol u \<noteq> js ''http:'' \<and> protocol u \<noteq> js ''https:'' then Inl BadProtocol
       else if username u \<noteq> [] \<or> password u \<noteq> [] \<or> search u \<noteq> [] \<or> hash u \<noteq> [] then Inl HasExtras
       else let p = strip_slashes (pathname u); t = url_string (u\<lparr>pathname := if p = [] then js ''/'' else p\<rparr>)
         in Inr (if t \<noteq> [] \<and> last t = cSlash then butlast t else t))"

definition rawAPIBase :: "props \<Rightarrow> jval" where
  "rawAPIBase raw = coalesce (get raw ''apiBaseURL'') (coalesce (get raw ''apiBaseUrl'')
     (coalesce (get raw ''apiURL'') (coalesce (get raw ''api_url'') (coalesce (get raw ''apiBase'') (JStr [])))))"

section \<open>The canonical inputs\<close>

definition KINDS :: "jstr list" where
  "KINDS = map js [''dns'', ''tcp'', ''http'', ''https'', ''traceroute'', ''ssh'', ''smtp'', ''submission'',
     ''smtps'', ''imap'', ''imaps'', ''pop3'', ''pop3s'']"

record diagnostic_target =
  d_kind :: jstr
  d_address :: jstr
  d_expected :: int
  d_attempts :: "int option"

record diagnostics_input =
  di_base :: jstr
  di_targets :: "diagnostic_target list"
  di_timeout :: int
  di_auth :: bool

record topology_input =
  ti_base :: jstr
  ti_addresses :: "jstr list"
  ti_attempts :: int
  ti_timeout :: int
  ti_auth :: bool

definition base_of :: "url_parser \<Rightarrow> props \<Rightarrow> jstr option" where
  "base_of purl raw = do {
     t \<leftarrow> js_String (rawAPIBase raw);
     (case canonicalAPIBase purl t of Inl _ \<Rightarrow> None | Inr b \<Rightarrow> Some b) }"

definition canonical_target :: "jval \<Rightarrow> diagnostic_target option" where
  "canonical_target v = do {
     target \<leftarrow> v_object v;
     kind \<leftarrow> map_option trim (js_String (coalesce (get target ''kind'') (JStr [])));
     address \<leftarrow> map_option trim (js_String (coalesce (get target ''address'') (JStr [])));
     guard (kind \<in> set KINDS \<and> address \<noteq> [] \<and> length address \<le> STRING_LIMIT);
     expected \<leftarrow> numericInteger 0 599 (Some 0) (coalesce (get target ''expected_status'') (get target ''expectedStatus''));
     attempts \<leftarrow> (if kind = js ''traceroute''
       then map_option Some (numericInteger 1 10 (Some 5) (get target ''attempts'')) else Some None);
     Some \<lparr>d_kind = kind, d_address = address, d_expected = expected, d_attempts = attempts\<rparr> }"

definition timeout_of :: "props \<Rightarrow> int option" where
  "timeout_of raw = numericInteger 100 30000 (Some 5000)
     (coalesce (get raw ''timeout_ms'') (coalesce (get raw ''timeoutMS'') (get raw ''timeout'')))"

definition canonicalDiagnosticsInput :: "url_parser \<Rightarrow> jval \<Rightarrow> diagnostics_input option" where
  "canonicalDiagnosticsInput purl v = do {
     raw \<leftarrow> v_object v;
     entries \<leftarrow> v_array (get raw ''targets'') 20;
     targets \<leftarrow> traverse canonical_target entries;
     base \<leftarrow> base_of purl raw;
     timeout \<leftarrow> timeout_of raw;
     (let bearer = coalesce (get raw ''bearer'') (coalesce (get raw ''bearerToken'') (get raw ''token''));
          given = (case bearer of JStr t \<Rightarrow> t \<noteq> [] | _ \<Rightarrow> False)
      in Some \<lparr>di_base = base, di_targets = targets, di_timeout = timeout,
           di_auth = truthy (coalesce (get raw ''authEnabled'') (coalesce (get raw ''auth_enabled'') (JBool given)))\<rparr>) }"

text \<open>An item of the address list: an object's \<open>address\<close>, or the item itself.\<close>

definition topology_address :: "jval \<Rightarrow> jstr option" where
  "topology_address item = do {
     address \<leftarrow> map_option trim (case item of JObj i plain ps \<Rightarrow> js_String (get ps ''address'')
       | JArr i plain ds \<Rightarrow> js_String JUndef | v \<Rightarrow> js_String v);
     guard (address \<noteq> [] \<and> length address \<le> STRING_LIMIT);
     Some address }"

definition canonicalTopologyInput :: "url_parser \<Rightarrow> jval \<Rightarrow> topology_input option" where
  "canonicalTopologyInput purl v = do {
     raw \<leftarrow> v_object v;
     items \<leftarrow> v_array (coalesce (get raw ''addresses'') (get raw ''targets'')) 20;
     addresses \<leftarrow> traverse topology_address items;
     base \<leftarrow> base_of purl raw;
     attempts \<leftarrow> numericInteger 1 10 (Some 5) (get raw ''attempts'');
     timeout \<leftarrow> timeout_of raw;
     Some \<lparr>ti_base = base, ti_addresses = set_of_list addresses, ti_attempts = attempts, ti_timeout = timeout,
       ti_auth = truthy (coalesce (get raw ''authEnabled'') (get raw ''auth_enabled''))\<rparr> }"

section \<open>The signature of an input\<close>

datatype canonical_input = DiagnosticsInput diagnostics_input | TopologyInput topology_input

definition field :: "string \<Rightarrow> jstr" where
  "field k = quote (js k) @ [cColon]"

definition bool_text :: "bool \<Rightarrow> jstr" where
  "bool_text b = (if b then js ''true'' else js ''false'')"

definition int_text :: "int \<Rightarrow> jstr" where
  "int_text i = dec (nat i)"

definition target_text :: "diagnostic_target \<Rightarrow> jstr" where
  "target_text t = cLBrace # field ''kind'' @ quote (d_kind t) @ cComma # field ''address'' @ quote (d_address t) @
     cComma # field ''expected_status'' @ int_text (d_expected t) @
     (case d_attempts t of None \<Rightarrow> [] | Some n \<Rightarrow> cComma # field ''attempts'' @ int_text n) @ [cRBrace]"

text \<open>\<open>JSON.stringify({ purpose, ...input, authRevision })\<close>.\<close>

definition signature_text :: "canonical_input \<Rightarrow> int \<Rightarrow> jstr" where
  "signature_text c revision = (case c of
     DiagnosticsInput i \<Rightarrow> cLBrace # field ''purpose'' @ quote (js ''diagnostics'') @ cComma # field ''apiBaseURL'' @
       quote (di_base i) @ cComma # field ''targets'' @ cLBrack # join [cComma] (map target_text (di_targets i)) @
       cRBrack # cComma # field ''timeout_ms'' @ int_text (di_timeout i) @ cComma # field ''authEnabled'' @
       bool_text (di_auth i) @ cComma # field ''authRevision'' @ int_text revision @ [cRBrace]
   | TopologyInput i \<Rightarrow> cLBrace # field ''purpose'' @ quote (js ''topology'') @ cComma # field ''apiBaseURL'' @
       quote (ti_base i) @ cComma # field ''addresses'' @ cLBrack # join [cComma] (map quote (ti_addresses i)) @
       cRBrack # cComma # field ''attempts'' @ int_text (ti_attempts i) @ cComma # field ''timeout_ms'' @
       int_text (ti_timeout i) @ cComma # field ''authEnabled'' @ bool_text (ti_auth i) @ cComma #
       field ''authRevision'' @ int_text revision @ [cRBrace])"

definition submitted_input :: "url_parser \<Rightarrow> purpose \<Rightarrow> jval \<Rightarrow> canonical_input option" where
  "submitted_input purl p raw = (case p of
     Diagnostics \<Rightarrow> map_option DiagnosticsInput (canonicalDiagnosticsInput purl raw)
   | Topology \<Rightarrow> map_option TopologyInput (canonicalTopologyInput purl raw))"

definition auth_revision :: "jval \<Rightarrow> int option" where
  "auth_revision v = numericInteger 0 MAX_SAFE (Some 0) v"

definition inputSignature :: "url_parser \<Rightarrow> purpose \<Rightarrow> jval \<Rightarrow> jval \<Rightarrow> jstr option" where
  "inputSignature purl p raw revision = do {
     input \<leftarrow> submitted_input purl p raw;
     r \<leftarrow> auth_revision revision;
     Some (signature_text input r) }"

section \<open>What a canonical input guarantees\<close>

definition target_ok :: "diagnostic_target \<Rightarrow> bool" where
  "target_ok t \<longleftrightarrow> d_kind t \<in> set KINDS \<and> d_address t \<noteq> [] \<and> length (d_address t) \<le> STRING_LIMIT \<and>
     trim (d_address t) = d_address t \<and> 0 \<le> d_expected t \<and> d_expected t \<le> 599 \<and>
     (d_attempts t \<noteq> None \<longleftrightarrow> d_kind t = js ''traceroute'') \<and> (\<forall>n. d_attempts t = Some n \<longrightarrow> 1 \<le> n \<and> n \<le> 10)"

definition canonical_ok :: "canonical_input \<Rightarrow> bool" where
  "canonical_ok c \<longleftrightarrow> (case c of
     DiagnosticsInput i \<Rightarrow> length (di_targets i) \<le> 20 \<and> (\<forall>t \<in> set (di_targets i). target_ok t) \<and>
       100 \<le> di_timeout i \<and> di_timeout i \<le> 30000
   | TopologyInput i \<Rightarrow> length (ti_addresses i) \<le> 20 \<and> distinct (ti_addresses i) \<and>
       (\<forall>a \<in> set (ti_addresses i). a \<noteq> [] \<and> length a \<le> STRING_LIMIT \<and> trim a = a) \<and>
       1 \<le> ti_attempts i \<and> ti_attempts i \<le> 10 \<and> 100 \<le> ti_timeout i \<and> ti_timeout i \<le> 30000)"

lemma canonical_target_ok: "canonical_target v = Some t \<Longrightarrow> target_ok t"
  by (auto simp: canonical_target_def option_elims target_ok_def trim_trim dest!: numericInteger_bounds split: if_splits)

lemma timeout_of_bounds: "timeout_of raw = Some t \<Longrightarrow> 100 \<le> t \<and> t \<le> 30000"
  by (auto simp: timeout_of_def dest: numericInteger_bounds)

lemma topology_address_ok:
  "topology_address v = Some a \<Longrightarrow> a \<noteq> [] \<and> length a \<le> STRING_LIMIT \<and> trim a = a"
  by (auto simp: topology_address_def option_elims trim_trim)

lemma diagnostics_ok: "canonicalDiagnosticsInput purl v = Some i \<Longrightarrow> canonical_ok (DiagnosticsInput i)"
  by (auto simp: canonicalDiagnosticsInput_def Let_def option_elims canonical_ok_def
      dest: timeout_of_bounds v_array_traverse_length traverse_set canonical_target_ok)

lemma v_array_set_of_list_length:
  "v_array v n = Some vs \<Longrightarrow> traverse f vs = Some ys \<Longrightarrow> length (set_of_list ys) \<le> n"
  by (metis card_length le_trans length_set_of_list v_array_traverse_length)

lemma topology_ok: "canonicalTopologyInput purl v = Some i \<Longrightarrow> canonical_ok (TopologyInput i)"
  by (auto simp: canonicalTopologyInput_def option_elims canonical_ok_def distinct_set_of_list
      dest: timeout_of_bounds numericInteger_bounds traverse_set topology_address_ok v_array_set_of_list_length)

lemma canonical_input_ok: "submitted_input purl p v = Some c \<Longrightarrow> canonical_ok c"
  by (auto simp: submitted_input_def diagnostics_ok topology_ok split: purpose.splits)

section \<open>A signature determines its input\<close>

lemma int_text_prefix:
  "0 \<le> i \<Longrightarrow> 0 \<le> j \<Longrightarrow> \<not> is_digit c \<Longrightarrow> \<not> is_digit d \<Longrightarrow> int_text i @ c # r = int_text j @ d # r' \<Longrightarrow>
   i = j \<and> c # r = d # r'"
  using numeric.unique [where x = "nat i" and y = "nat j" and c = c and d = d and r = r and r' = r'] by (simp add: int_text_def eq_nat_nat_iff)

lemma int_text_inject: "0 \<le> i \<Longrightarrow> 0 \<le> j \<Longrightarrow> int_text i = int_text j \<longleftrightarrow> i = j"
  by (simp add: int_text_def dec_inject eq_nat_nat_iff)

lemma bool_text_prefix: "bool_text a @ c # r = bool_text b @ d # r' \<Longrightarrow> a = b \<and> c # r = d # r'"
  by (auto simp: bool_text_def js_def split: if_splits)

definition target_nonneg :: "diagnostic_target \<Rightarrow> bool" where
  "target_nonneg t \<longleftrightarrow> 0 \<le> d_expected t \<and> (\<forall>n. d_attempts t = Some n \<longrightarrow> 0 \<le> n)"

lemma separators [simp]: "\<not> is_digit cComma" "\<not> is_digit cRBrace" "\<not> is_digit cRBrack"
  by (simp_all add: is_digit_def)

lemma target_text_prefix:
  assumes "target_nonneg s" "target_nonneg t" "target_text s @ r = target_text t @ r'"
  shows "s = t \<and> r = r'"
proof -
  have e: "d_kind s = d_kind t" "d_address s = d_address t"
    and tail: "int_text (d_expected s) @ (case d_attempts s of None \<Rightarrow> [] | Some n \<Rightarrow> cComma # field ''attempts'' @ int_text n) @ cRBrace # r =
     int_text (d_expected t) @ (case d_attempts t of None \<Rightarrow> [] | Some n \<Rightarrow> cComma # field ''attempts'' @ int_text n) @ cRBrace # r'"
    using assms(3) by (auto simp: target_text_def quote_prefix)
  have "d_expected s = d_expected t \<and> d_attempts s = d_attempts t \<and> r = r'"
    using tail assms(1,2) by (cases "d_attempts s"; cases "d_attempts t")
      (auto simp: target_nonneg_def dest!: int_text_prefix [rotated 4])
  with e show ?thesis by (cases s; cases t) simp
qed

interpretation targets: prefix_code target_text target_nonneg "\<lambda>_. True"
proof
  fix x y c d r r' assume "target_nonneg x" "target_nonneg y" "target_text x @ c # r = target_text y @ d # r'"
  then show "x = y \<and> c # r = d # r'" by (rule target_text_prefix)
qed (simp_all add: target_text_def)

lemma signature_text_inject:
  assumes "canonical_ok a" "canonical_ok b" "0 \<le> ra" "0 \<le> rb" "signature_text a ra = signature_text b rb"
  shows "a = b \<and> ra = rb"
proof (cases a; cases b)
  fix i j assume ab: "a = DiagnosticsInput i" "b = DiagnosticsInput j"
  have nonneg: "\<forall>t \<in> set (di_targets i). target_nonneg t" "\<forall>t \<in> set (di_targets j). target_nonneg t"
    "0 \<le> di_timeout i" "0 \<le> di_timeout j"
    using assms(1,2) ab by (force simp: canonical_ok_def target_ok_def target_nonneg_def)+
  from assms(5) have base: "di_base i = di_base j" and rest:
    "join [cComma] (map target_text (di_targets i)) @ cRBrack # cComma # field ''timeout_ms'' @ int_text (di_timeout i) @
       cComma # field ''authEnabled'' @ bool_text (di_auth i) @ cComma # field ''authRevision'' @ int_text ra @ [cRBrace] =
     join [cComma] (map target_text (di_targets j)) @ cRBrack # cComma # field ''timeout_ms'' @ int_text (di_timeout j) @
       cComma # field ''authEnabled'' @ bool_text (di_auth j) @ cComma # field ''authRevision'' @ int_text rb @ [cRBrace]"
    unfolding ab by (auto simp: signature_text_def quote_prefix)
  from targets.list_unique [OF nonneg(1,2) rest] nonneg(3,4) assms(3,4)
  have "di_targets i = di_targets j" "di_timeout i = di_timeout j" "di_auth i = di_auth j" "ra = rb"
    by (auto simp: int_text_inject dest!: int_text_prefix [rotated 4] bool_text_prefix)
  with base ab show ?thesis by simp
next
  fix i j assume ab: "a = TopologyInput i" "b = TopologyInput j"
  have nonneg: "0 \<le> ti_attempts i" "0 \<le> ti_attempts j" "0 \<le> ti_timeout i" "0 \<le> ti_timeout j"
    using assms(1,2) ab by (simp_all add: canonical_ok_def)
  from assms(5) have base: "ti_base i = ti_base j" and rest:
    "join [cComma] (map quote (ti_addresses i)) @ cRBrack # cComma # field ''attempts'' @ int_text (ti_attempts i) @
       cComma # field ''timeout_ms'' @ int_text (ti_timeout i) @
       cComma # field ''authEnabled'' @ bool_text (ti_auth i) @ cComma # field ''authRevision'' @ int_text ra @ [cRBrace] =
     join [cComma] (map quote (ti_addresses j)) @ cRBrack # cComma # field ''attempts'' @ int_text (ti_attempts j) @
       cComma # field ''timeout_ms'' @ int_text (ti_timeout j) @
       cComma # field ''authEnabled'' @ bool_text (ti_auth j) @ cComma # field ''authRevision'' @ int_text rb @ [cRBrace]"
    unfolding ab by (auto simp: signature_text_def quote_prefix)
  from quoted.list_unique [OF _ _ rest] nonneg assms(3,4)
  have "ti_addresses i = ti_addresses j" "ti_attempts i = ti_attempts j" "ti_timeout i = ti_timeout j"
    "ti_auth i = ti_auth j" "ra = rb"
    by (auto simp: int_text_inject dest!: int_text_prefix [rotated 4] bool_text_prefix)
  with base ab show ?thesis by simp
qed (use assms(5) in \<open>auto simp: signature_text_def quote_prefix js_eq_iff\<close>)

text \<open>
  C24: the signature identifies the input: two submissions have the same signature exactly when
  they have the same purpose, the same canonical input and the same credential revision, so a
  lane never takes the answer to one input for the answer to another.
\<close>

theorem inputSignature_exact:
  assumes "inputSignature purl p raw rev1 = Some s" "inputSignature purl q raw' rev2 = Some t"
  shows "s = t \<longleftrightarrow> p = q \<and> submitted_input purl p raw = submitted_input purl q raw' \<and>
    auth_revision rev1 = auth_revision rev2"
proof -
  from assms obtain a b ra rb where ab: "submitted_input purl p raw = Some a" "submitted_input purl q raw' = Some b"
    "auth_revision rev1 = Some ra" "auth_revision rev2 = Some rb"
    "s = signature_text a ra" "t = signature_text b rb"
    by (auto simp: inputSignature_def option_elims)
  moreover have "0 \<le> ra" "0 \<le> rb"
    using ab(3,4) by (auto simp: auth_revision_def MAX_SAFE_def dest: numericInteger_bounds)
  moreover have "a = b \<Longrightarrow> p = q"
    using ab(1,2) by (auto simp: submitted_input_def split: purpose.splits)
  moreover have "signature_text a ra = signature_text b rb \<Longrightarrow> a = b \<and> ra = rb"
    using calculation(7,8) canonical_input_ok [OF ab(1)] canonical_input_ok [OF ab(2)] by (metis signature_text_inject)
  ultimately show ?thesis by auto
qed

section \<open>Canonical inputs are fixed points\<close>

text \<open>What the code relies on of the platform's URL parser, whose serializer it inverts: when a text parses to a URL that
  the code accepts as a base, the base that the code builds of it has no surrounding white space and parses to that URL with
  the slashes at the end of its path removed.\<close>

definition bare_url :: "url \<Rightarrow> url" where
  "bare_url u = u\<lparr>pathname := if strip_slashes (pathname u) = [] then js ''/'' else strip_slashes (pathname u)\<rparr>"

definition accepted_url :: "url \<Rightarrow> bool" where
  "accepted_url u \<longleftrightarrow> (protocol u = js ''http:'' \<or> protocol u = js ''https:'') \<and>
     username u = [] \<and> password u = [] \<and> search u = [] \<and> hash u = []"

definition base_text :: "url \<Rightarrow> jstr" where
  "base_text u = (let t = url_string (bare_url u) in if t \<noteq> [] \<and> last t = cSlash then butlast t else t)"

definition url_laws :: "url_parser \<Rightarrow> bool" where
  "url_laws purl \<longleftrightarrow> (\<forall>t u. purl t = Some u \<longrightarrow> accepted_url u \<longrightarrow>
     trim (base_text u) = base_text u \<and> purl (base_text u) = Some (bare_url u))"

lemma strip_slashes_fixed: "p \<noteq> [] \<Longrightarrow> last p \<noteq> cSlash \<Longrightarrow> strip_slashes p = p"
  by (cases p rule: rev_cases) (simp_all add: strip_slashes_def)

lemma strip_slashes_bare: "strip_slashes q \<noteq> [] \<Longrightarrow> last (strip_slashes q) \<noteq> cSlash"
  using hd_dropWhile [of "\<lambda>c. c = cSlash" "rev q"] by (simp add: strip_slashes_def last_rev)

lemma bare_url_fixed: "bare_url (bare_url u) = bare_url u"
proof -
  have "strip_slashes (js ''/'') = []" by (simp add: strip_slashes_def js_def)
  then show ?thesis using strip_slashes_bare [of "pathname u"]
    by (cases "strip_slashes (pathname u) = []") (simp_all add: bare_url_def strip_slashes_fixed)
qed

lemma bare_url_parts: "accepted_url (bare_url u) = accepted_url u"
  by (simp add: accepted_url_def bare_url_def)

lemma canonicalAPIBase_text: "canonicalAPIBase purl v = (case purl (trim v) of None \<Rightarrow> Inl BadURL
   | Some u \<Rightarrow> if accepted_url u then Inr (base_text u)
       else Inl (if protocol u = js ''http:'' \<or> protocol u = js ''https:'' then HasExtras else BadProtocol))"
  by (auto simp: canonicalAPIBase_def accepted_url_def base_text_def bare_url_def Let_def split: option.split)

lemma canonicalAPIBase_fixed:
  assumes "url_laws purl" "canonicalAPIBase purl v = Inr b"
  shows "canonicalAPIBase purl b = Inr b"
proof -
  from assms(2) obtain u where u: "purl (trim v) = Some u" "accepted_url u" "b = base_text u"
    by (auto simp: canonicalAPIBase_text split: option.splits if_splits)
  have laws: "trim b = b" "purl b = Some (bare_url u)" using assms(1) u unfolding url_laws_def by blast+
  have "base_text (bare_url u) = b" by (simp add: u(3) base_text_def bare_url_fixed)
  with laws u(2) show ?thesis by (simp add: canonicalAPIBase_text bare_url_parts)
qed

text \<open>A canonical input as the object it is.\<close>

definition target_value :: "diagnostic_target \<Rightarrow> jval" where
  "target_value t = obj ([(''kind'', JStr (d_kind t)), (''address'', JStr (d_address t)),
     (''expected_status'', num (d_expected t))] @
     (case d_attempts t of None \<Rightarrow> [] | Some n \<Rightarrow> [(''attempts'', num n)]))"

definition input_value :: "canonical_input \<Rightarrow> jval" where
  "input_value c = (case c of
     DiagnosticsInput i \<Rightarrow> obj [(''apiBaseURL'', JStr (di_base i)), (''targets'', arr (map target_value (di_targets i))),
       (''timeout_ms'', num (di_timeout i)), (''authEnabled'', JBool (di_auth i))]
   | TopologyInput i \<Rightarrow> obj [(''apiBaseURL'', JStr (ti_base i)), (''addresses'', arr (map JStr (ti_addresses i))),
       (''attempts'', num (ti_attempts i)), (''timeout_ms'', num (ti_timeout i)), (''authEnabled'', JBool (ti_auth i))])"

lemma kinds_trimmed: "\<forall>k \<in> set KINDS. trim k = k"
  by code_simp

lemma canonical_target_fixed:
  assumes "target_ok t"
  shows "canonical_target (target_value t) = Some t"
proof -
  have "coalesce (JStr x) y = JStr x" "coalesce (num i) y = num i" "coalesce JUndef y = y" for x y i
    by (simp_all add: coalesce_def num_def)
  with assms kinds_trimmed show ?thesis
    by (cases t, cases "d_attempts t")
      (auto simp: canonical_target_def target_value_def target_ok_def numericInteger_num)
qed

lemma base_of_fixed:
  assumes "url_laws purl" "base_of purl raw = Some b" "get raw' ''apiBaseURL'' = JStr b"
  shows "base_of purl raw' = Some b"
proof -
  from assms(2) obtain t where "(case canonicalAPIBase purl t of Inl _ \<Rightarrow> None | Inr b \<Rightarrow> Some b) = Some b"
    by (auto simp: base_of_def option_elims)
  then have "canonicalAPIBase purl t = Inr b" by (cases "canonicalAPIBase purl t") simp_all
  then have "canonicalAPIBase purl b = Inr b" by (rule canonicalAPIBase_fixed [OF assms(1)])
  then show ?thesis by (simp add: base_of_def rawAPIBase_def coalesce_def assms(3))
qed

lemma timeout_of_fixed: "100 \<le> t \<Longrightarrow> t \<le> 30000 \<Longrightarrow> get raw ''timeout_ms'' = num t \<Longrightarrow> timeout_of raw = Some t"
  by (simp add: timeout_of_def numericInteger_num coalesce_def num_def [symmetric]) (simp add: num_def)

lemma traverse_fixed: "\<forall>x \<in> set xs. f (g x) = Some x \<Longrightarrow> traverse f (map g xs) = Some xs"
  using traverse_Some_map [of xs "\<lambda>x. f (g x)" id] by (simp add: traverse_map)

lemma coalesce_given [simp]: "coalesce (JStr s) v = JStr s" "coalesce (JBool b) v = JBool b"
  "coalesce (num i) v = num i" "coalesce (arr vs) v = arr vs" "coalesce JUndef v = v"
  by (simp_all add: coalesce_def num_def arr_def)

lemma set_of_list_distinct: "distinct xs \<Longrightarrow> set_of_list xs = xs"
proof (induction xs rule: rev_induct)
  case (snoc x xs) then show ?case by (simp add: set_of_list_def add_new_def)
qed (simp add: set_of_list_def)

lemma diagnostics_fixed:
  assumes "url_laws purl" "canonicalDiagnosticsInput purl raw = Some i"
  shows "canonicalDiagnosticsInput purl (input_value (DiagnosticsInput i)) = Some i"
proof -
  have ok: "length (di_targets i) \<le> 20" "\<forall>t \<in> set (di_targets i). target_ok t" "100 \<le> di_timeout i" "di_timeout i \<le> 30000"
    using diagnostics_ok [OF assms(2)] by (simp_all add: canonical_ok_def)
  obtain ps where "base_of purl ps = Some (di_base i)"
    using assms(2) by (auto simp: canonicalDiagnosticsInput_def Let_def option_elims)
  note base = base_of_fixed [OF assms(1) this]
  have "traverse canonical_target (map target_value (di_targets i)) = Some (di_targets i)"
    using ok(2) canonical_target_fixed by (blast intro: traverse_fixed)
  with ok show ?thesis
    by (simp add: canonicalDiagnosticsInput_def input_value_def base timeout_of_fixed)
qed

lemma topology_fixed:
  assumes "url_laws purl" "canonicalTopologyInput purl raw = Some i"
  shows "canonicalTopologyInput purl (input_value (TopologyInput i)) = Some i"
proof -
  have ok: "length (ti_addresses i) \<le> 20" "distinct (ti_addresses i)"
    "\<forall>a \<in> set (ti_addresses i). a \<noteq> [] \<and> length a \<le> STRING_LIMIT \<and> trim a = a"
    "1 \<le> ti_attempts i" "ti_attempts i \<le> 10" "100 \<le> ti_timeout i" "ti_timeout i \<le> 30000"
    using topology_ok [OF assms(2)] by (simp_all add: canonical_ok_def)
  obtain ps where "base_of purl ps = Some (ti_base i)"
    using assms(2) by (auto simp: canonicalTopologyInput_def option_elims)
  note base = base_of_fixed [OF assms(1) this]
  have "traverse topology_address (map JStr (ti_addresses i)) = Some (ti_addresses i)"
    using ok(3) by (intro traverse_fixed) (simp add: topology_address_def)
  with ok show ?thesis
    by (simp add: canonicalTopologyInput_def input_value_def base timeout_of_fixed numericInteger_num set_of_list_distinct)
qed

lemma submitted_again:
  "url_laws purl \<Longrightarrow> submitted_input purl p raw = Some c \<Longrightarrow> submitted_input purl p (input_value c) = Some c"
  using diagnostics_fixed topology_fixed by (cases p) (auto simp: submitted_input_def)

text \<open>
  Canonicalisation is idempotent: submitting a canonical input again, as the pages do when
  they recompute the signature of a request they already built, gives the same canonical input
  and hence the same signature, whatever the URL parser is, as long as it reads back the texts
  that the code assembles from its parts.
\<close>

theorem canonical_input_stable:
  assumes "url_laws purl" "submitted_input purl p raw = Some c" "inputSignature purl p raw revision = Some s"
  shows "submitted_input purl p (input_value c) = Some c \<and> inputSignature purl p (input_value c) revision = Some s \<and>
    canonical_ok c"
  using assms(2,3) submitted_again [OF assms(1,2)] by (simp add: inputSignature_def canonical_input_ok)

section \<open>Timings\<close>

definition prop_of :: "jval \<Rightarrow> string \<Rightarrow> jval" where
  "prop_of v k = (case v of JObj i plain ps \<Rightarrow> get ps k | _ \<Rightarrow> JUndef)"

definition first_targets :: "jval \<Rightarrow> jval list" where
  "first_targets payload = (case prop_of payload ''targets'' of JArr i plain ds \<Rightarrow> take 20 (map desc_value ds) | _ \<Rightarrow> [])"

text \<open>The attempts a target counts with: none unless it is a traceroute, else from 1 to 10.\<close>

definition attempts_of :: "jval \<Rightarrow> int option option" where
  "attempts_of target = (if prop_of target ''kind'' \<noteq> str ''traceroute'' then Some None else do {
     n \<leftarrow> js_Number (coalesce (prop_of target ''attempts'') (num 5));
     (let a = (case num_int n of Some i \<Rightarrow> i | None \<Rightarrow> 5) in Some (Some (min 10 (max 1 a)))) })"

fun longest_wait :: "int \<Rightarrow> jval list \<Rightarrow> int \<Rightarrow> int option" where
  "longest_wait timeout [] longest = Some longest"
| "longest_wait timeout (target # targets) longest = do {
     a \<leftarrow> attempts_of target;
     longest_wait timeout targets (case a of None \<Rightarrow> longest | Some n \<Rightarrow> max longest (timeout * n)) }"

definition clientTimeoutMS :: "jval \<Rightarrow> int option" where
  "clientTimeoutMS payload = do {
     t \<leftarrow> numericInteger 0 MAX_SAFE (Some 5000) (coalesce (prop_of payload ''timeout_ms'') (prop_of payload ''timeoutMS''));
     (let timeout = min 30000 (max 100 t) in
      do { longest \<leftarrow> longest_wait timeout (first_targets payload) timeout; Some (min 315000 (longest + 15000)) }) }"

definition parseRetryAfter :: "jstr option \<Rightarrow> jnum \<Rightarrow> jnum option" where
  "parseRetryAfter value now = (case value of None \<Rightarrow> None | Some v \<Rightarrow>
     if v \<noteq> [] \<and> length v \<le> 4 \<and> (\<forall>c \<in> set v. is_digit c) \<and> hd v \<noteq> 48
     then let seconds = digits_val 10 v in
       (case num_rat now of
          Some r \<Rightarrow> if seconds \<le> 3600 then Some (round_double (r + of_nat (seconds * 1000))) else None
        | None \<Rightarrow> None)
     else None)"

lemma attempts_of_bounds: "attempts_of target = Some (Some n) \<Longrightarrow> 1 \<le> n \<and> n \<le> 10"
  by (auto simp: attempts_of_def Let_def option_elims split: if_splits)

lemma longest_wait_max:
  assumes "longest_wait timeout targets l = Some w"
  shows "l \<le> w \<and> (\<forall>x \<in> set targets. \<forall>n. attempts_of x = Some (Some n) \<longrightarrow> timeout * n \<le> w) \<and>
    (w = l \<or> (\<exists>x \<in> set targets. \<exists>n. attempts_of x = Some (Some n) \<and> w = timeout * n))"
  using assms
proof (induction targets arbitrary: l)
  case (Cons x xs)
  then obtain a where a: "attempts_of x = Some a"
    "longest_wait timeout xs (case a of None \<Rightarrow> l | Some n \<Rightarrow> max l (timeout * n)) = Some w"
    by (auto simp: option_elims)
  with Cons.IH [OF a(2)] show ?case by (cases a) (auto simp: max_def split: if_splits)
qed simp

text \<open>
  The client waits longer than the server can take, and never unboundedly: the limit is
  exactly 15 seconds more than the longest run, the request's timeout (clamped to 100..30000 ms)
  or that times the attempts of a traceroute target; it lies between 15.1 and 315 seconds, and
  the final clamp never cuts a run short.
\<close>

theorem clientTimeoutMS_covers:
  assumes "clientTimeoutMS payload = Some t"
  shows "\<exists>timeout. 100 \<le> timeout \<and> timeout \<le> 30000 \<and> timeout + 15000 \<le> t \<and>
    (\<forall>x \<in> set (first_targets payload). \<forall>n. attempts_of x = Some (Some n) \<longrightarrow> timeout * n + 15000 \<le> t) \<and>
    (t = timeout + 15000 \<or> (\<exists>x \<in> set (first_targets payload). \<exists>n. attempts_of x = Some (Some n) \<and> t = timeout * n + 15000)) \<and>
    15100 \<le> t \<and> t \<le> 315000"
proof -
  from assms obtain t0 w where t0: "longest_wait (min 30000 (max 100 t0)) (first_targets payload) (min 30000 (max 100 t0)) = Some w"
    "t = min 315000 (w + 15000)" by (auto simp: clientTimeoutMS_def Let_def option_elims)
  define timeout where "timeout = min 30000 (max 100 t0)"
  have bounds: "100 \<le> timeout" "timeout \<le> 30000" by (simp_all add: timeout_def)
  note w = longest_wait_max [OF t0(1), folded timeout_def]
  have "timeout * n \<le> 300000" if "attempts_of x = Some (Some n)" for x n
    using mult_mono [of timeout 30000 n 10] attempts_of_bounds [OF that] bounds by simp
  then have "w \<le> 300000" using w bounds by auto
  with w bounds t0(2) show ?thesis by (intro exI [of _ timeout]) auto
qed

text \<open>
  a \<open>Retry-After\<close> value is honoured exactly when it is the canonical decimal text of 1 to
  3600 seconds, and the retry time is that many seconds after now; every other text (dates, signs,
  leading zeros, spaces, larger numbers) is ignored.
\<close>

theorem parseRetryAfter_exact:
  assumes "0 \<le> now" "now < 2 ^ 52"
  shows "parseRetryAfter (Some v) (jint now) = Some t \<longleftrightarrow>
    (\<exists>n. 1 \<le> n \<and> n \<le> 3600 \<and> v = dec n \<and> t = jint (now + 1000 * int n))"
proof -
  have rounded: "round_double (of_int now + of_nat (n * 1000)) = jint (now + 1000 * int n)" if "n \<le> 3600" for n
    using round_double_int [of "now + 1000 * int n"] assms that by (simp add: mult.commute)
  have shape: "(v \<noteq> [] \<and> length v \<le> 4 \<and> (\<forall>c \<in> set v. is_digit c) \<and> hd v \<noteq> 48 \<and> digits_val 10 v \<le> 3600) \<longleftrightarrow>
      (1 \<le> digits_val 10 v \<and> digits_val 10 v \<le> 3600 \<and> v = dec (digits_val 10 v))" (is "?l \<longleftrightarrow> ?r")
  proof
    assume ?l then show ?r using dec_digits_val [of v] by simp
  next
    assume r: ?r
    then have "length v \<le> 4" using length_radix_le [of 10 4 "digits_val 10 v"] by simp
    moreover have "hd v \<noteq> 48"
    proof -
      from hd_radix [of 10 "digits_val 10 v"] r obtain d where "0 < d" "d < 10" "hd v = digit_unit d" by auto
      moreover from this have "digit_val (hd v) = d" by (simp add: digit_val_unit)
      ultimately show ?thesis by (auto simp: digit_val_def)
    qed
    ultimately show ?l using r dec_is_digit [of "digits_val 10 v"] by (metis radix_not_Nil)
  qed
  have val: "digits_val 10 (dec n) = n" for n by (simp add: digits_val_radix)
  have "parseRetryAfter (Some v) (jint now) = (if ?l then Some (jint (now + 1000 * int (digits_val 10 v))) else None)"
    using rounded [of "digits_val 10 v"] by (auto simp: parseRetryAfter_def Let_def jint_def)
  then show ?thesis unfolding shape using val by auto
qed

section \<open>Witnesses\<close>

definition example_url :: url where
  "example_url = \<lparr>protocol = js ''http:'', username = [], password = [], host = js ''h'', pathname = js ''/'',
     search = [], hash = [], marks = []\<rparr>"

definition example_parser :: url_parser where
  "example_parser t = (if t = js ''http://h'' \<or> t = js ''http://h/'' then Some example_url else None)"

lemma example_parser_laws: "url_laws example_parser"
proof -
  have "trim (base_text example_url) = base_text example_url \<and> example_parser (base_text example_url) = Some (bare_url example_url)"
    by code_simp
  then show ?thesis by (auto simp: url_laws_def example_parser_def split: if_splits)
qed

definition example_raw :: jval where
  "example_raw = obj [(''apiBase'', str ''http://h/''), (''addresses'', arr [str '' a'', str ''a '', str ''b''])]"

lemma example_canonical: "submitted_input example_parser Topology example_raw = Some (TopologyInput
    \<lparr>ti_base = js ''http://h'', ti_addresses = [js ''a'', js ''b''], ti_attempts = 5, ti_timeout = 5000, ti_auth = False\<rparr>)"
  by code_simp

lemma example_revision: "auth_revision JUndef = Some 0"
  by (simp add: auth_revision_def numericInteger_def)

lemma example_signature: "inputSignature example_parser Topology example_raw JUndef \<noteq> None"
  by (simp add: inputSignature_def example_canonical example_revision)

theorem canonical_input_stable_witness:
  "\<exists>c s. submitted_input example_parser Topology example_raw = Some c \<and>
     inputSignature example_parser Topology (input_value c) JUndef = Some s"
proof -
  obtain s where "inputSignature example_parser Topology example_raw JUndef = Some s" using example_signature by blast
  from canonical_input_stable [OF example_parser_laws example_canonical this] example_canonical show ?thesis by blast
qed

theorem inputSignature_exact_witness:
  "\<exists>s. inputSignature example_parser Topology example_raw JUndef = Some s \<and> auth_revision JUndef = Some 0"
proof -
  obtain s where s: "inputSignature example_parser Topology example_raw JUndef = Some s" using example_signature by blast
  with inputSignature_exact [OF s s] example_revision show ?thesis by simp
qed

definition example_payload :: jval where
  "example_payload = obj [(''timeout_ms'', num 2000), (''targets'', arr [obj [(''kind'', str ''traceroute''), (''attempts'', num 3)]])]"

lemma example_timeout: "clientTimeoutMS example_payload = Some 21000"
  by code_simp

theorem clientTimeoutMS_covers_witness:
  "clientTimeoutMS example_payload = Some 21000 \<and> (21000 :: int) \<le> 315000"
  using clientTimeoutMS_covers [OF example_timeout] example_timeout by auto

theorem parseRetryAfter_exact_witness:
  "parseRetryAfter (Some (dec 30)) (jint 1000) = Some (jint 31000)"
  by (subst parseRetryAfter_exact) (simp_all add: exI [of _ 30])

end
