(* ===== verification/Api_Error.thy ===== *)
theory Api_Error
  imports Request_Input
begin

text \<open>
  The error responses of the API as \<open>frontend/state.js\<close> reads them: the strict scanner of error
  bodies (\<open>parseStrictAPIErrorJSON\<close>), with its limits on depth, tokens, properties and string
  length, the registry of known errors, and the failing branch of \<open>parseResponse\<close>.
\<close>

section \<open>The scanner\<close>

definition BODY_UNITS :: nat where "BODY_UNITS = 65536"
definition MAX_DEPTH :: nat where "MAX_DEPTH = 2"
definition MAX_TOKENS :: nat where "MAX_TOKENS = 10"
definition MAX_PROPERTIES :: nat where "MAX_PROPERTIES = 3"
definition MAX_UNITS :: nat where "MAX_UNITS = 128"

text \<open>The scanner's variables: what is left of the body from \<open>index\<close> on, and the counters.  The
  properties are counted down, to the number that may still be read.\<close>

record scan =
  s_rest :: jstr
  s_depth :: nat
  s_tokens :: nat
  s_left :: nat

definition json_space :: "unit16 \<Rightarrow> bool" where
  "json_space c \<longleftrightarrow> c = 32 \<or> c = 9 \<or> c = 10 \<or> c = 13"

definition skipWhitespace :: "scan \<Rightarrow> scan" where
  "skipWhitespace st = st\<lparr>s_rest := dropWhile json_space (s_rest st)\<rparr>"

definition countToken :: "scan \<Rightarrow> scan option" where
  "countToken st = (if s_tokens st + 1 > MAX_TOKENS then None else Some (st\<lparr>s_tokens := s_tokens st + 1\<rparr>))"

text \<open>\<open>body[index++]\<close> compared with a character.\<close>

definition take_unit :: "unit16 \<Rightarrow> scan \<Rightarrow> scan option" where
  "take_unit c st = (case s_rest st of [] \<Rightarrow> None | d # r \<Rightarrow> if d = c then Some (st\<lparr>s_rest := r\<rparr>) else None)"

definition expect :: "unit16 \<Rightarrow> scan \<Rightarrow> scan option" where
  "expect c st = take_unit c (skipWhitespace st)"

definition looking_at :: "unit16 \<Rightarrow> scan \<Rightarrow> bool" where
  "looking_at c st \<longleftrightarrow> s_rest st \<noteq> [] \<and> hd (s_rest st) = c"

definition hexUnit :: "jstr \<Rightarrow> unit16 option" where
  "hexUnit r = (if 4 \<le> length r \<and> (\<forall>c \<in> set (take 4 r). is_hex c)
     then Some (of_nat (digits_val 16 (take 4 r))) else None)"

definition simple_unit :: "unit16 \<Rightarrow> unit16 option" where
  "simple_unit e = map_of [(cQuote, cQuote), (cBackslash, cBackslash), (cSlash, cSlash), (98, 8), (102, 12),
     (110, 10), (114, 13), (116, 9)] e"

text \<open>After a backslash: the units appended and what is left.\<close>

definition escaped :: "jstr \<Rightarrow> (jstr \<times> jstr) option" where
  "escaped r = (case r of [] \<Rightarrow> None | e # r1 \<Rightarrow>
     (case simple_unit e of Some v \<Rightarrow> Some ([v], r1)
      | None \<Rightarrow> if e \<noteq> cU then None else
         (case hexUnit r1 of None \<Rightarrow> None | Some v \<Rightarrow>
            let r2 = drop 4 r1 in
            if is_high v then
              (case r2 of b # x # r3 \<Rightarrow> if b \<noteq> cBackslash \<or> x \<noteq> cU then None else
                 (case hexUnit r3 of None \<Rightarrow> None | Some low \<Rightarrow>
                    if is_low low then Some ([v, low], drop 4 r3) else None)
               | _ \<Rightarrow> None)
            else if is_low v then None else Some ([v], r2))))"

text \<open>One turn of the loop of \<open>readString\<close> on a unit that does not close the string.\<close>

definition string_piece :: "unit16 \<Rightarrow> jstr \<Rightarrow> (jstr \<times> jstr) option" where
  "string_piece c r = (if c < 32 then None
     else if c = cBackslash then escaped r
     else if is_high c then (case r of [] \<Rightarrow> None | low # r1 \<Rightarrow> if is_low low then Some ([c, low], r1) else None)
     else if is_low c then None else Some ([c], r))"

lemma escaped_shrinks: "escaped r = Some (us, r') \<Longrightarrow> length r' < length r"
  by (auto simp: escaped_def Let_def split: list.splits option.splits if_splits)
    (metis diff_le_self drop_Suc_Cons length_drop less_Suc_eq_le list.size(4) add.commute plus_1_eq_Suc le_trans less_imp_le_nat lessI)+

lemma string_piece_shrinks: "string_piece c r = Some (us, r') \<Longrightarrow> length r' \<le> length r"
  by (auto simp: string_piece_def dest: escaped_shrinks split: list.splits if_splits)

function read_units :: "nat \<Rightarrow> jstr \<Rightarrow> (jstr \<times> jstr) option" where
  "read_units units s = (case s of [] \<Rightarrow> None | c # r \<Rightarrow>
     if c = cQuote then Some ([], r)
     else (case string_piece c r of None \<Rightarrow> None | Some (us, r') \<Rightarrow>
       if units + length us > MAX_UNITS then None
       else map_option (\<lambda>(t, r2). (us @ t, r2)) (read_units (units + length us) r')))"
  by pat_completeness auto
termination
  by (relation "measure (length \<circ> snd)") (auto dest: string_piece_shrinks)

declare read_units.simps [simp del]

definition readString :: "scan \<Rightarrow> (jstr \<times> scan) option" where
  "readString st = do {
     st \<leftarrow> countToken (skipWhitespace st);
     st \<leftarrow> take_unit cQuote st;
     (t, r) \<leftarrow> read_units 0 (s_rest st);
     Some (t, st\<lparr>s_rest := r\<rparr>) }"

definition beginObject :: "scan \<Rightarrow> scan option" where
  "beginObject st = do {
     st \<leftarrow> countToken (skipWhitespace st);
     st \<leftarrow> take_unit cLBrace st;
     guard (s_depth st + 1 \<le> MAX_DEPTH);
     Some (st\<lparr>s_depth := s_depth st + 1\<rparr>) }"

definition endObject :: "scan \<Rightarrow> scan option" where
  "endObject st = do {
     st \<leftarrow> countToken (skipWhitespace st);
     st \<leftarrow> take_unit cRBrace st;
     guard (0 < s_depth st);
     Some (st\<lparr>s_depth := s_depth st - 1\<rparr>) }"

definition readName :: "jstr list \<Rightarrow> scan \<Rightarrow> (jstr \<times> scan) option" where
  "readName seen st = do {
     (name, st) \<leftarrow> readString st;
     guard (0 < s_left st \<and> name \<notin> set seen);
     st \<leftarrow> expect cColon (st\<lparr>s_left := s_left st - 1\<rparr>);
     Some (name, st) }"

lemma skipWhitespace_left [simp]: "s_left (skipWhitespace st) = s_left st"
  by (simp add: skipWhitespace_def)

lemma countToken_left: "countToken st = Some st' \<Longrightarrow> s_left st' = s_left st"
  by (auto simp: countToken_def split: if_splits)

lemma take_unit_left: "take_unit c st = Some st' \<Longrightarrow> s_left st' = s_left st"
  by (cases "s_rest st") (auto simp: take_unit_def split: if_splits)

lemmas step_left = countToken_left take_unit_left

lemma readString_left: "readString st = Some (t, st') \<Longrightarrow> s_left st' = s_left st"
  by (auto simp: readString_def option_elims dest!: step_left)

lemma expect_left: "expect c st = Some st' \<Longrightarrow> s_left st' = s_left st"
  by (auto simp: expect_def dest!: step_left)

lemma beginObject_left: "beginObject st = Some st' \<Longrightarrow> s_left st' = s_left st"
  by (auto simp: beginObject_def option_elims dest!: step_left)

lemma endObject_left: "endObject st = Some st' \<Longrightarrow> s_left st' = s_left st"
  by (auto simp: endObject_def option_elims dest!: step_left)

lemma readName_left: "readName seen st = Some (t, st') \<Longrightarrow> s_left st' < s_left st"
  by (auto simp: readName_def option_elims dest!: readString_left expect_left)

text \<open>The inner loop over the fields of the error, up to the last one that is followed by no comma.\<close>

function error_fields :: "jstr list \<Rightarrow> jstr option \<Rightarrow> jstr option \<Rightarrow> scan \<Rightarrow> (jstr option \<times> jstr option \<times> scan) option" where
  "error_fields seen code message st = (case readName seen st of None \<Rightarrow> None | Some (name, st1) \<Rightarrow>
     (case (if name = js ''code'' \<or> name = js ''message'' then readString st1 else None) of None \<Rightarrow> None
      | Some (t, st2) \<Rightarrow>
         let code' = (if name = js ''code'' then Some t else code);
             message' = (if name = js ''code'' then message else Some t);
             st3 = skipWhitespace st2
         in if looking_at cComma st3
            then error_fields (name # seen) code' message' (st3\<lparr>s_rest := tl (s_rest st3)\<rparr>)
            else Some (code', message', st3)))"
  by pat_completeness auto
termination
  by (relation "measure (\<lambda>(seen, code, message, st). s_left st)")
    (auto simp: skipWhitespace_def dest!: readName_left readString_left split: if_splits)

declare error_fields.simps [simp del]

definition error_object :: "scan \<Rightarrow> (jstr \<times> jstr \<times> scan) option" where
  "error_object st = do {
     st \<leftarrow> beginObject st;
     (code, message, st) \<leftarrow> (let st = skipWhitespace st in
        if looking_at cRBrace st then Some (None, None, st) else error_fields [] None None st);
     st \<leftarrow> endObject st;
     c \<leftarrow> code;
     t \<leftarrow> message;
     Some (c, t, skipWhitespace st) }"

lemma error_fields_left: "error_fields seen c m st = Some (c', m', st') \<Longrightarrow> s_left st' \<le> s_left st"
proof (induction seen c m st rule: error_fields.induct)
  case (1 seen code message st)
  from 1(2) obtain name st1 t st2 where a: "readName seen st = Some (name, st1)" "readString st1 = Some (t, st2)"
    "name = js ''code'' \<or> name = js ''message''"
    by (subst (asm) error_fields.simps) (auto split: option.splits if_splits)
  then have "s_left st2 < s_left st" by (simp add: readName_left readString_left)
  moreover from a 1(2) have "st' = skipWhitespace st2 \<or>
      s_left st' \<le> s_left ((skipWhitespace st2)\<lparr>s_rest := tl (s_rest (skipWhitespace st2))\<rparr>)"
    using 1(1) [OF a(1) refl] unfolding error_fields.simps [of seen code message st]
    by (auto simp: Let_def split: if_splits)
  ultimately show ?case by auto
qed

lemma error_object_left: "error_object st = Some (c, t, st') \<Longrightarrow> s_left st' \<le> s_left st"
  by (auto simp: error_object_def Let_def option_elims dest!: beginObject_left endObject_left error_fields_left
      split: if_splits)

function root_members :: "jstr list \<Rightarrow> (jstr \<times> jstr) option \<Rightarrow> scan \<Rightarrow> ((jstr \<times> jstr) option \<times> scan) option" where
  "root_members seen parsed st = (case readName seen st of None \<Rightarrow> None | Some (name, st1) \<Rightarrow>
     (case (if name = js ''error'' then error_object st1 else None) of None \<Rightarrow> None
      | Some (code, message, st2) \<Rightarrow>
         if looking_at cComma st2
         then root_members (name # seen) (Some (code, message)) (st2\<lparr>s_rest := tl (s_rest st2)\<rparr>)
         else Some (Some (code, message), st2)))"
  by pat_completeness auto
termination
  by (relation "measure (\<lambda>(seen, parsed, st). s_left st)")
    (auto dest!: readName_left error_object_left split: if_splits)

declare root_members.simps [simp del]

definition parseStrictAPIErrorJSON :: "jstr \<Rightarrow> (jstr \<times> jstr) option" where
  "parseStrictAPIErrorJSON body = (if length body > BODY_UNITS then None else do {
     st \<leftarrow> beginObject \<lparr>s_rest = body, s_depth = 0, s_tokens = 0, s_left = MAX_PROPERTIES\<rparr>;
     (parsed, st) \<leftarrow> (let st = skipWhitespace st in
        if looking_at cRBrace st then Some (None, st) else root_members [] None st);
     st \<leftarrow> endObject st;
     st \<leftarrow> countToken (skipWhitespace st);
     guard (s_rest st = [] \<and> s_depth st = 0);
     parsed })"

section \<open>Known errors and failed responses\<close>

record api_error =
  x_status :: int
  x_code :: jstr
  x_retryable :: bool
  x_retryAfter :: bool
  x_message :: jstr

definition row :: "int \<Rightarrow> string \<Rightarrow> bool \<Rightarrow> bool \<Rightarrow> string \<Rightarrow> api_error" where
  "row status code retryable retryAfter message = \<lparr>x_status = status, x_code = js code, x_retryable = retryable,
     x_retryAfter = retryAfter, x_message = js message\<rparr>"

definition API_ERROR_REGISTRY :: "api_error list" where
  "API_ERROR_REGISTRY = [
     row 503 ''body_decode_capacity_unavailable'' True True ''request body decode capacity is temporarily unavailable'',
     row 500 ''compact_response_too_large'' True False ''compact report response exceeds the size limit'',
     row 500 ''full_response_too_large'' True False ''full report response exceeds the size limit'',
     row 500 ''internal_error'' True False ''report could not be generated'',
     row 400 ''invalid_json'' False False ''request body must be a valid JSON report request'',
     row 422 ''invalid_request'' False False ''request is invalid'',
     row 405 ''unmatched'' False False ''route not found'',
     row 422 ''network_policy_blocked'' False False ''target is not allowed in public mode'',
     row 429 ''rate_limited'' True True ''per-client request limit exceeded'',
     row 413 ''request_too_large'' False False ''request body exceeds the size limit'',
     row 500 ''response_serialization_failed'' True False ''report response could not be serialized'',
     row 404 ''unmatched'' False False ''route not found'',
     row 503 ''server_busy'' True True ''report capacity is temporarily unavailable'',
     row 503 ''server_draining'' True True ''server is draining and temporarily unavailable'',
     row 401 ''unauthorized'' False False ''valid API credentials are required'',
     row 503 ''write_capacity_unavailable'' True False ''report response write capacity is temporarily unavailable'']"

text \<open>The map's key is the status and the code joined by a unit that no status contains.\<close>

definition registered :: "int \<Rightarrow> jstr \<Rightarrow> api_error option" where
  "registered status code = List.find (\<lambda>r. x_status r = status \<and> x_code r = code) API_ERROR_REGISTRY"

definition invalid_server_error :: "int \<Rightarrow> request_error" where
  "invalid_server_error status = normalizedError EInvalidResponse (js ''invalid_server_response'') (Some status)
     (js ''The server returned an invalid error response.'') None False"

text \<open>\<open>parseResponse\<close> of a response that is not \<open>ok\<close>: its status, body and \<open>Retry-After\<close> header.\<close>

definition parseFailure :: "int \<Rightarrow> jstr \<Rightarrow> jstr option \<Rightarrow> jnum \<Rightarrow> request_error" where
  "parseFailure status body retry_after now =
     (case parseStrictAPIErrorJSON body of None \<Rightarrow> invalid_server_error status
      | Some (code, message) \<Rightarrow>
         (case registered status code of None \<Rightarrow> invalid_server_error status
          | Some d \<Rightarrow> if message \<noteq> x_message d then invalid_server_error status
              else normalizedError EHttp (x_code d) (Some status) (x_message d)
                (if x_retryAfter d then parseRetryAfter retry_after now else None) (x_retryable d)))"

section \<open>What the scanner accepts\<close>

fun well_formed :: "jstr \<Rightarrow> bool" where
  "well_formed [] = True"
| "well_formed [c] = (\<not> is_high c \<and> \<not> is_low c)"
| "well_formed (c # d # s) = (if is_high c then is_low d \<and> well_formed s
     else \<not> is_low c \<and> well_formed (d # s))"

lemma high_not_low: "is_high c \<Longrightarrow> \<not> is_low c"
  by (auto simp: is_high_def is_low_def word_le_nat_alt)

lemma high_not_control: "is_high c \<Longrightarrow> \<not> c < 32"
  by (auto simp: is_high_def word_le_nat_alt word_less_nat_alt)

lemma well_formed_Cons: "\<not> is_high c \<Longrightarrow> \<not> is_low c \<Longrightarrow> well_formed (c # s) = well_formed s"
  by (cases s) auto

lemma escaped_well_formed: "escaped r = Some (us, r') \<Longrightarrow> well_formed t \<Longrightarrow> well_formed (us @ t)"
proof -
  assume a: "escaped r = Some (us, r')" "well_formed t"
  have "simple_unit e = Some v \<Longrightarrow> \<not> is_high v \<and> \<not> is_low v" for e v
    by (auto simp: simple_unit_def is_high_def is_low_def split: if_splits)
  with a show ?thesis
    by (auto simp: escaped_def Let_def well_formed_Cons split: list.splits option.splits if_splits)
qed

lemma string_piece_well_formed: "string_piece c r = Some (us, r') \<Longrightarrow> well_formed t \<Longrightarrow> well_formed (us @ t)"
  by (auto simp: string_piece_def well_formed_Cons dest: escaped_well_formed split: list.splits if_splits)

lemma read_units_bounds:
  "read_units u s = Some (t, r) \<Longrightarrow> well_formed t \<and> (u \<le> MAX_UNITS \<longrightarrow> u + length t \<le> MAX_UNITS)"
proof (induction u s arbitrary: t r rule: read_units.induct)
  case (1 u s)
  show ?case
  proof (cases s)
    case Nil with 1(2) show ?thesis by (simp add: read_units.simps)
  next
    case (Cons c r0)
    show ?thesis
    proof (cases "c = cQuote")
      case True with 1(2) Cons show ?thesis by (simp add: read_units.simps)
    next
      case False
      with 1(2) Cons obtain us r' t' where p: "string_piece c r0 = Some (us, r')" "\<not> u + length us > MAX_UNITS"
        "read_units (u + length us) r' = Some (t', r)" "t = us @ t'"
        by (subst (asm) read_units.simps) (auto split: option.splits if_splits)
      from 1(1) [OF Cons False p(1) refl p(2,3)] p show ?thesis by (simp add: string_piece_well_formed)
    qed
  qed
qed

lemma readString_bounds: "readString st = Some (t, st') \<Longrightarrow> well_formed t \<and> length t \<le> MAX_UNITS"
  by (auto simp: readString_def option_elims dest!: read_units_bounds)

definition good_text :: "jstr option \<Rightarrow> bool" where
  "good_text t \<longleftrightarrow> (\<forall>s. t = Some s \<longrightarrow> well_formed s \<and> length s \<le> MAX_UNITS)"

lemma error_fields_good:
  "error_fields seen c m st = Some (c', m', st') \<Longrightarrow> good_text c \<Longrightarrow> good_text m \<Longrightarrow> good_text c' \<and> good_text m'"
proof (induction seen c m st rule: error_fields.induct)
  case (1 seen code message st)
  from 1(2) obtain name st1 t st2 where a: "readName seen st = Some (name, st1)" "readString st1 = Some (t, st2)"
    "name = js ''code'' \<or> name = js ''message''"
    by (subst (asm) error_fields.simps) (auto split: option.splits if_splits)
  note t = readString_bounds [OF a(2)]
  have good: "good_text (Some t)" using t by (simp add: good_text_def)
  from a 1(2,3,4) show ?case
    using 1(1) [OF a(1) refl] good unfolding error_fields.simps [of seen code message st]
    by (auto simp: Let_def split: if_splits)
qed

lemma error_object_good:
  "error_object st = Some (c, t, st') \<Longrightarrow> good_text (Some c) \<and> good_text (Some t)"
  by (auto simp: error_object_def Let_def option_elims good_text_def [of None] dest!: error_fields_good split: if_splits)

definition good_error :: "(jstr \<times> jstr) option \<Rightarrow> bool" where
  "good_error e \<longleftrightarrow> (\<forall>c t. e = Some (c, t) \<longrightarrow> good_text (Some c) \<and> good_text (Some t))"

lemma root_members_good: "root_members seen parsed st = Some (e, st') \<Longrightarrow> good_error e"
proof (induction seen parsed st rule: root_members.induct)
  case (1 seen parsed st)
  from 1(2) obtain name st1 c t st2 where a: "readName seen st = Some (name, st1)" "name = js ''error''"
    "error_object st1 = Some (c, t, st2)"
    by (subst (asm) root_members.simps) (auto split: option.splits if_splits)
  from 1(2) a 1(1) [OF a(1) refl] error_object_good [OF a(3)] show ?case
    unfolding root_members.simps [of seen parsed st] by (auto simp: good_error_def split: if_splits)
qed

text \<open>
  C37: the scanner accepts only small, well-formed errors: a body of at most 65536 units whose code
  and message are well-formed UTF-16 (no lone surrogate) of at most 128 units each.
\<close>

theorem accepted_error_is_small:
  assumes "parseStrictAPIErrorJSON body = Some (code, message)"
  shows "length body \<le> 65536 \<and> well_formed code \<and> length code \<le> 128 \<and> well_formed message \<and> length message \<le> 128"
proof -
  from assms obtain st st' where "root_members [] None st = Some (Some (code, message), st')"
    by (auto simp: parseStrictAPIErrorJSON_def Let_def option_elims split: if_splits)
  from root_members_good [OF this] have "good_text (Some code) \<and> good_text (Some message)" by (simp add: good_error_def)
  moreover have "length body \<le> BODY_UNITS" using assms by (simp add: parseStrictAPIErrorJSON_def split: if_splits)
  ultimately show ?thesis by (simp add: good_text_def MAX_UNITS_def BODY_UNITS_def)
qed

section \<open>What the server sends is read back\<close>

text \<open>\<open>JSON.stringify({ error: { code, message } })\<close>.\<close>

definition error_json :: "jstr \<Rightarrow> jstr \<Rightarrow> jstr" where
  "error_json code message = cLBrace # field ''error'' @ cLBrace # field ''code'' @ quote code @ cComma #
     field ''message'' @ quote message @ [cRBrace, cRBrace]"

lemma is_hex_zeros: "\<forall>c \<in> set (replicate k 48 @ hex n). is_hex c"
  using hex_is_hex [of n] by (auto simp: is_hex_def is_digit_def)

lemma hexUnit_escape:
  "\<exists>x1 x2 x3 x4. unicode_escape c = [cBackslash, cU, x1, x2, x3, x4] \<and> hexUnit (x1 # x2 # x3 # x4 # r) = Some c"
proof -
  obtain x1 x2 x3 x4 where x: "unicode_escape c = [cBackslash, cU, x1, x2, x3, x4]" "digits_val 16 [x1, x2, x3, x4] = unat c"
    using unicode_escape_eq by blast
  then have "replicate (4 - length (hex (unat c))) 48 @ hex (unat c) = [x1, x2, x3, x4]"
    by (simp add: unicode_escape_def Let_def)
  then have "\<forall>c \<in> set [x1, x2, x3, x4]. is_hex c" using is_hex_zeros by metis
  with x show ?thesis by (simp add: hexUnit_def)
qed

lemma string_piece_escape:
  assumes "\<not> is_high c" "\<not> is_low c"
  shows "\<exists>x xs. escape_unit c = x # xs \<and> x \<noteq> cQuote \<and> string_piece x (xs @ r) = Some ([c], r)"
proof -
  obtain x1 x2 x3 x4 where x: "unicode_escape c = [cBackslash, cU, x1, x2, x3, x4]"
    "hexUnit (x1 # x2 # x3 # x4 # r) = Some c" using hexUnit_escape by blast
  with assms show ?thesis
    by (auto simp: escape_unit_def string_piece_def escaped_def simple_unit_def)
qed

lemma read_units_Cons:
  "x \<noteq> cQuote \<Longrightarrow> string_piece x xs = Some (us, r) \<Longrightarrow> u + length us \<le> MAX_UNITS \<Longrightarrow>
   read_units u (x # xs) = map_option (\<lambda>(t, r2). (us @ t, r2)) (read_units (u + length us) r)"
  by (subst read_units.simps) simp

lemma read_units_escape:
  assumes "\<not> is_high c" "\<not> is_low c" "u + 1 \<le> MAX_UNITS"
  shows "read_units u (escape_unit c @ r) = map_option (\<lambda>(t, r2). (c # t, r2)) (read_units (u + 1) r)"
  using string_piece_escape [OF assms(1,2), of r] read_units_Cons [where us = "[c]" and r = r and u = u] assms(3) by auto

lemma read_units_quote:
  "well_formed s \<Longrightarrow> u + length s \<le> MAX_UNITS \<Longrightarrow> read_units u (quote_units s @ cQuote # r) = Some (s, r)"
proof (induction s arbitrary: u rule: quote_units.induct)
  case 1 then show ?case by (simp add: read_units.simps)
next
  case (2 c)
  then show ?case by (simp add: read_units_escape read_units.simps [of _ "cQuote # r"])
next
  case (3 c d s)
  show ?case
  proof (cases "is_high c")
    case True
    with 3(3) have d: "is_low d" "well_formed s" by auto
    have "c \<noteq> cQuote" "string_piece c (d # quote_units s @ cQuote # r) = Some ([c, d], quote_units s @ cQuote # r)"
      using True d high_not_control [OF True] by (auto simp: string_piece_def, auto simp: is_high_def)
    then show ?thesis using 3(1) [of "u + 2"] 3(4) True d by (simp add: read_units_Cons)
  next
    case False
    with 3 show ?thesis by (simp add: read_units_escape)
  qed
qed

lemma readString_quote:
  assumes "well_formed s" "length s \<le> MAX_UNITS" "k < MAX_TOKENS"
  shows "readString \<lparr>s_rest = quote s @ r, s_depth = d, s_tokens = k, s_left = n\<rparr> =
    Some (s, \<lparr>s_rest = r, s_depth = d, s_tokens = k + 1, s_left = n\<rparr>)"
  using assms read_units_quote [of s 0 r]
  by (simp add: readString_def skipWhitespace_def countToken_def take_unit_def quote_def json_space_def)

lemma readName_field:
  assumes "well_formed (js nm)" "length nm \<le> MAX_UNITS" "k < MAX_TOKENS" "0 < n" "js nm \<notin> set seen"
  shows "readName seen \<lparr>s_rest = field nm @ r, s_depth = d, s_tokens = k, s_left = n\<rparr> =
    Some (js nm, \<lparr>s_rest = r, s_depth = d, s_tokens = k + 1, s_left = n - 1\<rparr>)"
  using assms readString_quote [of "js nm" k "cColon # r" d n]
  by (simp add: readName_def field_def expect_def skipWhitespace_def take_unit_def json_space_def)

lemma error_names: "well_formed (js ''error'')" "well_formed (js ''code'')" "well_formed (js ''message'')"
  by code_simp+

lemmas scan_limits = MAX_TOKENS_def MAX_UNITS_def MAX_DEPTH_def MAX_PROPERTIES_def

lemma skipWhitespace_here:
  "\<not> json_space c \<Longrightarrow> skipWhitespace \<lparr>s_rest = c # r, s_depth = d, s_tokens = k, s_left = n\<rparr> =
     \<lparr>s_rest = c # r, s_depth = d, s_tokens = k, s_left = n\<rparr>"
  by (simp add: skipWhitespace_def)

lemma not_spaces [simp]: "\<not> json_space cComma" "\<not> json_space cRBrace" "\<not> json_space cLBrace" "\<not> json_space cQuote"
  by (simp_all add: json_space_def)

lemma error_fields_json:
  assumes "well_formed c" "length c \<le> 128" "well_formed t" "length t \<le> 128"
  shows "error_fields [] None None \<lparr>s_rest = field ''code'' @ quote c @ cComma # field ''message'' @ quote t @ cRBrace # r,
      s_depth = 2, s_tokens = 3, s_left = 2\<rparr> =
    Some (Some c, Some t, \<lparr>s_rest = cRBrace # r, s_depth = 2, s_tokens = 7, s_left = 0\<rparr>)"
  using assms
  by (simp add: error_fields.simps readName_field error_names readString_quote scan_limits skipWhitespace_here
      looking_at_def js_eq_iff)

lemma field_open: "\<exists>r'. field nm @ r = cQuote # r'"
  by (simp add: field_def quote_def)

lemma begin_at:
  "k < MAX_TOKENS \<Longrightarrow> d + 1 \<le> MAX_DEPTH \<Longrightarrow> beginObject \<lparr>s_rest = cLBrace # r, s_depth = d, s_tokens = k, s_left = n\<rparr> =
     Some \<lparr>s_rest = r, s_depth = d + 1, s_tokens = k + 1, s_left = n\<rparr>"
  by (simp add: beginObject_def skipWhitespace_here countToken_def take_unit_def)

lemma end_at:
  "k < MAX_TOKENS \<Longrightarrow> 0 < d \<Longrightarrow> endObject \<lparr>s_rest = cRBrace # r, s_depth = d, s_tokens = k, s_left = n\<rparr> =
     Some \<lparr>s_rest = r, s_depth = d - 1, s_tokens = k + 1, s_left = n\<rparr>"
  by (simp add: endObject_def skipWhitespace_here countToken_def take_unit_def)

lemma skip_field:
  "skipWhitespace \<lparr>s_rest = field nm @ r, s_depth = d, s_tokens = k, s_left = n\<rparr> =
     \<lparr>s_rest = field nm @ r, s_depth = d, s_tokens = k, s_left = n\<rparr>"
  "\<not> looking_at cRBrace \<lparr>s_rest = field nm @ r, s_depth = d, s_tokens = k, s_left = n\<rparr>"
  by (simp_all add: field_def quote_def skipWhitespace_here looking_at_def)

lemma error_object_json:
  assumes "well_formed c" "length c \<le> 128" "well_formed t" "length t \<le> 128"
  shows "error_object \<lparr>s_rest = cLBrace # field ''code'' @ quote c @ cComma # field ''message'' @ quote t @ [cRBrace, cRBrace],
      s_depth = 1, s_tokens = 2, s_left = 2\<rparr> =
    Some (c, t, \<lparr>s_rest = [cRBrace], s_depth = 1, s_tokens = 8, s_left = 0\<rparr>)"
  using error_fields_json [OF assms, of "[cRBrace]"]
  by (simp add: error_object_def begin_at end_at skip_field scan_limits skipWhitespace_here Let_def del: One_nat_def)

lemma parse_error_json:
  assumes "well_formed c" "length c \<le> 128" "well_formed t" "length t \<le> 128"
  shows "parseStrictAPIErrorJSON (error_json c t) = Some (c, t)"
proof -
  have "length (quote_units s) \<le> 6 * length s" for s
  proof (induction s rule: quote_units.induct)
    case 1 then show ?case by simp
  next
    case (2 c) obtain x1 x2 x3 x4 where "unicode_escape c = [cBackslash, cU, x1, x2, x3, x4]" using unicode_escape_eq by blast
    then show ?case by (simp add: escape_unit_def)
  next
    case (3 c d s) obtain x1 x2 x3 x4 where "unicode_escape c = [cBackslash, cU, x1, x2, x3, x4]" using unicode_escape_eq by blast
    with 3 show ?case by (auto simp: escape_unit_def)
  qed
  from this [of c] this [of t] have "length (error_json c t) \<le> BODY_UNITS"
    using assms by (simp add: error_json_def field_def quote_def BODY_UNITS_def js_def escape_unit_def is_high_def is_low_def)
  moreover have "root_members [] None \<lparr>s_rest = field ''error'' @ cLBrace # field ''code'' @ quote c @ cComma # field ''message'' @
      quote t @ [cRBrace, cRBrace], s_depth = 1, s_tokens = 1, s_left = 3\<rparr> =
    Some (Some (c, t), \<lparr>s_rest = [cRBrace], s_depth = 1, s_tokens = 8, s_left = 0\<rparr>)"
    using error_object_json [OF assms]
    by (simp add: root_members.simps readName_field error_names scan_limits looking_at_def del: One_nat_def)
  ultimately show ?thesis
    by (simp add: parseStrictAPIErrorJSON_def error_json_def begin_at skip_field end_at scan_limits Let_def)
      (simp add: skipWhitespace_def countToken_def scan_limits)
qed

text \<open>
  Every error of well-formed texts of at most 128 units that the server serialises is read
  back as it was sent.
\<close>

theorem error_json_reads_back:
  assumes "well_formed c" "length c \<le> 128" "well_formed t" "length t \<le> 128"
  shows "parseStrictAPIErrorJSON (error_json c t) = Some (c, t)"
  using assms by (rule parse_error_json)

text \<open>
  C26: a failed response shows no server text: its error is either the fixed invalid-response error
  or a row of the registry whose status and code are the response's and whose message the body
  repeats exactly; a retry time is taken only for the rows that allow one, and is the one
  \<open>Retry-After\<close> gives.
\<close>

theorem failure_is_registered:
  "parseFailure status body retry_after now = invalid_server_error status \<or>
   (\<exists>d \<in> set API_ERROR_REGISTRY. x_status d = status \<and>
      parseStrictAPIErrorJSON body = Some (x_code d, x_message d) \<and>
      parseFailure status body retry_after now = normalizedError EHttp (x_code d) (Some status) (x_message d)
        (if x_retryAfter d then parseRetryAfter retry_after now else None) (x_retryable d))"
proof (cases "parseStrictAPIErrorJSON body")
  case (Some e)
  obtain c t where e: "e = (c, t)" by (cases e)
  show ?thesis
  proof (cases "registered status c")
    case (Some d)
    then have "d \<in> set API_ERROR_REGISTRY" "x_status d = status" "x_code d = c"
      by (auto simp: registered_def find_Some_iff in_set_conv_nth)
    with Some e \<open>parseStrictAPIErrorJSON body = Some e\<close> show ?thesis
      by (cases "t = x_message d") (auto simp: parseFailure_def)
  qed (use \<open>parseStrictAPIErrorJSON body = Some e\<close> e in \<open>simp add: parseFailure_def\<close>)
qed (simp add: parseFailure_def)

section \<open>Witnesses\<close>

lemma example_error: "parseStrictAPIErrorJSON (error_json (js ''code'') (js ''message'')) = Some (js ''code'', js ''message'')"
  by (rule parse_error_json) (simp_all add: error_names)

theorem accepted_error_is_small_witness:
  "well_formed (js ''message'') \<and> length (error_json (js ''code'') (js ''message'')) \<le> 65536"
  using accepted_error_is_small [OF example_error] by simp

theorem error_json_reads_back_witness:
  "parseStrictAPIErrorJSON (error_json (js ''message'') (js ''error'')) = Some (js ''message'', js ''error'')"
  by (rule error_json_reads_back) (simp_all add: error_names)

end
