(* ===== verification/Json_Number.thy ===== *)
theory Json_Number
  imports Js_Number
begin

text \<open>
  Number tokens checked before they are converted: \<open>contextNumber\<close> and \<open>exactGeoCount\<close> of
  \<open>frontend/state.js\<close> decide from a token's digits whether its exact decimal value is a small
  natural number, as rounding could make a fraction look like one.
\<close>

section \<open>Number tokens\<close>

text \<open>The groups of the regular expressions: sign, whole part, fraction, and the exponent's sign
  and digits.\<close>

record num_token =
  t_neg :: bool
  t_whole :: jstr
  t_frac :: "jstr option"
  t_exp :: "(jstr \<times> jstr) option"

definition frac_digits :: "num_token \<Rightarrow> jstr" where
  "frac_digits t = (case t_frac t of Some f \<Rightarrow> f | None \<Rightarrow> [])"

definition exp_value :: "num_token \<Rightarrow> int" where
  "exp_value t = (case t_exp t of None \<Rightarrow> 0
     | Some (sg, ds) \<Rightarrow> (if sg = [cMinus] then - 1 else 1) * int (digits_val 10 ds))"

text \<open>The exact value of a token.\<close>

definition token_value :: "num_token \<Rightarrow> rat" where
  "token_value t = (if t_neg t then - 1 else 1) * decimal_value (t_whole t) (frac_digits t) (exp_value t)"

definition token_ok :: "num_token \<Rightarrow> bool" where
  "token_ok t \<longleftrightarrow> t_whole t \<noteq> [] \<and> (\<forall>c \<in> set (t_whole t @ frac_digits t). is_digit c) \<and>
     (\<forall>sg ds. t_exp t = Some (sg, ds) \<longrightarrow> sg \<in> {[], [cPlus], [cMinus]} \<and> ds \<noteq> [] \<and> (\<forall>c \<in> set ds. is_digit c))"

definition token_length :: "num_token \<Rightarrow> nat" where
  "token_length t = length (t_whole t) + length (frac_digits t) +
     (case t_exp t of None \<Rightarrow> 0 | Some (sg, ds) \<Rightarrow> length sg + length ds)"

section \<open>Digits\<close>

abbreviation cZero :: unit16 where "cZero \<equiv> 48"

definition drop_zeros :: "jstr \<Rightarrow> jstr" where
  "drop_zeros = dropWhile (\<lambda>c. c = cZero)"

definition drop_last_zeros :: "jstr \<Rightarrow> jstr" where
  "drop_last_zeros s = rev (drop_zeros (rev s))"

lemma digits_val_append: "digits_val 10 (xs @ ys) = digits_val 10 xs * 10 ^ length ys + digits_val 10 ys"
proof (induction ys rule: rev_induct)
  case (snoc y ys)
  have "digits_val 10 (xs @ ys @ [y]) = digits_val 10 (xs @ ys) * 10 + digit_val y"
    using digits_val_snoc [of 10 "xs @ ys" y] by simp
  with snoc show ?case by (simp add: digits_val_snoc algebra_simps)
qed simp

lemma digit_val_zero: "is_digit c \<Longrightarrow> digit_val c = 0 \<longleftrightarrow> c = cZero"
  by (metis digit_unit_val digit_unit_def add_0_right of_nat_numeral zero_less_numeral digit_val_unit zero_less_numeral)

lemma digits_val_less: "\<forall>c \<in> set ds. is_digit c \<Longrightarrow> digits_val 10 ds < 10 ^ length ds"
proof (induction ds rule: rev_induct)
  case (snoc c ds)
  then have "digits_val 10 ds + 1 \<le> 10 ^ length ds" "digit_val c < 10" using digit_unit_val [of c] by auto
  then show ?case by (simp add: digits_val_snoc)
qed simp

lemma digits_val_0_iff: "\<forall>c \<in> set ds. is_digit c \<Longrightarrow> digits_val 10 ds = 0 \<longleftrightarrow> (\<forall>c \<in> set ds. c = cZero)"
  by (induction ds rule: rev_induct) (auto simp: digits_val_snoc digit_val_zero)

lemma digits_val_drop_zeros: "digits_val 10 (drop_zeros ds) = digits_val 10 ds"
proof (induction ds)
  case (Cons c ds)
  have "digits_val 10 (cZero # ds) = digits_val 10 ds"
    using digits_val_append [of "[cZero]" ds] by (simp add: digits_val_def digit_val_def)
  with Cons show ?case by (simp add: drop_zeros_def)
qed (simp add: drop_zeros_def)

lemma drop_zeros_digits: "\<forall>c \<in> set ds. is_digit c \<Longrightarrow> \<forall>c \<in> set (drop_zeros ds). is_digit c"
  by (auto simp: drop_zeros_def dest: set_dropWhileD)

lemma hd_drop_zeros: "drop_zeros ds \<noteq> [] \<Longrightarrow> hd (drop_zeros ds) \<noteq> cZero"
  by (induction ds) (auto simp: drop_zeros_def)

lemma drop_zeros_Nil: "\<forall>c \<in> set ds. is_digit c \<Longrightarrow> drop_zeros ds = [] \<longleftrightarrow> digits_val 10 ds = 0"
  by (simp add: digits_val_0_iff drop_zeros_def dropWhile_eq_Nil_conv)

lemma digits_val_lower:
  assumes "\<forall>c \<in> set ds. is_digit c" "ds \<noteq> []" "hd ds \<noteq> cZero"
  shows "10 ^ (length ds - 1) \<le> digits_val 10 ds"
proof -
  obtain c cs where ds: "ds = c # cs" using assms(2) by (cases ds) auto
  have "1 \<le> digit_val c" using digit_val_zero [of c] assms ds by (cases "digit_val c") auto
  then have "10 ^ length cs \<le> digit_val c * 10 ^ length cs" by simp
  also have "\<dots> \<le> digits_val 10 ds"
    using digits_val_append [of "[c]" cs] by (simp add: ds digits_val_def)
  finally show ?thesis by (simp add: ds)
qed

lemma length_less_10:
  assumes "\<forall>c \<in> set ds. is_digit c" "ds \<noteq> []" "hd ds \<noteq> cZero" "digits_val 10 ds < 10 ^ k"
  shows "length ds \<le> k"
proof (rule ccontr)
  assume "\<not> length ds \<le> k"
  then have "(10::nat) ^ k \<le> 10 ^ (length ds - 1)" by (intro power_increasing) auto
  with digits_val_lower [OF assms(1-3)] assms(4) show False by (metis le_less_trans le_trans less_irrefl)
qed

section \<open>\<open>contextNumber\<close>\<close>

definition raw_exponent :: "num_token \<Rightarrow> jstr" where
  "raw_exponent t = (case t_exp t of None \<Rightarrow> [cZero]
     | Some (sg, ds) \<Rightarrow> let r = sg @ drop_zeros ds in if r = [] then [cZero] else r)"

text \<open>\<open>Number(rawExponent)\<close> of a text of an optional sign and digits; a lone sign counts as 0.\<close>

definition signed_value :: "jstr \<Rightarrow> int" where
  "signed_value r = (if r = [] then 0 else if hd r = cMinus then - int (digits_val 10 (tl r))
     else if hd r = cPlus then int (digits_val 10 (tl r)) else int (digits_val 10 r))"

text \<open>The digits shifted by the scale: trailing zeros cut off or zeros appended.\<close>

definition scale_digits :: "jstr \<Rightarrow> int \<Rightarrow> jstr option" where
  "scale_digits digits scale =
     (if scale < 0 then
        (let k = nat (- scale) in
         if k < length digits \<and> (\<forall>c \<in> set (drop (length digits - k) digits). c = cZero)
         then Some (take (length digits - k) digits) else None)
      else if int (length digits) + scale \<le> 10 then Some (digits @ replicate (nat scale) cZero) else None)"

definition contextNumber :: "num_token \<Rightarrow> int option" where
  "contextNumber t = (let digits = drop_zeros (t_whole t @ frac_digits t) in
     if digits = [] then Some 0
     else if t_neg t \<or> length (raw_exponent t) > 6 then None
     else (case scale_digits digits (signed_value (raw_exponent t) - int (length (frac_digits t))) of
       None \<Rightarrow> None
     | Some ds \<Rightarrow> if length ds > 10 then None
         else let value = int (digits_val 10 ds) in if value \<le> 4294967295 then Some value else None))"

lemma signed_value_raw: "token_ok t \<Longrightarrow> signed_value (raw_exponent t) = exp_value t"
proof -
  assume ok: "token_ok t"
  have "digits_val 10 ds = 0" if "drop_zeros ds = []" "\<forall>c \<in> set ds. is_digit c" for ds
    using that drop_zeros_Nil by blast
  moreover have "hd (drop_zeros ds) \<noteq> cMinus \<and> hd (drop_zeros ds) \<noteq> cPlus"
    if "\<forall>c \<in> set ds. is_digit c" "drop_zeros ds \<noteq> []" for ds
    using drop_zeros_digits [OF that(1)] hd_in_set [OF that(2)] by (auto simp: is_digit_def dest!: bspec)
  ultimately show ?thesis using ok
    by (auto simp: raw_exponent_def signed_value_def exp_value_def token_ok_def Let_def digits_val_drop_zeros
        split: option.splits) (auto simp: digits_val_def digit_val_def)
qed

text \<open>The value of a token is its significant digits times a power of ten.\<close>

lemma token_value_digits:
  "token_value t = (if t_neg t then - 1 else 1) *
     (of_nat (digits_val 10 (drop_zeros (t_whole t @ frac_digits t))) * pow10 (exp_value t - int (length (frac_digits t))))"
  by (simp add: token_value_def decimal_value_def digits_val_drop_zeros)

lemma pow10_int: "0 \<le> k \<Longrightarrow> pow10 k = of_nat (10 ^ nat k)"
  by (simp add: pow10_def)

lemma pow10_neg: "k < 0 \<Longrightarrow> of_nat n * pow10 k = of_nat m \<longleftrightarrow> n = m * 10 ^ nat (- k)"
proof -
  assume "k < 0"
  then have "of_nat n * pow10 k = of_nat m \<longleftrightarrow> (of_nat n :: rat) = of_nat m * 10 ^ nat (- k)"
    by (simp add: pow10_def field_simps)
  also have "\<dots> \<longleftrightarrow> (of_nat n :: rat) = of_nat (m * 10 ^ nat (- k))" by simp
  also have "\<dots> \<longleftrightarrow> n = m * 10 ^ nat (- k)" by (simp only: of_nat_eq_iff)
  finally show ?thesis .
qed

lemma digits_val_zeros_right: "digits_val 10 (ds @ replicate k cZero) = digits_val 10 ds * 10 ^ k"
proof -
  have "digits_val 10 (replicate k cZero) = 0"
    using digits_val_0_iff [of "replicate k cZero"] by (simp add: is_digit_def)
  then show ?thesis by (simp add: digits_val_append)
qed

lemma scale_digits_value:
  assumes "scale_digits ds s = Some ds'" "\<forall>c \<in> set ds. is_digit c"
  shows "of_nat (digits_val 10 ds) * pow10 s = of_nat (digits_val 10 ds')"
proof (cases "s < 0")
  case True
  define k where "k = nat (- s)"
  have k: "k < length ds" "\<forall>c \<in> set (drop (length ds - k) ds). c = cZero" "ds' = take (length ds - k) ds"
    using assms(1) True by (auto simp: scale_digits_def k_def Let_def split: if_splits)
  have "drop (length ds - k) ds = replicate k cZero"
    using k by (intro replicate_eqI) auto
  then have "digits_val 10 ds = digits_val 10 ds' * 10 ^ k"
    by (metis append_take_drop_id digits_val_zeros_right k(3))
  then show ?thesis using pow10_neg [OF True] unfolding k_def by blast
next
  case False
  then have "ds' = ds @ replicate (nat s) cZero" using assms(1) by (simp add: scale_digits_def split: if_splits)
  with False show ?thesis by (simp add: digits_val_zeros_right pow10_int)
qed

lemma scale_digits_complete:
  assumes ds: "\<forall>c \<in> set ds. is_digit c" "ds \<noteq> []" "hd ds \<noteq> cZero"
    and v: "of_nat (digits_val 10 ds) * pow10 s = of_nat m" "m < 10 ^ 10"
  shows "\<exists>ds'. scale_digits ds s = Some ds' \<and> length ds' \<le> 10"
proof (cases "s < 0")
  case True
  define k where "k = nat (- s)"
  have m: "digits_val 10 ds = m * 10 ^ k" using v(1) pow10_neg [OF True] by (simp add: k_def)
  have pos: "0 < digits_val 10 ds" using digits_val_lower [OF ds] by (metis le_zero_eq neq0_conv power_not_zero zero_neq_numeral)
  have "k < length ds"
  proof (rule ccontr)
    assume "\<not> k < length ds"
    then have "(10::nat) ^ length ds \<le> 10 ^ k" by (intro power_increasing) auto
    moreover have "10 ^ k \<le> digits_val 10 ds" using m pos by (cases m) auto
    ultimately show False using digits_val_less [OF ds(1)] by (metis le_less_trans less_irrefl)
  qed
  then have split: "digits_val 10 ds = digits_val 10 (take (length ds - k) ds) * 10 ^ k + digits_val 10 (drop (length ds - k) ds)"
    using digits_val_append [of "take (length ds - k) ds" "drop (length ds - k) ds"] by simp
  have "digits_val 10 (drop (length ds - k) ds) < 10 ^ k"
    using digits_val_less [of "drop (length ds - k) ds"] ds(1) \<open>k < length ds\<close> by (auto dest: in_set_dropD)
  with split have "digits_val 10 (drop (length ds - k) ds) = digits_val 10 ds mod 10 ^ k" by simp
  then have z: "digits_val 10 (drop (length ds - k) ds) = 0" using m by simp
  with split m have "digits_val 10 (take (length ds - k) ds) * 10 ^ k = m * 10 ^ k" by simp
  then have z2: "digits_val 10 (take (length ds - k) ds) = m" by simp
  have digits: "\<forall>c \<in> set (drop (length ds - k) ds). is_digit c" "\<forall>c \<in> set (take (length ds - k) ds). is_digit c"
    using ds(1) by (auto dest: in_set_dropD in_set_takeD)
  have "length (take (length ds - k) ds) \<le> 10"
    using z2 v(2) ds \<open>k < length ds\<close> digits by (intro length_less_10) (auto simp: hd_take)
  with True z digits \<open>k < length ds\<close> show ?thesis
    by (simp add: scale_digits_def k_def [symmetric] Let_def digits_val_0_iff)
next
  case False
  then have "(of_nat (digits_val 10 ds * 10 ^ nat s) :: rat) = of_nat m"
    using v(1) by (simp add: pow10_int)
  then have "digits_val 10 (ds @ replicate (nat s) cZero) = m"
    by (simp only: of_nat_eq_iff digits_val_zeros_right)
  then have "length (ds @ replicate (nat s) cZero) \<le> 10"
    using v(2) ds by (intro length_less_10) (auto simp: is_digit_def)
  with False show ?thesis by (auto simp: scale_digits_def)
qed

text \<open>Within 16384 units the exponent's own text is never the reason to reject a small value.\<close>

lemma huge_exponent:
  assumes "token_ok t" "6 < length (raw_exponent t)"
  shows "99999 < \<bar>exp_value t\<bar>"
proof -
  obtain sg ds where e: "t_exp t = Some (sg, ds)" using assms(2) by (cases "t_exp t") (auto simp: raw_exponent_def)
  then have ok: "sg \<in> {[], [cPlus], [cMinus]}" "\<forall>c \<in> set ds. is_digit c" using assms(1) by (auto simp: token_ok_def)
  have len: "6 < length (sg @ drop_zeros ds)"
    using assms(2) e by (auto simp: raw_exponent_def Let_def split: if_splits)
  then have d: "6 \<le> length (drop_zeros ds)" using ok(1) by auto
  then have "drop_zeros ds \<noteq> []" by auto
  with drop_zeros_digits [OF ok(2)] have "10 ^ (length (drop_zeros ds) - 1) \<le> digits_val 10 ds"
    using digits_val_lower [of "drop_zeros ds"] hd_drop_zeros by (simp add: digits_val_drop_zeros)
  moreover have "(10::nat) ^ 5 \<le> 10 ^ (length (drop_zeros ds) - 1)" using d by (intro power_increasing) auto
  ultimately have "100000 \<le> digits_val 10 ds" by simp
  then show ?thesis using e by (auto simp: exp_value_def)
qed

lemma small_value_exponent:
  assumes ok: "token_ok t" and len: "token_length t \<le> 16384"
    and ne: "drop_zeros (t_whole t @ frac_digits t) \<noteq> []"
    and v: "of_nat (digits_val 10 (drop_zeros (t_whole t @ frac_digits t))) * pow10 (exp_value t - int (length (frac_digits t))) =
        of_nat m" "m < 10 ^ 10"
  shows "length (raw_exponent t) \<le> 6"
proof (rule ccontr)
  let ?ds = "drop_zeros (t_whole t @ frac_digits t)" and ?s = "exp_value t - int (length (frac_digits t))"
  assume "\<not> length (raw_exponent t) \<le> 6"
  then have big: "99999 < \<bar>exp_value t\<bar>" using huge_exponent [OF ok] by simp
  have frac: "int (length (frac_digits t)) \<le> 16384" "length (t_whole t @ frac_digits t) \<le> 16384"
    using len by (simp_all add: token_length_def)
  have digits: "\<forall>c \<in> set ?ds. is_digit c" using ok drop_zeros_digits [of "t_whole t @ frac_digits t"] by (simp add: token_ok_def)
  obtain ds' where ds': "scale_digits ?ds ?s = Some ds'" "length ds' \<le> 10"
    using scale_digits_complete [OF digits ne hd_drop_zeros [OF ne] v] by blast
  have "length ?ds \<le> 16384" using frac(2) length_dropWhile_le [of _ "t_whole t @ frac_digits t"]
    unfolding drop_zeros_def by (rule order_trans [rotated])
  with ds' big frac(1) show False
    by (auto simp: scale_digits_def Let_def split: if_splits)
qed

lemma digits_positive:
  assumes "token_ok t" "drop_zeros (t_whole t @ frac_digits t) \<noteq> []"
  shows "0 < digits_val 10 (drop_zeros (t_whole t @ frac_digits t))"
proof -
  have "\<forall>c \<in> set (drop_zeros (t_whole t @ frac_digits t)). is_digit c"
    using assms(1) by (intro drop_zeros_digits) (simp add: token_ok_def)
  from digits_val_lower [OF this assms(2) hd_drop_zeros [OF assms(2)]] show ?thesis
    by (metis le_zero_eq neq0_conv power_not_zero zero_neq_numeral)
qed

lemma negative_token:
  assumes "token_ok t" "drop_zeros (t_whole t @ frac_digits t) \<noteq> []" "t_neg t"
  shows "token_value t < 0"
  using digits_positive [OF assms(1,2)] pow10_pos assms(3) by (simp add: token_value_digits mult_pos_pos)

text \<open>
  C25: \<open>contextNumber\<close> decides on the exact value: a number token of at most 16384 units (the limit
  on a whole body) is accepted exactly when its decimal value, computed without rounding, is an
  integer from 0 to 4294967295, and the result is that integer; no spelling of such a value
  (fraction zeros, exponents, signs of zero) is refused and no other value is rounded into range.
\<close>

theorem contextNumber_exact:
  assumes "token_ok t" "token_length t \<le> 16384"
  shows "contextNumber t = Some v \<longleftrightarrow> token_value t = of_int v \<and> 0 \<le> v \<and> v \<le> 4294967295"
proof -
  let ?ds = "drop_zeros (t_whole t @ frac_digits t)" and ?s = "exp_value t - int (length (frac_digits t))"
  have all: "\<forall>c \<in> set (t_whole t @ frac_digits t). is_digit c" using assms(1) by (simp add: token_ok_def)
  note digits = drop_zeros_digits [OF all]
  show ?thesis
  proof (cases "?ds = []")
    case True
    then have "token_value t = 0" using token_value_digits [of t] by simp
    with True show ?thesis by (auto simp: contextNumber_def)
  next
    case ne: False
    show ?thesis
    proof (cases "t_neg t")
      case True
      with negative_token [OF assms(1) ne] ne show ?thesis by (auto simp: contextNumber_def Let_def)
    next
      case False
      then have val_eq: "token_value t = of_nat (digits_val 10 ?ds) * pow10 ?s" by (simp add: token_value_digits)
      show ?thesis
      proof
        assume "contextNumber t = Some v"
        then obtain ds' where ds': "scale_digits ?ds ?s = Some ds'" "v = int (digits_val 10 ds')" "v \<le> 4294967295"
          using ne False signed_value_raw [OF assms(1)]
          by (auto simp: contextNumber_def Let_def split: option.splits if_splits)
        with scale_digits_value [OF ds'(1) digits] val_eq
        show "token_value t = of_int v \<and> 0 \<le> v \<and> v \<le> 4294967295" by simp
      next
        assume v: "token_value t = of_int v \<and> 0 \<le> v \<and> v \<le> 4294967295"
        define m where "m = nat v"
        have m: "of_nat (digits_val 10 ?ds) * pow10 ?s = of_nat m" "m < 10 ^ 10"
          using v val_eq by (simp_all add: m_def nat_less_iff)
        from scale_digits_complete [OF digits ne hd_drop_zeros [OF ne] m] obtain ds' where
          ds': "scale_digits ?ds ?s = Some ds'" "length ds' \<le> 10" by blast
        have "digits_val 10 ds' = m" using scale_digits_value [OF ds'(1) digits] m(1) by simp
        with ds' small_value_exponent [OF assms ne m] ne False signed_value_raw [OF assms(1)] v
        show "contextNumber t = Some v" by (simp add: contextNumber_def Let_def m_def)
      qed
    qed
  qed
qed

section \<open>\<open>exactGeoCount\<close>\<close>

text \<open>The subtractions on the converted exponent are exact below \<open>2^53\<close>; above it, whatever they
  round to is refused all the same.\<close>

definition exactGeoCount :: "num_token \<Rightarrow> nat \<Rightarrow> bool" where
  "exactGeoCount t maximum =
     (let digits = drop_zeros (t_whole t @ frac_digits t) in
      if digits = [] then True
      else let significant = drop_last_zeros digits in
        (case num_int (round_double (of_int (exp_value t))) of
           None \<Rightarrow> False
         | Some e \<Rightarrow>
             (let shift = e - int (length (frac_digits t)) + int (length digits) - int (length significant) in
              if t_neg t \<or> MAX_SAFE < \<bar>shift\<bar> \<or> shift < 0 \<or> int (length significant) + shift > 4 then False
              else digits_val 10 significant * 10 ^ nat shift \<le> maximum)))"

lemma drop_last_zeros_split: "\<exists>k. s = drop_last_zeros s @ replicate k cZero \<and> k = length s - length (drop_last_zeros s)"
proof -
  define z where "z = takeWhile (\<lambda>c. c = cZero) (rev s)"
  have z: "z = replicate (length z) cZero"
    unfolding z_def by (intro replicate_eqI) (auto dest: set_takeWhileD)
  have "rev s = z @ drop_zeros (rev s)" by (simp add: drop_zeros_def z_def)
  then have "rev (rev s) = drop_last_zeros s @ rev z" unfolding drop_last_zeros_def by (metis rev_append)
  then have s: "s = drop_last_zeros s @ replicate (length z) cZero" using z by (metis rev_replicate rev_rev_ident)
  then have "length s = length (drop_last_zeros s) + length z" by (metis length_append length_replicate)
  with s show ?thesis by (intro exI [of _ "length z"]) simp
qed

lemma last_drop_last_zeros: "drop_last_zeros s \<noteq> [] \<Longrightarrow> last (drop_last_zeros s) \<noteq> cZero"
  using hd_drop_zeros [of "rev s"] by (simp add: drop_last_zeros_def last_rev)

lemma digits_val_mod_10:
  assumes "s \<noteq> []" "\<forall>c \<in> set s. is_digit c" "last s \<noteq> cZero"
  shows "digits_val 10 s mod 10 \<noteq> 0"
proof -
  obtain t c where s: "s = t @ [c]" using assms(1) by (cases s rule: rev_cases) auto
  then have "digit_val c < 10" "digit_val c \<noteq> 0" using assms digit_unit_val [of c] digit_val_zero [of c] by auto
  then show ?thesis by (simp add: s digits_val_snoc)
qed

lemma significant_value:
  assumes "\<forall>c \<in> set ds. is_digit c" "ds \<noteq> []" "hd ds \<noteq> cZero"
  defines "sig \<equiv> drop_last_zeros ds"
  shows "sig \<noteq> []" "\<forall>c \<in> set sig. is_digit c" "hd sig \<noteq> cZero" "last sig \<noteq> cZero"
    "of_nat (digits_val 10 ds) * pow10 s = of_nat (digits_val 10 sig) * pow10 (s + int (length ds) - int (length sig))"
proof -
  obtain k where k: "ds = sig @ replicate k cZero" "k = length ds - length sig"
    using drop_last_zeros_split [of ds] by (auto simp: sig_def)
  show ne: "sig \<noteq> []"
  proof
    assume "sig = []"
    with k(1) have "ds = replicate k cZero" by simp
    with assms(2,3) show False by (cases k) auto
  qed
  show "\<forall>c \<in> set sig. is_digit c" using assms(1) k(1) by (metis UnCI set_append)
  show "hd sig \<noteq> cZero" using assms(3) ne k(1) by (metis hd_append2)
  show "last sig \<noteq> cZero" using last_drop_last_zeros ne by (simp add: sig_def)
  have len: "int (length ds) - int (length sig) = int k" using k by (metis length_append length_replicate of_nat_add add_diff_cancel_left')
  have "of_nat (digits_val 10 ds) * pow10 s = of_nat (digits_val 10 sig) * (pow10 (int k) * pow10 s)"
    by (subst k(1)) (simp add: digits_val_zeros_right pow10_int)
  also have "pow10 (int k) * pow10 s = pow10 (s + int (length ds) - int (length sig))"
    using len pow10_add [of "int k" s] by (simp add: algebra_simps)
  finally show "of_nat (digits_val 10 ds) * pow10 s =
      of_nat (digits_val 10 sig) * pow10 (s + int (length ds) - int (length sig))" .
qed

text \<open>Digits that do not end in a zero make a natural number only without a negative exponent.\<close>

lemma natural_shift:
  assumes "ds \<noteq> []" "\<forall>c \<in> set ds. is_digit c" "last ds \<noteq> cZero" "of_nat (digits_val 10 ds) * pow10 k = of_nat n"
  shows "0 \<le> k \<and> digits_val 10 ds * 10 ^ nat k = n"
proof -
  have nonneg: "0 \<le> k"
  proof (rule ccontr)
    assume "\<not> 0 \<le> k"
    then have "digits_val 10 ds = n * 10 ^ nat (- k)" using pow10_neg [of k] assms(4) by simp
    moreover have "(10::nat) dvd 10 ^ nat (- k)" using \<open>\<not> 0 \<le> k\<close> by (intro dvd_power) auto
    ultimately have "digits_val 10 ds mod 10 = 0" by simp
    with digits_val_mod_10 [OF assms(1,2,3)] show False by simp
  qed
  then have "(of_nat (digits_val 10 ds * 10 ^ nat k) :: rat) = of_nat n" using assms(4) by (simp add: pow10_int)
  with nonneg show ?thesis by (simp only: of_nat_eq_iff)
qed

text \<open>
  \<open>exactGeoCount\<close> accepts a count token exactly when its exact decimal value is a natural
  number of at most \<open>maximum\<close>, for every limit of at most four digits and every exponent that
  is a safe integer.
\<close>

theorem exactGeoCount_exact:
  assumes "token_ok t" "\<bar>exp_value t\<bar> < 2 ^ 53" "maximum \<le> 9999"
  shows "exactGeoCount t maximum \<longleftrightarrow> (\<exists>n \<le> maximum. token_value t = of_nat n)"
proof -
  let ?ds = "drop_zeros (t_whole t @ frac_digits t)"
  have all: "\<forall>c \<in> set (t_whole t @ frac_digits t). is_digit c" using assms(1) by (simp add: token_ok_def)
  note digits = drop_zeros_digits [OF all]
  show ?thesis
  proof (cases "?ds = []")
    case True
    then have "token_value t = 0" using token_value_digits [of t] by simp
    with True show ?thesis by (auto simp: exactGeoCount_def intro: exI [of _ 0])
  next
    case ne: False
    define sig where "sig = drop_last_zeros ?ds"
    define shift where "shift = exp_value t - int (length (frac_digits t)) + int (length ?ds) - int (length sig)"
    note s = significant_value [OF digits ne hd_drop_zeros [OF ne], folded sig_def]
    have val_eq: "token_value t = (if t_neg t then - 1 else 1) * (of_nat (digits_val 10 sig) * pow10 shift)"
      using s(5) [of "exp_value t - int (length (frac_digits t))"]
      by (simp add: token_value_digits shift_def algebra_simps)
    have code: "exactGeoCount t maximum \<longleftrightarrow> \<not> t_neg t \<and> \<bar>shift\<bar> \<le> MAX_SAFE \<and> 0 \<le> shift \<and> int (length sig) + shift \<le> 4 \<and>
        digits_val 10 sig * 10 ^ nat shift \<le> maximum"
      using ne round_double_int [OF assms(2)]
      by (auto simp: exactGeoCount_def Let_def sig_def shift_def)
    show ?thesis
    proof
      assume c: "exactGeoCount t maximum"
      then have "token_value t = of_nat (digits_val 10 sig * 10 ^ nat shift)"
        using code val_eq by (simp add: pow10_int)
      with c code show "\<exists>n \<le> maximum. token_value t = of_nat n" by blast
    next
      assume "\<exists>n \<le> maximum. token_value t = of_nat n"
      then obtain n where n: "n \<le> maximum" "token_value t = of_nat n" by blast
      have pos: "\<not> t_neg t" using negative_token [OF assms(1) ne] n(2) by auto
      with val_eq n(2) have "of_nat (digits_val 10 sig) * pow10 shift = of_nat n" by simp
      from natural_shift [OF s(1,2,4) this] have nonneg: "0 \<le> shift" and n_eq: "digits_val 10 sig * 10 ^ nat shift = n" by auto
      have "length (sig @ replicate (nat shift) cZero) \<le> 4"
        using s n_eq n(1) assms(3) by (intro length_less_10) (auto simp: digits_val_zeros_right is_digit_def)
      with nonneg n_eq n(1) pos show "exactGeoCount t maximum"
        unfolding code by (auto simp: MAX_SAFE_def)
    qed
  qed
qed

end
