(* ===== verification/Context_JSON.thy ===== *)
theory Context_JSON
  imports Api_Error Json_Number
begin

text \<open>
  The strict JSON reader of the IP context (\<open>contextJSON\<close> of \<open>frontend/state.js\<close>): no duplicate
  keys, no lone surrogates, no number that is not exactly a 32-bit natural number, at most 16
  levels and 16384 tokens.  The platform's \<open>JSON.parse\<close> is the same grammar without those
  restrictions; the reader takes what differs as a policy and \<open>JSON.parse\<close> is its other instance.
\<close>

section \<open>Reading\<close>

record policy =
  p_number :: "num_token \<Rightarrow> jnum option"
  p_text :: "jstr \<Rightarrow> bool"
  p_unique :: bool
  p_tokens :: "nat option"

text \<open>The reader's variables: the text from \<open>at\<close> on, and the tokens counted so far.\<close>

type_synonym reader = "jstr \<times> nat"

definition ws :: "reader \<Rightarrow> reader" where
  "ws st = (dropWhile json_space (fst st), snd st)"

definition token :: "policy \<Rightarrow> reader \<Rightarrow> reader option" where
  "token p st = (case p_tokens p of None \<Rightarrow> Some (fst st, snd st + 1)
     | Some limit \<Rightarrow> if snd st + 1 \<le> limit then Some (fst st, snd st + 1) else None)"

definition at_unit :: "unit16 \<Rightarrow> reader \<Rightarrow> bool" where
  "at_unit c st \<longleftrightarrow> fst st \<noteq> [] \<and> hd (fst st) = c"

definition skip_unit :: "unit16 \<Rightarrow> reader \<Rightarrow> reader option" where
  "skip_unit c st = (if at_unit c st then Some (tl (fst st), snd st) else None)"

text \<open>Up to the closing quote, with what follows a backslash skipped; the closing quote is consumed.\<close>

fun scan_string :: "jstr \<Rightarrow> (jstr \<times> jstr) option" where
  "scan_string [] = None"
| "scan_string (c # r) = (if c = cBackslash then
       (case r of [] \<Rightarrow> None | d # r' \<Rightarrow> map_option (\<lambda>(s, t). (c # d # s, t)) (scan_string r'))
     else if c = cQuote then Some ([], r)
     else map_option (\<lambda>(s, t). (c # s, t)) (scan_string r))"

text \<open>\<open>JSON.parse\<close> of a quoted string, given the units between its quotes.\<close>

fun json_literal :: "jstr \<Rightarrow> jstr option" where
  "json_literal [] = Some []"
| "json_literal (c # r) = (if c < 32 \<or> c = cQuote then None
     else if c \<noteq> cBackslash then map_option (\<lambda>s. c # s) (json_literal r)
     else (case r of [] \<Rightarrow> None | e # r1 \<Rightarrow>
       (case simple_unit e of Some v \<Rightarrow> map_option (\<lambda>s. v # s) (json_literal r1)
        | None \<Rightarrow> (case r1 of x1 # x2 # x3 # x4 # r2 \<Rightarrow>
            (case hexUnit [x1, x2, x3, x4] of
               Some v \<Rightarrow> if e = cU then map_option (\<lambda>s. v # s) (json_literal r2) else None
             | None \<Rightarrow> None)
          | _ \<Rightarrow> None))))"

definition read_string :: "policy \<Rightarrow> reader \<Rightarrow> (jstr \<times> reader) option" where
  "read_string p st = do {
     st \<leftarrow> token p st;
     (raw, rest) \<leftarrow> scan_string (tl (fst st));
     t \<leftarrow> json_literal raw;
     guard (p_text p t);
     Some (t, (rest, snd st)) }"

text \<open>The longest number at the front: \<open>-?(0|[1-9]\d*)(\.\d+)?([eE][+-]?\d+)?\<close>.\<close>

definition match_fraction :: "jstr \<Rightarrow> jstr option \<times> jstr" where
  "match_fraction s = (case s of c # r \<Rightarrow>
       if c = cDot \<and> fst (take_digits r) \<noteq> [] then (Some (fst (take_digits r)), snd (take_digits r)) else (None, s)
     | [] \<Rightarrow> (None, s))"

definition match_exponent :: "jstr \<Rightarrow> (jstr \<times> jstr) option \<times> jstr" where
  "match_exponent s = (case s of c # r \<Rightarrow>
       if c = 101 \<or> c = 69 then
         (let (sg, r1) = (case r of d # t \<Rightarrow> if d = cPlus \<or> d = cMinus then ([d], t) else ([], r) | [] \<Rightarrow> ([], r));
              (ds, r2) = take_digits r1
          in if ds \<noteq> [] then (Some (sg, ds), r2) else (None, s))
       else (None, s)
     | [] \<Rightarrow> (None, s))"

definition match_number :: "jstr \<Rightarrow> (num_token \<times> jstr) option" where
  "match_number s =
     (let neg = (s \<noteq> [] \<and> hd s = cMinus); r = (if neg then tl s else s);
          (whole, r) = (if r \<noteq> [] \<and> hd r = cZero then ([cZero], tl r) else take_digits r)
      in if whole = [] then None
         else let (frac, r) = match_fraction r; (ex, r) = match_exponent r
           in Some (\<lparr>t_neg = neg, t_whole = whole, t_frac = frac, t_exp = ex\<rparr>, r))"

definition literals :: "(jstr \<times> jval) list" where
  "literals = [(js ''true'', JBool True), (js ''false'', JBool False), (js ''null'', JNull)]"

definition read_scalar :: "policy \<Rightarrow> reader \<Rightarrow> (jval \<times> reader) option" where
  "read_scalar p st =
     (case List.find (\<lambda>(l, v). take (length l) (fst st) = l) literals of
        Some (l, v) \<Rightarrow> Some (v, (drop (length l) (fst st), snd st))
      | None \<Rightarrow> (case match_number (fst st) of None \<Rightarrow> None
          | Some (t, r) \<Rightarrow> map_option (\<lambda>n. (JNum n, (r, snd st))) (p_number p t)))"

text \<open>The two loops, over a reader of the values one level down; each turn consumes text, so the
  units left bound the turns.\<close>

fun read_members :: "nat \<Rightarrow> policy \<Rightarrow> (reader \<Rightarrow> (jval \<times> reader) option) \<Rightarrow> props \<Rightarrow> reader \<Rightarrow> (props \<times> reader) option" where
  "read_members 0 p rd ps st = None"
| "read_members (Suc fuel) p rd ps st = (let st = ws st in
     if \<not> at_unit cQuote st then None else do {
       (key, st) \<leftarrow> read_string p st;
       guard (\<not> (p_unique p \<and> hasOwn ps key));
       st \<leftarrow> skip_unit cColon (ws st);
       (v, st) \<leftarrow> rd st;
       (let ps' = AList.update (Key key) (Data True v) ps; st = ws st in
        if at_unit cRBrace st then Some (ps', st)
        else do { st \<leftarrow> skip_unit cComma st; read_members fuel p rd ps' st }) })"

fun read_items :: "nat \<Rightarrow> (reader \<Rightarrow> (jval \<times> reader) option) \<Rightarrow> jdesc list \<Rightarrow> reader \<Rightarrow> (jdesc list \<times> reader) option" where
  "read_items 0 rd ds st = None"
| "read_items (Suc fuel) rd ds st = do {
     (v, st) \<leftarrow> rd st;
     (let ds' = ds @ [Data True v]; st = ws st in
      if at_unit cRBrack st then Some (ds', st)
      else do { st \<leftarrow> skip_unit cComma st; read_items fuel rd ds' st }) }"

definition object_body :: "policy \<Rightarrow> (reader \<Rightarrow> (jval \<times> reader) option) \<Rightarrow> reader \<Rightarrow> (props \<times> reader) option" where
  "object_body p rd st = (let st = ws st in
     if at_unit cRBrace st then Some ([], st) else read_members (length (fst st)) p rd [] st)"

definition array_body :: "(reader \<Rightarrow> (jval \<times> reader) option) \<Rightarrow> reader \<Rightarrow> (jdesc list \<times> reader) option" where
  "array_body rd st = (let st = ws st in
     if at_unit cRBrack st then Some ([], st) else read_items (length (fst st)) rd [] st)"

text \<open>\<open>read(depth)\<close>, by the levels that are still allowed.\<close>

fun read_value :: "policy \<Rightarrow> nat \<Rightarrow> reader \<Rightarrow> (jval \<times> reader) option" where
  "read_value p 0 st = None"
| "read_value p (Suc levels) st = (let st = ws st in
     if at_unit cQuote st then map_option (\<lambda>(t, st). (JStr t, st)) (read_string p st)
     else do {
       st \<leftarrow> token p st;
       (if at_unit cLBrace st then do {
          (ps, st) \<leftarrow> object_body p (read_value p levels) (tl (fst st), snd st);
          st \<leftarrow> token p (tl (fst st), snd st);
          Some (JObj 0 True ps, st) }
        else if at_unit cLBrack st then do {
          (ds, st) \<leftarrow> array_body (read_value p levels) (tl (fst st), snd st);
          st \<leftarrow> token p (tl (fst st), snd st);
          Some (JArr 0 True ds, st) }
        else read_scalar p st) })"

definition read_json :: "policy \<Rightarrow> nat \<Rightarrow> jstr \<Rightarrow> jval option" where
  "read_json p levels text = do {
     (v, st) \<leftarrow> read_value p levels (text, 0);
     guard (fst (ws st) = []);
     Some v }"

definition context_policy :: policy where
  "context_policy = \<lparr>p_number = (\<lambda>t. map_option jint (contextNumber t)), p_text = well_formed, p_unique = True,
     p_tokens = Some 16384\<rparr>"

definition contextJSON :: "jstr \<Rightarrow> jval option" where
  "contextJSON text = read_json context_policy 16 text"

text \<open>\<open>JSON.parse\<close>: numbers are rounded to doubles, the last of equal keys wins, and every level
  consumes a unit of the text.\<close>

definition token_number :: "num_token \<Rightarrow> jnum" where
  "token_number t = (let n = round_double (decimal_value (t_whole t) (frac_digits t) (exp_value t)) in
     if t_neg t then neg_num n else n)"

definition json_policy :: policy where
  "json_policy = \<lparr>p_number = (\<lambda>t. Some (token_number t)), p_text = (\<lambda>_. True), p_unique = False, p_tokens = None\<rparr>"

definition json_parse :: "jstr \<Rightarrow> jval option" where
  "json_parse text = read_json json_policy (Suc (length text)) text"

section \<open>Printing\<close>

text \<open>\<open>JSON.stringify\<close> of a value of data properties.\<close>

fun key_text :: "jkey \<Rightarrow> jstr" where
  "key_text (Key k) = quote k"
| "key_text (Symbol n) = []"

fun json_text :: "jval \<Rightarrow> jstr" and items_text :: "jdesc list \<Rightarrow> jstr" and members_text :: "props \<Rightarrow> jstr"
  and desc_text :: "jdesc \<Rightarrow> jstr" where
  "json_text JNull = js ''null''"
| "json_text JUndef = js ''null''"
| "json_text JOther = js ''null''"
| "json_text (JBool b) = bool_text b"
| "json_text (JNum n) = (if num_rat n = None then js ''null'' else number_text n)"
| "json_text (JStr s) = quote s"
| "json_text (JArr i plain ds) = cLBrack # items_text ds @ [cRBrack]"
| "json_text (JObj i plain ps) = cLBrace # members_text ps @ [cRBrace]"
| "items_text [] = []"
| "items_text (d # ds) = desc_text d @ (if ds = [] then [] else cComma # items_text ds)"
| "members_text [] = []"
| "members_text ((k, d) # ps) = key_text k @ cColon # desc_text d @ (if ps = [] then [] else cComma # members_text ps)"
| "desc_text (Data e v) = json_text v"
| "desc_text (Accessor e) = js ''null''"

text \<open>The tokens \<open>contextJSON\<close> counts: one per string and scalar, two per container.\<close>

fun tokens_of :: "jval \<Rightarrow> nat" and item_tokens :: "jdesc list \<Rightarrow> nat" and member_tokens :: "props \<Rightarrow> nat"
  and desc_tokens :: "jdesc \<Rightarrow> nat" where
  "tokens_of (JArr i plain ds) = 2 + item_tokens ds"
| "tokens_of (JObj i plain ps) = 2 + member_tokens ps"
| "tokens_of v = 1"
| "item_tokens [] = 0"
| "item_tokens (d # ds) = desc_tokens d + item_tokens ds"
| "member_tokens [] = 0"
| "member_tokens ((k, d) # ps) = 1 + desc_tokens d + member_tokens ps"
| "desc_tokens (Data e v) = tokens_of v"
| "desc_tokens (Accessor e) = 0"

text \<open>The values of the strict grammar, of at most so many levels.\<close>

fun data_of :: "(jval \<Rightarrow> bool) \<Rightarrow> jdesc \<Rightarrow> bool" where
  "data_of P (Data e v) = (e \<and> P v)"
| "data_of P (Accessor e) = False"

fun strict_key :: "jkey \<Rightarrow> bool" where
  "strict_key (Key k) = well_formed k"
| "strict_key (Symbol n) = False"

fun strict_value :: "nat \<Rightarrow> jval \<Rightarrow> bool" where
  "strict_value 0 v = False"
| "strict_value (Suc n) JNull = True"
| "strict_value (Suc n) (JBool b) = True"
| "strict_value (Suc n) (JNum x) = (case num_int x of None \<Rightarrow> False | Some i \<Rightarrow> 0 \<le> i \<and> i \<le> 4294967295 \<and> x = jint i)"
| "strict_value (Suc n) (JStr s) = well_formed s"
| "strict_value (Suc n) (JArr i plain ds) = (i = 0 \<and> plain \<and> (\<forall>d \<in> set ds. data_of (strict_value n) d))"
| "strict_value (Suc n) (JObj i plain ps) = (i = 0 \<and> plain \<and> distinct (map fst ps) \<and>
     (\<forall>(k, d) \<in> set ps. strict_key k \<and> data_of (strict_value n) d))"
| "strict_value (Suc n) v = False"

section \<open>Every value read is strict\<close>

lemma read_string_text: "read_string context_policy st = Some (t, st') \<Longrightarrow> well_formed t"
  by (auto simp: read_string_def context_policy_def option_elims)

lemma contextNumber_range: "contextNumber t = Some v \<Longrightarrow> 0 \<le> v \<and> v \<le> 4294967295"
  by (auto simp: contextNumber_def Let_def split: if_splits option.splits)

lemma find_in: "List.find P xs = Some x \<Longrightarrow> x \<in> set xs \<and> P x"
  by (induction xs) (auto split: if_splits)

lemma read_scalar_strict:
  assumes "read_scalar context_policy st = Some (v, st')"
  shows "strict_value (Suc n) v"
proof (cases "List.find (\<lambda>(l, v). take (length l) (fst st) = l) literals")
  case None
  with assms show ?thesis by (auto simp: read_scalar_def context_policy_def dest: contextNumber_range split: option.splits)
next
  case (Some lv)
  with assms find_in [OF Some] show ?thesis by (auto simp: read_scalar_def literals_def)
qed

lemma read_items_strict:
  assumes "\<And>st v st'. rd st = Some (v, st') \<Longrightarrow> P v"
  shows "read_items fuel rd ds st = Some (ds', st') \<Longrightarrow> \<forall>d \<in> set ds. data_of P d \<Longrightarrow> \<forall>d \<in> set ds'. data_of P d"
proof (induction fuel arbitrary: ds st)
  case (Suc fuel)
  then obtain v st1 where v: "rd st = Some (v, st1)" by (cases "rd st") auto
  let ?ds = "ds @ [Data True v]"
  have ds: "\<forall>d \<in> set ?ds. data_of P d" using assms [OF v] Suc.prems(2) by auto
  show ?case
  proof (cases "at_unit cRBrack (ws st1)")
    case True
    with Suc.prems(1) v ds show ?thesis by (auto simp: Let_def)
  next
    case False
    with Suc.prems(1) v obtain st2 where "read_items fuel rd ?ds st2 = Some (ds', st')"
      by (cases "skip_unit cComma (ws st1)") (auto simp: Let_def)
    from Suc.IH [OF this ds] show ?thesis .
  qed
qed simp

lemma update_new: "k \<notin> fst ` set ps \<Longrightarrow> AList.update k v ps = ps @ [(k, v)]"
  by (induction ps) auto

lemma hasOwn_keys: "\<not> hasOwn ps key \<longleftrightarrow> Key key \<notin> fst ` set ps"
  by (simp add: hasOwn_def map_of_eq_None_iff)

definition strict_props :: "(jval \<Rightarrow> bool) \<Rightarrow> props \<Rightarrow> bool" where
  "strict_props P ps \<longleftrightarrow> distinct (map fst ps) \<and> (\<forall>(k, d) \<in> set ps. strict_key k \<and> data_of P d)"

lemma read_members_strict:
  assumes "\<And>st v st'. rd st = Some (v, st') \<Longrightarrow> P v"
  shows "read_members fuel context_policy rd ps st = Some (ps', st') \<Longrightarrow> strict_props P ps \<Longrightarrow> strict_props P ps'"
proof (induction fuel arbitrary: ps st)
  case (Suc fuel)
  from Suc.prems(1) obtain key v st2 st3 st4 where r: "read_string context_policy (ws st) = Some (key, st2)"
    "\<not> hasOwn ps key" "rd st3 = Some (v, st4)" and
    rest: "(let ps1 = AList.update (Key key) (Data True v) ps; st = ws st4 in
        if at_unit cRBrace st then Some (ps1, st)
        else do { st \<leftarrow> skip_unit cComma st; read_members fuel context_policy rd ps1 st }) = Some (ps', st')"
    by (auto simp: Let_def context_policy_def option_elims split: if_splits)
  define ps1 where "ps1 = ps @ [(Key key, Data True v)]"
  have ps1: "AList.update (Key key) (Data True v) ps = ps1"
    using r(2) by (simp add: ps1_def hasOwn_keys update_new)
  have "strict_props P ps1"
    using Suc.prems(2) r(2) read_string_text [OF r(1)] assms [OF r(3)] by (auto simp: ps1_def hasOwn_keys strict_props_def)
  with Suc.IH [of ps1] rest show ?case unfolding ps1 by (auto simp: Let_def option_elims split: if_splits)
qed simp

lemma object_body_strict:
  assumes "\<And>st v st'. rd st = Some (v, st') \<Longrightarrow> P v" "object_body context_policy rd st = Some (ps, st')"
  shows "strict_props P ps"
proof -
  have "strict_props P []" by (simp add: strict_props_def)
  with assms(2) read_members_strict [where rd = rd and P = P, OF assms(1)] show ?thesis
    by (auto simp: object_body_def Let_def split: if_splits)
qed

lemma array_body_strict:
  assumes "\<And>st v st'. rd st = Some (v, st') \<Longrightarrow> P v" "array_body rd st = Some (ds, st')"
  shows "\<forall>d \<in> set ds. data_of P d"
  using assms(2) read_items_strict [where rd = rd and P = P, OF assms(1)]
  by (auto simp: array_body_def Let_def split: if_splits)

text \<open>The cases of \<open>read\<close>.\<close>

lemma read_value_cases:
  assumes "read_value p (Suc levels) st = Some (v, st')"
  obtains (quoted) t st1 where "read_string p st1 = Some (t, st')" "v = JStr t"
  | (object) ps st1 st2 where "object_body p (read_value p levels) st1 = Some (ps, st2)" "v = JObj 0 True ps"
  | (arr) ds st1 st2 where "array_body (read_value p levels) st1 = Some (ds, st2)" "v = JArr 0 True ds"
  | (scalar) st1 where "read_scalar p st1 = Some (v, st')"
proof (cases "at_unit cQuote (ws st)")
  case True
  with assms have "map_option (\<lambda>(t, st). (JStr t, st)) (read_string p (ws st)) = Some (v, st')" by (simp add: Let_def)
  then obtain t where "read_string p (ws st) = Some (t, st')" "v = JStr t" by auto
  then show ?thesis by (rule that(1))
next
  case False
  with assms obtain st1 where st1: "token p (ws st) = Some st1" and
    rest: "(if at_unit cLBrace st1 then do {
          (ps, st) \<leftarrow> object_body p (read_value p levels) (tl (fst st1), snd st1);
          st \<leftarrow> token p (tl (fst st), snd st);
          Some (JObj 0 True ps, st) }
        else if at_unit cLBrack st1 then do {
          (ds, st) \<leftarrow> array_body (read_value p levels) (tl (fst st1), snd st1);
          st \<leftarrow> token p (tl (fst st), snd st);
          Some (JArr 0 True ds, st) }
        else read_scalar p st1) = Some (v, st')"
    by (cases "token p (ws st)") (simp_all add: Let_def)
  show ?thesis
  proof (cases "at_unit cLBrace st1")
    case True
    from rest show ?thesis unfolding if_P [OF True] by (auto simp: option_elims intro: that(2))
  next
    case nobj: False
    show ?thesis
    proof (cases "at_unit cLBrack st1")
      case True
      from rest show ?thesis unfolding if_not_P [OF nobj] if_P [OF True] by (auto simp: option_elims intro: that(3))
    next
      case False
      from rest show ?thesis unfolding if_not_P [OF nobj] if_not_P [OF False] by (rule that(4))
    qed
  qed
qed

lemma read_value_strict: "read_value context_policy levels st = Some (v, st') \<Longrightarrow> strict_value levels v"
proof (induction levels arbitrary: st v st')
  case (Suc levels)
  from Suc.prems show ?case
  proof (cases rule: read_value_cases)
    case quoted then show ?thesis using read_string_text by simp
  next
    case object then show ?thesis using object_body_strict [OF Suc.IH] by (simp add: strict_props_def)
  next
    case arr then show ?thesis using array_body_strict [OF Suc.IH] by simp
  next
    case scalar then show ?thesis by (rule read_scalar_strict)
  qed
qed simp

text \<open>
  C32: whatever \<open>contextJSON\<close> accepts is strict at every level: at most 16 levels, distinct keys in
  every object, well-formed UTF-16 in every string and key, and every number an integer from 0 to
  4294967295.
\<close>

theorem contextJSON_strict:
  assumes "contextJSON text = Some v"
  shows "strict_value 16 v"
  using assms read_value_strict by (auto simp: contextJSON_def read_json_def option_elims)

end
