(* ===== verification/Json_Roundtrip.thy ===== *)
theory Json_Roundtrip
  imports Context_JSON
begin

text \<open>
  Printing and reading are inverse: \<open>JSON.stringify\<close> followed by the strict reader, and by
  \<open>JSON.parse\<close>, gives back every strict value.  The proof is done once, for every policy that
  accepts well-formed texts and plain natural numbers, and for texts in which further units are
  replaced by their escapes, as Go's printer does.
\<close>

section \<open>Escaping a printed text\<close>

definition escape_by :: "(unit16 \<Rightarrow> bool) \<Rightarrow> jstr \<Rightarrow> jstr" where
  "escape_by esc t = concat (map (\<lambda>c. if esc c then unicode_escape c else [c]) t)"

text \<open>The units of the grammar itself and those of escapes; a surrogate escapes as part of a pair.\<close>

definition grammar_unit :: "unit16 \<Rightarrow> bool" where
  "grammar_unit c \<longleftrightarrow> is_digit c \<or> (97 \<le> c \<and> c \<le> 122) \<or>
     c \<in> {cQuote, cBackslash, cComma, cColon, cLBrack, cRBrack, cLBrace, cRBrace, cMinus} \<or> is_high c \<or> is_low c"

lemma digit_unit_lower: "d < 16 \<Longrightarrow> is_digit (digit_unit d) \<or> (97 \<le> digit_unit d \<and> digit_unit d \<le> 122)"
  by (drule less_16_cases) (auto simp: digit_unit_def is_digit_def)

lemma hex_units: "c \<in> set (hex n) \<Longrightarrow> is_digit c \<or> (97 \<le> c \<and> c \<le> 122)"
  using radix_units [of 16 c n] digit_unit_lower by auto

lemma escape_by_append [simp]: "escape_by esc (s @ t) = escape_by esc s @ escape_by esc t"
  by (simp add: escape_by_def)

lemma escape_by_Nil [simp]: "escape_by esc [] = []"
  by (simp add: escape_by_def)

lemma escape_by_Cons: "escape_by esc (c # t) = (if esc c then unicode_escape c else [c]) @ escape_by esc t"
  by (simp add: escape_by_def)

lemma escape_by_id: "\<forall>c \<in> set t. \<not> esc c \<Longrightarrow> escape_by esc t = t"
  by (induction t) (simp_all add: escape_by_Cons)

lemma escape_by_none [simp]: "escape_by (\<lambda>_. False) t = t"
  by (simp add: escape_by_id)

lemma escape_by_length: "length t \<le> length (escape_by esc t)"
proof (induction t)
  case (Cons c t)
  moreover have "1 \<le> length (unicode_escape c)" by (simp add: unicode_escape_def Let_def)
  ultimately show ?case by (simp add: escape_by_Cons)
qed simp

section \<open>The reader's contract\<close>

locale plain_reader =
  fixes p :: policy and esc :: "unit16 \<Rightarrow> bool"
  assumes plain: "esc c \<Longrightarrow> \<not> grammar_unit c"
    and numbers: "n \<le> 4294967295 \<Longrightarrow>
      p_number p \<lparr>t_neg = False, t_whole = dec n, t_frac = None, t_exp = None\<rparr> = Some (jint (int n))"
    and texts: "well_formed t \<Longrightarrow> p_text p t"

section \<open>Strings\<close>

lemma scan_string_plain:
  "c \<noteq> cBackslash \<Longrightarrow> c \<noteq> cQuote \<Longrightarrow> scan_string (c # r) = map_option (\<lambda>(s, t). (c # s, t)) (scan_string r)"
  by simp

lemma escape_unit_cases:
  "(\<exists>e. escape_unit c = [cBackslash, e] \<and> simple_unit e = Some c) \<or>
   (\<exists>x1 x2 x3 x4. escape_unit c = [cBackslash, cU, x1, x2, x3, x4] \<and> hexUnit [x1, x2, x3, x4] = Some c) \<or>
   (escape_unit c = [c] \<and> \<not> c < 32 \<and> c \<noteq> cQuote \<and> c \<noteq> cBackslash)"
proof -
  obtain x1 x2 x3 x4 where "unicode_escape c = [cBackslash, cU, x1, x2, x3, x4]" "hexUnit (x1 # x2 # x3 # x4 # []) = Some c"
    using hexUnit_escape by blast
  then show ?thesis by (auto simp: escape_unit_def simple_unit_def)
qed

definition reads_as :: "jstr \<Rightarrow> unit16 \<Rightarrow> bool" where
  "reads_as b c \<longleftrightarrow> (\<forall>r s. scan_string (b @ r) = map_option (\<lambda>(s, t). (b @ s, t)) (scan_string r) \<and>
     (json_literal r = Some s \<longrightarrow> json_literal (b @ r) = Some (c # s)))"

lemma hex_not_special: "hexUnit [x1, x2, x3, x4] = Some c \<Longrightarrow> x \<in> {x1, x2, x3, x4} \<Longrightarrow> x \<noteq> cQuote \<and> x \<noteq> cBackslash"
  by (auto simp: hexUnit_def is_hex_def is_digit_def split: if_splits)

lemma reads_as_unicode:
  assumes "hexUnit [x1, x2, x3, x4] = Some c"
  shows "reads_as [cBackslash, cU, x1, x2, x3, x4] c"
proof -
  have "x1 \<noteq> cQuote \<and> x1 \<noteq> cBackslash" "x2 \<noteq> cQuote \<and> x2 \<noteq> cBackslash" "x3 \<noteq> cQuote \<and> x3 \<noteq> cBackslash"
    "x4 \<noteq> cQuote \<and> x4 \<noteq> cBackslash"
    using hex_not_special [OF assms] by auto
  then show ?thesis using assms
    by (auto simp: reads_as_def simple_unit_def option.map_comp comp_def case_prod_unfold)
qed

lemma reads_as_simple: "simple_unit e = Some c \<Longrightarrow> reads_as [cBackslash, e] c"
  by (simp add: reads_as_def)

lemma reads_as_plain: "\<not> c < 32 \<Longrightarrow> c \<noteq> cQuote \<Longrightarrow> c \<noteq> cBackslash \<Longrightarrow> reads_as [c] c"
  by (simp add: reads_as_def)

lemma reads_as_escape: "reads_as (escape_unit c) c"
  using escape_unit_cases [of c] reads_as_unicode reads_as_simple reads_as_plain by metis

lemma reads_as_unicode_escape: "reads_as (unicode_escape c) c"
  using hexUnit_escape [of c "[]"] reads_as_unicode by metis

lemma reads_as_surrogate: "is_high c \<or> is_low c \<Longrightarrow> reads_as [c] c"
  by (rule reads_as_plain) (auto simp: is_high_def is_low_def word_le_nat_alt word_less_nat_alt)

lemma reads_as_scan: "reads_as b c \<Longrightarrow> scan_string r = Some (s, t) \<Longrightarrow> scan_string (b @ r) = Some (b @ s, t)"
  by (simp add: reads_as_def)

lemma reads_as_literal: "reads_as b c \<Longrightarrow> json_literal r = Some s \<Longrightarrow> json_literal (b @ r) = Some (c # s)"
  by (simp add: reads_as_def)

section \<open>Numbers and literals\<close>

text \<open>What may follow a value in a text of containers.\<close>

definition ends :: "jstr \<Rightarrow> bool" where
  "ends r \<longleftrightarrow> r = [] \<or> hd r \<in> {cComma, cRBrack, cRBrace, 10}"

lemma ends_simps [simp]: "ends []" "ends (cComma # r)" "ends (cRBrack # r)" "ends (cRBrace # r)" "ends (10 # r)"
  by (simp_all add: ends_def)

lemma take_digits_ends: "\<forall>c \<in> set ds. is_digit c \<Longrightarrow> ends r \<Longrightarrow> take_digits (ds @ r) = (ds, r)"
  by (cases r) (auto simp: take_digits_def ends_def is_digit_def)

lemma match_rest_ends: "ends r \<Longrightarrow> match_fraction r = (None, r)" "ends r \<Longrightarrow> match_exponent r = (None, r)"
  by (auto simp: match_fraction_def match_exponent_def ends_def split: list.splits)

lemma dec_head: "is_digit (hd (dec n))" "hd (dec n) = cZero \<longleftrightarrow> n = 0"
proof -
  show "is_digit (hd (dec n))" using dec_is_digit [of n] hd_in_set [OF radix_not_Nil [of 10 n]] by blast
  show "hd (dec n) = cZero \<longleftrightarrow> n = 0"
  proof (cases "n = 0")
    case False
    with hd_radix [of 10 n] obtain d where d: "0 < d" "d < 10" "hd (dec n) = digit_unit d" by auto
    then have "digit_val (hd (dec n)) = d" by (simp add: digit_val_unit)
    with d(1) False show ?thesis by (auto simp: digit_val_def)
  qed simp
qed

lemma match_dec:
  assumes "ends r"
  shows "match_number (dec n @ r) = Some (\<lparr>t_neg = False, t_whole = dec n, t_frac = None, t_exp = None\<rparr>, r)"
proof -
  have "hd (dec n) \<noteq> cMinus" using dec_head(1) [of n] by (auto simp: is_digit_def)
  moreover have "hd (dec n @ r) = hd (dec n)" by simp
  moreover have "n = 0 \<Longrightarrow> tl (dec n @ r) = r \<and> dec n = [cZero]" by simp
  ultimately show ?thesis using match_rest_ends [OF assms] dec_head(2) [of n] take_digits_ends [OF dec_is_digit assms]
    by (cases "n = 0") (simp_all add: match_number_def Let_def)
qed

lemma dec_not_literal: "List.find (\<lambda>(l, v). take (length l) (dec n @ r) = l) literals = None"
proof -
  have d: "is_digit (hd (dec n @ r))" using dec_head(1) by simp
  have "take (length l) (dec n @ r) \<noteq> l" if "(l, v) \<in> set literals" for l v
  proof
    assume "take (length l) (dec n @ r) = l"
    moreover have "l \<noteq> [] \<and> \<not> is_digit (hd l)" using that by (auto simp: literals_def js_def is_digit_def)
    ultimately show False using d by (metis hd_take length_greater_0_conv)
  qed
  then show ?thesis by (auto simp: find_None_iff)
qed

lemma find_literal:
  "List.find (\<lambda>(l, v). take (length l) (js ''true'' @ r) = l) literals = Some (js ''true'', JBool True)"
  "List.find (\<lambda>(l, v). take (length l) (js ''false'' @ r) = l) literals = Some (js ''false'', JBool False)"
  "List.find (\<lambda>(l, v). take (length l) (js ''null'' @ r) = l) literals = Some (js ''null'', JNull)"
  by (simp_all add: literals_def js_def)

lemma number_text_nat: "0 \<le> i \<Longrightarrow> i \<le> MAX_SAFE \<Longrightarrow> number_text (jint i) = dec (nat i)"
  by (cases "i = 0") (simp_all add: jint_def js_def)

section \<open>Reading back\<close>

definition room :: "policy \<Rightarrow> nat \<Rightarrow> bool" where
  "room p k \<longleftrightarrow> (case p_tokens p of None \<Rightarrow> True | Some limit \<Rightarrow> k \<le> limit)"

lemma room_less: "room p k \<Longrightarrow> j \<le> k \<Longrightarrow> room p j"
  by (auto simp: room_def split: option.splits)

lemma token_room: "room p (k + 1) \<Longrightarrow> token p (r, k) = Some (r, k + 1)"
  by (auto simp: token_def room_def split: option.splits)

context plain_reader
begin

lemma grammar_plain [simp]: "grammar_unit c \<Longrightarrow> \<not> esc c"
  using plain by blast

lemma escape_grammar: "\<forall>c \<in> set t. grammar_unit c \<Longrightarrow> escape_by esc t = t"
  by (rule escape_by_id) (use plain in blast)

lemma grammar_units [simp]:
  "grammar_unit cQuote" "grammar_unit cBackslash" "grammar_unit cComma" "grammar_unit cColon" "grammar_unit cLBrack"
  "grammar_unit cRBrack" "grammar_unit cLBrace" "grammar_unit cRBrace"
  by (simp_all add: grammar_unit_def)

lemma escape_fixed [simp]:
  "escape_by esc (dec n) = dec n" "escape_by esc (bool_text b) = bool_text b" "escape_by esc (js ''null'') = js ''null''"
proof -
  show "escape_by esc (dec n) = dec n" using dec_is_digit [of n] by (intro escape_grammar) (auto simp: grammar_unit_def)
  show "escape_by esc (bool_text b) = bool_text b" "escape_by esc (js ''null'') = js ''null''"
    by (rule escape_grammar, simp add: bool_text_def js_def grammar_unit_def)+
qed

lemma escape_punct [simp]:
  "grammar_unit c \<Longrightarrow> escape_by esc (c # t) = c # escape_by esc t"
  by (simp add: escape_by_Cons)

definition block :: "unit16 \<Rightarrow> jstr" where
  "block c = escape_by esc (if is_high c \<or> is_low c then unicode_escape c else escape_unit c)"

lemma unicode_escape_fixed [simp]: "escape_by esc (unicode_escape c) = unicode_escape c"
proof (rule escape_grammar)
  show "\<forall>d \<in> set (unicode_escape c). grammar_unit d"
    by (auto simp: unicode_escape_def Let_def grammar_unit_def is_digit_def dest: hex_units)
qed

lemma block_reads: "reads_as (block c) c"
proof (cases "is_high c \<or> is_low c")
  case False
  consider e where "escape_unit c = [cBackslash, e]" "simple_unit e = Some c" | "escape_unit c = unicode_escape c"
    | "escape_unit c = [c]" "\<not> c < 32" "c \<noteq> cQuote" "c \<noteq> cBackslash"
    using escape_unit_cases [of c] by (auto simp: escape_unit_def split: if_splits)
  then show ?thesis
  proof cases
    case 1
    moreover have "unicode_escape c \<noteq> [cBackslash, e]" using unicode_escape_eq [of c] by auto
    ultimately have "grammar_unit e" by (auto simp: escape_unit_def grammar_unit_def split: if_splits)
    with 1 False show ?thesis by (simp add: block_def reads_as_simple)
  next
    case 3
    with False show ?thesis by (simp add: block_def escape_by_Cons reads_as_unicode_escape reads_as_plain)
  qed (use False in \<open>simp add: block_def reads_as_unicode_escape\<close>)
qed (simp add: block_def reads_as_unicode_escape)

lemma quoted_reads:
  "scan_string (escape_by esc (quote_units s) @ cQuote # r) = Some (escape_by esc (quote_units s), r) \<and>
   json_literal (escape_by esc (quote_units s)) = Some s"
proof (induction s rule: quote_units.induct)
  case 1 then show ?case by simp
next
  case (2 c)
  have "scan_string (cQuote # r) = Some ([], r)" "json_literal [] = Some []" by simp_all
  from reads_as_scan [OF block_reads this(1)] reads_as_literal [OF block_reads this(2)] show ?case
    by (simp add: block_def del: scan_string.simps json_literal.simps)
next
  case (3 c d s)
  show ?case
  proof (cases "is_high c \<and> is_low d")
    case True
    then have "reads_as [c] c" "reads_as [d] d" "grammar_unit c" "grammar_unit d"
      using reads_as_surrogate by (auto simp: grammar_unit_def)
    with 3(1) [OF True] True show ?thesis
      using reads_as_scan [of "[d]" d "escape_by esc (quote_units s) @ cQuote # r"]
        reads_as_scan [of "[c]" c "d # escape_by esc (quote_units s) @ cQuote # r"]
        reads_as_literal [of "[d]" d "escape_by esc (quote_units s)"] reads_as_literal [of "[c]" c "d # escape_by esc (quote_units s)"]
      by (simp del: scan_string.simps json_literal.simps)
  next
    case False
    then have "escape_by esc (quote_units (c # d # s)) = block c @ escape_by esc (quote_units (d # s))"
      by (auto simp: block_def)
    with 3(2) [OF False] reads_as_scan [OF block_reads] reads_as_literal [OF block_reads] show ?thesis
      by (simp del: scan_string.simps json_literal.simps quote_units.simps)
  qed
qed

lemma string_reads:
  assumes "well_formed s" "room p (k + 1)"
  shows "read_string p (escape_by esc (quote s) @ r, k) = Some (s, (r, k + 1))"
  using quoted_reads [of s r] texts [OF assms(1)] token_room [OF assms(2)]
  by (simp add: read_string_def quote_def)

definition reads_back :: "(reader \<Rightarrow> (jval \<times> reader) option) \<Rightarrow> jval \<Rightarrow> bool" where
  "reads_back rd v \<longleftrightarrow> (\<forall>r k. ends r \<longrightarrow> room p (k + tokens_of v) \<longrightarrow>
     rd (escape_by esc (json_text v) @ r, k) = Some (v, (r, k + tokens_of v)))"

lemma items_read:
  assumes "\<And>v. P v \<Longrightarrow> reads_back rd v"
  shows "ds \<noteq> [] \<Longrightarrow> \<forall>d \<in> set ds. data_of P d \<Longrightarrow> length ds \<le> fuel \<Longrightarrow> room p (k + item_tokens ds) \<Longrightarrow>
    read_items fuel rd acc (escape_by esc (items_text ds) @ cRBrack # r, k) = Some (acc @ ds, (cRBrack # r, k + item_tokens ds))"
proof (induction ds arbitrary: fuel acc k)
  case (Cons d ds)
  then obtain v where d: "d = Data True v" "P v" by (cases d) auto
  obtain fuel' where fuel: "fuel = Suc fuel'" using Cons.prems by (cases fuel) auto
  have "room p (k + tokens_of v)" by (rule room_less [OF Cons.prems(4)]) (simp add: d(1))
  then have rd: "rd (escape_by esc (json_text v) @ t, k) = Some (v, (t, k + tokens_of v))" if "ends t" for t
    using assms [OF d(2)] that by (simp add: reads_back_def)
  show ?case
  proof (cases "ds = []")
    case True
    then show ?thesis using rd d fuel by (simp add: Let_def ws_def at_unit_def json_space_def)
  next
    case False
    with Cons.IH [OF False, of fuel' "k + tokens_of v" "acc @ [d]"] Cons.prems rd d fuel show ?thesis
      by (simp add: Let_def ws_def at_unit_def skip_unit_def json_space_def add.assoc)
  qed
qed simp

lemma members_read:
  assumes "\<And>v. P v \<Longrightarrow> reads_back rd v"
  shows "ps \<noteq> [] \<Longrightarrow> \<forall>(key, d) \<in> set ps. strict_key key \<and> data_of P d \<Longrightarrow> distinct (map fst (acc @ ps)) \<Longrightarrow>
    length ps \<le> fuel \<Longrightarrow> room p (k + member_tokens ps) \<Longrightarrow>
    read_members fuel p rd acc (escape_by esc (members_text ps) @ cRBrace # r, k) = Some (acc @ ps, (cRBrace # r, k + member_tokens ps))"
proof (induction ps arbitrary: fuel acc k)
  case (Cons m ps)
  obtain key d where m: "m = (Key key, d)" using Cons.prems(2) by (cases m; cases "fst m") auto
  with Cons.prems(2) obtain v where d: "d = Data True v" "P v" and key: "well_formed key" by (cases d) auto
  obtain fuel' where fuel: "fuel = Suc fuel'" using Cons.prems by (cases fuel) auto
  have "room p (k + 1 + tokens_of v)" by (rule room_less [OF Cons.prems(5)]) (simp add: d(1) m)
  then have rd: "rd (escape_by esc (json_text v) @ t, k + 1) = Some (v, (t, k + 1 + tokens_of v))" if "ends t" for t
    using assms [OF d(2)] that by (simp add: reads_back_def)
  have "room p (k + 1)" by (rule room_less [OF Cons.prems(5)]) (simp add: m)
  note str = string_reads [OF key this]
  have new: "\<not> hasOwn acc key" "AList.update (Key key) (Data True v) acc = acc @ [m]"
    using Cons.prems(3) m d(1) by (auto simp: hasOwn_keys update_new)
  have open_quote: "escape_by esc (quote key) @ t = cQuote # tl (escape_by esc (quote key)) @ t" for t by (simp add: quote_def)
  have start: "ws (escape_by esc (quote key) @ t, k) = (escape_by esc (quote key) @ t, k)" "at_unit cQuote (escape_by esc (quote key) @ t, k)" for t
    by (simp_all add: ws_def at_unit_def quote_def)
  show ?case
  proof (cases "ps = []")
    case True
    then show ?thesis using rd d fuel m str new start
      by (simp add: Let_def at_unit_def skip_unit_def) (simp add: ws_def at_unit_def skip_unit_def json_space_def)
  next
    case False
    with Cons.IH [OF False, of "acc @ [m]" fuel' "k + 1 + tokens_of v"] Cons.prems rd d fuel m str new start show ?thesis
      by (simp add: Let_def at_unit_def skip_unit_def) (simp add: ws_def at_unit_def skip_unit_def json_space_def add.assoc)
  qed
qed simp

lemma tokens_pos: "1 \<le> tokens_of v"
  by (cases v) simp_all

lemma items_text_length: "length ds \<le> length (escape_by esc (items_text ds)) + 1"
proof (induction ds)
  case (Cons d ds) then show ?case by (cases ds) auto
qed simp

lemma members_text_length: "length ps \<le> length (escape_by esc (members_text ps)) + 1"
proof (induction ps)
  case (Cons m ps) then show ?case by (cases m; cases ps) auto
qed simp

text \<open>The first unit of a value's text.\<close>

definition opens_value :: "unit16 \<Rightarrow> bool" where
  "opens_value c \<longleftrightarrow> \<not> json_space c \<and> c \<noteq> cRBrack \<and> c \<noteq> cRBrace"

lemma opens_value_words: "opens_value (hd (js ''null''))" "bool_text b \<noteq> [] \<and> opens_value (hd (bool_text b))"
  by (simp_all add: opens_value_def json_space_def js_def bool_text_def)

lemma json_text_head: "strict_value levels v \<Longrightarrow> escape_by esc (json_text v) \<noteq> [] \<and> opens_value (hd (escape_by esc (json_text v)))"
proof (cases levels)
  case (Suc n)
  assume s: "strict_value levels v"
  then show ?thesis
  proof (cases v)
    case (JNum x)
    with s Suc obtain i where i: "0 \<le> i" "i \<le> 4294967295" "x = jint i" by (auto split: option.splits)
    then have "json_text v = dec (nat i)" using JNum by (simp add: number_text_nat MAX_SAFE_def) (simp add: jint_def)
    moreover have "opens_value c" if "is_digit c" for c using that by (auto simp: is_digit_def opens_value_def json_space_def word_less_nat_alt)
    ultimately show ?thesis using dec_head(1) [of "nat i"] by simp
  next
    case JNull
    then show ?thesis using opens_value_words(1) by simp
  next
    case (JBool b)
    then show ?thesis using opens_value_words(2) by simp
  qed (use Suc in \<open>auto simp: opens_value_def json_space_def quote_def\<close>)
qed simp

lemma scalar_reads:
  "ends r \<Longrightarrow> read_scalar p (bool_text b @ r, k) = Some (JBool b, (r, k))"
  "ends r \<Longrightarrow> read_scalar p (js ''null'' @ r, k) = Some (JNull, (r, k))"
  "ends r \<Longrightarrow> n \<le> 4294967295 \<Longrightarrow> read_scalar p (dec n @ r, k) = Some (JNum (jint (int n)), (r, k))"
  by (simp_all add: read_scalar_def bool_text_def find_literal dec_not_literal match_dec numbers del: take_append)

definition scalar_text :: "jstr \<Rightarrow> bool" where
  "scalar_text t \<longleftrightarrow> t \<noteq> [] \<and> \<not> json_space (hd t) \<and> hd t \<noteq> cQuote \<and> hd t \<noteq> cLBrace \<and> hd t \<noteq> cLBrack"

lemma read_value_scalar:
  assumes "scalar_text t" "room p (k + 1)"
  shows "read_value p (Suc levels) (t @ r, k) = read_scalar p (t @ r, k + 1)"
  using assms token_room [OF assms(2), of "t @ r"]
  by (cases t) (auto simp: scalar_text_def ws_def at_unit_def Let_def)

lemma scalar_text_dec: "scalar_text (dec n)"
proof -
  have "scalar_text t" if "t \<noteq> []" "is_digit (hd t)" for t
    using that by (auto simp: scalar_text_def is_digit_def json_space_def)
  then show ?thesis using dec_head(1) [of n] by simp
qed

lemma array_reads:
  assumes "\<And>v. strict_value levels v \<Longrightarrow> reads_back (read_value p levels) v"
    "\<forall>d \<in> set ds. data_of (strict_value levels) d" "room p (k + item_tokens ds)"
  shows "array_body (read_value p levels) (escape_by esc (items_text ds) @ cRBrack # r, k) = Some (ds, (cRBrack # r, k + item_tokens ds))"
proof (cases ds)
  case Nil then show ?thesis by (simp add: array_body_def ws_def at_unit_def json_space_def Let_def)
next
  case (Cons d ds')
  with assms(2) obtain v where v: "d = Data True v" "strict_value levels v" by (cases d) auto
  have "items_text ds @ cRBrack # r \<noteq> []" "opens_value (hd (escape_by esc (items_text ds) @ cRBrack # r))"
    using json_text_head [OF v(2)] Cons v(1) by auto
  then have st: "ws (escape_by esc (items_text ds) @ cRBrack # r, k) = (escape_by esc (items_text ds) @ cRBrack # r, k)"
    "\<not> at_unit cRBrack (escape_by esc (items_text ds) @ cRBrack # r, k)"
    by (cases "escape_by esc (items_text ds) @ cRBrack # r", auto simp: ws_def at_unit_def opens_value_def)+
  show ?thesis unfolding array_body_def Let_def st
    using st(2) items_read [where P = "strict_value levels", OF assms(1), where ds = ds and k = k and acc = "[]" and r = r
        and fuel = "length (escape_by esc (items_text ds) @ cRBrack # r)"] items_text_length [of ds] assms(2,3) Cons
    by simp
qed

lemma object_reads:
  assumes "\<And>v. strict_value levels v \<Longrightarrow> reads_back (read_value p levels) v"
    "\<forall>(key, d) \<in> set ps. strict_key key \<and> data_of (strict_value levels) d" "distinct (map fst ps)"
    "room p (k + member_tokens ps)"
  shows "object_body p (read_value p levels) (escape_by esc (members_text ps) @ cRBrace # r, k) = Some (ps, (cRBrace # r, k + member_tokens ps))"
proof (cases ps)
  case Nil then show ?thesis by (simp add: object_body_def ws_def at_unit_def json_space_def Let_def)
next
  case (Cons m ps')
  with assms(2) obtain key d where m: "m = (Key key, d)" by (cases m; cases "fst m") auto
  have "escape_by esc (members_text ps) @ cRBrace # r = cQuote # tl (escape_by esc (members_text ps) @ cRBrace # r)"
    unfolding Cons m by (simp add: quote_def)
  then have st: "ws (escape_by esc (members_text ps) @ cRBrace # r, k) = (escape_by esc (members_text ps) @ cRBrace # r, k)"
    "\<not> at_unit cRBrace (escape_by esc (members_text ps) @ cRBrace # r, k)"
    by (metis (mono_tags, lifting) dropWhile.simps(2) fst_conv snd_conv ws_def not_spaces(4),
        auto simp: at_unit_def Cons m quote_def)
  show ?thesis unfolding object_body_def Let_def st
    using st(2) members_read [where P = "strict_value levels", OF assms(1), where ps = ps and k = k and acc = "[]" and r = r
        and fuel = "length (escape_by esc (members_text ps) @ cRBrace # r)"] members_text_length [of ps] assms(2-4) Cons
    by simp
qed

lemma value_reads: "strict_value levels v \<Longrightarrow> reads_back (read_value p levels) v"
proof (induction levels arbitrary: v)
  case (Suc levels)
  show ?case unfolding reads_back_def
  proof (intro allI impI)
    fix r k assume r: "ends r" and room: "room p (k + tokens_of v)"
    have room1: "room p (k + 1)" using tokens_pos [of v] by (intro room_less [OF room]) simp
    note tok = token_room [OF room1]
    show "read_value p (Suc levels) (escape_by esc (json_text v) @ r, k) = Some (v, (r, k + tokens_of v))"
    proof (cases v)
      case (JStr s)
      have "ws (escape_by esc (quote s) @ r, k) = (escape_by esc (quote s) @ r, k)" "at_unit cQuote (escape_by esc (quote s) @ r, k)"
        by (simp_all add: ws_def at_unit_def quote_def)
      with JStr string_reads [of s k r] room1 Suc.prems show ?thesis by simp
    next
      case JNull
      have "scalar_text (js ''null'')" by (simp add: scalar_text_def js_def json_space_def)
      with JNull show ?thesis using read_value_scalar scalar_reads(2) [OF r] room1 by simp
    next
      case (JBool b)
      have "scalar_text (bool_text b)" by (simp add: scalar_text_def bool_text_def js_def json_space_def)
      with JBool show ?thesis using read_value_scalar scalar_reads(1) [OF r] room1 by simp
    next
      case (JNum x)
      with Suc.prems obtain i where i: "0 \<le> i" "i \<le> 4294967295" "x = jint i" by (auto split: option.splits)
      then have "json_text v = dec (nat i)" using JNum by (simp add: number_text_nat MAX_SAFE_def) (simp add: jint_def)
      with JNum i show ?thesis using read_value_scalar [OF scalar_text_dec room1] scalar_reads(3) [OF r, of "nat i"] by simp
    next
      case (JArr i plain ds)
      have room2: "room p (k + 1 + item_tokens ds)" "room p (k + 1 + item_tokens ds + 1)"
        by (rule room_less [OF room], simp add: JArr)+
      have body: "array_body (read_value p levels) (escape_by esc (items_text ds) @ cRBrack # r, k + 1) = Some (ds, (cRBrack # r, k + 1 + item_tokens ds))"
        using Suc JArr by (intro array_reads room2(1)) auto
      show ?thesis using Suc.prems JArr tok body token_room [OF room2(2)]
        by (simp add: ws_def at_unit_def json_space_def Let_def)
    next
      case (JObj i plain ps)
      have room2: "room p (k + 1 + member_tokens ps)" "room p (k + 1 + member_tokens ps + 1)"
        by (rule room_less [OF room], simp add: JObj)+
      have body: "object_body p (read_value p levels) (escape_by esc (members_text ps) @ cRBrace # r, k + 1) = Some (ps, (cRBrace # r, k + 1 + member_tokens ps))"
        using Suc JObj by (intro object_reads room2(1)) auto
      show ?thesis using Suc.prems JObj tok body token_room [OF room2(2)]
        by (simp add: ws_def at_unit_def json_space_def Let_def)
    qed (use Suc.prems in simp_all)
  qed
qed simp

lemma text_reads:
  assumes "strict_value levels v" "room p (tokens_of v)"
  shows "read_json p levels (escape_by esc (json_text v)) = Some v"
  using value_reads [OF assms(1)] assms(2)
  by (auto simp: reads_back_def read_json_def ws_def dest: spec [of _ "[]"])

lemma line_reads:
  assumes "strict_value levels v" "room p (tokens_of v)"
  shows "read_json p levels (escape_by esc (json_text v) @ [10]) = Some v"
  using value_reads [OF assms(1)] assms(2)
  by (auto simp: reads_back_def read_json_def ws_def json_space_def dest: spec [of _ "[10]"])

end

text \<open>A strict value has no more levels than its text has units.\<close>

lemma item_text_shorter: "d \<in> set ds \<Longrightarrow> length (desc_text d) \<le> length (items_text ds)"
  by (induction ds) auto

lemma member_text_shorter: "(k, d) \<in> set ps \<Longrightarrow> length (desc_text d) \<le> length (members_text ps)"
  by (induction ps) auto

lemma strict_levels: "strict_value n v \<Longrightarrow> length (json_text v) \<le> m \<Longrightarrow> strict_value m v"
proof (induction n arbitrary: v m)
  case (Suc n)
  have "json_text v \<noteq> []"
    using Suc.prems(1) by (cases v) (auto simp: bool_text_def quote_def number_text_nat MAX_SAFE_def split: option.splits if_splits)
  then obtain m' where m: "m = Suc m'" using Suc.prems(2) by (cases m) auto
  show ?case
  proof (cases v)
    case (JArr i plain ds)
    have "data_of (strict_value m') d" if "d \<in> set ds" for d
      using Suc item_text_shorter [OF that] that JArr m by (cases d) fastforce+
    with Suc.prems JArr m show ?thesis by simp
  next
    case (JObj i plain ps)
    have "data_of (strict_value m') d" if "(k, d) \<in> set ps" for k d
      using Suc member_text_shorter [OF that] that JObj m by (cases d) fastforce+
    with Suc.prems JObj m show ?thesis by fastforce
  qed (use Suc.prems m in simp_all)
qed simp

lemma contextNumber_dec:
  "n \<le> 4294967295 \<Longrightarrow> contextNumber \<lparr>t_neg = False, t_whole = dec n, t_frac = None, t_exp = None\<rparr> = Some (int n)"
proof -
  let ?t = "\<lparr>t_neg = False, t_whole = dec n, t_frac = None, t_exp = None\<rparr>"
  assume n: "n \<le> 4294967295"
  have val: "digits_val 10 (dec n) = n" by (simp add: digits_val_radix)
  show ?thesis
  proof (cases "n = 0")
    case True then show ?thesis by (simp add: contextNumber_def frac_digits_def drop_zeros_def)
  next
    case False
    then have "drop_zeros (dec n) = dec n"
      using dec_head(2) [of n] by (cases "dec n") (auto simp: drop_zeros_def)
    moreover have "length (dec n) \<le> 10" using n length_radix_le [of 10 10 n] by simp
    moreover have "scale_digits (dec n) 0 = Some (dec n)" using calculation(2) by (simp add: scale_digits_def)
    ultimately show ?thesis using n val
      by (simp add: contextNumber_def frac_digits_def raw_exponent_def signed_value_def Let_def digits_val_def [of 10 "[cZero]"] digit_val_def)
  qed
qed

interpretation context_reader: plain_reader context_policy "\<lambda>_. False"
  by unfold_locales (simp_all add: context_policy_def contextNumber_dec)

interpretation json_reader: plain_reader json_policy "\<lambda>_. False"
proof
  fix n :: nat assume "n \<le> 4294967295"
  then show "p_number json_policy \<lparr>t_neg = False, t_whole = dec n, t_frac = None, t_exp = None\<rparr> = Some (jint (int n))"
    using round_double_int [of "int n"]
    by (simp add: json_policy_def token_number_def frac_digits_def exp_value_def decimal_value_def pow10_def digits_val_radix)
qed (simp_all add: json_policy_def)

text \<open>
  C13: what is printed is read back: \<open>JSON.parse\<close> gives back every value of the grammar of the strict reader (at
  most 16 levels, distinct well-formed keys, 32-bit naturals) from the text that \<open>JSON.stringify\<close> makes of it,
  and so does the strict reader when the value has no more than 16384 tokens, so the two agree on these texts.
\<close>

theorem strict_json_roundtrip:
  assumes "strict_value 16 v"
  shows "json_parse (json_text v) = Some v \<and> (tokens_of v \<le> 16384 \<longrightarrow> contextJSON (json_text v) = Some v)"
proof -
  have "strict_value (Suc (length (json_text v))) v" using assms by (rule strict_levels) simp
  then show ?thesis using json_reader.text_reads context_reader.text_reads [OF assms]
    by (simp add: json_parse_def contextJSON_def room_def context_policy_def json_policy_def)
qed

section \<open>Witnesses\<close>

definition example_json :: jval where
  "example_json = obj [(''a'', arr [num 7, str ''b''])]"

lemma example_json_strict: "strict_value 16 example_json" "tokens_of example_json \<le> 16384"
  by code_simp (simp add: example_json_def obj_def arr_def num_def str_def)

theorem strict_json_roundtrip_witness:
  "json_parse (json_text example_json) = Some example_json \<and> contextJSON (json_text example_json) = Some example_json"
  using strict_json_roundtrip [OF example_json_strict(1)] example_json_strict(2) by blast

lemma example_json_read: "contextJSON (json_text example_json) = Some example_json"
  using context_reader.text_reads [OF example_json_strict(1)] example_json_strict(2)
  by (simp add: contextJSON_def room_def context_policy_def)

theorem contextJSON_strict_witness: "strict_value 16 example_json \<and> contextJSON (json_text example_json) = Some example_json"
  using contextJSON_strict [OF example_json_read] example_json_read by blast

definition example_token :: num_token where
  "example_token = \<lparr>t_neg = False, t_whole = js ''12'', t_frac = Some (js ''50''), t_exp = Some ([cPlus], js ''1'')\<rparr>"

lemma example_token_ok: "token_ok example_token" "token_length example_token \<le> 16384" "exp_value example_token = 1"
  "token_value example_token = 125"
  by (simp_all add: token_ok_def example_token_def frac_digits_def token_length_def exp_value_def token_value_def
      decimal_value_def pow10_def digits_val_def digit_val_def js_def is_digit_def)

theorem contextNumber_exact_witness: "contextNumber example_token = Some 125"
  using contextNumber_exact [OF example_token_ok(1,2), of 125] example_token_ok(4) by simp

theorem exactGeoCount_exact_witness: "exactGeoCount example_token 6200 \<and> \<not> exactGeoCount example_token 1"
  using exactGeoCount_exact [OF example_token_ok(1), of 6200] exactGeoCount_exact [OF example_token_ok(1), of 1]
    example_token_ok(3,4) by (auto intro: exI [of _ 125])

end
