(* ===== verification/Legacy_IP.thy ===== *)
theory Legacy_IP
  imports Common_Prefix
begin

text \<open>
  The canonical text of an address in a topology model (\<open>parseIPv4\<close>, \<open>parseIPv6\<close> and
  \<open>canonicalIP\<close> of \<open>frontend/topology-model.js\<close>): a second parser, which works on texts where
  \<open>frontend/common-prefix.js\<close> works on values.  The two agree.
\<close>

definition parseIPv4 :: "jstr \<Rightarrow> (jstr \<times> nat list) option" where
  "parseIPv4 value = (let parts = split_on cDot value in
     if length parts \<noteq> 4 then None
     else map_option (\<lambda>bytes. (join [cDot] (map dec bytes), bytes)) (traverse ipv4_byte parts))"

fun half_words :: "bool \<Rightarrow> jstr list \<Rightarrow> nat list option" where
  "half_words allowIPv4 [] = Some []"
| "half_words allowIPv4 (part # rest) = do {
     ws \<leftarrow> (if cDot \<in> set part
       then (if \<not> allowIPv4 \<or> rest \<noteq> [] then None
         else map_option (\<lambda>(t, b). [b ! 0 * 256 + b ! 1, b ! 2 * 256 + b ! 3]) (parseIPv4 part))
       else (if hex_word part then Some [digits_val 16 part] else None));
     more \<leftarrow> half_words allowIPv4 rest;
     Some (ws @ more) }"

definition parse_half :: "jstr \<Rightarrow> bool \<Rightarrow> nat list option" where
  "parse_half half allowIPv4 = (if half = [] then Some [] else half_words allowIPv4 (split_on cColon half))"

definition whole_words :: "jstr list \<Rightarrow> nat list option" where
  "whole_words halves = (case halves of
     [h] \<Rightarrow> do { left \<leftarrow> parse_half h True; if length left \<noteq> 8 then None else Some left }
   | [h, t] \<Rightarrow> do {
       left \<leftarrow> parse_half h False;
       right \<leftarrow> parse_half t True;
       (if length left + length right < 8
        then Some (left @ replicate (8 - length left - length right) 0 @ right) else None) }
   | _ \<Rightarrow> None)"

text \<open>The mapped IPv4 text, which loses the zone; any other text keeps it.  The search for the longest
  run of zero words is the loop of \<open>common-prefix.js\<close> word for word, hence \<open>v6_text\<close>.\<close>

definition words_text :: "jstr \<Rightarrow> nat list \<Rightarrow> jstr option" where
  "words_text zone words = (if (\<forall>w \<in> set (take 5 words). w = 0) \<and> words ! 5 = 0xffff
     then map_option fst (parseIPv4 (join [cDot] (map dec
       [words ! 6 div 256, words ! 6 mod 256, words ! 7 div 256, words ! 7 mod 256])))
     else Some (v6_text words @ (if zone = [] then [] else cPercent # zone)))"

definition parseIPv6 :: "jstr \<Rightarrow> jstr option" where
  "parseIPv6 value = (let address = takeWhile (\<lambda>c. c \<noteq> cPercent) value; zone = drop (Suc (length address)) value in
     if cPercent \<in> set value \<and> zone = [] then None
     else if cColon \<notin> set address then None
     else do { words \<leftarrow> whole_words (split_pair cColon address); words_text zone words })"

definition canonicalIP :: "jstr \<Rightarrow> jstr option" where
  "canonicalIP value = (case parseIPv4 value of Some (t, b) \<Rightarrow> Some t | None \<Rightarrow> parseIPv6 value)"

section \<open>Agreement with the other parser\<close>

lemma traverse_bytes: "traverse ipv4_byte parts = Some bytes \<Longrightarrow> \<forall>b \<in> set bytes. b < 256"
  using traverse_all [of ipv4_byte parts bytes "\<lambda>b. b < 256"] ipv4_byte_bound by auto

lemma four: "length xs = 4 \<Longrightarrow> \<exists>a b c d. xs = [a, b, c, d]"
  by (auto simp: length_Suc_conv eval_nat_numeral)

lemma two_halves:
  assumes "x < 65536" "y < 65536"
  shows "nat (drop_bit 16 (int y * 65536 + int x) AND 0xffff) = y" "nat ((int y * 65536 + int x) AND 0xffff) = x"
proof -
  have "(int y * 65536 + int x) div 65536 = int y" "(int y * 65536 + int x) mod 65536 = int x" using assms by simp_all
  then show "nat (drop_bit 16 (int y * 65536 + int x) AND 0xffff) = y" "nat ((int y * 65536 + int x) AND 0xffff) = x"
    using assms by (simp_all add: drop_bit_eq_div and_ffff)
qed

lemma shift_four:
  assumes "a < 256" "b < 256" "c < 256" "d < 256"
  shows "shift_in 8 [a, b, c, d] = int (a * 256 + b) * 65536 + int (c * 256 + d)"
proof -
  have "\<forall>w \<in> set [a, b, c, d]. w < 2 ^ 8" using assms by simp
  from foldl_shift [OF this, of 0] show ?thesis by (simp add: shift_in_def)
qed

lemma v4_words: "map_option (\<lambda>(t, b). [b ! 0 * 256 + b ! 1, b ! 2 * 256 + b ! 3]) (parseIPv4 part) =
    map_option (\<lambda>v4. [nat (drop_bit 16 (bval v4) AND 0xffff), nat (bval v4 AND 0xffff)]) (ipv4Bits part)"
proof (cases "length (split_on cDot part) = 4 \<and> traverse ipv4_byte (split_on cDot part) \<noteq> None")
  case True
  then obtain bytes where t: "traverse ipv4_byte (split_on cDot part) = Some bytes" by auto
  from traverse_length [OF t] True obtain a b c d where bytes: "bytes = [a, b, c, d]" using four by metis
  with traverse_bytes [OF t] have lt: "a < 256" "b < 256" "c < 256" "d < 256" by auto
  define x y where "x = c * 256 + d" and "y = a * 256 + b"
  have xy: "x < 65536" "y < 65536" using lt by (simp_all add: x_def y_def)
  have v: "shift_in 8 [a, b, c, d] = int y * 65536 + int x" using shift_four [OF lt] by (simp add: x_def y_def)
  have "parseIPv4 part = Some (join [cDot] (map dec bytes), bytes)" "ipv4Bits part = Some \<lparr>fam = V4, width = 32, bval = int y * 65536 + int x\<rparr>"
    using True t bytes v by (simp_all add: parseIPv4_def ipv4Bits_def Let_def)
  then show ?thesis using two_halves [OF xy] by (simp add: bytes x_def y_def del: of_nat_add of_nat_mult)
qed (auto simp: parseIPv4_def ipv4Bits_def Let_def)

lemma half_words_agree: "half_words allow parts = parse_parts allow parts"
proof (induction allow parts rule: half_words.induct)
  case (2 allow part rest)
  have "(if cDot \<in> set part then (if \<not> allow \<or> rest \<noteq> [] then None
      else map_option (\<lambda>(t, b). [b ! 0 * 256 + b ! 1, b ! 2 * 256 + b ! 3]) (parseIPv4 part))
    else (if hex_word part then Some [digits_val 16 part] else None)) =
   (if cDot \<in> set part then (if \<not> allow \<or> rest \<noteq> [] then None
      else map_option (\<lambda>v4. [nat (drop_bit 16 (bval v4) AND 0xffff), nat (bval v4 AND 0xffff)]) (ipv4Bits part))
    else (if hex_word part then Some [digits_val 16 part] else None))" (is "?A = ?B")
    unfolding v4_words ..
  then show ?case unfolding half_words.simps parse_parts.simps using 2 by (cases ?B) simp_all
qed simp

lemma parse_half_agree: "parse_half h allow = parseHalf h allow"
  by (simp add: parse_half_def parseHalf_def half_words_agree)

lemma whole_words_agree: "whole_words halves = ipv6_group halves"
  by (simp only: whole_words_def ipv6_group_def parse_half_agree)

lemma shift_out_snoc: "shift_out k (Suc n) v = shift_out k n (drop_bit k v) @ [nat (v AND mask k)]"
proof -
  have "[0..<Suc n] = 0 # map Suc [0..<n]" by (simp add: map_Suc_upt upt_conv_Cons del: upt_Suc)
  then have "rev [0..<Suc n] = map Suc (rev [0..<n]) @ [0]" by (simp only: rev.simps rev_map)
  then show ?thesis unfolding shift_out_def by (simp add: add.commute)
qed

lemma shift_in_snoc: "w < 2 ^ k \<Longrightarrow> \<forall>w \<in> set ws. w < 2 ^ k \<Longrightarrow> shift_in k (ws @ [w]) = shift_in k ws * 2 ^ k + int w"
  using foldl_shift [of "ws @ [w]" k 0] foldl_shift [of ws k 0] by (simp add: shift_in_def)

lemma shift_out_in: "\<forall>w \<in> set ws. w < 2 ^ k \<Longrightarrow> shift_out k (length ws) (shift_in k ws) = ws"
proof (induction ws rule: rev_induct)
  case (snoc w ws)
  define v where "v = shift_in k ws"
  have w: "w < 2 ^ k" using snoc.prems by simp
  then have "int w < 2 ^ k" by (metis of_nat_less_iff of_nat_numeral of_nat_power)
  then have "(v * 2 ^ k + int w) div 2 ^ k = v" "(v * 2 ^ k + int w) mod 2 ^ k = int w" by simp_all
  then show ?case using snoc w
    by (simp add: shift_in_snoc shift_out_snoc drop_bit_eq_div take_bit_eq_mod [symmetric] flip: v_def take_bit_eq_mask)
qed (simp add: shift_out_def)

text \<open>The words' text is that of their value.\<close>

lemma dec_bytes_text:
  assumes "\<forall>b \<in> set bytes. b < 256" "length bytes = 4"
  shows "parseIPv4 (join [cDot] (map dec bytes)) = Some (join [cDot] (map dec bytes), bytes)"
proof -
  have "split_on cDot (join [cDot] (map dec bytes)) = map dec bytes"
    by (rule split_on_join) (use assms(2) sep_notin_dec in auto)
  moreover have "traverse ipv4_byte (map dec bytes) = Some (map id bytes)"
    unfolding traverse_map using assms(1) by (intro traverse_Some_map) (auto simp: ipv4_byte_dec)
  ultimately show ?thesis using assms(2) by (simp add: parseIPv4_def)
qed

lemma parseIPv4_agrees: "map_option fst (parseIPv4 t) = map_option (\<lambda>b. formatValue (bval b) V4) (ipv4Bits t)"
proof (cases "length (split_on cDot t) = 4 \<and> traverse ipv4_byte (split_on cDot t) \<noteq> None")
  case True
  then obtain bytes where t: "traverse ipv4_byte (split_on cDot t) = Some bytes" by auto
  have len: "length bytes = 4" using traverse_length [OF t] True by simp
  have bound: "\<forall>w \<in> set bytes. w < 2 ^ 8" using traverse_bytes [OF t] by simp
  have "shift_out 8 4 (shift_in 8 bytes) = bytes"
    using shift_out_in [OF bound] len by simp
  with True t show ?thesis by (simp add: parseIPv4_def ipv4Bits_def Let_def formatValue_def js_def)
qed (auto simp: parseIPv4_def ipv4Bits_def Let_def)

lemma words_text_agrees:
  assumes "\<forall>w \<in> set ws. w < 65536" "length ws = 8"
  shows "words_text [] ws = Some (formatValue (bval (ipv6_bits ws)) (fam (ipv6_bits ws)))"
proof (cases "(\<forall>w \<in> set (take 5 ws). w = 0) \<and> ws ! 5 = 0xffff")
  case True
  define x y where "x = ws ! 7" and "y = ws ! 6"
  have xy: "x < 65536" "y < 65536" using assms by (simp_all add: x_def y_def)
  let ?bytes = "[y div 256, y mod 256, x div 256, x mod 256]"
  have lt: "y div 256 < 256" "y mod 256 < 256" "x div 256 < 256" "x mod 256 < 256" using xy by auto
  have "y div 256 * 256 + y mod 256 = y" "x div 256 * 256 + x mod 256 = x" by simp_all
  then have v: "shift_in 8 ?bytes = int y * 65536 + int x" using shift_four [OF lt] by metis
  have "push_bit 16 (int y) OR int x = int (y * 65536 + x)" by (rule push_two_words [OF xy(2,1)])
  then have "formatValue (bval (ipv6_bits ws)) (fam (ipv6_bits ws)) = join [cDot] (map dec (shift_out 8 4 (shift_in 8 ?bytes)))"
    using True v by (simp add: ipv6_bits_def formatValue_def x_def y_def js_def)
  also have "shift_out 8 4 (shift_in 8 ?bytes) = ?bytes"
  proof -
    have "shift_out 8 (length ?bytes) (shift_in 8 ?bytes) = ?bytes" by (rule shift_out_in) (use lt in simp)
    moreover have "length ?bytes = 4" by simp
    ultimately show ?thesis by (simp only:)
  qed
  finally show ?thesis using True dec_bytes_text [of ?bytes] lt by (simp add: words_text_def x_def y_def)
next
  case False
  have "shift_out 16 (length ws) (shift_in 16 ws) = ws" by (rule shift_out_in) (use assms(1) in simp)
  moreover have "words_text [] ws = Some (v6_text ws)" unfolding words_text_def if_not_P [OF False] by simp
  moreover have "ipv6_bits ws = \<lparr>fam = V6, width = 128, bval = shift_in 16 ws\<rparr>"
    unfolding ipv6_bits_def if_not_P [OF False] ..
  ultimately show ?thesis using assms(2) by (simp add: formatValue_def)
qed

lemma canonicalIP_agrees:
  assumes "trim t = t" "t \<noteq> []" "cSpace \<notin> set t" "cPercent \<notin> set t"
  shows "canonicalIP t = map_option (\<lambda>b. formatValue (bval b) (fam b)) (parseAddressBits t)"
proof (cases "ipv4Bits t")
  case (Some b)
  moreover from this have "fam b = V4" by (auto simp: ipv4Bits_def Let_def option_elims split: if_splits)
  ultimately show ?thesis using parseIPv4_agrees [of t] assms
    by (cases "parseIPv4 t") (auto simp: canonicalIP_def parseAddressBits_def)
next
  case None
  then have v4: "parseIPv4 t = None" using parseIPv4_agrees [of t] by simp
  have whole: "takeWhile (\<lambda>c. c \<noteq> cPercent) t = t" using assms(4) by (auto simp: takeWhile_eq_all_conv)
  have "parseIPv6 t = map_option (\<lambda>b. formatValue (bval b) (fam b)) (ipv6Words t)"
  proof (cases "ipv6_group (split_pair cColon t)")
    case (Some ws)
    with ipv6_group_bound [OF Some] words_text_agrees [of ws] assms(4) show ?thesis
      by (simp add: parseIPv6_def ipv6Words_def whole_words_agree whole Let_def)
  qed (use assms(4) in \<open>simp add: parseIPv6_def ipv6Words_def whole_words_agree whole Let_def\<close>)
  with v4 None assms show ?thesis by (simp add: canonicalIP_def parseAddressBits_def)
qed

text \<open>
  C30: the two address parsers of the page agree: on every non-empty text without spaces and zones,
  the canonical text a topology gives an address is the text of the value that the common-prefix
  tool reads from it, and neither accepts what the other refuses.
\<close>

theorem address_parsers_agree:
  assumes "trim t = t" "t \<noteq> []" "cSpace \<notin> set t" "cPercent \<notin> set t"
  shows "canonicalIP t = map_option (\<lambda>b. formatValue (bval b) (fam b)) (parseAddressBits t)"
  using assms by (rule canonicalIP_agrees)

theorem address_parsers_agree_witness:
  "canonicalIP (js ''10.0.0.1'') = map_option (\<lambda>b. formatValue (bval b) (fam b)) (parseAddressBits (js ''10.0.0.1''))"
  using address_parsers_agree [of "js ''10.0.0.1''"] by (simp add: js_def trim_def is_space_def)

end
