(* ===== verification/Report_Parts.thy ===== *)
theory Report_Parts
  imports Json_Roundtrip
begin

text \<open>
  The parts of a report as \<open>frontend/state.js\<close> validates them: enrichment, the analysis with its
  findings, evidence and actions, the topology of a traceroute, the attempts and the details of a
  result.  Each validator returns the normalised part or throws (\<open>None\<close>).  \<open>Date.parse\<close> of an
  arbitrary text is the parameter \<open>dp\<close> of the timestamp validators.
\<close>

section \<open>Limits and vocabularies\<close>

definition MAX_RESULTS :: nat where "MAX_RESULTS = 20"
definition MAX_FINDINGS :: nat where "MAX_FINDINGS = 64"
definition MAX_EVIDENCE :: nat where "MAX_EVIDENCE = 64"
definition MAX_ACTIONS :: nat where "MAX_ACTIONS = 64"
definition MAX_COVERAGE :: nat where "MAX_COVERAGE = 128"
definition MAX_TOPOLOGY_NODES :: nat where "MAX_TOPOLOGY_NODES = 1024"
definition MAX_TOPOLOGY_LINKS :: nat where "MAX_TOPOLOGY_LINKS = 2048"
definition MAX_DETAIL_ARRAY :: nat where "MAX_DETAIL_ARRAY = 2048"
definition MAX_DETAIL_KEYS :: nat where "MAX_DETAIL_KEYS = 256"
definition MAX_DETAIL_DEPTH :: nat where "MAX_DETAIL_DEPTH = 8"
definition ERROR_CODE_LIMIT :: nat where "ERROR_CODE_LIMIT = 128"

definition STATUSES :: "jstr list" where "STATUSES = map js [''healthy'', ''degraded'', ''unreachable'']"
definition VERDICTS :: "jstr list" where "VERDICTS = map js [''healthy'', ''attention'', ''inconclusive'']"
definition SEVERITIES :: "jstr list" where "SEVERITIES = map js [''critical'', ''warning'', ''info'']"
definition CONFIDENCES :: "jstr list" where "CONFIDENCES = map js [''direct'', ''corroborated'', ''limited'']"
definition CATEGORIES :: "jstr list" where
  "CATEGORIES = map js [''name_resolution'', ''connectivity'', ''application'', ''security'', ''routing'', ''execution'', ''input'']"
definition PROVENANCES :: "jstr list" where "PROVENANCES = map js [''result'', ''details'']"
definition COVERAGE_CODES :: "jstr list" where
  "COVERAGE_CODES = map js [''missing_details'', ''malformed_details'', ''unsupported_details'']"
definition ENRICHMENT_SOURCES :: "jstr list" where
  "ENRICHMENT_SOURCES = map js [''upstream'', ''cache'', ''mixed'', ''none'']"
definition TOPOLOGY_STATUSES :: "jstr list" where
  "TOPOLOGY_STATUSES = map js [''healthy'', ''degraded'', ''unknown'', ''failure'']"
definition ENRICHMENT_FAILURE_RETRYABLE :: "(jstr \<times> bool) list" where
  "ENRICHMENT_FAILURE_RETRYABLE = [(js ''busy'', True), (js ''cancelled'', False), (js ''malformed'', False),
     (js ''not_found'', False), (js ''policy'', False), (js ''rate_limited'', True), (js ''timeout'', True),
     (js ''unavailable'', True)]"
definition FINDING_CODES :: "jstr list" where
  "FINDING_CODES = map js [
     ''dns_resolution_failed'', ''endpoint_connect_failed'', ''http_unexpected_status'', ''invalid_target'',
     ''execution_timeout'', ''execution_cancelled'', ''service_greeting_unverified'', ''tls_downgrade'', ''tls_certificate_expired'',
     ''tls_certificate_expiring'', ''tls_certificate_not_yet_valid'', ''tls_handshake_failed'',
     ''tls_hostname_mismatch'', ''tls_untrusted'', ''target_policy_blocked'',
     ''traceroute_unreachable'', ''traceroute_partial_reachability'', ''traceroute_path_degraded'',
     ''traceroute_path_unstable'', ''traceroute_execution_failed'', ''traceroute_unavailable'', ''checker_panic'',
     ''checker_capacity_unavailable'']"
definition FINDING_PRESENTATIONS :: "(jstr \<times> (jstr \<times> jstr)) list" where
  "FINDING_PRESENTATIONS = [
     (js ''checker_panic'', (js ''Checker execution failed'',
        js ''The checker stopped unexpectedly, so service health was not established.'')),
     (js ''checker_capacity_unavailable'', (js ''Checker capacity was unavailable'',
        js ''The bounded checker supervisor had no execution slot, so service health was not established.'')),
     (js ''traceroute_unavailable'', (js ''Traceroute unavailable'',
        js ''No functional traceroute capability was established at startup, so route health was not observed.''))]"

section \<open>Enrichment\<close>

record enrichment_failure =
  ef_kind :: jstr
  ef_count :: int
  ef_retryable :: bool

record enrichment =
  en_source :: jstr
  en_cache_hits :: int
  en_upstream :: int
  en_max_age :: int
  en_failures :: "enrichment_failure list"

text \<open>The failures in order, with the running total and the kind before.\<close>

fun enrichment_failures :: "int \<Rightarrow> jstr \<Rightarrow> jval list \<Rightarrow> enrichment_failure list option" where
  "enrichment_failures counted previous [] = Some []"
| "enrichment_failures counted previous (v # vs) = do {
     failure \<leftarrow> v_object v;
     exactFields failure [''kind'', ''count'', ''retryable''];
     kind \<leftarrow> v_enum (map fst ENRICHMENT_FAILURE_RETRYABLE) (get failure ''kind'');
     guard (previous < kind);
     count \<leftarrow> v_integer 1 6200 (get failure ''count'');
     retryable \<leftarrow> v_boolean (get failure ''retryable'');
     guard (map_of ENRICHMENT_FAILURE_RETRYABLE kind = Some retryable);
     guard (counted + count \<le> 6200);
     rest \<leftarrow> enrichment_failures (counted + count) kind vs;
     Some (\<lparr>ef_kind = kind, ef_count = count, ef_retryable = retryable\<rparr> # rest) }"

definition normalize_enrichment_entry :: "jval \<Rightarrow> enrichment option" where
  "normalize_enrichment_entry v = do {
     source \<leftarrow> v_object v;
     exactFields source [''provider'', ''source'', ''cache_hits'', ''upstream_fetches'', ''max_age_ms'', ''failures''];
     guard (get source ''provider'' = str ''geoip'');
     hits \<leftarrow> v_integer 0 6200 (get source ''cache_hits'');
     fetches \<leftarrow> v_integer 0 6200 (get source ''upstream_fetches'');
     entries \<leftarrow> v_array (get source ''failures'') (length ENRICHMENT_FAILURE_RETRYABLE);
     guard (hits + fetches \<le> 6200);
     failures \<leftarrow> enrichment_failures (hits + fetches) [] entries;
     (let expected = (if hits > 0 then (if fetches > 0 then js ''mixed'' else js ''cache'')
            else (if fetches > 0 then js ''upstream'' else js ''none'')) in
      do { src \<leftarrow> v_enum ENRICHMENT_SOURCES (get source ''source'');
           guard (src = expected);
           age \<leftarrow> v_integer 0 86400000 (get source ''max_age_ms'');
           Some \<lparr>en_source = src, en_cache_hits = hits, en_upstream = fetches, en_max_age = age, en_failures = failures\<rparr> }) }"

definition normalizeEnrichment :: "jval \<Rightarrow> enrichment list option" where
  "normalizeEnrichment v = do { entries \<leftarrow> v_array v 1; traverse normalize_enrichment_entry entries }"

section \<open>The analysis\<close>

record coverage_issue =
  ci_code :: jstr
  ci_result :: int
  ci_kind :: jstr
  ci_signal :: jstr
  ci_reason :: jstr

definition normalizeCoverageIssue :: "jval \<Rightarrow> coverage_issue option" where
  "normalizeCoverageIssue v = do {
     source \<leftarrow> v_object v;
     code \<leftarrow> v_enum COVERAGE_CODES (get source ''code'');
     index \<leftarrow> v_integer 0 (int MAX_RESULTS - 1) (get source ''result_index'');
     kind \<leftarrow> v_enum KINDS (get source ''kind'');
     signal \<leftarrow> v_optionalText STRING_LIMIT (get source ''signal'');
     reason \<leftarrow> req_text (get source ''reason'');
     Some \<lparr>ci_code = code, ci_result = index, ci_kind = kind, ci_signal = signal, ci_reason = reason\<rparr> }"

record finding =
  f_id :: jstr
  f_code :: jstr
  f_severity :: jstr
  f_category :: jstr
  f_title :: jstr
  f_summary :: jstr
  f_confidence :: jstr
  f_evidence :: "jstr list"
  f_actions :: "jstr list"

definition normalize_finding :: "jval \<Rightarrow> finding option" where
  "normalize_finding v = do {
     item \<leftarrow> v_object v;
     code \<leftarrow> v_enum FINDING_CODES (get item ''code'');
     fid \<leftarrow> req_text (get item ''id'');
     severity \<leftarrow> v_enum SEVERITIES (get item ''severity'');
     category \<leftarrow> v_enum CATEGORIES (get item ''category'');
     title \<leftarrow> (case map_of FINDING_PRESENTATIONS code of Some p \<Rightarrow> Some (fst p) | None \<Rightarrow> req_text (get item ''title''));
     summary \<leftarrow> (case map_of FINDING_PRESENTATIONS code of Some p \<Rightarrow> Some (snd p) | None \<Rightarrow> req_text (get item ''summary''));
     confidence \<leftarrow> v_enum CONFIDENCES (get item ''confidence'');
     evidence \<leftarrow> normalizeStringArray MAX_EVIDENCE (get item ''evidence_ids'');
     actions \<leftarrow> normalizeStringArray MAX_ACTIONS (get item ''action_ids'');
     Some \<lparr>f_id = fid, f_code = code, f_severity = severity, f_category = category, f_title = title,
       f_summary = summary, f_confidence = confidence, f_evidence = evidence, f_actions = actions\<rparr> }"

record evidence =
  e_id :: jstr
  e_result :: int
  e_kind :: jstr
  e_address :: jstr
  e_signal :: jstr
  e_observed :: jstr
  e_expected :: jstr
  e_provenance :: jstr
  e_attempt :: "int option"

definition normalize_evidence :: "jval \<Rightarrow> evidence option" where
  "normalize_evidence v = do {
     item \<leftarrow> v_object v;
     eid \<leftarrow> req_text (get item ''id'');
     index \<leftarrow> v_integer 0 (int MAX_RESULTS - 1) (get item ''result_index'');
     kind \<leftarrow> v_enum KINDS (get item ''kind'');
     address \<leftarrow> any_text (get item ''address'');
     signal \<leftarrow> req_text (get item ''signal'');
     observed \<leftarrow> any_text (get item ''observed'');
     expected \<leftarrow> v_optionalText STRING_LIMIT (get item ''expected'');
     provenance \<leftarrow> v_enum PROVENANCES (get item ''provenance'');
     attempt \<leftarrow> (if get item ''attempt'' = JUndef then Some None
       else map_option Some (v_integer 1 10 (get item ''attempt'')));
     Some \<lparr>e_id = eid, e_result = index, e_kind = kind, e_address = address, e_signal = signal, e_observed = observed,
       e_expected = expected, e_provenance = provenance, e_attempt = attempt\<rparr> }"

record action =
  ac_id :: jstr
  ac_title :: jstr
  ac_step :: jstr
  ac_expected :: jstr
  ac_escalation :: jstr

definition normalize_action :: "jval \<Rightarrow> action option" where
  "normalize_action v = do {
     item \<leftarrow> v_object v;
     aid \<leftarrow> req_text (get item ''id'');
     title \<leftarrow> req_text (get item ''title'');
     step \<leftarrow> req_text (get item ''step'');
     expected \<leftarrow> req_text (get item ''expected_result'');
     escalation \<leftarrow> req_text (get item ''escalation_condition'');
     Some \<lparr>ac_id = aid, ac_title = title, ac_step = step, ac_expected = expected, ac_escalation = escalation\<rparr> }"

record analysis =
  an_verdict :: jstr
  an_findings :: "finding list"
  an_evidence :: "evidence list"
  an_actions :: "action list"
  an_available :: "jstr list"
  an_missing :: "jstr list"
  an_enrichment :: "enrichment list"
  an_provider_failures :: "coverage_issue list"
  an_limitations :: "coverage_issue list"

definition array_of :: "nat \<Rightarrow> (jval \<Rightarrow> 'a option) \<Rightarrow> jval \<Rightarrow> 'a list option" where
  "array_of limit f v = do { entries \<leftarrow> v_array v limit; traverse f entries }"

text \<open>\<open>new Set(ids).size === ids.length\<close>.\<close>

definition unique_ids :: "jstr list \<Rightarrow> bool" where
  "unique_ids ids \<longleftrightarrow> length (set_of_list ids) = length ids"

definition normalizeAnalysis :: "jval \<Rightarrow> analysis option" where
  "normalizeAnalysis v = do {
     source \<leftarrow> v_object v;
     findings \<leftarrow> array_of MAX_FINDINGS normalize_finding (get source ''findings'');
     evidence \<leftarrow> array_of MAX_EVIDENCE normalize_evidence (get source ''evidence'');
     actions \<leftarrow> array_of MAX_ACTIONS normalize_action (get source ''actions'');
     coverage \<leftarrow> v_object (get source ''coverage'');
     verdict \<leftarrow> v_enum VERDICTS (get source ''verdict'');
     available \<leftarrow> normalizeStringArray MAX_COVERAGE (get coverage ''available'');
     missing \<leftarrow> normalizeStringArray MAX_COVERAGE (get coverage ''missing'');
     enrichment \<leftarrow> (if get coverage ''enrichment'' = JUndef then Some [] else normalizeEnrichment (get coverage ''enrichment''));
     failures \<leftarrow> array_of MAX_COVERAGE normalizeCoverageIssue (get coverage ''provider_failures'');
     limitations \<leftarrow> array_of MAX_COVERAGE normalizeCoverageIssue (get coverage ''limitations'');
     guard (\<not> (verdict = js ''attention'' \<and> length findings = 0));
     guard (unique_ids (map f_id findings) \<and> unique_ids (map e_id evidence) \<and> unique_ids (map ac_id actions));
     guard (\<forall>f \<in> set findings. (\<forall>i \<in> set (f_evidence f). i \<in> set (map e_id evidence)) \<and>
       (\<forall>i \<in> set (f_actions f). i \<in> set (map ac_id actions)));
     Some \<lparr>an_verdict = verdict, an_findings = findings, an_evidence = evidence, an_actions = actions,
       an_available = available, an_missing = missing, an_enrichment = enrichment,
       an_provider_failures = failures, an_limitations = limitations\<rparr> }"

end
