(* ===== verification/Report_Budget.thy ===== *)
theory Report_Budget
  imports Report_Parts "HOL-Library.Multiset"
begin

text \<open>
  The aggregate budget of a report (\<open>enforceReportBudget\<close> of \<open>frontend/state.js\<close>): a loop over an
  explicit stack that charges every text, container and topology array, and stops at the first
  object it meets twice.  The stack's top is the last element of the list.
\<close>

definition REPORT_STRING_CHARS :: nat where "REPORT_STRING_CHARS = 1000000"
definition REPORT_CONTAINERS :: nat where "REPORT_CONTAINERS = 32768"
definition BUDGET_NODES :: nat where "BUDGET_NODES = 8192"
definition BUDGET_LINKS :: nat where "BUDGET_LINKS = 16384"

section \<open>The loop\<close>

record budget =
  b_seen :: "nat list"
  b_containers :: nat
  b_strings :: nat
  b_nodes :: nat
  b_links :: nat

type_synonym entry = "jstr \<times> jval"

text \<open>The enumerable own properties under string keys; \<open>None\<close> when one is an accessor.\<close>

fun item_entries :: "nat \<Rightarrow> jdesc list \<Rightarrow> entry list option" where
  "item_entries n [] = Some []"
| "item_entries n (d # ds) = (if \<not> is_enum d then item_entries (Suc n) ds
     else if \<not> is_data d then None
     else map_option (\<lambda>es. (dec n, desc_value d) # es) (item_entries (Suc n) ds))"

fun member_entries :: "props \<Rightarrow> entry list option" where
  "member_entries [] = Some []"
| "member_entries ((Symbol n, d) # ps) = member_entries ps"
| "member_entries ((Key k, d) # ps) = (if \<not> is_enum d then member_entries ps
     else if \<not> is_data d then None
     else map_option (\<lambda>es. (k, desc_value d) # es) (member_entries ps))"

definition enter :: "nat \<Rightarrow> nat \<Rightarrow> nat \<Rightarrow> budget \<Rightarrow> budget option" where
  "enter i nodes links b = (if i \<in> set (b_seen b) then None else
     let b' = b\<lparr>b_seen := b_seen b @ [i], b_containers := b_containers b + 1, b_nodes := b_nodes b + nodes,
       b_links := b_links b + links\<rparr> in
     if b_containers b' > REPORT_CONTAINERS \<or> b_nodes b' > BUDGET_NODES \<or> b_links b' > BUDGET_LINKS then None else Some b')"

definition charge :: "budget \<Rightarrow> entry \<Rightarrow> (budget \<times> entry list) option" where
  "charge b e = (case snd e of
     JStr s \<Rightarrow> (let b' = b\<lparr>b_strings := b_strings b + length s\<rparr> in
       if b_strings b' > REPORT_STRING_CHARS then None else Some (b', []))
   | JArr i plain ds \<Rightarrow> do {
       b' \<leftarrow> enter i (if fst e = js ''nodes'' then length ds else 0) (if fst e = js ''links'' then length ds else 0) b;
       es \<leftarrow> item_entries 0 ds;
       Some (b', es) }
   | JObj i plain ps \<Rightarrow> do { b' \<leftarrow> enter i 0 0 b; es \<leftarrow> member_entries ps; Some (b', es) }
   | _ \<Rightarrow> Some (b, []))"

text \<open>Whether the loop ends is not built in: its value is \<open>None\<close> when it does not, \<open>Some False\<close> when
  it throws and \<open>Some True\<close> when it runs to the empty stack.\<close>

partial_function (option) budget_loop :: "budget \<Rightarrow> entry list \<Rightarrow> bool option" where
  "budget_loop b stack = (if stack = [] then Some True
     else (case charge b (last stack) of None \<Rightarrow> Some False
       | Some (b', es) \<Rightarrow> budget_loop b' (butlast stack @ es)))"

definition no_charges :: budget where
  "no_charges = \<lparr>b_seen = [], b_containers = 0, b_strings = 0, b_nodes = 0, b_links = 0\<rparr>"

definition enforceReportBudget :: "jval \<Rightarrow> bool option" where
  "enforceReportBudget v = budget_loop no_charges [([], v)]"

section \<open>The reference: one traversal of the value\<close>

fun subvalues :: "jstr \<Rightarrow> jval \<Rightarrow> entry list" and sub_items :: "nat \<Rightarrow> jdesc list \<Rightarrow> entry list"
  and sub_members :: "props \<Rightarrow> entry list" and sub_desc :: "jstr \<Rightarrow> jdesc \<Rightarrow> entry list" where
  "subvalues k (JArr i plain ds) = (k, JArr i plain ds) # sub_items 0 ds"
| "subvalues k (JObj i plain ps) = (k, JObj i plain ps) # sub_members ps"
| "subvalues k v = [(k, v)]"
| "sub_items n [] = []"
| "sub_items n (d # ds) = sub_desc (dec n) d @ sub_items (Suc n) ds"
| "sub_members [] = []"
| "sub_members ((Symbol n, d) # ps) = sub_members ps"
| "sub_members ((Key k, d) # ps) = sub_desc k d @ sub_members ps"
| "sub_desc k (Data e v) = (if e then subvalues k v else [])"
| "sub_desc k (Accessor e) = []"

fun container_id :: "entry \<Rightarrow> nat list" where
  "container_id (k, JArr i plain ds) = [i]"
| "container_id (k, JObj i plain ps) = [i]"
| "container_id _ = []"

fun text_chars :: "entry \<Rightarrow> nat" where
  "text_chars (k, JStr s) = length s"
| "text_chars _ = 0"

fun array_under :: "string \<Rightarrow> entry \<Rightarrow> nat" where
  "array_under name (k, JArr i plain ds) = (if k = js name then length ds else 0)"
| "array_under name _ = 0"

fun no_accessor :: "entry \<Rightarrow> bool" where
  "no_accessor (k, JArr i plain ds) = (\<forall>d \<in> set ds. is_enum d \<longrightarrow> is_data d)"
| "no_accessor (k, JObj i plain ps) = (\<forall>(k, d) \<in> set ps. is_enum d \<and> (\<exists>t. k = Key t) \<longrightarrow> is_data d)"
| "no_accessor _ = True"

definition ids_of :: "entry list \<Rightarrow> nat list" where
  "ids_of es = concat (map container_id es)"

definition affordable :: "budget \<Rightarrow> entry list \<Rightarrow> bool" where
  "affordable b es \<longleftrightarrow> distinct (b_seen b @ ids_of es) \<and> (\<forall>e \<in> set es. no_accessor e) \<and>
     b_containers b + length (ids_of es) \<le> REPORT_CONTAINERS \<and>
     b_strings b + sum_list (map text_chars es) \<le> REPORT_STRING_CHARS \<and>
     b_nodes b + sum_list (map (array_under ''nodes'') es) \<le> BUDGET_NODES \<and>
     b_links b + sum_list (map (array_under ''links'') es) \<le> BUDGET_LINKS"

definition visits :: "entry list \<Rightarrow> entry list" where
  "visits stack = concat (map (\<lambda>(k, v). subvalues k v) stack)"

lemma visits_append [simp]: "visits (xs @ ys) = visits xs @ visits ys"
  by (simp add: visits_def)

lemma visits_Nil [simp]: "visits [] = []"
  by (simp add: visits_def)

lemma ids_of_append [simp]: "ids_of (xs @ ys) = ids_of xs @ ids_of ys"
  by (simp add: ids_of_def)

lemma ids_of_Cons: "ids_of (e # es) = container_id e @ ids_of es"
  by (simp add: ids_of_def)

text \<open>The pieces the loop pushes are those the traversal visits.\<close>


lemma item_entries_sub: "item_entries n ds = Some es \<Longrightarrow> visits es = sub_items n ds"
proof (induction ds arbitrary: n es)
  case (Cons d ds)
  then show ?case by (cases d) (auto simp: visits_def split: if_splits)
qed simp

lemma item_entries_None: "item_entries n ds = None \<longleftrightarrow> (\<exists>d \<in> set ds. is_enum d \<and> \<not> is_data d)"
  by (induction n ds rule: item_entries.induct) auto

lemma member_entries_sub: "member_entries ps = Some es \<Longrightarrow> visits es = sub_members ps"
proof (induction ps arbitrary: es rule: member_entries.induct)
  case (3 k d ps)
  then show ?case by (cases d) (auto simp: visits_def split: if_splits)
qed simp_all

lemma member_entries_None: "member_entries ps = None \<longleftrightarrow> (\<exists>(k, d) \<in> set ps. is_enum d \<and> (\<exists>t. k = Key t) \<and> \<not> is_data d)"
  by (induction ps rule: member_entries.induct) auto


lemma visits_one [simp]: "visits [(k, v)] = subvalues k v"
  by (simp add: visits_def)

text \<open>One charge keeps the question: what is affordable before is affordable after, with the value
  replaced by its pieces; a refused charge means the whole was not affordable.\<close>

lemma enter_None:
  "enter i nodes links b = None \<longleftrightarrow> i \<in> set (b_seen b) \<or> b_containers b + 1 > REPORT_CONTAINERS \<or>
     b_nodes b + nodes > BUDGET_NODES \<or> b_links b + links > BUDGET_LINKS"
  by (auto simp: enter_def Let_def)

lemma enter_Some:
  "enter i nodes links b = Some b' \<longleftrightarrow> i \<notin> set (b_seen b) \<and> b_containers b + 1 \<le> REPORT_CONTAINERS \<and>
     b_nodes b + nodes \<le> BUDGET_NODES \<and> b_links b + links \<le> BUDGET_LINKS \<and>
     b' = b\<lparr>b_seen := b_seen b @ [i], b_containers := b_containers b + 1, b_nodes := b_nodes b + nodes, b_links := b_links b + links\<rparr>"
  by (auto simp: enter_def Let_def)

lemma affordable_parts:
  assumes "affordable b es"
  shows "set (b_seen b) \<inter> set (ids_of es) = {}" "\<forall>e \<in> set es. no_accessor e"
    "b_containers b + length (ids_of es) \<le> REPORT_CONTAINERS" "b_strings b + sum_list (map text_chars es) \<le> REPORT_STRING_CHARS"
    "b_nodes b + sum_list (map (array_under ''nodes'') es) \<le> BUDGET_NODES"
    "b_links b + sum_list (map (array_under ''links'') es) \<le> BUDGET_LINKS"
  using assms by (simp_all add: affordable_def)

lemma sum_list_member: "x \<in> set xs \<Longrightarrow> f x \<le> sum_list (map f xs)" for f :: "'a \<Rightarrow> nat"
  by (induction xs) auto

lemma entered_affordable:
  assumes "affordable b es" "e \<in> set es" "container_id e = [i]"
  shows "enter i (array_under ''nodes'' e) (array_under ''links'' e) b \<noteq> None"
proof -
  have i: "i \<in> set (ids_of es)" using assms(2,3) by (force simp: ids_of_def)
  then have "1 \<le> length (ids_of es)" by (cases "ids_of es") auto
  then have "b_containers b + 1 \<le> REPORT_CONTAINERS" using affordable_parts(3) [OF assms(1)] by linarith
  moreover have "b_nodes b + array_under ''nodes'' e \<le> BUDGET_NODES" "b_links b + array_under ''links'' e \<le> BUDGET_LINKS"
    using affordable_parts(5,6) [OF assms(1)] sum_list_member [OF assms(2)] by (meson add_left_mono order_trans)+
  moreover have "i \<notin> set (b_seen b)" using i affordable_parts(1) [OF assms(1)] by blast
  ultimately show ?thesis unfolding enter_None by linarith
qed

lemma charge_None:
  assumes "charge b (k, v) = None"
  shows "\<not> affordable b (rest @ subvalues k v)"
proof
  assume ok: "affordable b (rest @ subvalues k v)"
  have mem: "(k, v) \<in> set (rest @ subvalues k v)" by (cases v) simp_all
  note acc = affordable_parts(2) [OF ok, rule_format, OF mem]
  show False
  proof (cases v)
    case (JStr s)
    have "length s \<le> sum_list (map text_chars (rest @ subvalues k v))"
      using sum_list_member [OF mem, of text_chars] JStr by simp
    with affordable_parts(4) [OF ok] assms show False by (simp add: JStr charge_def Let_def split: if_splits)
  next
    case (JArr i plain ds)
    have "item_entries 0 ds \<noteq> None" using acc JArr by (auto simp: item_entries_None)
    with entered_affordable [OF ok mem, of i] assms show False by (auto simp: JArr charge_def)
  next
    case (JObj i plain ps)
    have "member_entries ps \<noteq> None" using acc unfolding JObj no_accessor.simps member_entries_None by fast
    with entered_affordable [OF ok mem, of i] assms show False by (auto simp: JObj charge_def)
  qed (use assms in \<open>simp_all add: charge_def\<close>)
qed

lemma charge_Some:
  assumes "charge b (k, v) = Some (b', es)" "affordable b []"
  shows "affordable b (rest @ subvalues k v) = affordable b' (rest @ visits es)" "affordable b' []"
    "length (subvalues k v) = Suc (length (visits es))"
proof -
  have "affordable b (rest @ subvalues k v) = affordable b' (rest @ visits es) \<and> affordable b' [] \<and>
    length (subvalues k v) = Suc (length (visits es))"
  proof (cases v)
    case (JArr i plain ds)
    with assms have e: "enter i (if k = js ''nodes'' then length ds else 0) (if k = js ''links'' then length ds else 0) b = Some b'"
      "item_entries 0 ds = Some es" by (auto simp: charge_def option_elims)
    then have "no_accessor (k, v)" using item_entries_None [of 0 ds] by (auto simp: JArr)
    with e assms(2) show ?thesis by (auto simp: JArr enter_Some affordable_def ids_of_def item_entries_sub [OF e(2)])
  next
    case (JObj i plain ps)
    with assms have e: "enter i 0 0 b = Some b'" "member_entries ps = Some es" by (auto simp: charge_def option_elims)
    then have "no_accessor (k, v)" using member_entries_None [of ps] by (auto simp: JObj)
    with e assms(2) show ?thesis by (auto simp: JObj enter_Some affordable_def ids_of_def member_entries_sub [OF e(2)])
  qed (use assms in \<open>auto simp: charge_def affordable_def Let_def ids_of_def split: if_splits\<close>)
  then show "affordable b (rest @ subvalues k v) = affordable b' (rest @ visits es)" "affordable b' []"
    "length (subvalues k v) = Suc (length (visits es))" by auto
qed

lemma budget_loop_affordable:
  "affordable b [] \<Longrightarrow> budget_loop b stack = Some (affordable b (visits stack))"
proof (induction "length (visits stack)" arbitrary: b stack rule: less_induct)
  case less
  show ?case
  proof (cases "stack = []")
    case True
    with less.prems show ?thesis by (subst budget_loop.simps) simp
  next
    case False
    then obtain rest k v where stack: "stack = rest @ [(k, v)]" by (metis rev_exhaust surj_pair)
    show ?thesis
    proof (cases "charge b (k, v)")
      case None
      with charge_None [OF None, of "visits rest"] stack show ?thesis by (subst budget_loop.simps) simp
    next
      case (Some r)
      obtain b' es where r: "r = (b', es)" by (cases r)
      note step = charge_Some [OF Some [unfolded r] less.prems]
      have "budget_loop b' (rest @ es) = Some (affordable b' (visits (rest @ es)))"
        by (rule less.hyps) (use step stack in \<open>auto\<close>)
      with Some r step(1) [of "visits rest"] stack show ?thesis by (subst budget_loop.simps) simp
    qed
  qed
qed

section \<open>Fresh containers\<close>

text \<open>\<open>JSON.parse\<close> makes a new object for every container: a value whose containers all have the
  identity \<open>0\<close> of the reader is numbered in the order of the traversal.\<close>

fun renumber :: "nat \<Rightarrow> jval \<Rightarrow> nat \<times> jval" and renumber_desc :: "nat \<Rightarrow> jdesc \<Rightarrow> nat \<times> jdesc"
  and renumber_items :: "nat \<Rightarrow> jdesc list \<Rightarrow> nat \<times> jdesc list" and renumber_members :: "nat \<Rightarrow> props \<Rightarrow> nat \<times> props" where
  "renumber n (JArr i plain ds) = (case renumber_items (Suc n) ds of (m, ds') \<Rightarrow> (m, JArr n plain ds'))"
| "renumber n (JObj i plain ps) = (case renumber_members (Suc n) ps of (m, ps') \<Rightarrow> (m, JObj n plain ps'))"
| "renumber n v = (n, v)"
| "renumber_desc n (Data e v) = (case renumber n v of (m, v') \<Rightarrow> (m, Data e v'))"
| "renumber_desc n (Accessor e) = (n, Accessor e)"
| "renumber_items n [] = (n, [])"
| "renumber_items n (d # ds) = (case renumber_desc n d of (m, d') \<Rightarrow>
     (case renumber_items m ds of (l, ds') \<Rightarrow> (l, d' # ds')))"
| "renumber_members n [] = (n, [])"
| "renumber_members n ((k, d) # ps) = (case renumber_desc n d of (m, d') \<Rightarrow>
     (case renumber_members m ps of (l, ps') \<Rightarrow> (l, (k, d') # ps')))"

definition fresh_containers :: "jval \<Rightarrow> jval" where
  "fresh_containers v = snd (renumber 0 v)"

text \<open>The identities of the numbered value, in the order of the traversal, are increasing.\<close>

definition numbered :: "nat \<Rightarrow> nat \<Rightarrow> entry list \<Rightarrow> bool" where
  "numbered n m es \<longleftrightarrow> n \<le> m \<and> distinct (ids_of es) \<and> (\<forall>i \<in> set (ids_of es). n \<le> i \<and> i < m)"

lemma numbered_append: "numbered n m xs \<Longrightarrow> numbered m l ys \<Longrightarrow> numbered n l (xs @ ys)"
  by (fastforce simp: numbered_def)

lemma numbered_Nil: "numbered n n []"
  by (simp add: numbered_def ids_of_def)

lemma numbered_Cons: "numbered (Suc n) m es \<Longrightarrow> container_id e = [n] \<Longrightarrow> numbered n m (e # es)"
  by (fastforce simp: numbered_def ids_of_Cons)

lemma numbered_one: "container_id e = [] \<Longrightarrow> numbered n n [e]"
  by (simp add: numbered_def ids_of_def)

lemma sub_members_Cons: "sub_members ((k, d) # ps) = (case k of Key t \<Rightarrow> sub_desc t d | Symbol n \<Rightarrow> []) @ sub_members ps"
  by (cases k) simp_all

lemma numbered_key: "(\<And>t. numbered n m (f t)) \<Longrightarrow> numbered n m (case k of Key t \<Rightarrow> f t | Symbol i \<Rightarrow> [])"
  by (cases k) (auto simp: numbered_def ids_of_def)

lemma numbered_skip: "numbered n m es \<Longrightarrow> numbered n m []"
  by (simp add: numbered_def ids_of_def)

lemma renumber_numbered:
  "numbered n (fst (renumber n v)) (subvalues k (snd (renumber n v)))"
  "numbered n (fst (renumber_desc n d)) (sub_desc k (snd (renumber_desc n d)))"
  "numbered n (fst (renumber_items n ds)) (sub_items j (snd (renumber_items n ds)))"
  "numbered n (fst (renumber_members n ps)) (sub_members (snd (renumber_members n ps)))"
proof (induction n v and n d and n ds and n ps arbitrary: k and k and j and
    rule: renumber_renumber_desc_renumber_items_renumber_members.induct)
qed (auto simp: numbered_Nil numbered_one sub_members_Cons case_prod_beta prod_eq_iff
    intro: numbered_append numbered_Cons numbered_key numbered_skip)

lemma fresh_distinct: "distinct (ids_of (subvalues k (fresh_containers v)))"
  using renumber_numbered(1) [of 0 v k] by (simp add: fresh_containers_def numbered_def)

section \<open>The loop ends, and decides the budget\<close>

text \<open>
  C15: the loop over the stack ends on every value, and accepts it exactly when one traversal of the
  value finds no object twice and no enumerable accessor, at most 32768 containers, 1000000 units of text,
  8192 elements of \<open>nodes\<close> arrays and 16384 of \<open>links\<close> arrays.
\<close>

theorem budget_decided:
  "enforceReportBudget v = Some (let es = subvalues [] v in
     distinct (ids_of es) \<and> list_all no_accessor es \<and> length (ids_of es) \<le> 32768 \<and>
     sum_list (map text_chars es) \<le> 1000000 \<and> sum_list (map (array_under ''nodes'') es) \<le> 8192 \<and>
     sum_list (map (array_under ''links'') es) \<le> 16384)"
  using budget_loop_affordable [of no_charges "[([], v)]"]
  by (simp add: enforceReportBudget_def affordable_def no_charges_def ids_of_def Let_def list_all_iff REPORT_CONTAINERS_def
      REPORT_STRING_CHARS_def BUDGET_NODES_def BUDGET_LINKS_def)

lemma budget_ends: "\<exists>b. enforceReportBudget v = Some b"
  using budget_loop_affordable [of no_charges "[([], v)]"]
  by (auto simp: enforceReportBudget_def affordable_def no_charges_def ids_of_def)

lemma budget_subvalues:
  "enforceReportBudget v = Some (affordable no_charges (subvalues [] v))"
  using budget_loop_affordable [of no_charges "[([], v)]"]
  by (simp add: enforceReportBudget_def) (simp add: affordable_def no_charges_def ids_of_def)

end
