(* ===== verification/Report_Details.thy ===== *)
theory Report_Details
  imports Report_Parts
begin

text \<open>
  The topology of a traceroute, its attempts, and the details of a result
  (\<open>normalizeTopology\<close>, \<open>normalizeTraceAttempt\<close>, \<open>normalizeJSON\<close>, \<open>normalizeDetails\<close>,
  \<open>validateResultAttemptReference\<close> of \<open>frontend/state.js\<close>).
\<close>

section \<open>Topologies\<close>

record geolocation =
  g_city :: jstr
  g_region :: jstr
  g_country :: jstr
  g_code :: jstr
  g_latitude :: jnum
  g_longitude :: jnum

record asn =
  as_number :: int
  as_organization :: jstr

record trace_node =
  tn_id :: jstr
  tn_hop :: int
  tn_address :: jstr
  tn_latency :: jnum
  tn_status :: jstr
  tn_public :: bool
  tn_geo :: "geolocation option"
  tn_asn :: "asn option"

record trace_link =
  tl_from :: jstr
  tl_to :: jstr
  tl_status :: jstr
  tl_delta :: "jnum option"

record trace_topology =
  tt_reached :: bool
  tt_nodes :: "trace_node list"
  tt_links :: "trace_link list"

abbreviation opt_text :: "jval \<Rightarrow> jstr option" where
  "opt_text \<equiv> v_optionalText STRING_LIMIT"

definition normalize_geolocation :: "jval \<Rightarrow> geolocation option" where
  "normalize_geolocation v = do {
     geo \<leftarrow> v_object v;
     city \<leftarrow> opt_text (get geo ''city'');
     region \<leftarrow> opt_text (get geo ''region'');
     country \<leftarrow> opt_text (get geo ''country'');
     code \<leftarrow> opt_text (get geo ''country_code'');
     latitude \<leftarrow> v_finite (- 90) 90 (get geo ''latitude'');
     longitude \<leftarrow> v_finite (- 180) 180 (get geo ''longitude'');
     Some \<lparr>g_city = city, g_region = region, g_country = country, g_code = code, g_latitude = latitude,
       g_longitude = longitude\<rparr> }"

definition normalize_asn :: "jval \<Rightarrow> asn option" where
  "normalize_asn v = do {
     a \<leftarrow> v_object v;
     number \<leftarrow> v_integer 0 4294967295 (coalesce (get a ''number'') (num 0));
     organization \<leftarrow> opt_text (get a ''organization'');
     Some \<lparr>as_number = number, as_organization = organization\<rparr> }"

definition normalize_trace_node :: "jval \<Rightarrow> trace_node option" where
  "normalize_trace_node v = do {
     item \<leftarrow> v_object v;
     nid \<leftarrow> req_text (get item ''id'');
     hop \<leftarrow> v_integer 0 255 (get item ''hop'');
     address \<leftarrow> opt_text (get item ''address'');
     latency \<leftarrow> v_finite 0 MAX_VALUE (coalesce (get item ''latency_ms'') (num 0));
     status \<leftarrow> v_enum TOPOLOGY_STATUSES (get item ''status'');
     public \<leftarrow> (if get item ''public_ip'' = JUndef then Some False else v_boolean (get item ''public_ip''));
     geo \<leftarrow> if_given (get item ''geolocation'') normalize_geolocation;
     a \<leftarrow> if_given (get item ''asn'') normalize_asn;
     Some \<lparr>tn_id = nid, tn_hop = hop, tn_address = address, tn_latency = latency, tn_status = status,
       tn_public = public, tn_geo = geo, tn_asn = a\<rparr> }"

definition normalize_trace_link :: "jstr list \<Rightarrow> jval \<Rightarrow> trace_link option" where
  "normalize_trace_link ids v = do {
     item \<leftarrow> v_object v;
     allowedFields item [''from'', ''to'', ''status''] [''latency_delta_ms''];
     from \<leftarrow> req_text (get item ''from'');
     target \<leftarrow> req_text (get item ''to'');
     status \<leftarrow> v_enum TOPOLOGY_STATUSES (get item ''status'');
     delta \<leftarrow> if_present item ''latency_delta_ms'' (v_finite 0 30000);
     guard (from \<in> set ids \<and> target \<in> set ids);
     Some \<lparr>tl_from = from, tl_to = target, tl_status = status, tl_delta = delta\<rparr> }"

definition normalizeTopology :: "jval \<Rightarrow> trace_topology option" where
  "normalizeTopology v = do {
     source \<leftarrow> v_object v;
     nodes \<leftarrow> array_of MAX_TOPOLOGY_NODES normalize_trace_node (get source ''nodes'');
     guard (distinct (map tn_id nodes));
     links \<leftarrow> array_of MAX_TOPOLOGY_LINKS (normalize_trace_link (map tn_id nodes)) (get source ''links'');
     reached \<leftarrow> v_boolean (get source ''reached'');
     Some \<lparr>tt_reached = reached, tt_nodes = nodes, tt_links = links\<rparr> }"

definition normalizedTopologyStatus :: "trace_topology \<Rightarrow> jstr" where
  "normalizedTopologyStatus t = (if \<not> tt_reached t then js ''unreachable''
     else if \<exists>n \<in> set (tt_nodes t). tn_status n = js ''unknown'' \<or> tn_status n = js ''degraded''
     then js ''degraded'' else js ''healthy'')"

section \<open>Attempts\<close>

record trace_attempt =
  ta_attempt :: int
  ta_status :: jstr
  ta_error :: jstr
  ta_message :: jstr
  ta_topology :: "trace_topology option"

definition TRACE_ERRORS :: "jstr list" where
  "TRACE_ERRORS = map js [''timeout'', ''cancelled'', ''traceroute_failed'']"

definition normalizeTraceAttempt :: "jval \<Rightarrow> trace_attempt option" where
  "normalizeTraceAttempt v = do {
     source \<leftarrow> v_object v;
     attempt \<leftarrow> v_integer 1 10 (get source ''attempt'');
     status \<leftarrow> v_enum STATUSES (get source ''status'');
     code \<leftarrow> v_optionalText ERROR_CODE_LIMIT (get source ''error_code'');
     message \<leftarrow> opt_text (get source ''message'');
     guard (code = [] \<or> code \<in> set TRACE_ERRORS);
     topology \<leftarrow> if_given (get source ''topology'') normalizeTopology;
     guard (code = [] \<or> status = js ''unreachable'');
     guard (code \<noteq> [] \<or> (case topology of None \<Rightarrow> False | Some t \<Rightarrow> status = normalizedTopologyStatus t));
     Some \<lparr>ta_attempt = attempt, ta_status = status, ta_error = code, ta_message = message, ta_topology = topology\<rparr> }"

section \<open>Details\<close>

datatype detail = NNull | NBool bool | NText jstr | NNum jnum | NArr "detail list" | NObj "(jstr \<times> detail) list"
  | NTopology trace_topology | NAttempts "trace_attempt list" | NEnrichment enrichment

text \<open>\<open>Object.keys\<close>: the enumerable own string keys, with their values.\<close>

definition entries_of :: "props \<Rightarrow> (jstr \<times> jval) list" where
  "entries_of ps = List.map_filter (\<lambda>(k, d). case k of Key t \<Rightarrow> if is_enum d then Some (t, desc_value d) else None
     | Symbol n \<Rightarrow> None) ps"

definition RESERVED_KEYS :: "jstr list" where
  "RESERVED_KEYS = map js [''__proto__'', ''prototype'', ''constructor'']"

fun keyed_entries :: "(jstr \<Rightarrow> jval \<Rightarrow> detail option) \<Rightarrow> (jstr \<times> jval) list \<Rightarrow> (jstr \<times> detail) list option" where
  "keyed_entries f [] = Some []"
| "keyed_entries f ((k, v) # es) = (if k \<in> set RESERVED_KEYS then keyed_entries f es else do {
     guard (length k \<le> 128);
     d \<leftarrow> f k v;
     ds \<leftarrow> keyed_entries f es;
     Some ((k, d) # ds) })"

definition detail_entries :: "(jstr \<Rightarrow> jval \<Rightarrow> detail option) \<Rightarrow> jval \<Rightarrow> (jstr \<times> detail) list option" where
  "detail_entries f v = do {
     source \<leftarrow> v_object v;
     guard (length (entries_of source) \<le> MAX_DETAIL_KEYS);
     keyed_entries f (entries_of source) }"

text \<open>\<open>normalizeJSON(value, path, depth)\<close>, by the levels that are still allowed.\<close>

fun normalizeJSON :: "nat \<Rightarrow> jval \<Rightarrow> detail option" where
  "normalizeJSON 0 v = None"
| "normalizeJSON (Suc levels) v = (case v of
     JNull \<Rightarrow> Some NNull
   | JBool b \<Rightarrow> Some (NBool b)
   | JStr s \<Rightarrow> map_option NText (any_text v)
   | JNum n \<Rightarrow> map_option NNum (v_finite (- MAX_VALUE) MAX_VALUE v)
   | JArr i plain ds \<Rightarrow> map_option NArr (array_of MAX_DETAIL_ARRAY (normalizeJSON levels) v)
   | _ \<Rightarrow> map_option NObj (detail_entries (\<lambda>k w. if k = js ''topology'' then map_option NTopology (normalizeTopology w)
            else normalizeJSON levels w) v))"

definition normalizeDetails :: "jval \<Rightarrow> (jstr \<times> detail) list option" where
  "normalizeDetails v = detail_entries (\<lambda>k w.
     if k = js ''topology'' then map_option NTopology (normalizeTopology w)
     else if k = js ''attempts'' then map_option NAttempts (array_of 10 normalizeTraceAttempt w)
     else normalizeJSON MAX_DETAIL_DEPTH w) v"

end
