(* ===== verification/Js_Date.thy ===== *)
theory Js_Date
  imports Js_Number
begin

text \<open>
  UTC timestamps: the texts of the forms \<open>YYYY-MM-DDTHH:MM:SS[.fff]Z\<close>, the calendar dates they
  name, and their time value in milliseconds.  A \<open>Date\<close> set to components reads back the same
  components exactly when they form a date of the proleptic Gregorian calendar and a time of day.
\<close>

record stamp =
  st_year :: nat
  st_month :: nat
  st_day :: nat
  st_hour :: nat
  st_minute :: nat
  st_second :: nat
  st_fraction :: "jstr option"

abbreviation cT :: unit16 where "cT \<equiv> 84"
abbreviation cZ :: unit16 where "cZ \<equiv> 90"

definition digits_at :: "jstr \<Rightarrow> nat list \<Rightarrow> bool" where
  "digits_at s is \<longleftrightarrow> (\<forall>i \<in> set is. is_digit (s ! i))"

text \<open>After the seconds: \<open>Z\<close>, or a fraction of one to nine digits and \<open>Z\<close>.\<close>

definition stamp_tail :: "jstr \<Rightarrow> jstr option option" where
  "stamp_tail r = (if r = [cZ] then Some None
     else if 3 \<le> length r \<and> length r \<le> 11 \<and> hd r = cDot \<and> last r = cZ \<and> (\<forall>c \<in> set (butlast (tl r)). is_digit c)
     then Some (Some (butlast (tl r))) else None)"

definition match_stamp :: "jstr \<Rightarrow> stamp option" where
  "match_stamp s = (if 20 \<le> length s \<and> digits_at s [0, 1, 2, 3, 5, 6, 8, 9, 11, 12, 14, 15, 17, 18] \<and>
       s ! 4 = cMinus \<and> s ! 7 = cMinus \<and> s ! 10 = cT \<and> s ! 13 = cColon \<and> s ! 16 = cColon
     then (case stamp_tail (drop 19 s) of None \<Rightarrow> None
       | Some f \<Rightarrow> (let n = (\<lambda>a k. digits_val 10 (take k (drop a s))) in
           Some \<lparr>st_year = n 0 4, st_month = n 5 2, st_day = n 8 2, st_hour = n 11 2, st_minute = n 14 2,
             st_second = n 17 2, st_fraction = f\<rparr>))
     else None)"

definition leap :: "nat \<Rightarrow> bool" where
  "leap y \<longleftrightarrow> y mod 4 = 0 \<and> (y mod 100 \<noteq> 0 \<or> y mod 400 = 0)"

definition month_lengths :: "nat \<Rightarrow> nat list" where
  "month_lengths y = [31, if leap y then 29 else 28, 31, 30, 31, 30, 31, 31, 30, 31, 30, 31]"

definition valid_civil :: "stamp \<Rightarrow> bool" where
  "valid_civil s \<longleftrightarrow> 1 \<le> st_month s \<and> st_month s \<le> 12 \<and> 1 \<le> st_day s \<and>
     st_day s \<le> month_lengths (st_year s) ! (st_month s - 1) \<and> st_hour s \<le> 23 \<and> st_minute s \<le> 59 \<and> st_second s \<le> 59"

text \<open>Days before a year and before a month, counted from the first day of year 0.\<close>

definition year_days :: "nat \<Rightarrow> nat" where
  "year_days y = 365 * y + (y + 3) div 4 - (y + 99) div 100 + (y + 399) div 400"

definition month_days :: "nat \<Rightarrow> nat \<Rightarrow> nat" where
  "month_days y m = sum_list (take (m - 1) (month_lengths y))"

definition day_number :: "stamp \<Rightarrow> nat" where
  "day_number s = year_days (st_year s) + month_days (st_year s) (st_month s) + st_day s - 1"

text \<open>The milliseconds of a fraction of up to three digits; \<open>719528\<close> days precede 1970.\<close>

definition fraction_ms :: "jstr option \<Rightarrow> nat" where
  "fraction_ms f = (case f of None \<Rightarrow> 0 | Some ds \<Rightarrow> digits_val 10 (take 3 (ds @ replicate 3 48)))"

definition stamp_ms :: "stamp \<Rightarrow> int" where
  "stamp_ms s = ((int (day_number s) - 719528) * 86400 + int (st_hour s * 3600 + st_minute s * 60 + st_second s)) * 1000 +
     int (fraction_ms (st_fraction s))"

text \<open>\<open>Date.parse\<close> of such a text when its date is valid.\<close>

definition parse_stamp :: "jstr \<Rightarrow> int option" where
  "parse_stamp t = (case match_stamp t of None \<Rightarrow> None | Some s \<Rightarrow> if valid_civil s then Some (stamp_ms s) else None)"

end
