(* ===== verification/Report_Result.thy ===== *)
theory Report_Result
  imports Report_Details Js_Date
begin

text \<open>
  The results of a report: the shapes a producer may send (\<open>enforceProducerResultShape\<close> with the
  validators of the detail fields) and \<open>normalizeResult\<close> of \<open>frontend/state.js\<close>.
\<close>

section \<open>Timestamps\<close>

definition utcTimestamp :: "(jstr \<Rightarrow> bool) \<Rightarrow> bool \<Rightarrow> jval \<Rightarrow> jstr option" where
  "utcTimestamp dp canonicalSeconds v = do {
     t \<leftarrow> req_text v;
     s \<leftarrow> match_stamp t;
     guard (\<not> (canonicalSeconds \<and> st_fraction s \<noteq> None) \<and> dp t);
     guard (valid_civil s);
     Some t }"

section \<open>Detail fields\<close>

type_synonym validator = "jval \<Rightarrow> detail option"

definition as_text :: "(jval \<Rightarrow> jstr option) \<Rightarrow> validator" where
  "as_text f v = map_option NText (f v)"

definition as_int :: "(jval \<Rightarrow> int option) \<Rightarrow> validator" where
  "as_int f v = map_option (\<lambda>i. NNum (jint i)) (f v)"

definition nonEmptyResultText :: "jval \<Rightarrow> jstr option" where
  "nonEmptyResultText v = do { t \<leftarrow> req_text v; guard (trim t \<noteq> []); Some t }"

definition HTTP_RESULT_DETAIL_VALIDATORS :: "(jstr \<Rightarrow> bool) \<Rightarrow> (string \<times> validator) list" where
  "HTTP_RESULT_DETAIL_VALIDATORS dp = [
     (''certificate_expires_at'', as_text (utcTimestamp dp False)),
     (''certificate_subject'', as_text any_text),
     (''cipher_suite'', as_text any_text),
     (''content_type'', as_text any_text),
     (''expected_status'', as_int (v_integer 0 MAX_SAFE)),
     (''protocol'', as_text any_text),
     (''status_code'', as_int (v_integer 0 MAX_SAFE)),
     (''tls_version'', as_text nonEmptyResultText)]"

definition TRACE_RESULT_DETAIL_VALIDATORS :: "(string \<times> validator) list" where
  "TRACE_RESULT_DETAIL_VALIDATORS = [
     (''attempts_cancelled'', as_int (v_integer 0 10)),
     (''attempts_execution_failed'', as_int (v_integer 0 10)),
     (''attempts_failed'', as_int (v_integer 0 10)),
     (''attempts_reached'', as_int (v_integer 0 10)),
     (''attempts_timed_out'', as_int (v_integer 0 10)),
     (''attempts_total'', as_int (v_integer 0 10)),
     (''attempts_unreached'', as_int (v_integer 0 10)),
     (''attempts'', \<lambda>v. map_option NAttempts (array_of 10 normalizeTraceAttempt v)),
     (''geoip_enrichment'', \<lambda>v. map_option NEnrichment (normalize_enrichment_entry v)),
     (''geoip_provider_failures'', as_int (v_integer 0 MAX_SAFE)),
     (''topology'', \<lambda>v. map_option NTopology (normalizeTopology v))]"

definition verification_scope :: validator where
  "verification_scope v = (if v = str ''server_greeting'' then Some (NText (js ''server_greeting'')) else None)"

definition TLS_SERVICE_VALIDATORS :: "(jstr \<Rightarrow> bool) \<Rightarrow> (string \<times> validator) list" where
  "TLS_SERVICE_VALIDATORS dp = [
     (''certificate_expires_at'', as_text (utcTimestamp dp False)),
     (''certificate_subject'', as_text any_text),
     (''cipher_suite'', as_text any_text),
     (''tls_version'', as_text nonEmptyResultText)]"

text \<open>The fields of one validator table, in its order: all of a required table, the present ones
  of an optional table.\<close>

fun validated :: "bool \<Rightarrow> props \<Rightarrow> (string \<times> validator) list \<Rightarrow> (jstr \<times> detail) list option" where
  "validated required details [] = Some []"
| "validated required details ((k, f) # fs) = (if has details k then do {
       d \<leftarrow> f (get details k);
       ds \<leftarrow> validated required details fs;
       Some ((js k, d) # ds) }
     else if required then None else validated required details fs)"

definition normalizeExactResultDetails ::
  "props \<Rightarrow> (string \<times> validator) list \<Rightarrow> (string \<times> validator) list \<Rightarrow> (jstr \<times> detail) list option" where
  "normalizeExactResultDetails source required optional = do {
     details \<leftarrow> v_object (get source ''details'');
     allowedFields details (map fst required) (map fst optional);
     a \<leftarrow> validated True details required;
     b \<leftarrow> validated False details optional;
     Some (a @ b) }"

section \<open>The shapes of a result\<close>

record result =
  rs_kind :: jstr
  rs_address :: jstr
  rs_status :: jstr
  rs_latency :: int
  rs_started :: jstr
  rs_error :: jstr
  rs_message :: jstr
  rs_details :: "(jstr \<times> detail) list option"

definition among :: "string list \<Rightarrow> jstr \<Rightarrow> bool" where
  "among xs t \<longleftrightarrow> t \<in> set (map js xs)"

definition COMMON_TERMINAL_RESULT_ERRORS :: "string list" where
  "COMMON_TERMINAL_RESULT_ERRORS = [''cancelled'', ''checker_capacity_unavailable'', ''checker_panic'',
     ''connection_failed'', ''network_policy_blocked'', ''timeout'']"
definition SERVICE_KINDS :: "string list" where
  "SERVICE_KINDS = [''imap'', ''imaps'', ''pop3'', ''pop3s'', ''smtp'', ''smtps'', ''ssh'', ''submission'']"
definition PLAIN_SERVICE_KINDS :: "string list" where
  "PLAIN_SERVICE_KINDS = [''imap'', ''pop3'', ''smtp'', ''ssh'', ''submission'']"
definition TLS_SERVICE_KINDS :: "string list" where "TLS_SERVICE_KINDS = [''imaps'', ''pop3s'', ''smtps'']"
definition TLS_FAILURE_KINDS :: "string list" where "TLS_FAILURE_KINDS = [''https'', ''imaps'', ''pop3s'', ''smtps'']"
definition TLS_FAILURE_CODES :: "string list" where
  "TLS_FAILURE_CODES = [''tls_certificate_expired'', ''tls_certificate_not_yet_valid'', ''tls_handshake_failed'',
     ''tls_hostname_mismatch'', ''tls_untrusted'']"
definition INVALID_ADDRESS_RESULT_KINDS :: "string list" where
  "INVALID_ADDRESS_RESULT_KINDS = [''imaps'', ''pop3s'', ''smtps'', ''traceroute'']"
definition TRACEROUTE_DETAILED_ERRORS :: "string list" where
  "TRACEROUTE_DETAILED_ERRORS = ['''', ''destination_unreached'', ''timeout'', ''traceroute_execution_incomplete'', ''traceroute_failed'']"

definition is_http :: "jstr \<Rightarrow> bool" where
  "is_http k \<longleftrightarrow> k = js ''http'' \<or> k = js ''https''"

text \<open>The terminal outcomes that carry no details.\<close>

definition validNoDetailsTerminal :: "bool \<Rightarrow> bool \<Rightarrow> result \<Rightarrow> bool" where
  "validNoDetailsTerminal hasDetails hasErrorCode r \<longleftrightarrow>
     (let code = rs_error r; kind = rs_kind r; status = rs_status r in
      status = js ''unreachable'' \<and> hasErrorCode \<and> \<not> hasDetails \<and> (
        among COMMON_TERMINAL_RESULT_ERRORS code \<or>
        (code = js ''invalid_address'' \<and> among INVALID_ADDRESS_RESULT_KINDS kind) \<or>
        (code = js ''invalid_url'' \<and> is_http kind) \<or>
        (code = js ''response_read_failed'' \<and> is_http kind) \<or>
        (code = js ''service_greeting_unverified'' \<and> among SERVICE_KINDS kind \<and> status = js ''degraded'') \<or>
        (code = js ''tls_downgrade'' \<and> kind = js ''https'') \<or>
        (among TLS_FAILURE_CODES code \<and> \<not> among [''tls_certificate_expired'', ''tls_certificate_not_yet_valid''] code \<and>
           among TLS_FAILURE_KINDS kind) \<or>
        (code = js ''traceroute_unavailable'' \<and> kind = js ''traceroute'')))"

definition detail_text :: "(jstr \<times> detail) list \<Rightarrow> string \<Rightarrow> jstr" where
  "detail_text ds k = (case map_of ds (js k) of Some (NText t) \<Rightarrow> t | _ \<Rightarrow> [])"

text \<open>\<open>Date.parse(not_before) >= Date.parse(not_after)\<close>, of two accepted timestamps.\<close>

definition validity_range :: "(jstr \<times> detail) list \<Rightarrow> bool" where
  "validity_range ds = (case (parse_stamp (detail_text ds ''certificate_not_before''),
       parse_stamp (detail_text ds ''certificate_not_after'')) of
     (Some a, Some b) \<Rightarrow> a < b | _ \<Rightarrow> False)"

definition with_details :: "result \<Rightarrow> (jstr \<times> detail) list option \<Rightarrow> result option" where
  "with_details r ds = map_option (\<lambda>d. r\<lparr>rs_details := Some d\<rparr>) ds"

definition enforceProducerResultShape :: "(jstr \<Rightarrow> bool) \<Rightarrow> props \<Rightarrow> result \<Rightarrow> result option" where
  "enforceProducerResultShape dp source r =
     (let hasDetails = has source ''details''; hasErrorCode = has source ''error_code'';
          code = rs_error r; kind = rs_kind r; status = rs_status r in
      if validNoDetailsTerminal hasDetails hasErrorCode r then Some r
      else if (kind = js ''dns'' \<or> kind = js ''tcp'') \<and> status = js ''unreachable'' \<and> hasErrorCode \<and>
          code \<noteq> js ''cancelled'' \<and> among COMMON_TERMINAL_RESULT_ERRORS code \<and> hasDetails then Some r
      else if kind = js ''dns'' \<and> status = js ''healthy'' \<and> \<not> hasErrorCode \<and> hasDetails then Some r
      else if kind = js ''tcp'' \<and> status = js ''healthy'' \<and> \<not> hasErrorCode then
        with_details r (normalizeExactResultDetails source
          [(''local_address'', as_text any_text), (''remote_address'', as_text any_text)] [])
      else if is_http kind \<and> ((status = js ''healthy'' \<and> \<not> hasErrorCode) \<or>
          (status = js ''unreachable'' \<and> hasErrorCode \<and> code = js ''unexpected_status'')) then
        (if hasDetails then with_details r (normalizeExactResultDetails source [] (HTTP_RESULT_DETAIL_VALIDATORS dp)) else Some r)
      else if among SERVICE_KINDS kind \<and> status = js ''degraded'' \<and> hasErrorCode \<and>
          code = js ''service_greeting_unverified'' \<and> \<not> hasDetails then Some r
      else if among PLAIN_SERVICE_KINDS kind \<and> status = js ''healthy'' \<and> \<not> hasErrorCode then
        with_details r (normalizeExactResultDetails source [(''verification_scope'', verification_scope)] [])
      else if among TLS_SERVICE_KINDS kind \<and> status = js ''healthy'' \<and> \<not> hasErrorCode then
        with_details r (normalizeExactResultDetails source [(''verification_scope'', verification_scope)] (TLS_SERVICE_VALIDATORS dp))
      else if among TLS_FAILURE_KINDS kind \<and> status = js ''unreachable'' \<and> hasErrorCode \<and>
          (code = js ''tls_certificate_expired'' \<or> code = js ''tls_certificate_not_yet_valid'') then
        do { ds \<leftarrow> normalizeExactResultDetails source
               [(''certificate_not_after'', as_text (utcTimestamp dp True)), (''certificate_not_before'', as_text (utcTimestamp dp True))] [];
             guard (validity_range ds);
             with_details r (Some ds) }
      else if kind = js ''traceroute'' \<and> hasDetails \<and>
          (((status = js ''healthy'' \<or> status = js ''degraded'') \<and> \<not> hasErrorCode \<and> code = []) \<or>
           (status = js ''unreachable'' \<and> hasErrorCode \<and> among TRACEROUTE_DETAILED_ERRORS code \<and> code \<noteq> [])) then
        with_details r (normalizeExactResultDetails source [] TRACE_RESULT_DETAIL_VALIDATORS)
      else None)"

definition normalizeResult :: "(jstr \<Rightarrow> bool) \<Rightarrow> jval \<Rightarrow> result option" where
  "normalizeResult dp v = do {
     source \<leftarrow> v_object v;
     allowedFields source [''kind'', ''address'', ''status'', ''latency_ms'', ''started_at''] [''error_code'', ''message'', ''details''];
     kind \<leftarrow> v_enum KINDS (get source ''kind'');
     address \<leftarrow> any_text (get source ''address'');
     status \<leftarrow> v_enum STATUSES (get source ''status'');
     latency \<leftarrow> v_integer 0 MAX_SAFE (get source ''latency_ms'');
     started \<leftarrow> v_timestamp dp (get source ''started_at'');
     code \<leftarrow> (if has source ''error_code'' then v_text False ERROR_CODE_LIMIT (get source ''error_code'') else Some []);
     message \<leftarrow> (if has source ''message'' then any_text (get source ''message'') else Some []);
     details \<leftarrow> if_present source ''details'' normalizeDetails;
     enforceProducerResultShape dp source \<lparr>rs_kind = kind, rs_address = address, rs_status = status, rs_latency = latency,
       rs_started = started, rs_error = code, rs_message = message, rs_details = details\<rparr> }"

definition lookup_int :: "(jstr \<times> detail) list \<Rightarrow> string \<Rightarrow> int option" where
  "lookup_int ds k = (case map_of ds (js k) of Some (NNum n) \<Rightarrow>
       (case num_int n of Some i \<Rightarrow> if \<bar>i\<bar> \<le> MAX_SAFE then Some i else None | None \<Rightarrow> None) | _ \<Rightarrow> None)"

text \<open>A reference to an attempt of a result; \<open>result\<close> is the indexed element, if there is one.\<close>

definition validateResultAttemptReference :: "result option \<Rightarrow> int \<Rightarrow> bool" where
  "validateResultAttemptReference result attempt = (case result of None \<Rightarrow> False
     | Some r \<Rightarrow> rs_kind r = js ''traceroute'' \<and>
         (let details = (case rs_details r of Some ds \<Rightarrow> ds | None \<Rightarrow> []) in
          case map_of details (js ''attempts'') of
            Some d \<Rightarrow> (case d of NAttempts as \<Rightarrow> (\<exists>a \<in> set as. ta_attempt a = attempt) | _ \<Rightarrow> False)
          | None \<Rightarrow> (case lookup_int details ''attempts_total'' of None \<Rightarrow> False
              | Some n \<Rightarrow> 1 \<le> n \<and> n \<le> 10 \<and> attempt \<le> n)))"

definition at_index :: "'a list \<Rightarrow> int \<Rightarrow> 'a option" where
  "at_index xs i = (if 0 \<le> i \<and> nat i < length xs then Some (xs ! nat i) else None)"

end
