(* ===== verification/Compact_Topology.thy ===== *)
theory Compact_Topology
  imports Report_Result
begin

text \<open>
  The compact topology of a report (\<open>normalizeCompactTopology\<close> of \<open>frontend/state.js\<close>): the nodes
  with their bounded geo bundles, the directed links, the routes over them, and the counts that
  have to agree with the displayed arrays, per result and in total.
\<close>

section \<open>Limits\<close>

definition REPORT_TOPOLOGY_NODES :: int where "REPORT_TOPOLOGY_NODES = 8192"
definition REPORT_TOPOLOGY_LINKS :: int where "REPORT_TOPOLOGY_LINKS = 16384"
definition COMPACT_MAX_ROUTES :: nat where "COMPACT_MAX_ROUTES = MAX_RESULTS * 10"
definition COMPACT_NODES :: nat where "COMPACT_NODES = 500"
definition COMPACT_LINKS :: nat where "COMPACT_LINKS = 1000"
definition COMPACT_RESPONSE_BYTES :: int where "COMPACT_RESPONSE_BYTES = 1048576"
definition COMPACT_GEO_BYTES :: nat where "COMPACT_GEO_BYTES = 4096"
definition COMPACT_NODE_KINDS :: "jstr list" where
  "COMPACT_NODE_KINDS = map js [''local'', ''ip'', ''hostname'', ''unknown'']"
definition COMPACT_TRUNCATION_REASONS :: "jstr list" where
  "COMPACT_TRUNCATION_REASONS = map js [''node_limit'', ''link_limit'', ''response_size'', ''geo_metadata_limit'']"

section \<open>Counts\<close>

record compact_count =
  cc_total :: int
  cc_displayed :: int
  cc_omitted :: int

definition normalizeCompactCount :: "int \<Rightarrow> jval \<Rightarrow> compact_count option" where
  "normalizeCompactCount limit v = do {
     source \<leftarrow> v_object v;
     exactFields source [''total'', ''displayed'', ''omitted''];
     t \<leftarrow> v_integer 0 limit (get source ''total'');
     d \<leftarrow> v_integer 0 limit (get source ''displayed'');
     m \<leftarrow> v_integer 0 limit (get source ''omitted'');
     guard (t = d + m);
     Some \<lparr>cc_total = t, cc_displayed = d, cc_omitted = m\<rparr> }"

record route_count =
  rc_total :: int
  rc_displayed :: int
  rc_complete :: int
  rc_partial :: int
  rc_omitted :: int

definition normalizeCompactRouteCount :: "jval \<Rightarrow> route_count option" where
  "normalizeCompactRouteCount v = (let bounded = v_integer 0 (int COMPACT_MAX_ROUTES) in do {
     source \<leftarrow> v_object v;
     exactFields source [''total'', ''displayed'', ''complete'', ''partial'', ''omitted''];
     t \<leftarrow> bounded (get source ''total'');
     d \<leftarrow> bounded (get source ''displayed'');
     c \<leftarrow> bounded (get source ''complete'');
     p \<leftarrow> bounded (get source ''partial'');
     m \<leftarrow> bounded (get source ''omitted'');
     guard (t = d + m \<and> d = c + p);
     Some \<lparr>rc_total = t, rc_displayed = d, rc_complete = c, rc_partial = p, rc_omitted = m\<rparr> })"

section \<open>The size of a geo bundle in Go's JSON\<close>

text \<open>The bytes of one code unit outside the surrogates, in UTF-8 and in Go's escaped JSON.\<close>

definition utf8_bytes :: "unit16 \<Rightarrow> nat" where
  "utf8_bytes c = (if c \<le> 0x7f then 1 else if c \<le> 0x7ff then 2 else 3)"

definition go_bytes :: "unit16 \<Rightarrow> nat" where
  "go_bytes c = (if c \<in> {0x22, 0x5c, 0x08, 0x09, 0x0a, 0x0c, 0x0d} then 2
     else if c < 0x20 \<or> c \<in> {0x3c, 0x3e, 0x26, 0x2028, 0x2029} then 6 else utf8_bytes c)"

fun go_string_bytes :: "nat \<Rightarrow> nat \<Rightarrow> nat \<Rightarrow> jstr \<Rightarrow> nat option" where
  "go_string_bytes limit encoded utf8 [] = Some encoded"
| "go_string_bytes limit encoded utf8 (c # s) =
     (if 0xd800 \<le> c \<and> c \<le> 0xdbff then (case s of [] \<Rightarrow> None
        | low # s' \<Rightarrow> if low < 0xdc00 \<or> low > 0xdfff \<or> utf8 + 4 > limit then None
            else go_string_bytes limit (encoded + 4) (utf8 + 4) s')
      else if 0xdc00 \<le> c \<and> c \<le> 0xdfff then None
      else if utf8 + utf8_bytes c > limit then None
      else go_string_bytes limit (encoded + go_bytes c) (utf8 + utf8_bytes c) s)"

definition goJSONStringBytes :: "nat \<Rightarrow> jstr \<Rightarrow> nat option" where
  "goJSONStringBytes limit s = go_string_bytes limit 2 0 s"

definition goJSONNumberBytes :: "jnum \<Rightarrow> nat" where
  "goJSONNumberBytes n = (if n = NZero then 2 else length (number_text n))"

text \<open>Fixed pieces of JSON are counted with a dot for each quote.  The members \<open>"key":"value"\<close> of the non-empty texts, with a comma before all but the first;
  the flag says whether none has been written yet.\<close>

fun text_members :: "bool \<Rightarrow> (string \<times> jstr) list \<Rightarrow> (nat \<times> bool) option" where
  "text_members none [] = Some (0, none)"
| "text_members none ((k, t) # ms) = (if t = [] then text_members none ms else do {
     n \<leftarrow> goJSONStringBytes COMPACT_GEO_BYTES t;
     (m, last) \<leftarrow> text_members False ms;
     Some ((if none then 0 else 1) + length k + 3 + n + m, last) })"

record compact_geo =
  cg_city :: "jstr option"
  cg_region :: "jstr option"
  cg_country :: "jstr option"
  cg_code :: "jstr option"
  cg_latitude :: jnum
  cg_longitude :: jnum

record compact_asn =
  ca_number :: "int option"
  ca_organization :: "jstr option"

abbreviation or_empty :: "jstr option \<Rightarrow> jstr" where
  "or_empty t \<equiv> (case t of Some s \<Rightarrow> s | None \<Rightarrow> [])"

definition geo_bytes :: "compact_geo \<Rightarrow> nat option" where
  "geo_bytes g = do {
     (n, none) \<leftarrow> text_members True [(''city'', or_empty (cg_city g)), (''region'', or_empty (cg_region g)),
       (''country'', or_empty (cg_country g)), (''country_code'', or_empty (cg_code g))];
     Some (length '',.geolocation.:{'' + n +
       (if none then 0 else 1) + length ''latitude'' + 3 + goJSONNumberBytes (cg_latitude g) +
       1 + length ''longitude'' + 3 + goJSONNumberBytes (cg_longitude g) + 1) }"

definition asn_bytes :: "compact_asn \<Rightarrow> nat option" where
  "asn_bytes a = (let number = (case ca_number a of Some n \<Rightarrow> n | None \<Rightarrow> 0) in do {
     (n, none) \<leftarrow> text_members (number = 0) [(''organization'', or_empty (ca_organization a))];
     Some (length '',.asn.:{'' + (if number = 0 then 0 else length ''number'' + 3 + goJSONNumberBytes (jint number)) + n + 1) })"

definition compactGeoBundleBytes :: "compact_geo option \<Rightarrow> compact_asn option \<Rightarrow> nat option" where
  "compactGeoBundleBytes geo a = do {
     g \<leftarrow> (case geo of None \<Rightarrow> Some 0 | Some x \<Rightarrow> geo_bytes x);
     n \<leftarrow> (case a of None \<Rightarrow> Some 0 | Some x \<Rightarrow> asn_bytes x);
     Some (g + n) }"

section \<open>Nodes and links\<close>

record compact_node =
  cn_id :: jstr
  cn_kind :: jstr
  cn_status :: jstr
  cn_hop_min :: int
  cn_hop_max :: int
  cn_observations :: int
  cn_address :: "jstr option"
  cn_public :: bool
  cn_latency :: "jnum option"
  cn_geo :: "compact_geo option"
  cn_asn :: "compact_asn option"

definition compact_limits :: "jval \<Rightarrow> unit option" where
  "compact_limits v = do {
     limits \<leftarrow> v_object v;
     exactFields limits [''nodes'', ''links'', ''max_response_bytes_exclusive'', ''max_geo_bundle_bytes''];
     nodes \<leftarrow> v_integer 0 (int COMPACT_NODES) (get limits ''nodes'');
     links \<leftarrow> v_integer 0 (int COMPACT_LINKS) (get limits ''links'');
     response \<leftarrow> v_integer 1 COMPACT_RESPONSE_BYTES (get limits ''max_response_bytes_exclusive'');
     bundle \<leftarrow> v_integer 1 (int COMPACT_GEO_BYTES) (get limits ''max_geo_bundle_bytes'');
     guard (nodes = int COMPACT_NODES \<and> links = int COMPACT_LINKS \<and> response = COMPACT_RESPONSE_BYTES \<and>
       bundle = int COMPACT_GEO_BYTES) }"

definition compact_geolocation :: "jval \<Rightarrow> compact_geo option" where
  "compact_geolocation v = do {
     geo \<leftarrow> v_object v;
     allowedFields geo [''latitude'', ''longitude''] [''city'', ''region'', ''country'', ''country_code''];
     city \<leftarrow> if_present geo ''city'' req_text;
     region \<leftarrow> if_present geo ''region'' req_text;
     country \<leftarrow> if_present geo ''country'' req_text;
     code \<leftarrow> if_present geo ''country_code'' req_text;
     latitude \<leftarrow> v_finite (- 90) 90 (get geo ''latitude'');
     longitude \<leftarrow> v_finite (- 180) 180 (get geo ''longitude'');
     Some \<lparr>cg_city = city, cg_region = region, cg_country = country, cg_code = code, cg_latitude = latitude,
       cg_longitude = longitude\<rparr> }"

definition compact_asn_entry :: "jval \<Rightarrow> compact_asn option" where
  "compact_asn_entry v = do {
     a \<leftarrow> v_object v;
     allowedFields a [] [''number'', ''organization''];
     number \<leftarrow> if_present a ''number'' (v_integer 1 4294967295);
     organization \<leftarrow> if_present a ''organization'' req_text;
     guard (\<not> (number = None \<and> or_empty organization = []));
     Some \<lparr>ca_number = number, ca_organization = organization\<rparr> }"

definition present_true :: "jval \<Rightarrow> bool option" where
  "present_true v = do { b \<leftarrow> v_boolean v; guard b; Some b }"

definition compact_node_entry :: "jval \<Rightarrow> compact_node option" where
  "compact_node_entry v = do {
     item \<leftarrow> v_object v;
     allowedFields item [''id'', ''kind'', ''status'', ''hop_min'', ''hop_max'', ''observations'']
       [''address'', ''latency_ms_avg'', ''public_ip'', ''geolocation'', ''asn''];
     nid \<leftarrow> req_text (get item ''id'');
     kind \<leftarrow> v_enum COMPACT_NODE_KINDS (get item ''kind'');
     status \<leftarrow> v_enum TOPOLOGY_STATUSES (get item ''status'');
     lo \<leftarrow> v_integer 0 255 (get item ''hop_min'');
     hi \<leftarrow> v_integer 0 255 (get item ''hop_max'');
     observations \<leftarrow> v_integer 1 REPORT_TOPOLOGY_NODES (get item ''observations'');
     address \<leftarrow> if_present item ''address'' req_text;
     public \<leftarrow> if_present item ''public_ip'' present_true;
     guard (lo \<le> hi);
     latency \<leftarrow> if_present item ''latency_ms_avg'' (v_finite 0 (of_int MAX_SAFE));
     guard (\<not> ((has item ''geolocation'' \<or> has item ''asn'') \<and> public \<noteq> Some True));
     geo \<leftarrow> if_present item ''geolocation'' compact_geolocation;
     a \<leftarrow> if_present item ''asn'' compact_asn_entry;
     size \<leftarrow> compactGeoBundleBytes geo a;
     guard (size \<le> COMPACT_GEO_BYTES);
     Some \<lparr>cn_id = nid, cn_kind = kind, cn_status = status, cn_hop_min = lo, cn_hop_max = hi,
       cn_observations = observations, cn_address = address, cn_public = (public = Some True), cn_latency = latency,
       cn_geo = geo, cn_asn = a\<rparr> }"

record compact_link =
  cl_from :: jstr
  cl_to :: jstr
  cl_status :: jstr
  cl_observations :: int

definition compact_link_entry :: "jstr list \<Rightarrow> jval \<Rightarrow> compact_link option" where
  "compact_link_entry ids v = do {
     item \<leftarrow> v_object v;
     exactFields item [''from'', ''to'', ''status'', ''observations''];
     from \<leftarrow> req_text (get item ''from'');
     target \<leftarrow> req_text (get item ''to'');
     status \<leftarrow> v_enum TOPOLOGY_STATUSES (get item ''status'');
     observations \<leftarrow> v_integer 1 REPORT_TOPOLOGY_LINKS (get item ''observations'');
     guard (from \<in> set ids \<and> target \<in> set ids);
     guard (from \<noteq> target);
     Some \<lparr>cl_from = from, cl_to = target, cl_status = status, cl_observations = observations\<rparr> }"

text \<open>The text that stands for a directed link, and the set of them.\<close>

definition link_key :: "jstr \<Rightarrow> jstr \<Rightarrow> jstr" where
  "link_key a b = a @ 0 # b"

fun link_keys :: "jstr list \<Rightarrow> compact_link list \<Rightarrow> jstr list option" where
  "link_keys seen [] = Some seen"
| "link_keys seen (l # ls) = (let key = link_key (cl_from l) (cl_to l) in
     if key \<in> set seen then None else link_keys (seen @ [key]) ls)"

section \<open>Routes\<close>

record compact_route =
  cr_result :: int
  cr_attempt :: int
  cr_status :: jstr
  cr_reached :: bool
  cr_complete :: bool
  cr_nodes :: "jstr list"

text \<open>The neighbours along a route: each differs from the one before, and each pair has a key.\<close>

fun steps_of :: "'a list \<Rightarrow> ('a \<times> 'a) list" where
  "steps_of (a # b # xs) = (a, b) # steps_of (b # xs)"
| "steps_of xs = []"

text \<open>The results are those of the report, or absent when the topology is read on its own.\<close>

definition compact_route_entry ::
  "jstr list \<Rightarrow> jstr list \<Rightarrow> result list option \<Rightarrow> jval \<Rightarrow> compact_route option" where
  "compact_route_entry ids keys results v = do {
     item \<leftarrow> v_object v;
     exactFields item [''result_index'', ''attempt'', ''status'', ''reached'', ''complete'', ''node_ids''];
     path \<leftarrow> array_of 32 req_text (get item ''node_ids'');
     guard (length path \<noteq> 0 \<and> (\<forall>i \<in> set path. i \<in> set ids));
     guard (\<forall>(a, b) \<in> set (steps_of path). b \<noteq> a);
     guard (\<forall>(a, b) \<in> set (steps_of path). link_key a b \<in> set keys);
     index \<leftarrow> v_integer 0 (int MAX_RESULTS - 1) (get item ''result_index'');
     guard (case results of None \<Rightarrow> True
       | Some rs \<Rightarrow> (case at_index rs index of None \<Rightarrow> False | Some r \<Rightarrow> rs_kind r = js ''traceroute''));
     attempt \<leftarrow> v_integer 1 10 (get item ''attempt'');
     guard (case results of None \<Rightarrow> True | Some rs \<Rightarrow> validateResultAttemptReference (at_index rs index) attempt);
     status \<leftarrow> v_enum STATUSES (get item ''status'');
     reached \<leftarrow> v_boolean (get item ''reached'');
     guard (reached = (status \<noteq> js ''unreachable''));
     complete \<leftarrow> v_boolean (get item ''complete'');
     Some \<lparr>cr_result = index, cr_attempt = attempt, cr_status = status, cr_reached = reached, cr_complete = complete,
       cr_nodes = path\<rparr> }"

section \<open>Statistics\<close>

record compact_stats =
  st_nodes :: compact_count
  st_links :: compact_count
  st_routes :: route_count
  st_node_observations :: compact_count
  st_link_observations :: compact_count

definition compact_stats_of :: "compact_node list \<Rightarrow> compact_link list \<Rightarrow> compact_route list \<Rightarrow> jval \<Rightarrow> compact_stats option" where
  "compact_stats_of nodes links routes v = do {
     source \<leftarrow> v_object v;
     exactFields source [''nodes'', ''links'', ''routes'', ''node_observations'', ''link_observations''];
     n \<leftarrow> normalizeCompactCount REPORT_TOPOLOGY_NODES (get source ''nodes'');
     l \<leftarrow> normalizeCompactCount REPORT_TOPOLOGY_LINKS (get source ''links'');
     r \<leftarrow> normalizeCompactRouteCount (get source ''routes'');
     no \<leftarrow> normalizeCompactCount REPORT_TOPOLOGY_NODES (get source ''node_observations'');
     lo \<leftarrow> normalizeCompactCount REPORT_TOPOLOGY_LINKS (get source ''link_observations'');
     guard (cc_displayed n = int (length nodes) \<and> cc_displayed l = int (length links) \<and>
       rc_displayed r = int (length routes) \<and> rc_complete r = int (length (filter cr_complete routes)) \<and>
       rc_partial r = int (length (filter (\<lambda>x. \<not> cr_complete x) routes)) \<and>
       cc_displayed lo = sum_list (map cl_observations links));
     Some \<lparr>st_nodes = n, st_links = l, st_routes = r, st_node_observations = no, st_link_observations = lo\<rparr> }"

record result_stats =
  rt_index :: int
  rt_routes :: route_count
  rt_nodes :: compact_count
  rt_links :: compact_count

definition result_stats_entry :: "jval \<Rightarrow> result_stats option" where
  "result_stats_entry v = do {
     item \<leftarrow> v_object v;
     exactFields item [''result_index'', ''routes'', ''node_observations'', ''link_observations''];
     index \<leftarrow> v_integer 0 (int MAX_RESULTS - 1) (get item ''result_index'');
     r \<leftarrow> normalizeCompactRouteCount (get item ''routes'');
     n \<leftarrow> normalizeCompactCount REPORT_TOPOLOGY_NODES (get item ''node_observations'');
     l \<leftarrow> normalizeCompactCount REPORT_TOPOLOGY_LINKS (get item ''link_observations'');
     Some \<lparr>rt_index = index, rt_routes = r, rt_nodes = n, rt_links = l\<rparr> }"

definition no_routes :: "route_count \<Rightarrow> bool" where
  "no_routes r \<longleftrightarrow> rc_total r = 0 \<and> rc_displayed r = 0 \<and> rc_complete r = 0 \<and> rc_partial r = 0 \<and> rc_omitted r = 0"

definition no_count :: "compact_count \<Rightarrow> bool" where
  "no_count c \<longleftrightarrow> cc_total c = 0 \<and> cc_displayed c = 0 \<and> cc_omitted c = 0"

definition known_results :: "result list \<Rightarrow> result_stats list \<Rightarrow> bool" where
  "known_results rs items \<longleftrightarrow> (\<forall>i \<in> set items. case at_index rs (rt_index i) of None \<Rightarrow> False
     | Some r \<Rightarrow> rs_kind r = js ''traceroute'' \<or> (no_routes (rt_routes i) \<and> no_count (rt_nodes i) \<and> no_count (rt_links i)))"

text \<open>The sums over the results agree with the totals, field by field.\<close>

definition summed :: "('a \<Rightarrow> int) \<Rightarrow> 'a list \<Rightarrow> int" where
  "summed f xs = sum_list (map f xs)"

definition count_sums :: "(result_stats \<Rightarrow> compact_count) \<Rightarrow> result_stats list \<Rightarrow> compact_count \<Rightarrow> bool" where
  "count_sums f items c \<longleftrightarrow> summed (\<lambda>i. cc_total (f i)) items = cc_total c \<and>
     summed (\<lambda>i. cc_displayed (f i)) items = cc_displayed c \<and> summed (\<lambda>i. cc_omitted (f i)) items = cc_omitted c"

definition route_sums :: "result_stats list \<Rightarrow> route_count \<Rightarrow> bool" where
  "route_sums items c \<longleftrightarrow> summed (\<lambda>i. rc_total (rt_routes i)) items = rc_total c \<and>
     summed (\<lambda>i. rc_displayed (rt_routes i)) items = rc_displayed c \<and>
     summed (\<lambda>i. rc_complete (rt_routes i)) items = rc_complete c \<and>
     summed (\<lambda>i. rc_partial (rt_routes i)) items = rc_partial c \<and>
     summed (\<lambda>i. rc_omitted (rt_routes i)) items = rc_omitted c"

text \<open>\<open>routeCounts\<close>: displayed, complete and partial routes by result, counted in one pass.\<close>

type_synonym tally = "int \<Rightarrow> (int \<times> int \<times> int) option"

definition tally_at :: "tally \<Rightarrow> int \<Rightarrow> int \<times> int \<times> int" where
  "tally_at m i = (case m i of Some c \<Rightarrow> c | None \<Rightarrow> (0, 0, 0))"

definition count_route :: "tally \<Rightarrow> compact_route \<Rightarrow> tally" where
  "count_route m r = (case tally_at m (cr_result r) of (d, c, p) \<Rightarrow>
     m(cr_result r \<mapsto> (if cr_complete r then (d + 1, c + 1, p) else (d + 1, c, p + 1))))"

definition displayed_routes :: "compact_route list \<Rightarrow> result_stats \<Rightarrow> bool" where
  "displayed_routes routes i \<longleftrightarrow>
     tally_at (foldl count_route (\<lambda>_. None) routes) (rt_index i) =
       (rc_displayed (rt_routes i), rc_complete (rt_routes i), rc_partial (rt_routes i))"

definition displayed_observations :: "compact_route list \<Rightarrow> result_stats \<Rightarrow> bool" where
  "displayed_observations routes i \<longleftrightarrow>
     (let observations = map cr_nodes (filter (\<lambda>r. cr_result r = rt_index i) routes) in
      cc_displayed (rt_nodes i) = summed (\<lambda>p. int (length p)) observations \<and>
      cc_displayed (rt_links i) = summed (\<lambda>p. max 0 (int (length p) - 1)) observations)"

definition result_stats_of ::
  "compact_stats \<Rightarrow> compact_route list \<Rightarrow> result list option \<Rightarrow> jval \<Rightarrow> result_stats list option" where
  "result_stats_of stats routes results v = do {
     items \<leftarrow> array_of MAX_RESULTS result_stats_entry v;
     guard (length (set_of_list (map rt_index items)) = length items);
     guard (case results of None \<Rightarrow> True | Some rs \<Rightarrow> known_results rs items);
     guard (route_sums items (st_routes stats));
     guard (count_sums rt_nodes items (st_node_observations stats));
     guard (count_sums rt_links items (st_link_observations stats));
     guard (\<forall>i \<in> set items. displayed_routes routes i \<and> displayed_observations routes i);
     Some items }"

section \<open>Geo counts and truncation\<close>

record geo_counts =
  gc_eligible :: int
  gc_available :: int
  gc_included :: int
  gc_omitted :: int
  gc_unavailable :: int

definition enriched :: "compact_node \<Rightarrow> bool" where
  "enriched n \<longleftrightarrow> cn_public n \<and> (cn_geo n \<noteq> None \<or> cn_asn n \<noteq> None)"

definition geo_counts_of :: "compact_node list \<Rightarrow> jval \<Rightarrow> geo_counts option" where
  "geo_counts_of nodes v = (let bounded = v_integer 0 (int COMPACT_NODES) in do {
     source \<leftarrow> v_object v;
     exactFields source [''eligible'', ''available'', ''included'', ''omitted'', ''unavailable''];
     e \<leftarrow> bounded (get source ''eligible'');
     a \<leftarrow> bounded (get source ''available'');
     i \<leftarrow> bounded (get source ''included'');
     m \<leftarrow> bounded (get source ''omitted'');
     u \<leftarrow> bounded (get source ''unavailable'');
     guard (e = int (length (filter cn_public nodes)) \<and> e = a + u \<and> a = i + m \<and> i = int (length (filter enriched nodes)));
     Some \<lparr>gc_eligible = e, gc_available = a, gc_included = i, gc_omitted = m, gc_unavailable = u\<rparr> })"

text \<open>\<open>indexOf\<close> of an element of a list.\<close>

fun index_of :: "'a \<Rightarrow> 'a list \<Rightarrow> int" where
  "index_of x [] = - 1"
| "index_of x (y # ys) = (if x = y then 0 else let i = index_of x ys in if i = - 1 then - 1 else i + 1)"

definition truncation_reasons_of :: "props \<Rightarrow> jstr list option" where
  "truncation_reasons_of source = (let present = has source ''truncation_reasons'' in do {
     reasons \<leftarrow> (if present then array_of (length COMPACT_TRUNCATION_REASONS) (v_enum COMPACT_TRUNCATION_REASONS)
         (get source ''truncation_reasons'') else Some []);
     guard (\<not> (present \<and> length reasons = 0));
     guard (length (set_of_list reasons) = length reasons \<and>
       (\<forall>(a, b) \<in> set (steps_of reasons). index_of a COMPACT_TRUNCATION_REASONS < index_of b COMPACT_TRUNCATION_REASONS));
     Some reasons })"

section \<open>The topology\<close>

record compact_topology =
  ct_nodes :: "compact_node list"
  ct_links :: "compact_link list"
  ct_routes :: "compact_route list"
  ct_stats :: compact_stats
  ct_result_stats :: "result_stats list"
  ct_geo :: geo_counts
  ct_truncated :: bool
  ct_reasons :: "jstr list"

definition normalizeCompactTopology :: "result list option \<Rightarrow> jval \<Rightarrow> compact_topology option" where
  "normalizeCompactTopology results v = do {
     source \<leftarrow> v_object v;
     allowedFields source [''schema'', ''selection'', ''limits'', ''nodes'', ''links'', ''routes'', ''stats'', ''result_stats'',
       ''geo'', ''truncated''] [''truncation_reasons''];
     guard (get source ''schema'' = str ''compact-v1'');
     guard (get source ''selection'' = str ''fair-complete-prefix-v1'');
     compact_limits (get source ''limits'');
     nodes \<leftarrow> array_of COMPACT_NODES compact_node_entry (get source ''nodes'');
     guard (length (set_of_list (map cn_id nodes)) = length nodes);
     links \<leftarrow> array_of COMPACT_LINKS (compact_link_entry (map cn_id nodes)) (get source ''links'');
     keys \<leftarrow> link_keys [] links;
     routes \<leftarrow> array_of COMPACT_MAX_ROUTES (compact_route_entry (map cn_id nodes) keys results) (get source ''routes'');
     stats \<leftarrow> compact_stats_of nodes links routes (get source ''stats'');
     per_result \<leftarrow> result_stats_of stats routes results (get source ''result_stats'');
     geo \<leftarrow> geo_counts_of nodes (get source ''geo'');
     reasons \<leftarrow> truncation_reasons_of source;
     truncated \<leftarrow> v_boolean (get source ''truncated'');
     guard (truncated = (length reasons > 0));
     Some \<lparr>ct_nodes = nodes, ct_links = links, ct_routes = routes, ct_stats = stats, ct_result_stats = per_result,
       ct_geo = geo, ct_truncated = truncated, ct_reasons = reasons\<rparr> }"

end
