(* ===== verification/Address_Class.thy ===== *)
theory Address_Class
  imports Common_Prefix
begin

text \<open>
  The address policy of \<open>frontend/topology-presentation.js\<close>: \<open>addressBits\<close>, the networks,
  \<open>addressClass\<close> and \<open>canonicalPublicIP\<close>.  IPv6 literals are validated and canonicalised by the
  platform's \<open>URL\<close>: its host parser is the parameter \<open>url6\<close>, from the text between the brackets
  to the text of the host.
\<close>

type_synonym host6 = "jstr \<Rightarrow> jstr option"

record ip_bits =
  ip_width :: nat
  ip_value :: int

text \<open>The words of a canonical IPv6 host text.\<close>

definition host_words :: "jstr \<Rightarrow> nat list" where
  "host_words t = (let halves = split_pair cColon t;
      words = (\<lambda>h. if h = [] then [] else map (digits_val 16) (split_on cColon h));
      left = words (hd halves); right = (if length halves > 1 then words (halves ! 1) else [])
   in if length halves = 2 then left @ replicate (8 - length left - length right) 0 @ right else left)"

definition addressBits :: "host6 \<Rightarrow> jstr \<Rightarrow> ip_bits option" where
  "addressBits url6 address = (if length address > 45 then None
     else if cColon \<notin> set address then map_option (\<lambda>b. \<lparr>ip_width = 32, ip_value = bval b\<rparr>) (ipv4Bits address)
     else if \<not> (\<forall>c \<in> set address. is_hex c \<or> c = cColon \<or> c = cDot) then None
     else (case url6 address of None \<Rightarrow> None
       | Some t \<Rightarrow> (let v = shift_in 16 (host_words t) in
           Some (if drop_bit 32 v = 65535 then \<lparr>ip_width = 32, ip_value = v AND 0xffffffff\<rparr>
                 else \<lparr>ip_width = 128, ip_value = v\<rparr>))))"

record network =
  n_bits :: ip_bits
  n_shift :: nat

text \<open>A network that does not parse would stop the module from loading; all of them do.\<close>

definition network_of :: "host6 \<Rightarrow> jstr \<Rightarrow> network option" where
  "network_of url6 text = (case split_on cSlash text of
     address # len # _ \<Rightarrow> map_option (\<lambda>b. \<lparr>n_bits = b, n_shift = ip_width b - digits_val 10 len\<rparr>) (addressBits url6 address)
   | _ \<Rightarrow> None)"

definition networks :: "host6 \<Rightarrow> string list \<Rightarrow> network list" where
  "networks url6 cidrs = List.map_filter (\<lambda>c. network_of url6 (js c)) cidrs"

definition PRIVATE_NETWORKS :: "string list" where
  "PRIVATE_NETWORKS = [''10.0.0.0/8'', ''172.16.0.0/12'', ''192.168.0.0/16'', ''fc00::/7'']"

definition NONPUBLIC_NETWORKS :: "string list" where
  "NONPUBLIC_NETWORKS = [
     ''0.0.0.0/8'', ''10.0.0.0/8'', ''100.64.0.0/10'', ''127.0.0.0/8'', ''169.254.0.0/16'', ''172.16.0.0/12'',
     ''192.0.0.0/24'', ''192.0.2.0/24'', ''192.31.196.0/24'', ''192.52.193.0/24'', ''192.88.99.0/24'', ''192.168.0.0/16'',
     ''192.175.48.0/24'', ''198.18.0.0/15'', ''198.51.100.0/24'', ''203.0.113.0/24'', ''224.0.0.0/4'', ''240.0.0.0/4'',
     ''100.100.100.200/32'', ''::/128'', ''::1/128'', ''64:ff9b::/96'', ''64:ff9b:1::/48'', ''100::/64'', ''100:0:0:1::/64'',
     ''2001::/23'', ''fc00::/7'', ''fe80::/10'', ''ff00::/8'', ''2001:db8::/32'', ''2002::/16'', ''2620:4f:8000::/48'', ''3fff::/20'', ''5f00::/16'']"

definition inNetworks :: "ip_bits \<Rightarrow> network list \<Rightarrow> bool" where
  "inNetworks b ranges \<longleftrightarrow> (\<exists>n \<in> set ranges. ip_width (n_bits n) = ip_width b \<and>
     drop_bit (n_shift n) (ip_value b) = drop_bit (n_shift n) (ip_value (n_bits n)))"

datatype address_class = Private | Public | Other

definition addressClass :: "host6 \<Rightarrow> jstr \<Rightarrow> address_class" where
  "addressClass url6 address = (case addressBits url6 address of None \<Rightarrow> Other
     | Some b \<Rightarrow> if inNetworks b (networks url6 PRIVATE_NETWORKS) then Private
         else if inNetworks b (networks url6 NONPUBLIC_NETWORKS) then Other else Public)"

definition canonicalPublicIP :: "host6 \<Rightarrow> jstr \<Rightarrow> jstr option" where
  "canonicalPublicIP url6 address = (if addressClass url6 address \<noteq> Public then None
     else (case addressBits url6 address of None \<Rightarrow> None
       | Some b \<Rightarrow> if ip_width b = 32
           then Some (join [cDot] (map (\<lambda>shift. dec (nat (drop_bit shift (ip_value b) AND 255))) [24, 16, 8, 0]))
           else url6 address))"

end
