(* ===== verification/Geo_Details.thy ===== *)
theory Geo_Details
  imports Compact_Topology Address_Class
begin

text \<open>
  The geo details of a report (\<open>normalizeGeoDetails\<close> of \<open>frontend/state.js\<close>): a closed list of
  entries sorted by their public address, with bounded texts, paired timestamps and a bound on the
  bytes of its canonical encoding.
\<close>

definition GEO_DETAIL_TEXT :: "string list" where
  "GEO_DETAIL_TEXT = [''city'', ''region'', ''country'', ''country_code'', ''continent'', ''continent_code'',
     ''region_code'', ''postal'', ''timezone'', ''isp'', ''network_domain'']"

definition geoDetailTimestamp :: "(jstr \<Rightarrow> bool) \<Rightarrow> jval \<Rightarrow> jstr option" where
  "geoDetailTimestamp dp v = (case v of
     JStr t \<Rightarrow> (case match_stamp t of
         Some s \<Rightarrow> (case st_fraction s of
             Some f \<Rightarrow> if length f = 3 \<and> take 4 t \<noteq> js ''0000'' then utcTimestamp dp False v else None
           | None \<Rightarrow> None)
       | None \<Rightarrow> None)
   | _ \<Rightarrow> None)"

text \<open>The bytes of a text in UTF-8; a lone surrogate is replaced, with three bytes.\<close>

fun utf8_length :: "jstr \<Rightarrow> nat" where
  "utf8_length [] = 0"
| "utf8_length (c # s) =
     (if 0xd800 \<le> c \<and> c \<le> 0xdbff \<and> s \<noteq> [] \<and> 0xdc00 \<le> hd s \<and> hd s \<le> 0xdfff then 4 + utf8_length (tl s)
      else utf8_bytes c + utf8_length s)"

record geo_entry =
  ge_address :: jstr
  ge_source :: jstr
  ge_texts :: "(string \<times> jstr) list"
  ge_times :: "(jstr \<times> jstr) option"

text \<open>The present texts, in the order of the keys, with the bytes of the texts before.\<close>

fun geo_texts :: "nat \<Rightarrow> props \<Rightarrow> string list \<Rightarrow> (string \<times> jstr) list option" where
  "geo_texts used item [] = Some []"
| "geo_texts used item (k # ks) = (if has item k then do {
       t \<leftarrow> v_text True 256 (get item k);
       goJSONStringBytes 256 t;
       guard (used + utf8_length t \<le> 1536);
       ts \<leftarrow> geo_texts (used + utf8_length t) item ks;
       Some ((k, t) # ts) }
     else geo_texts used item ks)"

definition geo_times :: "(jstr \<Rightarrow> bool) \<Rightarrow> props \<Rightarrow> (jstr \<times> jstr) option option" where
  "geo_times dp item = do {
     guard (has item ''fetched_at'' = has item ''expires_at'');
     (if has item ''fetched_at'' then do {
        fetched \<leftarrow> geoDetailTimestamp dp (get item ''fetched_at'');
        expires \<leftarrow> geoDetailTimestamp dp (get item ''expires_at'');
        guard (\<not> expires < fetched);
        Some (Some (fetched, expires)) }
      else Some None) }"

definition geo_entry_of :: "host6 \<Rightarrow> (jstr \<Rightarrow> bool) \<Rightarrow> jstr \<Rightarrow> jval \<Rightarrow> geo_entry option" where
  "geo_entry_of url6 dp previous v = do {
     item \<leftarrow> v_object v;
     allowedFields item [''address'', ''provider'', ''source''] (GEO_DETAIL_TEXT @ [''fetched_at'', ''expires_at'']);
     address \<leftarrow> v_text True 45 (get item ''address'');
     guard (canonicalPublicIP url6 address = Some address \<and> previous < address);
     guard (get item ''provider'' = str ''ipwho.is'');
     source \<leftarrow> v_enum [js ''upstream'', js ''cache''] (get item ''source'');
     texts \<leftarrow> geo_texts 0 item GEO_DETAIL_TEXT;
     times \<leftarrow> geo_times dp item;
     Some \<lparr>ge_address = address, ge_source = source, ge_texts = texts, ge_times = times\<rparr> }"

text \<open>\<open>Object.entries(normalized)\<close> and the bytes they take.\<close>

definition entry_fields :: "geo_entry \<Rightarrow> (string \<times> jstr) list" where
  "entry_fields e = [(''address'', ge_address e), (''provider'', js ''ipwho.is''), (''source'', ge_source e)] @ ge_texts e @
     (case ge_times e of None \<Rightarrow> [] | Some (f, x) \<Rightarrow> [(''fetched_at'', f), (''expires_at'', x)])"

fun field_bytes :: "bool \<Rightarrow> (string \<times> jstr) list \<Rightarrow> nat option" where
  "field_bytes first [] = Some 0"
| "field_bytes first ((k, t) # fs) = do {
     n \<leftarrow> goJSONStringBytes COMPACT_GEO_BYTES t;
     m \<leftarrow> field_bytes False fs;
     Some ((if first then 0 else 1) + length k + 3 + n + m) }"

text \<open>The entries with the address before, the bytes so far, and whether it is the first.\<close>

fun geo_entries :: "host6 \<Rightarrow> (jstr \<Rightarrow> bool) \<Rightarrow> jstr \<Rightarrow> nat \<Rightarrow> bool \<Rightarrow> jval list \<Rightarrow> geo_entry list option" where
  "geo_entries url6 dp previous bytes first [] = Some []"
| "geo_entries url6 dp previous bytes first (v # vs) = do {
     e \<leftarrow> geo_entry_of url6 dp previous v;
     n \<leftarrow> field_bytes True (entry_fields e);
     (let bytes' = bytes + ((if first then 0 else 1) + 2) + n in do {
        guard (bytes' \<le> 131072);
        es \<leftarrow> geo_entries url6 dp (ge_address e) bytes' False vs;
        Some (e # es) }) }"

record geo_details =
  gd_total :: int
  gd_omitted :: int
  gd_entries :: "geo_entry list"

text \<open>The sidecar's arrays have a closed shape: enumerable data slots only.\<close>

fun closed_array :: "jval \<Rightarrow> bool" where
  "closed_array (JArr i plain ds) = (\<forall>d \<in> set ds. is_enum d \<and> is_data d)"
| "closed_array v = False"

definition envelope_bytes :: "int \<Rightarrow> int \<Rightarrow> nat" where
  "envelope_bytes t m = length ''{.schema_version.:1,.total.:,.omitted.:,.entries.:[]}'' +
     length (dec (nat t)) + length (dec (nat m))"

definition normalizeGeoDetails :: "host6 \<Rightarrow> (jstr \<Rightarrow> bool) \<Rightarrow> jval \<Rightarrow> geo_details option" where
  "normalizeGeoDetails url6 dp v = do {
     source \<leftarrow> v_object v;
     exactFields source [''schema_version'', ''total'', ''omitted'', ''entries''];
     v_integer 1 1 (get source ''schema_version'');
     t \<leftarrow> v_integer 0 6200 (get source ''total'');
     omitted \<leftarrow> v_integer 0 t (get source ''omitted'');
     raw \<leftarrow> v_array (get source ''entries'') 500;
     guard (closed_array (get source ''entries''));
     guard (t = int (length raw) + omitted);
     entries \<leftarrow> geo_entries url6 dp [] (envelope_bytes t omitted) True raw;
     Some \<lparr>gd_total = t, gd_omitted = omitted, gd_entries = entries\<rparr> }"

end
