(* ===== verification/Geo_Scan.thy ===== *)
theory Geo_Scan
  imports Context_JSON
begin

text \<open>
  The scan of a report's text before \<open>JSON.parse\<close> (\<open>validateGeoDetailsJSON\<close> of
  \<open>frontend/state.js\<close>): it notes keys that decode to the same text twice in one object, and count
  tokens of the geo details that are not small natural numbers.
\<close>

section \<open>Tokens\<close>

text \<open>A string by its units between the quotes, a number by its groups, a word, or a punctuator.\<close>

datatype geo_token = TString jstr | TNumber num_token | TWord jstr | TPunct unit16

definition punctuators :: "unit16 list" where
  "punctuators = [cLBrace, cRBrace, cLBrack, cRBrack, cComma, cColon]"

definition lex_word :: "jstr \<Rightarrow> (geo_token \<times> jstr) option" where
  "lex_word s = (case List.find (\<lambda>w. take (length w) s = w) (map js [''true'', ''false'', ''null'']) of
       Some w \<Rightarrow> Some (TWord w, drop (length w) s)
     | None \<Rightarrow> (case s of c # r \<Rightarrow> if c \<in> set punctuators then Some (TPunct c, r) else None | [] \<Rightarrow> None))"

text \<open>\<open>tokens.exec(body)\<close> at the cursor: white space, then one token; \<open>None\<close> when nothing matches.\<close>

definition lex :: "jstr \<Rightarrow> (geo_token \<times> jstr) option" where
  "lex text = (let s = dropWhile is_space text in
     case s of [] \<Rightarrow> None
     | c # r \<Rightarrow> if c = cQuote then map_option (\<lambda>(raw, t). (TString raw, t)) (scan_string r)
         else (case match_number s of Some (n, t) \<Rightarrow> Some (TNumber n, t) | None \<Rightarrow> lex_word s))"

section \<open>The scan\<close>

record frame =
  fr_brace :: bool
  fr_keys :: "jstr list"
  fr_expected :: bool
  fr_key :: jstr
  fr_sidecar :: bool

text \<open>The stack with its top first, and the three flags.\<close>

record scanner =
  sc_stack :: "frame list"
  sc_geo :: bool
  sc_duplicate :: bool
  sc_invalid :: bool

definition opened :: "bool \<Rightarrow> frame list \<Rightarrow> frame" where
  "opened brace stack = \<lparr>fr_brace = brace, fr_keys = [], fr_expected = brace, fr_key = [],
     fr_sidecar = (length stack = 1 \<and> fr_brace (hd stack) \<and> fr_key (hd stack) = js ''geo_details'')\<rparr>"

definition update_top :: "(frame \<Rightarrow> frame) \<Rightarrow> frame list \<Rightarrow> frame list" where
  "update_top f stack = (case stack of [] \<Rightarrow> [] | p # ps \<Rightarrow> f p # ps)"

definition COUNT_KEYS :: "jstr list" where
  "COUNT_KEYS = map js [''schema_version'', ''total'', ''omitted'']"

definition scan_punct :: "unit16 \<Rightarrow> scanner \<Rightarrow> scanner" where
  "scan_punct c st =
     (if c = cLBrace \<or> c = cLBrack then st\<lparr>sc_stack := opened (c = cLBrace) (sc_stack st) # sc_stack st\<rparr>
      else if c = cRBrace \<or> c = cRBrack then st\<lparr>sc_stack := tl (sc_stack st)\<rparr>
      else if c = cColon then st\<lparr>sc_stack := update_top (\<lambda>p. p\<lparr>fr_expected := False\<rparr>) (sc_stack st)\<rparr>
      else st\<lparr>sc_stack := update_top (\<lambda>p. if fr_brace p then p\<lparr>fr_expected := True\<rparr> else p) (sc_stack st)\<rparr>)"

text \<open>A key is decoded by \<open>JSON.parse\<close>, which may throw.\<close>

definition scan_key :: "jstr \<Rightarrow> scanner \<Rightarrow> scanner option" where
  "scan_key raw st = (case sc_stack st of [] \<Rightarrow> Some st
     | p # ps \<Rightarrow> if \<not> (fr_brace p \<and> fr_expected p) then Some st else (case json_literal raw of None \<Rightarrow> None
         | Some key \<Rightarrow> Some (st\<lparr>sc_stack := p\<lparr>fr_keys := add_new key (fr_keys p), fr_key := key\<rparr> # ps,
             sc_duplicate := sc_duplicate st \<or> key \<in> set (fr_keys p),
             sc_geo := sc_geo st \<or> (ps = [] \<and> key = js ''geo_details'')\<rparr>)))"

definition scan_number :: "num_token \<Rightarrow> scanner \<Rightarrow> scanner" where
  "scan_number n st = (case sc_stack st of [] \<Rightarrow> st
     | p # ps \<Rightarrow> if fr_sidecar p \<and> fr_key p \<in> set COUNT_KEYS
         then st\<lparr>sc_invalid := sc_invalid st \<or> \<not> exactGeoCount n (if fr_key p = js ''schema_version'' then 1 else 6200)\<rparr>
         else st)"

fun scan_token :: "geo_token \<Rightarrow> scanner \<Rightarrow> scanner option" where
  "scan_token (TPunct c) st = Some (scan_punct c st)"
| "scan_token (TString raw) st = scan_key raw st"
| "scan_token (TNumber n) st = Some (scan_number n st)"
| "scan_token (TWord w) st = Some st"

lemma dropWhile_length_le: "length (dropWhile P s) \<le> length s"
  by (induction s) auto

lemma take_digits_length: "length (snd (take_digits s)) + length (fst (take_digits s)) = length s"
  using arg_cong [OF takeWhile_dropWhile_id [of is_digit s], of length] by (simp add: take_digits_def del: takeWhile_dropWhile_id)

lemma match_fraction_length: "length (snd (match_fraction s)) \<le> length s"
  using take_digits_length [of "tl s"] by (auto simp: match_fraction_def split: list.splits)

lemma match_exponent_length: "length (snd (match_exponent s)) \<le> length s"
proof (cases s)
  case (Cons c r)
  have le: "length (snd (take_digits t)) \<le> length t" for t using take_digits_length [of t] by simp
  have "length (snd (match_exponent (c # r))) \<le> Suc (length r)"
    using le [of r] le [of "tl r"] by (auto simp: match_exponent_def Let_def case_prod_beta split: list.splits)
  with Cons show ?thesis by simp
qed (simp add: match_exponent_def)

lemma match_number_shorter: "match_number s = Some (n, t) \<Longrightarrow> length t < length s"
proof -
  define r where "r = (if s \<noteq> [] \<and> hd s = cMinus then tl s else s)"
  define w where "w = (if r \<noteq> [] \<and> hd r = cZero then ([cZero], tl r) else take_digits r)"
  assume "match_number s = Some (n, t)"
  then have w: "fst w \<noteq> []" "t = snd (match_exponent (snd (match_fraction (snd w))))"
    by (auto simp: match_number_def Let_def case_prod_beta r_def w_def split: if_splits)
  have "length (snd w) + length (fst w) = length r"
    using take_digits_length [of r] by (cases r) (auto simp: w_def)
  moreover have "length r \<le> length s" by (simp add: r_def)
  moreover have "0 < length (fst w)" using w(1) by simp
  ultimately show ?thesis
    using match_exponent_length [of "snd (match_fraction (snd w))"] match_fraction_length [of "snd w"] unfolding w(2) by linarith
qed

lemma scan_string_shorter: "scan_string s = Some (raw, t) \<Longrightarrow> length t < length s"
  by (induction s arbitrary: raw t rule: scan_string.induct) (fastforce split: if_splits list.splits)+

lemma lex_shorter: "lex s = Some (tok, t) \<Longrightarrow> length t < length s"
proof -
  assume l: "lex s = Some (tok, t)"
  obtain c r where s: "dropWhile is_space s = c # r" using l by (cases "dropWhile is_space s") (auto simp: lex_def)
  have le: "Suc (length r) \<le> length s" using dropWhile_length_le [of is_space s] s by simp
  have word: "length t < length (c # r)" if "lex_word (c # r) = Some (tok, t)"
  proof (cases "List.find (\<lambda>w. take (length w) (c # r) = w) (map js [''true'', ''false'', ''null''])")
    case (Some w)
    from find_in [OF Some] have "w \<noteq> []" by (auto simp: js_def)
    with Some that find_in [OF Some] show ?thesis by (auto simp: lex_word_def)
  qed (use that in \<open>auto simp: lex_word_def split: if_splits\<close>)
  show ?thesis
  proof (cases "c = cQuote")
    case True
    with l s obtain raw where "scan_string r = Some (raw, t)" by (auto simp: lex_def)
    with le show ?thesis using scan_string_shorter by fastforce
  next
    case False
    show ?thesis
    proof (cases "match_number (c # r)")
      case None
      with l s False word le show ?thesis by (simp add: lex_def)
    next
      case (Some m)
      obtain n u where m: "m = (n, u)" by (cases m)
      with l s False Some have "u = t" by (simp add: lex_def)
      with match_number_shorter [OF Some [unfolded m]] le show ?thesis by simp
    qed
  qed
qed

text \<open>The loop over the cursor; it stops at the first text that is no token, and throws (\<open>None\<close>)
  where a key does not decode.\<close>

function scan_tokens :: "scanner \<Rightarrow> jstr \<Rightarrow> scanner option" where
  "scan_tokens st s = (case lex s of None \<Rightarrow> Some st
     | Some (tok, r) \<Rightarrow> (case scan_token tok st of None \<Rightarrow> None | Some st' \<Rightarrow> scan_tokens st' r))"
  by pat_completeness auto
termination by (relation "measure (length \<circ> snd)") (auto dest: lex_shorter)

declare scan_tokens.simps [simp del]

definition no_frames :: scanner where
  "no_frames = \<lparr>sc_stack = [], sc_geo = False, sc_duplicate = False, sc_invalid = False\<rparr>"

definition validateGeoDetailsJSON :: "jstr \<Rightarrow> unit option" where
  "validateGeoDetailsJSON body = do {
     st \<leftarrow> scan_tokens no_frames body;
     guard (\<not> (sc_geo st \<and> (sc_duplicate st \<or> sc_invalid st))) }"

end
