(* ===== verification/Report.thy ===== *)
theory Report
  imports Report_Budget Geo_Details Geo_Scan
begin

text \<open>
  A report as a whole (\<open>normalizeReport\<close> of \<open>frontend/state.js\<close>) and the response that carries it
  (\<open>parseResponse\<close>): the budget, the results with the summary and the status they imply, the
  analysis, the compact topology and the geo details with their references to the results.
\<close>

section \<open>Reports\<close>

record summary =
  sm_total :: int
  sm_passed :: int
  sm_failed :: int

record report =
  rp_id :: jstr
  rp_status :: jstr
  rp_started :: jstr
  rp_duration :: int
  rp_summary :: summary
  rp_results :: "result list"
  rp_analysis :: "analysis option"
  rp_compact :: "compact_topology option"
  rp_geo :: "geo_details option"

definition passed :: "result list \<Rightarrow> int" where
  "passed rs = int (length (filter (\<lambda>r. rs_status r = js ''healthy'') rs))"

definition normalize_summary :: "result list \<Rightarrow> jval \<Rightarrow> summary option" where
  "normalize_summary rs v = (let bounded = v_integer 0 (int MAX_RESULTS) in do {
     source \<leftarrow> v_object v;
     requireFields source [''total'', ''passed'', ''failed''];
     t \<leftarrow> bounded (get source ''total'');
     p \<leftarrow> bounded (get source ''passed'');
     f \<leftarrow> bounded (get source ''failed'');
     guard (t = int (length rs) \<and> p + f = t);
     guard (p = passed rs \<and> f = int (length rs) - passed rs);
     Some \<lparr>sm_total = t, sm_passed = p, sm_failed = f\<rparr> })"

definition expectedStatus :: "summary \<Rightarrow> result list \<Rightarrow> jstr" where
  "expectedStatus s rs = (if sm_failed s = 0 then js ''healthy''
     else if (\<exists>r \<in> set rs. rs_status r = js ''degraded'') \<or> 0 < sm_passed s then js ''degraded'' else js ''unreachable'')"

definition ordered_stats :: "result list \<Rightarrow> compact_topology \<Rightarrow> bool" where
  "ordered_stats rs t \<longleftrightarrow> length (ct_result_stats t) = length rs \<and>
     (\<forall>(i, item) \<in> set (enumerate 0 (ct_result_stats t)). rt_index item = int i) \<and>
     (\<forall>r \<in> set (ct_routes t). cr_result r < int (length rs))"

definition known_evidence :: "result list \<Rightarrow> evidence \<Rightarrow> bool" where
  "known_evidence rs e = (case at_index rs (e_result e) of None \<Rightarrow> False
     | Some r \<Rightarrow> e_kind e = rs_kind r \<and> (case e_attempt e of None \<Rightarrow> True
         | Some a \<Rightarrow> validateResultAttemptReference (Some r) a))"

definition known_issue :: "result list \<Rightarrow> coverage_issue \<Rightarrow> bool" where
  "known_issue rs c = (case at_index rs (ci_result c) of None \<Rightarrow> False | Some r \<Rightarrow> ci_kind c = rs_kind r)"

definition known_analysis :: "result list \<Rightarrow> analysis \<Rightarrow> bool" where
  "known_analysis rs a \<longleftrightarrow> (\<forall>e \<in> set (an_evidence a). known_evidence rs e) \<and>
     (\<forall>c \<in> set (an_provider_failures a @ an_limitations a). known_issue rs c)"

text \<open>The platform: which texts \<open>Date.parse\<close> accepts, and the host parser of \<open>URL\<close>.\<close>

record platform =
  pf_date :: "jstr \<Rightarrow> bool"
  pf_host6 :: host6

definition normalizeReport :: "platform \<Rightarrow> jval \<Rightarrow> report option" where
  "normalizeReport pf v = do {
     ok \<leftarrow> enforceReportBudget v;
     guard ok;
     source \<leftarrow> v_object v;
     (if has source ''geo_details'' then requireFields source [''geo_details''] else Some ());
     requireFields source [''id'', ''status'', ''started_at'', ''duration_ms'', ''summary'', ''results''];
     results \<leftarrow> array_of MAX_RESULTS (normalizeResult (pf_date pf)) (get source ''results'');
     summary \<leftarrow> normalize_summary results (get source ''summary'');
     status \<leftarrow> v_enum STATUSES (get source ''status'');
     guard (status = expectedStatus summary results);
     analysis \<leftarrow> if_given (get source ''analysis'') normalizeAnalysis;
     compact \<leftarrow> if_present source ''compact_topology'' (normalizeCompactTopology (Some results));
     guard (case compact of None \<Rightarrow> True | Some t \<Rightarrow> ordered_stats results t);
     guard (case analysis of None \<Rightarrow> True | Some a \<Rightarrow> known_analysis results a);
     rid \<leftarrow> req_text (get source ''id'');
     started \<leftarrow> v_timestamp (pf_date pf) (get source ''started_at'');
     duration \<leftarrow> v_integer 0 MAX_SAFE (get source ''duration_ms'');
     geo \<leftarrow> if_present source ''geo_details'' (normalizeGeoDetails (pf_host6 pf) (pf_date pf));
     Some \<lparr>rp_id = rid, rp_status = status, rp_started = started, rp_duration = duration, rp_summary = summary,
       rp_results = results, rp_analysis = analysis, rp_compact = compact, rp_geo = geo\<rparr> }"

section \<open>Responses\<close>

datatype response_outcome = Accepted report | Failed request_error

record response =
  re_status :: int
  re_ok :: "bool option"
  re_retry_after :: "jstr option"

definition malformed_response :: "int \<Rightarrow> string \<Rightarrow> response_outcome" where
  "malformed_response status message =
     Failed (normalizedError EInvalidResponse (js ''invalid_response'') (Some status) (js message) None False)"

definition parseResponse :: "platform \<Rightarrow> response \<Rightarrow> jstr \<Rightarrow> jnum \<Rightarrow> response_outcome" where
  "parseResponse pf response body now =
     (let status = re_status response;
          ok = (case re_ok response of Some b \<Rightarrow> b | None \<Rightarrow> 200 \<le> status \<and> status < 300) in
      if ok then
        (if trim body = [] then malformed_response status ''The server returned an empty response.''
         else (case do { validateGeoDetailsJSON body; json_parse body } of
             None \<Rightarrow> malformed_response status ''The server returned malformed JSON.''
           | Some v \<Rightarrow> (case normalizeReport pf (fresh_containers v) of
               None \<Rightarrow> malformed_response status ''The server response did not match the expected schema.''
             | Some r \<Rightarrow> Accepted r)))
      else Failed (parseFailure status body (re_retry_after response) now))"

end
