(* ===== verification/Legacy_Routes.thy ===== *)
theory Legacy_Routes
  imports Report Legacy_IP "HOL-Library.Product_Lexorder"
begin

text \<open>
  The routes of a report's traceroute results (\<open>legacyNodeKey\<close> and \<open>legacyRoutes\<close> of
  \<open>frontend/topology-model.js\<close>), read from the results \<open>normalizeReport\<close> accepts.  A route is the walk
  along the links of an attempt's topology to ever greater hops.  \<open>toLowerCase\<close> depends on the
  platform's Unicode tables and is the parameter \<open>lower\<close>.
\<close>

section \<open>Keys\<close>

record observation =
  ob_key :: jstr
  ob_kind :: jstr
  ob_address :: jstr
  ob_node :: trace_node

definition nat_text :: "int \<Rightarrow> jstr" where
  "nat_text i = dec (nat i)"

definition strip_dot :: "jstr \<Rightarrow> jstr" where
  "strip_dot t = (if t \<noteq> [] \<and> last t = cDot then butlast t else t)"

definition legacyNodeKey :: "(jstr \<Rightarrow> jstr) \<Rightarrow> trace_node \<Rightarrow> nat \<Rightarrow> int \<Rightarrow> nat \<Rightarrow> nat \<Rightarrow> observation" where
  "legacyNodeKey lower n resultIndex attempt occurrence nodeIndex =
     (let entry = (\<lambda>key kind address. \<lparr>ob_key = key, ob_kind = js kind, ob_address = address, ob_node = n\<rparr>) in
      if nodeIndex = 0 \<and> tn_hop n = 0 then entry (js ''local'') ''local'' (if tn_address n = [] then js ''local'' else tn_address n)
      else let address = trim (tn_address n) in
        if address = [] then entry (js ''unknown:'' @ join [cColon] [dec resultIndex, nat_text attempt, dec occurrence,
          nat_text (tn_hop n), dec nodeIndex]) ''unknown'' []
        else (case canonicalIP address of
            Some ip \<Rightarrow> entry (js ''ip:'' @ ip) ''ip'' ip
          | None \<Rightarrow> (let hostname = strip_dot (lower address) in entry (js ''host:'' @ hostname) ''hostname'' hostname)))"

section \<open>The walk of one attempt\<close>

text \<open>A node with its position in the topology.\<close>

type_synonym placed = "trace_node \<times> nat"

definition ordered_nodes :: "trace_topology \<Rightarrow> placed list" where
  "ordered_nodes t = sort_key (\<lambda>(n, i). (tn_hop n, i)) (zip (tt_nodes t) [0..<length (tt_nodes t)])"

definition by_id :: "placed list \<Rightarrow> jstr \<Rightarrow> placed option" where
  "by_id ordered i = List.find (\<lambda>(n, k). tn_id n = i) ordered"

text \<open>The links that leave a node, without repetitions, with their targets in order.\<close>

definition outgoing_of :: "placed list \<Rightarrow> trace_link list \<Rightarrow> jstr \<Rightarrow> (trace_link \<times> placed) list" where
  "outgoing_of ordered links i =
     (let known = filter (\<lambda>l. by_id ordered (tl_from l) \<noteq> None \<and> by_id ordered (tl_to l) \<noteq> None \<and> tl_from l \<noteq> tl_to l) links;
          mine = filter (\<lambda>l. tl_from l = i) known;
          fresh = foldl (\<lambda>ls l. if \<exists>m \<in> set ls. link_key (tl_from m) (tl_to m) = link_key (tl_from l) (tl_to l) then ls else ls @ [l]) [] mine
      in sort_key (\<lambda>(l, (n, k)). (tn_hop n, k)) (map (\<lambda>l. (l, the (by_id ordered (tl_to l)))) fresh))"

text \<open>The loop follows the first link to a node that was not visited and has a greater hop.  Each
  turn visits a node, so as many turns as there are nodes are enough.\<close>

fun walk :: "nat \<Rightarrow> (jstr \<Rightarrow> (trace_link \<times> placed) list) \<Rightarrow> jstr list \<Rightarrow> placed \<Rightarrow> (placed \<times> trace_link) list" where
  "walk 0 out visited current = []"
| "walk (Suc fuel) out visited current =
     (case List.find (\<lambda>(l, (n, k)). tn_id n \<notin> set visited \<and> tn_hop n > tn_hop (fst current)) (out (tn_id (fst current))) of
        None \<Rightarrow> []
      | Some (l, target) \<Rightarrow> (target, l) # walk fuel out (tn_id (fst target) # visited) target)"

text \<open>Successive observations under the same key are one; each further one has the status of the link
  that led to it.\<close>

fun merge_repeats :: "jstr \<Rightarrow> (observation \<times> jstr) list \<Rightarrow> (observation \<times> jstr) list" where
  "merge_repeats previous [] = []"
| "merge_repeats previous ((ob, s) # obs) = (if ob_key ob = previous then merge_repeats previous obs
     else (ob, s) # merge_repeats (ob_key ob) obs)"

record legacy_route =
  lr_result :: nat
  lr_address :: jstr
  lr_attempt :: int
  lr_occurrence :: nat
  lr_status :: jstr
  lr_reached :: bool
  lr_complete :: bool
  lr_observations :: "observation list"
  lr_edges :: "jstr list"

definition attempt_route :: "(jstr \<Rightarrow> jstr) \<Rightarrow> nat \<Rightarrow> result \<Rightarrow> trace_attempt \<Rightarrow> nat \<Rightarrow> legacy_route option" where
  "attempt_route lower resultIndex r item occurrence = (case ta_topology item of None \<Rightarrow> None
     | Some t \<Rightarrow> (case ordered_nodes t of [] \<Rightarrow> None
       | first # others \<Rightarrow>
           (let ordered = first # others;
                steps = walk (length ordered) (outgoing_of ordered (tt_links t)) [tn_id (fst first)] first;
                path = first # map fst steps;
                key = (\<lambda>(i, p). legacyNodeKey lower (fst p) resultIndex (ta_attempt item) occurrence i);
                start = key (0, first);
                rest = merge_repeats (ob_key start)
                  (map (\<lambda>(i, (p, l)). (key (i, p), tl_status l)) (enumerate 1 steps));
                maxHop = Max (tn_hop ` fst ` set ordered)
            in Some \<lparr>lr_result = resultIndex, lr_address = rs_address r, lr_attempt = ta_attempt item,
                 lr_occurrence = occurrence, lr_status = ta_status item, lr_reached = tt_reached t,
                 lr_complete = (tn_hop (fst (last path)) = maxHop), lr_observations = start # map fst rest,
                 lr_edges = map snd rest\<rparr>)))"

definition result_attempts :: "result \<Rightarrow> (trace_attempt \<times> nat) list" where
  "result_attempts r = (case rs_details r of None \<Rightarrow> []
     | Some ds \<Rightarrow>
         (let attempts = (case map_of ds (js ''attempts'') of Some (NAttempts as) \<Rightarrow> zip as [0..<length as] | _ \<Rightarrow> []) in
          if attempts \<noteq> [] then attempts
          else (case map_of ds (js ''topology'') of
              Some (NTopology t) \<Rightarrow> [(\<lparr>ta_attempt = 1, ta_status = rs_status r, ta_error = [], ta_message = [],
                ta_topology = Some t\<rparr>, 0)]
            | _ \<Rightarrow> [])))"

definition result_routes :: "(jstr \<Rightarrow> jstr) \<Rightarrow> nat \<times> result \<Rightarrow> legacy_route list" where
  "result_routes lower e = (case e of (i, r) \<Rightarrow> if rs_kind r \<noteq> js ''traceroute'' then []
     else List.map_filter (\<lambda>(item, k). attempt_route lower i r item k)
       (sort_key (\<lambda>(item, k). (ta_attempt item, k)) (result_attempts r)))"

definition legacyRoutes :: "(jstr \<Rightarrow> jstr) \<Rightarrow> result list \<Rightarrow> legacy_route list" where
  "legacyRoutes lower results = concat (map (result_routes lower) (enumerate 0 results))"

end
