(* ===== verification/Legacy_Adapter.thy ===== *)
theory Legacy_Adapter
  imports Legacy_Routes
begin

text \<open>
  The model of a report without a compact topology (\<open>adaptLegacyTopology\<close> of
  \<open>frontend/topology-model.js\<close>): the routes of the results are extended in turn, one edge at a time,
  while the selected nodes and links stay within their limits; what is selected is aggregated.
\<close>

definition DATA_NODES :: nat where "DATA_NODES = 500"
definition DATA_LINKS :: nat where "DATA_LINKS = 1000"

section \<open>Selection\<close>

text \<open>A route being extended: how many edges are accepted, and whether a limit stopped it.\<close>

record growing =
  gr_route :: legacy_route
  gr_accepted :: nat
  gr_blocked :: bool

text \<open>The routes of one result, and the position where the next turn starts to look.\<close>

record turn_group =
  tg_index :: nat
  tg_routes :: "growing list"
  tg_cursor :: nat

record selection =
  se_nodes :: "jstr list"
  se_links :: "jstr list"
  se_node_limited :: bool
  se_link_limited :: bool

definition observed_key :: "growing \<Rightarrow> nat \<Rightarrow> jstr" where
  "observed_key g i = ob_key (lr_observations (gr_route g) ! i)"

definition extendable :: "growing \<Rightarrow> bool" where
  "extendable g \<longleftrightarrow> \<not> gr_blocked g \<and> gr_accepted g < length (lr_observations (gr_route g)) - 1"

text \<open>The first extendable route from the cursor on, around the group.\<close>

definition next_route :: "turn_group \<Rightarrow> nat option" where
  "next_route tg = List.find (\<lambda>p. extendable (tg_routes tg ! p))
     (map (\<lambda>scanned. (tg_cursor tg + scanned) mod length (tg_routes tg)) [0..<length (tg_routes tg)])"

definition extend_route :: "growing \<Rightarrow> selection \<Rightarrow> growing \<times> selection" where
  "extend_route g s = (let from = observed_key g (gr_accepted g); target = observed_key g (gr_accepted g + 1);
       edge = link_key from target;
       nodeCost = (if from \<in> set (se_nodes s) then 0 else 1) + (if target \<in> set (se_nodes s) then 0 else 1);
       linkCost = (if edge \<in> set (se_links s) then 0 else 1) in
     if length (se_nodes s) + nodeCost > DATA_NODES then (g\<lparr>gr_blocked := True\<rparr>, s\<lparr>se_node_limited := True\<rparr>)
     else if length (se_links s) + linkCost > DATA_LINKS then (g\<lparr>gr_blocked := True\<rparr>, s\<lparr>se_link_limited := True\<rparr>)
     else (g\<lparr>gr_accepted := gr_accepted g + 1\<rparr>,
       s\<lparr>se_nodes := add_new target (add_new from (se_nodes s)), se_links := add_new edge (se_links s)\<rparr>))"

text \<open>One turn of one group.\<close>

definition take_turn :: "turn_group \<Rightarrow> selection \<Rightarrow> turn_group \<times> selection \<times> bool" where
  "take_turn tg s = (case next_route tg of None \<Rightarrow> (tg, s, False)
     | Some p \<Rightarrow> (case extend_route (tg_routes tg ! p) s of (g, s') \<Rightarrow>
         (tg\<lparr>tg_routes := (tg_routes tg)[p := g], tg_cursor := (p + 1) mod length (tg_routes tg)\<rparr>, s', True)))"

fun play_round :: "turn_group list \<Rightarrow> selection \<Rightarrow> turn_group list \<times> selection \<times> bool" where
  "play_round [] s = ([], s, False)"
| "play_round (tg # tgs) s = (case take_turn tg s of (tg', s', a) \<Rightarrow>
     (case play_round tgs s' of (tgs', s'', b) \<Rightarrow> (tg' # tgs', s'', a \<or> b)))"

text \<open>What is left to do for a route: its edges, and one turn to find that it is blocked.\<close>

definition effort :: "growing \<Rightarrow> nat" where
  "effort g = (if gr_blocked g then 0 else Suc (length (lr_observations (gr_route g))) - gr_accepted g)"

definition total_effort :: "turn_group list \<Rightarrow> nat" where
  "total_effort tgs = sum_list (map (\<lambda>tg. sum_list (map effort (tg_routes tg))) tgs)"

lemma find_mem: "List.find P xs = Some x \<Longrightarrow> x \<in> set xs \<and> P x"
  by (induction xs) (auto split: if_splits)

lemma next_route_bound:
  assumes "next_route tg = Some p"
  shows "p < length (tg_routes tg)" "extendable (tg_routes tg ! p)"
proof -
  from find_mem [OF assms [unfolded next_route_def]] show "extendable (tg_routes tg ! p)" by blast
  from find_mem [OF assms [unfolded next_route_def]] show "p < length (tg_routes tg)"
    by (cases "length (tg_routes tg)") auto
qed

lemma extend_effort: "extendable g \<Longrightarrow> effort (fst (extend_route g s)) < effort g"
  by (auto simp: extend_route_def extendable_def effort_def Let_def)

lemma sum_list_update_less:
  "p < length xs \<Longrightarrow> f y < f (xs ! p) \<Longrightarrow> sum_list (map f (xs[p := y])) < sum_list (map f xs)" for f :: "'a \<Rightarrow> nat"
proof (induction xs arbitrary: p)
  case (Cons x xs)
  then show ?case by (cases p) auto
qed simp

definition group_effort :: "turn_group \<Rightarrow> nat" where
  "group_effort tg = sum_list (map effort (tg_routes tg))"

lemma take_turn_effort:
  "take_turn tg s = (tg', s', a) \<Longrightarrow> if a then group_effort tg' < group_effort tg else tg' = tg \<and> s' = s"
proof (cases "next_route tg")
  case (Some p)
  assume t: "take_turn tg s = (tg', s', a)"
  obtain g s1 where e: "extend_route (tg_routes tg ! p) s = (g, s1)" by fastforce
  have "effort g < effort (tg_routes tg ! p)"
    using extend_effort [OF next_route_bound(2) [OF Some], of s] by (simp add: e)
  then have "sum_list (map effort ((tg_routes tg)[p := g])) < sum_list (map effort (tg_routes tg))"
    by (rule sum_list_update_less [OF next_route_bound(1) [OF Some]])
  with t Some e show ?thesis by (auto simp: take_turn_def group_effort_def)
qed (simp add: take_turn_def)

lemma total_effort_groups: "total_effort tgs = sum_list (map group_effort tgs)"
  by (simp add: total_effort_def group_effort_def [abs_def])

lemma play_round_effort:
  "play_round tgs s = (tgs', s', a) \<Longrightarrow> if a then total_effort tgs' < total_effort tgs else tgs' = tgs \<and> s' = s"
proof (induction tgs arbitrary: s tgs' s' a)
  case (Cons tg tgs)
  obtain tg1 s1 a1 where t: "take_turn tg s = (tg1, s1, a1)" by (cases "take_turn tg s") auto
  obtain tgs2 s2 a2 where r: "play_round tgs s1 = (tgs2, s2, a2)" by (cases "play_round tgs s1") auto
  from take_turn_effort [OF t] Cons.IH [OF r] Cons.prems t r show ?case
    by (auto simp: total_effort_groups split: if_splits)
qed simp

text \<open>The loop runs until no group has a route to extend.\<close>

function select :: "turn_group list \<Rightarrow> selection \<Rightarrow> turn_group list \<times> selection" where
  "select tgs s = (case play_round tgs s of (tgs', s', active) \<Rightarrow> if active then select tgs' s' else (tgs', s'))"
  by pat_completeness auto
termination
  by (relation "measure (total_effort \<circ> fst)") (auto dest!: play_round_effort [OF sym])

declare select.simps [simp del]

section \<open>Groups and start\<close>

definition group_routes :: "legacy_route list \<Rightarrow> turn_group list" where
  "group_routes routes = map (\<lambda>i. \<lparr>tg_index = i,
       tg_routes = map (\<lambda>r. \<lparr>gr_route = r, gr_accepted = 0, gr_blocked = False\<rparr>) (filter (\<lambda>r. lr_result r = i) routes),
       tg_cursor = 0\<rparr>) (sort (remdups (map lr_result routes)))"

definition local_start :: "legacy_route list \<Rightarrow> jstr list" where
  "local_start routes = (case List.find (\<lambda>r. case lr_observations r of [] \<Rightarrow> False | ob # obs \<Rightarrow> ob_kind ob = js ''local'') routes of
     Some r \<Rightarrow> [ob_key (hd (lr_observations r))] | None \<Rightarrow> [])"

definition start_selection :: "legacy_route list \<Rightarrow> selection" where
  "start_selection routes = \<lparr>se_nodes = local_start routes, se_links = [], se_node_limited = False, se_link_limited = False\<rparr>"

text \<open>The routes with their accepted edges, in their first order.\<close>

definition grown_routes :: "legacy_route list \<Rightarrow> turn_group list \<Rightarrow> growing list" where
  "grown_routes routes tgs = concat (map (\<lambda>i. concat (map tg_routes (filter (\<lambda>tg. tg_index tg = i) tgs)))
     (remdups (map lr_result routes)))"

definition selected :: "selection \<Rightarrow> growing \<Rightarrow> bool" where
  "selected s g \<longleftrightarrow> gr_accepted g > 0 \<or>
     (length (lr_observations (gr_route g)) = 1 \<and> observed_key g 0 \<in> set (se_nodes s))"

section \<open>Aggregation\<close>

definition STATUS_RANK :: "(jstr \<times> nat) list" where
  "STATUS_RANK = [(js ''healthy'', 0), (js ''degraded'', 1), (js ''unknown'', 2), (js ''failure'', 3), (js ''unreachable'', 3)]"

definition status_rank :: "jstr \<Rightarrow> nat" where
  "status_rank s = (case map_of STATUS_RANK s of Some n \<Rightarrow> n | None \<Rightarrow> 0)"

definition worstStatus :: "jstr \<Rightarrow> jstr \<Rightarrow> jstr" where
  "worstStatus left right = (let normalized = (if right = js ''unreachable'' then js ''failure''
       else if map_of STATUS_RANK right \<noteq> None then right else js ''unknown'') in
     if left = [] \<or> status_rank left < status_rank normalized then normalized else left)"

text \<open>Sums and quotients of latencies, which are not negative, rounded to doubles.\<close>

definition latency_add :: "jnum \<Rightarrow> jnum \<Rightarrow> jnum" where
  "latency_add a b = (case (num_rat a, num_rat b) of (Some x, Some y) \<Rightarrow> round_double (x + y) | _ \<Rightarrow> PInf)"

definition latency_mean :: "jnum \<Rightarrow> nat \<Rightarrow> jnum" where
  "latency_mean a n = (case num_rat a of Some x \<Rightarrow> round_double (x / of_nat n) | None \<Rightarrow> PInf)"

record aggregate =
  ag_kind :: jstr
  ag_address :: jstr
  ag_status :: jstr
  ag_hop_min :: int
  ag_hop_max :: int
  ag_observations :: nat
  ag_latency :: jnum
  ag_samples :: nat
  ag_public :: bool
  ag_geo :: "geolocation option"
  ag_asn :: "asn option"

definition fresh_aggregate :: "observation \<Rightarrow> aggregate" where
  "fresh_aggregate ob = \<lparr>ag_kind = ob_kind ob, ag_address = ob_address ob, ag_status = [], ag_hop_min = tn_hop (ob_node ob),
     ag_hop_max = tn_hop (ob_node ob), ag_observations = 0, ag_latency = Fin 0, ag_samples = 0, ag_public = False,
     ag_geo = None, ag_asn = None\<rparr>"

definition measured :: "trace_node \<Rightarrow> bool" where
  "measured n \<longleftrightarrow> 0 < tn_hop n \<and> tn_status n \<in> {js ''healthy'', js ''degraded''} \<and>
     (case num_rat (tn_latency n) of Some r \<Rightarrow> 0 \<le> r | None \<Rightarrow> False)"

definition count_observation :: "trace_node \<Rightarrow> aggregate \<Rightarrow> aggregate" where
  "count_observation n a = a\<lparr>ag_status := worstStatus (ag_status a) (tn_status n), ag_hop_min := min (ag_hop_min a) (tn_hop n),
     ag_hop_max := max (ag_hop_max a) (tn_hop n), ag_observations := ag_observations a + 1,
     ag_latency := (if measured n then latency_add (ag_latency a) (tn_latency n) else ag_latency a),
     ag_samples := (if measured n then ag_samples a + 1 else ag_samples a),
     ag_public := ag_public a \<or> tn_public n,
     ag_geo := (case ag_geo a of None \<Rightarrow> tn_geo n | Some g \<Rightarrow> Some g),
     ag_asn := (case ag_asn a of None \<Rightarrow> tn_asn n | Some x \<Rightarrow> Some x)\<rparr>"

type_synonym 'a table = "(jstr \<times> 'a) list"

definition add_observation :: "aggregate table \<Rightarrow> observation \<Rightarrow> aggregate table" where
  "add_observation m ob = AList.update (ob_key ob) (count_observation (ob_node ob)
     (case map_of m (ob_key ob) of Some a \<Rightarrow> a | None \<Rightarrow> fresh_aggregate ob)) m"

definition kept_observations :: "growing \<Rightarrow> observation list" where
  "kept_observations g = take (if gr_accepted g > 0 then gr_accepted g + 1 else 1) (lr_observations (gr_route g))"

definition node_aggregates :: "growing list \<Rightarrow> aggregate table" where
  "node_aggregates gs = foldl add_observation [] (concat (map kept_observations gs))"

record link_aggregate =
  la_from :: jstr
  la_to :: jstr
  la_status :: jstr
  la_observations :: nat

text \<open>The accepted edges of a route with their statuses.\<close>

definition kept_edges :: "growing \<Rightarrow> (jstr \<times> jstr \<times> jstr) list" where
  "kept_edges g = filter (\<lambda>(a, b, s). a \<noteq> b)
     (map (\<lambda>i. (observed_key g i, observed_key g (i + 1), lr_edges (gr_route g) ! i)) [0..<gr_accepted g])"

definition add_edge :: "link_aggregate table \<Rightarrow> jstr \<times> jstr \<times> jstr \<Rightarrow> link_aggregate table" where
  "add_edge m e = (case e of (a, b, s) \<Rightarrow> let key = link_key a b;
       old = (case map_of m key of Some l \<Rightarrow> l | None \<Rightarrow> \<lparr>la_from = a, la_to = b, la_status = [], la_observations = 0\<rparr>) in
     AList.update key (old\<lparr>la_status := worstStatus (la_status old) s, la_observations := la_observations old + 1\<rparr>) m)"

definition link_aggregates :: "growing list \<Rightarrow> link_aggregate table" where
  "link_aggregates gs = foldl add_edge [] (concat (map kept_edges gs))"

section \<open>The model\<close>

text \<open>A node of a model may get the geo details of its address.\<close>

record model_node = compact_node +
  mn_details :: "geo_entry option"

record model_route = compact_route +
  mr_address :: "jstr option"

record view_count =
  vc_total :: nat
  vc_displayed :: nat
  vc_omitted :: int

record topology_model =
  tm_compact :: bool
  tm_nodes :: "model_node list"
  tm_links :: "compact_link list"
  tm_routes :: "model_route list"
  tm_server_reasons :: "jstr list"
  tm_adapter_reasons :: "jstr list"
  tm_adapter_counts :: "(view_count \<times> view_count \<times> view_count) option"
  tm_stats :: "compact_stats option"
  tm_result_stats :: "result_stats list"
  tm_geo :: "geo_counts option"
  tm_geo_summary :: "(int \<times> int) option"

text \<open>\<open>l000001\<close>, \<open>l000002\<close>, ...\<close>

definition model_id :: "nat \<Rightarrow> jstr" where
  "model_id i = (let t = dec (i + 1) in js ''l'' @ replicate (6 - length t) (uc CHR ''0'') @ t)"

definition id_of :: "jstr list \<Rightarrow> jstr \<Rightarrow> jstr" where
  "id_of keys k = model_id (nat (index_of k keys))"

definition or_unknown :: "jstr \<Rightarrow> jstr" where
  "or_unknown s = (if s = [] then js ''unknown'' else s)"

definition geo_of :: "geolocation \<Rightarrow> compact_geo" where
  "geo_of g = \<lparr>cg_city = Some (g_city g), cg_region = Some (g_region g), cg_country = Some (g_country g),
     cg_code = Some (g_code g), cg_latitude = g_latitude g, cg_longitude = g_longitude g\<rparr>"

definition asn_of :: "asn \<Rightarrow> compact_asn" where
  "asn_of a = \<lparr>ca_number = Some (as_number a), ca_organization = Some (as_organization a)\<rparr>"

definition model_node_of :: "nat \<Rightarrow> aggregate \<Rightarrow> model_node" where
  "model_node_of i a = \<lparr>cn_id = model_id i, cn_kind = ag_kind a, cn_status = or_unknown (ag_status a),
     cn_hop_min = ag_hop_min a, cn_hop_max = ag_hop_max a, cn_observations = int (ag_observations a),
     cn_address = Some (ag_address a), cn_public = ag_public a,
     cn_latency = (if ag_samples a > 0 then Some (latency_mean (ag_latency a) (ag_samples a)) else None),
     cn_geo = map_option geo_of (ag_geo a), cn_asn = map_option asn_of (ag_asn a), mn_details = None\<rparr>"

definition model_link_of :: "jstr list \<Rightarrow> link_aggregate \<Rightarrow> compact_link" where
  "model_link_of keys l = \<lparr>cl_from = id_of keys (la_from l), cl_to = id_of keys (la_to l),
     cl_status = or_unknown (la_status l), cl_observations = int (la_observations l)\<rparr>"

definition model_route_of :: "jstr list \<Rightarrow> growing \<Rightarrow> model_route" where
  "model_route_of keys g = (let r = gr_route g in
     \<lparr>cr_result = int (lr_result r), cr_attempt = lr_attempt r, cr_status = lr_status r, cr_reached = lr_reached r,
       cr_complete = (lr_complete r \<and> gr_accepted g = length (lr_observations r) - 1),
       cr_nodes = map (\<lambda>ob. id_of keys (ob_key ob)) (kept_observations g), mr_address = Some (lr_address r)\<rparr>)"

definition view_count_of :: "nat \<Rightarrow> nat \<Rightarrow> view_count" where
  "view_count_of t d = \<lparr>vc_total = t, vc_displayed = d, vc_omitted = int t - int d\<rparr>"

definition all_node_keys :: "legacy_route list \<Rightarrow> jstr list" where
  "all_node_keys routes = set_of_list (concat (map (\<lambda>r. map ob_key (lr_observations r)) routes))"

definition all_link_keys :: "legacy_route list \<Rightarrow> jstr list" where
  "all_link_keys routes = set_of_list (concat (map (\<lambda>r.
     map (\<lambda>(a, b). link_key a b) (filter (\<lambda>(a, b). a \<noteq> b) (steps_of (map ob_key (lr_observations r))))) routes))"

definition adaptLegacyTopology :: "(jstr \<Rightarrow> jstr) \<Rightarrow> result list \<Rightarrow> topology_model" where
  "adaptLegacyTopology lower results =
     (let raw = legacyRoutes lower results;
          (tgs, s) = select (group_routes raw) (start_selection raw);
          chosen = filter (selected s) (grown_routes raw tgs);
          aggregates = node_aggregates chosen;
          keys = filter (\<lambda>k. map_of aggregates k \<noteq> None) (se_nodes s);
          nodes = map (\<lambda>(i, k). model_node_of i (the (map_of aggregates k))) (enumerate 0 keys);
          links = map (model_link_of keys \<circ> snd) (link_aggregates chosen);
          routes = map (model_route_of keys) chosen;
          reasons = (if se_node_limited s then [js ''node_limit''] else []) @ (if se_link_limited s then [js ''link_limit''] else [])
      in \<lparr>tm_compact = False, tm_nodes = nodes, tm_links = links, tm_routes = routes, tm_server_reasons = [],
           tm_adapter_reasons = reasons,
           tm_adapter_counts = Some (view_count_of (length (all_node_keys raw)) (length nodes),
             view_count_of (length (all_link_keys raw)) (length links), view_count_of (length raw) (length routes)),
           tm_stats = None, tm_result_stats = [], tm_geo = None, tm_geo_summary = None\<rparr>)"

end
