(* ===== verification/Topology_View.thy ===== *)
theory Topology_View
  imports Legacy_Adapter
begin

text \<open>
  From a report to the model the views show (\<open>snapshotPlainData\<close>, \<open>clonePlain\<close>, \<open>compactModel\<close>,
  \<open>topologyModelFromReport\<close> and \<open>filterTopologyModel\<close> of \<open>frontend/topology-model.js\<close>).
\<close>

section \<open>Snapshots\<close>

text \<open>The copy of a slot that is not enumerable is a hole: it reads as \<open>undefined\<close>, and holes at the end
  shorten the array.\<close>

fun close_holes :: "jval option list \<Rightarrow> jdesc list" where
  "close_holes xs = map (\<lambda>x. Data True (case x of Some v \<Rightarrow> v | None \<Rightarrow> JUndef))
     (rev (dropWhile (\<lambda>x. x = None) (rev xs)))"

definition is_container :: "jval \<Rightarrow> bool" where
  "is_container v \<longleftrightarrow> (case v of JArr i p ds \<Rightarrow> True | JObj i p ps \<Rightarrow> True | JNull \<Rightarrow> True | _ \<Rightarrow> False)"

text \<open>Assigning \<open>copy.__proto__\<close> sets the prototype to an object or \<open>null\<close> and ignores any other value.\<close>

definition assign_copies :: "nat \<Rightarrow> (jstr \<times> jval) list \<Rightarrow> jval" where
  "assign_copies i kvs = (let proto = js ''__proto__'' in
     JObj i (\<not> (\<exists>(k, v) \<in> set kvs. k = proto \<and> is_container v))
       (map (\<lambda>(k, v). (Key k, Data True v)) (filter (\<lambda>(k, v). k \<noteq> proto) kvs)))"

fun snapshotPlainData :: "nat list \<Rightarrow> jval \<Rightarrow> jval option" and snapshot_items :: "nat list \<Rightarrow> jdesc list \<Rightarrow> jval option list option"
  and snapshot_members :: "nat list \<Rightarrow> props \<Rightarrow> (jstr \<times> jval) list option" where
  "snapshotPlainData seen (JArr i plain ds) = (if i \<in> set seen \<or> \<not> plain \<or> \<not> (\<forall>d \<in> set ds. is_data d) then None
     else map_option (\<lambda>xs. JArr i True (close_holes xs)) (snapshot_items (i # seen) ds))"
| "snapshotPlainData seen (JObj i plain ps) = (if i \<in> set seen \<or> \<not> plain \<or> \<not> (\<forall>(k, d) \<in> set ps. is_data d) then None
     else map_option (assign_copies i) (snapshot_members (i # seen) ps))"
| "snapshotPlainData seen v = Some v"
| "snapshot_items seen [] = Some []"
| "snapshot_items seen (Data e v # ds) = do {
     x \<leftarrow> (if e then map_option Some (snapshotPlainData seen v) else Some None);
     xs \<leftarrow> snapshot_items seen ds;
     Some (x # xs) }"
| "snapshot_items seen (Accessor e # ds) = None"
| "snapshot_members seen [] = Some []"
| "snapshot_members seen ((Symbol n, d) # ps) = snapshot_members seen ps"
| "snapshot_members seen ((Key k, Data e v) # ps) = (if \<not> e then snapshot_members seen ps else do {
     w \<leftarrow> snapshotPlainData seen v;
     ws \<leftarrow> snapshot_members seen ps;
     Some ((k, w) # ws) })"
| "snapshot_members seen ((Key k, Accessor e) # ps) = None"

section \<open>The model of a report\<close>

definition compact_model_node :: "compact_node \<Rightarrow> model_node" where
  "compact_model_node n = compact_node.extend n \<lparr>mn_details = None\<rparr>"

definition compact_model_route :: "result list \<Rightarrow> compact_route \<Rightarrow> model_route" where
  "compact_model_route results r = compact_route.extend r
     \<lparr>mr_address = map_option rs_address (at_index results (cr_result r))\<rparr>"

definition compactModel :: "jval \<Rightarrow> result list \<Rightarrow> topology_model option" where
  "compactModel given results = do {
     t \<leftarrow> normalizeCompactTopology None given;
     Some \<lparr>tm_compact = True, tm_nodes = map compact_model_node (ct_nodes t), tm_links = ct_links t,
       tm_routes = map (compact_model_route results) (ct_routes t), tm_server_reasons = ct_reasons t,
       tm_adapter_reasons = [], tm_adapter_counts = None, tm_stats = Some (ct_stats t),
       tm_result_stats = ct_result_stats t, tm_geo = Some (ct_geo t), tm_geo_summary = None\<rparr> }"

text \<open>The report: its results, its compact topology when there is one, and the descriptor of its geo
  details.\<close>

record model_input =
  mi_results :: "result list"
  mi_compact :: jval
  mi_details :: "jdesc option"

definition details_of :: "host6 \<Rightarrow> (jstr \<Rightarrow> bool) \<Rightarrow> model_input \<Rightarrow> geo_details option option" where
  "details_of url6 dp input = (case mi_details input of None \<Rightarrow> Some None
     | Some d \<Rightarrow> do { guard (is_enum d \<and> is_data d); map_option Some (normalizeGeoDetails url6 dp (desc_value d)) })"

definition attach_details :: "host6 \<Rightarrow> geo_details \<Rightarrow> model_node \<Rightarrow> model_node" where
  "attach_details url6 details n = (if \<not> cn_public n then n
     else (case cn_address n of None \<Rightarrow> n
       | Some a \<Rightarrow> (case canonicalPublicIP url6 a of None \<Rightarrow> n
           | Some c \<Rightarrow> (case List.find (\<lambda>e. ge_address e = c) (gd_entries details) of None \<Rightarrow> n
               | Some e \<Rightarrow> n\<lparr>mn_details := Some e\<rparr>))))"

definition topologyModelFromReport ::
  "host6 \<Rightarrow> (jstr \<Rightarrow> bool) \<Rightarrow> (jstr \<Rightarrow> jstr) \<Rightarrow> model_input \<Rightarrow> topology_model option" where
  "topologyModelFromReport url6 dp lower input = do {
     details \<leftarrow> details_of url6 dp input;
     given \<leftarrow> snapshotPlainData [] (mi_compact input);
     model \<leftarrow> (if given \<noteq> JUndef \<and> given \<noteq> JNull then compactModel given (mi_results input)
       else Some (adaptLegacyTopology lower (mi_results input)));
     Some (case details of None \<Rightarrow> model
       | Some d \<Rightarrow> model\<lparr>tm_nodes := map (attach_details url6 d) (tm_nodes model),
           tm_geo_summary := Some (gd_total d, gd_omitted d)\<rparr>) }"

section \<open>The selected results\<close>

record view_model = topology_model +
  vm_show :: bool
  vm_totals :: "(nat \<times> nat \<times> nat) option"

definition route_links :: "compact_route \<Rightarrow> jstr list" where
  "route_links r = map (\<lambda>(a, b). link_key a b) (steps_of (cr_nodes r))"

definition filterTopologyModel :: "topology_model \<Rightarrow> int list \<Rightarrow> bool \<Rightarrow> view_model" where
  "filterTopologyModel model indexes showUnresponsive =
     (let chosen = filter (\<lambda>r. cr_result r \<in> set indexes) (tm_routes model);
          total_nodes = set_of_list (concat (map cr_nodes chosen));
          total_links = concat (map (\<lambda>r. route_links (compact_route.truncate r)) chosen);
          routes = filter (\<lambda>r. length (cr_nodes r) \<noteq> 0) chosen;
          node_ids = concat (map cr_nodes routes);
          link_keys = concat (map (\<lambda>r. route_links (compact_route.truncate r)) routes);
          linked = (\<lambda>keys. filter (\<lambda>l. link_key (cl_from l) (cl_to l) \<in> set keys) (tm_links model))
      in topology_model.extend (model\<lparr>tm_nodes := filter (\<lambda>n. cn_id n \<in> set node_ids) (tm_nodes model),
             tm_links := linked link_keys, tm_routes := routes\<rparr>)
           \<lparr>vm_show = showUnresponsive,
            vm_totals = Some (length total_nodes, length (linked total_links), length chosen)\<rparr>)"

end
