(* ===== verification/Presentation.thy ===== *)
theory Presentation
  imports Topology_View
begin

text \<open>
  What a view draws of its routes (\<open>presentTopology\<close>, \<open>annotateASN\<close> and \<open>asnContextLabel\<close> of
  \<open>frontend/topology-presentation.js\<close>): runs of nodes that did not answer are folded into groups or
  bypassed, connectors stand for what was not observed as a link, and private hops between two
  public hops of one ASN get that context.  Every route node is a node of the topology, as
  \<open>planTopologyDOM\<close> passes it.  Labels in natural language are not modelled.
\<close>

section \<open>Folding\<close>

record group_node =
  gn_id :: jstr
  gn_members :: "jstr list"
  gn_hop_min :: int
  gn_hop_max :: int

datatype shown = Seen model_node | Folded group_node

fun shown_id :: "shown \<Rightarrow> jstr" where
  "shown_id (Seen n) = cn_id n"
| "shown_id (Folded g) = gn_id g"

record route_token =
  tk_id :: jstr
  tk_start :: nat
  tk_end :: nat
  tk_group :: bool

record connector =
  cx_id :: jstr
  cx_from :: jstr
  cx_to :: jstr
  cx_skipped :: "nat option"
  cx_route :: nat

lemma longer_filter: "length (filter (\<lambda>u. Suc n \<le> length u) us) \<le> length (filter (\<lambda>u. n \<le> length u) us)"
  by (induction us) auto

lemma longer_filter_less:
  "base \<in> set us \<Longrightarrow> length (filter (\<lambda>u. Suc (length base) \<le> length u) us) < length (filter (\<lambda>u. length base \<le> length u) us)"
proof (induction us)
  case (Cons u us)
  show ?case
  proof (cases "u = base")
    case True
    with longer_filter [of "length base" us] show ?thesis by simp
  next
    case False
    with Cons show ?thesis by simp
  qed
qed simp

text \<open>\<open>unique\<close>: colons are appended until the text is not in use.\<close>

function unique_id :: "jstr list \<Rightarrow> jstr \<Rightarrow> jstr" where
  "unique_id used base = (if base \<in> set used then unique_id used (base @ [cColon]) else base)"
  by pat_completeness auto
termination
  by (relation "measure (\<lambda>(used, base). length (filter (\<lambda>u. length base \<le> length u) used))") (simp_all add: longer_filter_less)

declare unique_id.simps [simp del]

text \<open>The index of the nodes; later nodes replace earlier ones of the same id.\<close>

definition node_at :: "model_node list \<Rightarrow> jstr \<Rightarrow> model_node option" where
  "node_at nodes i = map_of (rev (map (\<lambda>n. (cn_id n, n)) nodes)) i"

definition unanswered :: "model_node list \<Rightarrow> jstr \<Rightarrow> bool" where
  "unanswered nodes i \<longleftrightarrow> (case node_at nodes i of Some n \<Rightarrow> cn_kind n = js ''unknown'' | None \<Rightarrow> False)"

text \<open>What the routes before have produced.\<close>

record presenting =
  pr_nodes :: "(jstr \<times> shown) list"
  pr_observed :: "(jstr \<times> compact_link) list"
  pr_connectors :: "connector list"
  pr_routes :: "model_route list"
  pr_spans :: "((nat \<times> nat) \<times> jstr) list"
  pr_used :: "jstr list"

definition group_base :: "model_route \<Rightarrow> nat \<Rightarrow> nat \<Rightarrow> jstr" where
  "group_base r occurrence start = js ''presentation:unknown:'' @
     join [cColon] [nat_text (cr_result r), nat_text (cr_attempt r), dec occurrence, dec start]"

definition group_of :: "model_node list \<Rightarrow> jstr \<Rightarrow> jstr list \<Rightarrow> group_node" where
  "group_of nodes i members = (let ns = List.map_filter (node_at nodes) members in
     \<lparr>gn_id = i, gn_members = members, gn_hop_min = Min (cn_hop_min ` set ns), gn_hop_max = Max (cn_hop_max ` set ns)\<rparr>)"

text \<open>The tokens of a route from position \<open>i\<close> on; a run of unanswered nodes is one token or none.\<close>

function tokenize :: "model_node list \<Rightarrow> bool \<Rightarrow> model_route \<Rightarrow> nat \<Rightarrow> nat \<Rightarrow> presenting \<Rightarrow> route_token list \<times> presenting" where
  "tokenize nodes show_unanswered r occurrence i st =
     (if length (cr_nodes r) \<le> i then ([], st)
      else let nid = cr_nodes r ! i in
        if \<not> unanswered nodes nid then
          (let st = st\<lparr>pr_nodes := AList.update nid (Seen (the (node_at nodes nid))) (pr_nodes st)\<rparr>;
               (tokens, st) = tokenize nodes show_unanswered r occurrence (Suc i) st
           in (\<lparr>tk_id = nid, tk_start = i, tk_end = i, tk_group = False\<rparr> # tokens, st))
        else (let run = takeWhile (unanswered nodes) (drop i (cr_nodes r)); next' = i + max 1 (length run) in
          if \<not> show_unanswered then tokenize nodes show_unanswered r occurrence next' st
          else (let gid = unique_id (pr_used st) (group_base r occurrence i);
                    st = st\<lparr>pr_used := pr_used st @ [gid],
                      pr_nodes := AList.update gid (Folded (group_of nodes gid run)) (pr_nodes st)\<rparr>;
                    (tokens, st) = tokenize nodes show_unanswered r occurrence next' st
                in (\<lparr>tk_id = gid, tk_start = i, tk_end = next' - 1, tk_group = True\<rparr> # tokens, st))))"
  by pat_completeness auto
termination
  by (relation "measure (\<lambda>(nodes, s, r, k, i, st). length (cr_nodes r) - i)") auto

declare tokenize.simps [simp del]

text \<open>The step between two neighbouring tokens, the second at position \<open>i\<close>: a bypass, an observed link,
  or a fold; the position of a connector is remembered.\<close>

definition connect :: "(jstr \<times> compact_link) list \<Rightarrow> nat \<Rightarrow> nat \<Rightarrow> route_token \<Rightarrow> route_token \<Rightarrow> presenting \<Rightarrow> presenting" where
  "connect pairs occurrence i from target st =
     (let skipped = tk_start target - tk_end from - 1;
          put = (\<lambda>name sk. let cid = unique_id (pr_used st) (js name @ join [cColon] [dec occurrence, dec i]) in
            st\<lparr>pr_used := pr_used st @ [cid],
               pr_connectors := pr_connectors st @ [\<lparr>cx_id = cid, cx_from = tk_id from, cx_to = tk_id target, cx_skipped = sk,
                 cx_route = occurrence\<rparr>],
               pr_spans := AList.update (occurrence, i) cid (pr_spans st)\<rparr>)
      in if skipped > 0 then put ''presentation:bypass:'' (Some skipped)
         else if \<not> tk_group from \<and> \<not> tk_group target then
           (let key = link_key (tk_id from) (tk_id target) in
            case map_of pairs key of Some l \<Rightarrow> st\<lparr>pr_observed := AList.update key l (pr_observed st)\<rparr> | None \<Rightarrow> st)
         else put ''presentation:fold:'' None)"

fun connect_tokens :: "(jstr \<times> compact_link) list \<Rightarrow> nat \<Rightarrow> nat \<Rightarrow> route_token list \<Rightarrow> presenting \<Rightarrow> presenting" where
  "connect_tokens pairs occurrence i (a # b # ts) st =
     connect_tokens pairs occurrence (Suc i) (b # ts) (connect pairs occurrence i a b st)"
| "connect_tokens pairs occurrence i _ st = st"

definition present_route ::
  "model_node list \<Rightarrow> (jstr \<times> compact_link) list \<Rightarrow> bool \<Rightarrow> presenting \<Rightarrow> nat \<times> model_route \<Rightarrow> presenting" where
  "present_route nodes pairs show_unanswered st e = (case e of (occurrence, r) \<Rightarrow>
     (case tokenize nodes show_unanswered r occurrence 0 st of (tokens, st) \<Rightarrow>
       (let st = connect_tokens pairs occurrence 1 tokens st in
        st\<lparr>pr_routes := pr_routes st @ [r\<lparr>cr_nodes := map tk_id tokens\<rparr>]\<rparr>)))"

definition link_pairs :: "compact_link list \<Rightarrow> (jstr \<times> compact_link) list" where
  "link_pairs links = foldl (\<lambda>m l. AList.update (link_key (cl_from l) (cl_to l)) l m) [] links"

definition present_routes :: "model_node list \<Rightarrow> compact_link list \<Rightarrow> model_route list \<Rightarrow> bool \<Rightarrow> presenting" where
  "present_routes nodes links routes show_unanswered =
     (let start = \<lparr>pr_nodes = [], pr_observed = [], pr_connectors = [], pr_routes = [], pr_spans = [],
            pr_used = map cn_id nodes\<rparr>
      in if routes = [] then start\<lparr>pr_nodes := foldl (\<lambda>m n. AList.update (cn_id n) (Seen n) m) [] nodes,
             pr_observed := link_pairs links\<rparr>
         else foldl (present_route nodes (link_pairs links) show_unanswered) start (enumerate 0 routes))"

section \<open>Retention\<close>

text \<open>A budget of elements, \<open>None\<close> for \<open>Infinity\<close>.\<close>

definition bounded_by :: "nat \<Rightarrow> int option \<Rightarrow> nat \<Rightarrow> nat" where
  "bounded_by limit budget used = (case budget of None \<Rightarrow> limit | Some b \<Rightarrow> min limit (nat (max 0 (b - int used))))"

text \<open>The kept prefix of a route: it ends at the first node or step that is not kept.\<close>

fun kept_path :: "jstr list \<Rightarrow> (nat \<Rightarrow> jstr option) \<Rightarrow> jstr list \<Rightarrow> jstr list \<Rightarrow> jstr list \<Rightarrow> jstr list \<Rightarrow> jstr list" where
  "kept_path ids sp spans pairs done [] = done"
| "kept_path ids sp spans pairs done (i # is) =
     (if i \<notin> set ids then done
      else if done \<noteq> [] \<and> (case sp (length done) of Some s \<Rightarrow> s \<notin> set spans
            | None \<Rightarrow> link_key (last done) i \<notin> set pairs) then done
      else kept_path ids sp spans pairs (done @ [i]) is)"

record asn_context =
  ax_asn :: int
  ax_occurrence :: nat
  ax_result :: int
  ax_attempt :: int
  ax_start :: nat
  ax_end :: nat

record shown_node =
  sn_node :: shown
  sn_contexts :: "asn_context list"
  sn_omitted :: nat

record shown_counts =
  sx_total :: nat
  sx_displayed :: nat
  sx_omitted :: nat

section \<open>ASN contexts\<close>

definition up_status :: "jstr \<Rightarrow> bool" where
  "up_status s \<longleftrightarrow> s \<in> {js ''healthy'', js ''degraded''}"

definition class_of :: "host6 \<Rightarrow> model_node \<Rightarrow> address_class" where
  "class_of url6 n = (case cn_address n of Some a \<Rightarrow> addressClass url6 a | None \<Rightarrow> Other)"

definition privateHop :: "host6 \<Rightarrow> model_node option \<Rightarrow> bool" where
  "privateHop url6 n = (case n of None \<Rightarrow> False
     | Some x \<Rightarrow> cn_kind x = js ''ip'' \<and> class_of url6 x = Private \<and> up_status (cn_status x))"

text \<open>The ASN of an endpoint.\<close>

definition endpoint :: "host6 \<Rightarrow> model_node option \<Rightarrow> int option" where
  "endpoint url6 n = (case n of None \<Rightarrow> None
     | Some x \<Rightarrow> if cn_kind x = js ''ip'' \<and> cn_public x \<and> class_of url6 x = Public \<and> up_status (cn_status x)
         then (case cn_asn x of Some a \<Rightarrow> (case ca_number a of
             Some k \<Rightarrow> if 0 < k \<and> k \<le> 4294967295 then Some k else None | None \<Rightarrow> None) | None \<Rightarrow> None)
         else None)"

text \<open>The runs of private hops of a route that lie between two endpoints of one ASN, each with its
  first position, the position after its last, and the ASN.\<close>

function private_runs :: "host6 \<Rightarrow> (jstr \<Rightarrow> model_node option) \<Rightarrow> (jstr \<Rightarrow> bool) \<Rightarrow> jstr list \<Rightarrow> nat \<Rightarrow> (nat \<times> nat \<times> int) list" where
  "private_runs url6 nd ok ids i = (if length ids \<le> i + 1 then []
     else if \<not> privateHop url6 (nd (ids ! i)) then private_runs url6 nd ok ids (Suc i)
     else let stop = i + max 1 (length (takeWhile (\<lambda>k. privateHop url6 (nd k)) (drop i ids)));
              rest = private_runs url6 nd ok ids stop
       in (case (endpoint url6 (nd (ids ! (i - 1))), if stop < length ids then endpoint url6 (nd (ids ! stop)) else None) of
            (Some a, Some b) \<Rightarrow> if a = b \<and> (\<forall>j \<in> {i..stop}. ok (link_key (ids ! (j - 1)) (ids ! j)))
              then (i, stop, a) # rest else rest
          | _ \<Rightarrow> rest))"
  by pat_completeness auto
termination by (relation "measure (\<lambda>(url6, nd, ok, ids, i). length ids - i)") auto

declare private_runs.simps [simp del]

text \<open>Four contexts per node and 500 in all are shown, the others counted.\<close>

definition add_context :: "asn_context \<Rightarrow> (jstr \<times> shown_node) list \<times> shown_counts \<Rightarrow> jstr \<Rightarrow>
    (jstr \<times> shown_node) list \<times> shown_counts" where
  "add_context ctx acc i = (case acc of (copies, st) \<Rightarrow> (case map_of copies i of None \<Rightarrow> acc
     | Some n \<Rightarrow> (let st = st\<lparr>sx_total := sx_total st + 1\<rparr> in
         if length (sn_contexts n) < 4 \<and> sx_displayed st < 500
         then (AList.update i (n\<lparr>sn_contexts := sn_contexts n @ [ctx]\<rparr>) copies, st\<lparr>sx_displayed := sx_displayed st + 1\<rparr>)
         else (AList.update i (n\<lparr>sn_omitted := sn_omitted n + 1\<rparr>) copies, st\<lparr>sx_omitted := sx_omitted st + 1\<rparr>))))"

definition annotate_route :: "host6 \<Rightarrow> model_node list \<Rightarrow> (jstr \<Rightarrow> bool) \<Rightarrow> (model_route \<times> model_route) \<Rightarrow> nat \<Rightarrow>
    (jstr \<times> shown_node) list \<times> shown_counts \<Rightarrow> (jstr \<times> shown_node) list \<times> shown_counts" where
  "annotate_route url6 nodes ok r occurrence acc = (case r of (route, kept) \<Rightarrow>
     if \<not> cr_complete route \<or> \<not> cr_complete kept \<or> \<not> up_status (cr_status route) then acc
     else foldl (\<lambda>acc (start, stop, a). foldl (add_context \<lparr>ax_asn = a, ax_occurrence = occurrence, ax_result = cr_result route,
           ax_attempt = cr_attempt route, ax_start = start, ax_end = stop - 1\<rparr>) acc
           (set_of_list (take (stop - start) (drop start (cr_nodes route)))))
         acc (private_runs url6 (node_at nodes) ok (cr_nodes route) 1))"

definition annotateASN :: "host6 \<Rightarrow> model_node list \<Rightarrow> compact_link list \<Rightarrow> model_route list \<Rightarrow> shown list \<Rightarrow> model_route list \<Rightarrow>
    jstr list \<Rightarrow> shown_node list \<times> shown_counts" where
  "annotateASN url6 nodes links routes retained keptRoutes keptPairs =
     (let copies = map (\<lambda>n. (shown_id n, \<lparr>sn_node = n, sn_contexts = [], sn_omitted = 0\<rparr>)) retained;
          evidence = map (\<lambda>l. link_key (cl_from l) (cl_to l))
            (filter (\<lambda>l. 0 < cl_observations l \<and> up_status (cl_status l)) links);
          ok = (\<lambda>pair. pair \<in> set keptPairs \<and> pair \<in> set evidence);
          (out, st) = foldl (\<lambda>acc (k, r). annotate_route url6 nodes ok r k acc)
            (copies, \<lparr>sx_total = 0, sx_displayed = 0, sx_omitted = 0\<rparr>) (enumerate 0 (zip routes keptRoutes))
      in (map snd out, st))"

text \<open>The label: none, one context with its ASN, or several.\<close>

datatype asn_label = NoContext | BetweenASN int | ByRoute

definition asnContextLabel :: "shown_node \<Rightarrow> asn_label" where
  "asnContextLabel n = (let count = length (sn_contexts n) in
     if count = 0 \<and> sn_omitted n = 0 then NoContext
     else if count = 1 \<and> sn_omitted n = 0 then BetweenASN (ax_asn (hd (sn_contexts n))) else ByRoute)"

section \<open>The presentation\<close>

record presentation =
  pn_nodes :: "shown_node list"
  pn_links :: "compact_link list"
  pn_connectors :: "connector list"
  pn_routes :: "model_route list"
  pn_contexts :: shown_counts
  pn_node_counts :: shown_counts
  pn_link_counts :: shown_counts

definition shown_counts_of :: "nat \<Rightarrow> nat \<Rightarrow> shown_counts" where
  "shown_counts_of t d = \<lparr>sx_total = t, sx_displayed = d, sx_omitted = t - d\<rparr>"

definition keep_route :: "jstr list \<Rightarrow> ((nat \<times> nat) \<times> jstr) list \<Rightarrow> jstr list \<Rightarrow> jstr list \<Rightarrow> nat \<times> model_route \<Rightarrow> model_route" where
  "keep_route ids spans keptSpans keptPairs e = (case e of (occurrence, r) \<Rightarrow>
     (let path = kept_path ids (\<lambda>i. map_of spans (occurrence, i)) keptSpans keptPairs [] (cr_nodes r) in
      r\<lparr>cr_nodes := path, cr_complete := cr_complete r \<and> length path = length (cr_nodes r)\<rparr>))"

definition presentTopology :: "host6 \<Rightarrow> model_node list \<Rightarrow> compact_link list \<Rightarrow> model_route list \<Rightarrow> bool \<Rightarrow> int option \<Rightarrow> presentation" where
  "presentTopology url6 nodes links routes show_unanswered budget =
     (let st = present_routes nodes links routes show_unanswered;
          retained = take (bounded_by 500 budget (length (pr_routes st))) (map snd (pr_nodes st));
          ids = map shown_id retained;
          room = bounded_by 1000 budget (length (pr_routes st) + length retained);
          inside = (\<lambda>a b. a \<in> set ids \<and> b \<in> set ids);
          kept = take room (filter (\<lambda>l. inside (cl_from l) (cl_to l)) (map snd (pr_observed st)));
          keptConnectors = take (room - length kept) (filter (\<lambda>c. inside (cx_from c) (cx_to c)) (pr_connectors st));
          keptPairs = map (\<lambda>l. link_key (cl_from l) (cl_to l)) kept;
          keptRoutes = map (keep_route ids (pr_spans st) (map cx_id keptConnectors) keptPairs) (enumerate 0 (pr_routes st));
          (annotated, contexts) = annotateASN url6 nodes links routes retained keptRoutes keptPairs
      in \<lparr>pn_nodes = sort_key (\<lambda>n. shown_id (sn_node n)) annotated, pn_links = kept, pn_connectors = keptConnectors,
          pn_routes = keptRoutes, pn_contexts = contexts,
          pn_node_counts = shown_counts_of (length (pr_nodes st)) (length retained),
          pn_link_counts = shown_counts_of (length (pr_observed st) + length (pr_connectors st))
            (length kept + length keptConnectors)\<rparr>)"

end
