(* ===== verification/Dom_Plan.thy ===== *)
theory Dom_Plan
  imports Presentation
begin

text \<open>
  The plan of what a view inserts into the document (\<open>planTopologyDOM\<close> and \<open>commitDOMChunk\<close> of
  \<open>frontend/topology-model.js\<close>): the routes grow in turn within the element budget of the view, the
  presentation is mounted in order, cut into chunks, and a chunk is inserted as a whole or not at
  all.  The order of \<open>localeCompare\<close> is the order of the sort keys \<open>collate\<close>.
\<close>

definition DOCUMENT :: int where "DOCUMENT = 1200"
definition CHUNK :: int where "CHUNK = 100"
definition LABEL_RECORDS :: nat where "LABEL_RECORDS = 500"
definition LABEL_PAGE :: nat where "LABEL_PAGE = 100"
definition LABEL :: nat where "LABEL = 256"
definition NOTE :: nat where "NOTE = 1024"
definition MAX_ACCESSIBLE :: nat where "MAX_ACCESSIBLE = 100"

datatype view_kind = TopologyView | GeoView | LabelsView

definition reserve_of :: "view_kind \<Rightarrow> int" where
  "reserve_of k = (case k of TopologyView \<Rightarrow> 180 | GeoView \<Rightarrow> 300 | LabelsView \<Rightarrow> 80)"

section \<open>Routes in a fair order\<close>

lemma tl_shorter: "\<not> (\<forall>x \<in> set xs. x = []) \<Longrightarrow> sum_list (map length (map tl xs)) < sum_list (map length xs)"
proof (induction xs)
  case (Cons x xs)
  have le: "sum_list (map length (map tl xs)) \<le> sum_list (map length xs)"
    by (induction xs) auto
  show ?case
  proof (cases "x = []")
    case True
    with Cons show ?thesis by simp
  next
    case False
    then have "length (tl x) < length x" by (cases x) auto
    with le show ?thesis by simp
  qed
qed simp

function interleave :: "'a list list \<Rightarrow> 'a list" where
  "interleave gs = (if \<forall>g \<in> set gs. g = [] then []
     else map hd (filter (\<lambda>g. g \<noteq> []) gs) @ interleave (map tl gs))"
  by pat_completeness auto
termination by (relation "measure (\<lambda>gs. sum_list (map length gs))") (auto simp del: map_map intro!: tl_shorter)

declare interleave.simps [simp del]

definition fairRouteOrder :: "model_route list \<Rightarrow> model_route list" where
  "fairRouteOrder routes = interleave (map (\<lambda>i. sort_key cr_attempt (filter (\<lambda>r. cr_result r = i) routes))
     (sort (remdups (map cr_result routes))))"

section \<open>Growing the selected routes\<close>

record planning =
  pl_nodes :: "model_node list"
  pl_links :: "compact_link list"
  pl_markers :: "(jstr \<times> jnum \<times> jnum) list"
  pl_segments :: "(jstr \<times> jstr) list"
  pl_cost :: int

definition planned_ids :: "planning \<Rightarrow> jstr list" where
  "planned_ids p = map cn_id (pl_nodes p)"

definition planned_keys :: "planning \<Rightarrow> jstr list" where
  "planned_keys p = map (\<lambda>l. link_key (cl_from l) (cl_to l)) (pl_links p)"

definition canAdd :: "int option \<Rightarrow> int \<Rightarrow> planning \<Rightarrow> bool" where
  "canAdd budget cost p = (case budget of None \<Rightarrow> True | Some b \<Rightarrow> pl_cost p + cost \<le> b)"

text \<open>The place of a node on the map.\<close>

definition hasGeo :: "model_node \<Rightarrow> (jnum \<times> jnum) option" where
  "hasGeo n = (if \<not> cn_public n then None else (case cn_geo n of None \<Rightarrow> None
     | Some g \<Rightarrow> if num_rat (cg_latitude g) \<noteq> None \<and> num_rat (cg_longitude g) \<noteq> None
         then Some (cg_latitude g, cg_longitude g) else None))"

definition plan_node :: "model_node list \<Rightarrow> jstr \<Rightarrow> planning \<Rightarrow> planning" where
  "plan_node nodes i p = (if i \<in> set (planned_ids p) then p else (case node_at nodes i of None \<Rightarrow> p
     | Some n \<Rightarrow> p\<lparr>pl_nodes := pl_nodes p @ [n], pl_cost := pl_cost p + 1,
         pl_markers := (case hasGeo n of Some (lat, lon) \<Rightarrow> if length (pl_markers p) < DATA_NODES
             then pl_markers p @ [(i, lat, lon)] else pl_markers p | None \<Rightarrow> pl_markers p)\<rparr>))"

text \<open>The first link of each pair.\<close>

definition link_at :: "compact_link list \<Rightarrow> jstr \<Rightarrow> compact_link option" where
  "link_at links key = List.find (\<lambda>l. link_key (cl_from l) (cl_to l) = key) links"

definition plan_link :: "compact_link list \<Rightarrow> jstr \<Rightarrow> jstr \<Rightarrow> planning \<Rightarrow> planning" where
  "plan_link links from target p = (let key = link_key from target in
     if key \<in> set (planned_keys p) then p else (case link_at links key of None \<Rightarrow> p
       | Some l \<Rightarrow> p\<lparr>pl_links := pl_links p @ [l], pl_cost := pl_cost p + 1\<rparr>))"

text \<open>A route with the part of its path that is planned; \<open>cursor\<close> is the length of that part.\<close>

record route_state =
  rs_route :: model_route
  rs_path :: "jstr list"
  rs_blocked :: bool

fun plan_starts :: "int option \<Rightarrow> model_node list \<Rightarrow> model_route list \<Rightarrow> planning \<Rightarrow> route_state list \<times> planning" where
  "plan_starts budget nodes [] p = ([], p)"
| "plan_starts budget nodes (r # rs) p = (let first = hd (cr_nodes r); cost = 1 + (if first \<in> set (planned_ids p) then 0 else 1) in
     if \<not> canAdd budget cost p then plan_starts budget nodes rs p
     else (let p = plan_node nodes first p; p = p\<lparr>pl_cost := pl_cost p + 1\<rparr>;
             (sts, p) = plan_starts budget nodes rs p
           in (\<lparr>rs_route = r, rs_path = [first], rs_blocked = False\<rparr> # sts, p)))"

definition open_state :: "route_state \<Rightarrow> bool" where
  "open_state st \<longleftrightarrow> \<not> rs_blocked st \<and> length (rs_path st) < length (cr_nodes (rs_route st))"

text \<open>One turn of a route: the outcome says whether it progressed, and whether a link was missing.\<close>

definition grow :: "int option \<Rightarrow> model_node list \<Rightarrow> compact_link list \<Rightarrow> route_state \<Rightarrow> planning \<Rightarrow>
    route_state \<times> planning \<times> bool \<times> bool" where
  "grow budget nodes links st p = (if \<not> open_state st then (st, p, False, False)
     else let c = length (rs_path st); from = cr_nodes (rs_route st) ! (c - 1); target = cr_nodes (rs_route st) ! c;
            key = link_key from target
       in if link_at links key = None then (st\<lparr>rs_blocked := True\<rparr>, p, False, True)
          else let newNode = target \<notin> set (planned_ids p); newLink = key \<notin> set (planned_keys p);
                 place = (\<lambda>i. Option.bind (node_at nodes i) hasGeo);
                 geoEdge = (place from \<noteq> None \<and> place target \<noteq> None \<and> length (pl_segments p) < DATA_LINKS);
                 cost = (if newNode then 1 else 0) + (if newLink then 1 else 0)
            in if \<not> canAdd budget cost p then (st\<lparr>rs_blocked := True\<rparr>, p, False, False)
               else let p = (if newNode then plan_node nodes target p else p);
                      p = (if newLink then plan_link links from target p else p);
                      p = (if geoEdge \<and> key \<in> set (planned_keys p) then p\<lparr>pl_segments := pl_segments p @ [(from, target)]\<rparr> else p)
                 in (st\<lparr>rs_path := rs_path st @ [target]\<rparr>, p, True, False))"

fun grow_all :: "int option \<Rightarrow> model_node list \<Rightarrow> compact_link list \<Rightarrow> route_state list \<Rightarrow> planning \<Rightarrow>
    route_state list \<times> planning \<times> bool \<times> bool" where
  "grow_all budget nodes links [] p = ([], p, False, False)"
| "grow_all budget nodes links (st # sts) p = (case grow budget nodes links st p of (st', p', a, m) \<Rightarrow>
     (case grow_all budget nodes links sts p' of (sts', p'', b, n) \<Rightarrow> (st' # sts', p'', a \<or> b, m \<or> n)))"

definition unplanned :: "route_state \<Rightarrow> nat" where
  "unplanned st = length (cr_nodes (rs_route st)) - length (rs_path st)"

lemma grow_unplanned:
  "grow budget nodes links st p = (st', p', a, m) \<Longrightarrow> if a then unplanned st' < unplanned st else unplanned st' = unplanned st"
  by (auto simp: grow_def Let_def open_state_def unplanned_def split: if_splits)

lemma grow_all_unplanned:
  "grow_all budget nodes links sts p = (sts', p', a, m) \<Longrightarrow>
     if a then sum_list (map unplanned sts') < sum_list (map unplanned sts) else sum_list (map unplanned sts') = sum_list (map unplanned sts)"
proof (induction sts arbitrary: p sts' p' a m)
  case (Cons st sts)
  obtain st1 p1 a1 m1 where g: "grow budget nodes links st p = (st1, p1, a1, m1)" by (cases "grow budget nodes links st p") auto
  obtain sts2 p2 a2 m2 where r: "grow_all budget nodes links sts p1 = (sts2, p2, a2, m2)" by (cases "grow_all budget nodes links sts p1") auto
  from grow_unplanned [OF g] Cons.IH [OF r] Cons.prems g r show ?case by (auto split: if_splits)
qed simp

text \<open>The loop runs while a route progresses.\<close>

function grow_routes :: "int option \<Rightarrow> model_node list \<Rightarrow> compact_link list \<Rightarrow> route_state list \<Rightarrow> planning \<Rightarrow> bool \<Rightarrow>
    route_state list \<times> planning \<times> bool" where
  "grow_routes budget nodes links sts p missing = (case grow_all budget nodes links sts p of (sts', p', progressed, m) \<Rightarrow>
     if progressed then grow_routes budget nodes links sts' p' (missing \<or> m) else (sts', p', missing \<or> m))"
  by pat_completeness auto
termination
  by (relation "measure (\<lambda>(budget, nodes, links, sts, p, m). sum_list (map unplanned sts))")
    (auto dest!: grow_all_unplanned [OF sym])

declare grow_routes.simps [simp del]

text \<open>Without routes, the nodes and then the links are taken in order.\<close>

fun plan_all_nodes :: "int option \<Rightarrow> model_node list \<Rightarrow> model_node list \<Rightarrow> planning \<Rightarrow> planning" where
  "plan_all_nodes budget nodes [] p = p"
| "plan_all_nodes budget nodes (n # ns) p = (if \<not> canAdd budget 1 p then p
     else plan_all_nodes budget nodes ns (plan_node nodes (cn_id n) p))"

definition plan_all_links :: "int option \<Rightarrow> compact_link list \<Rightarrow> planning \<Rightarrow> planning" where
  "plan_all_links budget links p = foldl (\<lambda>p l.
     if cl_from l \<notin> set (planned_ids p) \<or> cl_to l \<notin> set (planned_ids p) \<or> \<not> canAdd budget 1 p then p
     else plan_link links (cl_from l) (cl_to l) p) p links"

definition planned_route :: "route_state \<Rightarrow> model_route" where
  "planned_route st = (rs_route st)\<lparr>cr_nodes := rs_path st,
     cr_complete := cr_complete (rs_route st) \<and> length (rs_path st) = length (cr_nodes (rs_route st))\<rparr>"

section \<open>Labels\<close>

record label_record =
  lb_node :: jstr
  lb_label :: jstr
  lb_note :: jstr

definition text_field :: "props \<Rightarrow> string \<Rightarrow> jstr" where
  "text_field ps k = (case get ps k of JStr s \<Rightarrow> s | _ \<Rightarrow> [])"

definition label_of :: "jval \<Rightarrow> label_record option" where
  "label_of v = (case v of JObj i plain ps \<Rightarrow>
       (let r = \<lparr>lb_node = text_field ps ''node_id'', lb_label = take LABEL (text_field ps ''label''),
              lb_note = take NOTE (text_field ps ''note'')\<rparr>
        in if lb_node r = [] \<or> (lb_label r = [] \<and> lb_note r = []) then None else Some r)
     | _ \<Rightarrow> None)"

definition sorted_labels :: "(jstr \<Rightarrow> jstr) \<Rightarrow> jval list \<Rightarrow> label_record list" where
  "sorted_labels collate vs = sort_key (\<lambda>r. (collate (lb_node r), collate (lb_label r), collate (lb_note r)))
     (List.map_filter label_of vs)"

section \<open>Mounting\<close>

datatype mount_item = MCanvas | MInspector | MNode shown_node | MLink compact_link | MConnector connector | MRoute model_route
  | MGeoCanvas | MLegend | MTarget model_route | MAccessibleList | MAccessible "jstr \<times> jnum \<times> jnum"
  | MLabelShell | MLabelRow label_record

fun dom_cost :: "mount_item \<Rightarrow> int" where
  "dom_cost MInspector = 2"
| "dom_cost MLegend = 2"
| "dom_cost MLabelShell = 4"
| "dom_cost (MLabelRow r) = 5"
| "dom_cost _ = 1"

type_synonym mounted = "mount_item list \<times> int"

definition mount :: "bool \<Rightarrow> int \<Rightarrow> mount_item \<Rightarrow> mounted \<Rightarrow> mounted \<times> bool" where
  "mount renderable budget x m = (if \<not> renderable \<or> snd m + dom_cost x > budget then (m, False)
     else ((fst m @ [x], snd m + dom_cost x), True))"

definition mount_each :: "bool \<Rightarrow> int \<Rightarrow> mount_item list \<Rightarrow> mounted \<Rightarrow> mounted" where
  "mount_each renderable budget xs m = foldl (\<lambda>m x. fst (mount renderable budget x m)) m xs"

fun mount_until :: "bool \<Rightarrow> int \<Rightarrow> mount_item list \<Rightarrow> mounted \<Rightarrow> mounted" where
  "mount_until renderable budget [] m = m"
| "mount_until renderable budget (x # xs) m = (case mount renderable budget x m of (m', ok) \<Rightarrow>
     if ok then mount_until renderable budget xs m' else m')"

definition geo_targets :: "model_route list \<Rightarrow> model_route list" where
  "geo_targets routes = map (\<lambda>i. last (filter (\<lambda>r. cr_result r = i) routes)) (sort (remdups (map cr_result routes)))"

definition mount_geo :: "bool \<Rightarrow> int \<Rightarrow> model_route list \<Rightarrow> (jstr \<times> jnum \<times> jnum) list \<Rightarrow> mounted" where
  "mount_geo renderable budget targets markers =
     (let m = fst (mount renderable budget MGeoCanvas ([], 0));
          m = (if targets = [] then m else (case mount renderable budget MLegend m of (m', ok) \<Rightarrow>
                 if ok then mount_each renderable budget (map MTarget targets) m' else m'))
      in (case mount renderable budget MAccessibleList m of (m', ok) \<Rightarrow>
            if ok then mount_until renderable budget (map MAccessible (take MAX_ACCESSIBLE markers)) m' else m'))"

definition mount_labels :: "bool \<Rightarrow> int \<Rightarrow> label_record list \<Rightarrow> mounted" where
  "mount_labels renderable budget labels = (case mount renderable budget MLabelShell ([], 0) of (m, ok) \<Rightarrow>
     if ok then mount_until renderable budget (map MLabelRow (take LABEL_PAGE labels)) m else m)"

definition topology_items :: "presentation \<Rightarrow> mount_item list" where
  "topology_items pn = [MCanvas, MInspector] @ map MNode (pn_nodes pn) @ map MLink (pn_links pn) @
     map MConnector (pn_connectors pn) @ map MRoute (pn_routes pn)"

definition mount_view :: "view_kind \<Rightarrow> bool \<Rightarrow> int \<Rightarrow> presentation \<Rightarrow> model_route list \<Rightarrow> (jstr \<times> jnum \<times> jnum) list \<Rightarrow>
    label_record list \<Rightarrow> mounted" where
  "mount_view view renderable budget pn targets markers labels = (case view of
       TopologyView \<Rightarrow> mount_each renderable budget (topology_items pn) ([], 0)
     | GeoView \<Rightarrow> mount_geo renderable budget targets markers
     | LabelsView \<Rightarrow> mount_labels renderable budget labels)"

text \<open>Cut into chunks: a chunk is closed when the next item does not fit.\<close>

fun chunks_of :: "int \<Rightarrow> mount_item list \<Rightarrow> int \<Rightarrow> mount_item list \<Rightarrow> mount_item list list" where
  "chunks_of cap chunk cost [] = (if chunk = [] then [] else [chunk])"
| "chunks_of cap chunk cost (x # xs) = (if chunk \<noteq> [] \<and> cost + dom_cost x > cap
     then chunk # chunks_of cap [x] (dom_cost x) xs
     else chunks_of cap (chunk @ [x]) (cost + dom_cost x) xs)"

section \<open>The plan\<close>

text \<open>A number of the options, clamped to its range; \<open>undefined\<close> means the fallback.\<close>

definition boundedInteger :: "jval \<Rightarrow> int \<Rightarrow> int \<Rightarrow> int \<Rightarrow> int option" where
  "boundedInteger v fallback lo hi = (if v = JUndef then Some fallback
     else (case v of JNum n \<Rightarrow> map_option (\<lambda>r. min hi (max lo \<lfloor>r\<rfloor>)) (num_rat n) | _ \<Rightarrow> None))"

record plan_options =
  po_view :: jval
  po_existing :: jval
  po_available :: jval
  po_dom_chunk :: jval
  po_node_chunk :: jval
  po_labels :: "jval list"

definition view_of :: "jval \<Rightarrow> view_kind option" where
  "view_of v = (if v = JUndef \<or> v = str ''topology'' then Some TopologyView
     else if v = str ''geo'' then Some GeoView else if v = str ''labels'' then Some LabelsView else None)"

definition chunk_size :: "plan_options \<Rightarrow> int option" where
  "chunk_size o' = (let v = (if po_dom_chunk o' = JUndef then po_node_chunk o' else po_dom_chunk o') in
     if v = JUndef then Some CHUNK
     else (case v of JNum n \<Rightarrow> (case num_rat n of Some r \<Rightarrow> if \<lfloor>r\<rfloor> < 5 then None else Some (min CHUNK \<lfloor>r\<rfloor>) | None \<Rightarrow> None)
       | _ \<Rightarrow> None))"

record plan_budget =
  bu_existing :: int
  bu_remaining :: int
  bu_available :: int
  bu_chunk :: int

definition plan_budget_of :: "plan_options \<Rightarrow> plan_budget option" where
  "plan_budget_of o' = do {
     existing \<leftarrow> boundedInteger (po_existing o') 0 0 DOCUMENT;
     (let remaining = max 0 (DOCUMENT - existing) in do {
        explicit \<leftarrow> (if po_available o' = JUndef then Some remaining
          else boundedInteger (po_available o') remaining 0 DOCUMENT);
        cap \<leftarrow> chunk_size o';
        Some \<lparr>bu_existing = existing, bu_remaining = remaining, bu_available = min explicit remaining, bu_chunk = cap\<rparr> }) }"

text \<open>The first 500 nodes with new ids, the first 1000 links between them, and of the first 200 routes
  those that run through them.\<close>

definition data_nodes :: "model_node list \<Rightarrow> model_node list" where
  "data_nodes nodes = foldl (\<lambda>ns n. if length ns \<ge> DATA_NODES \<or> cn_id n \<in> set (map cn_id ns) then ns else ns @ [n]) [] nodes"

definition data_links :: "jstr list \<Rightarrow> compact_link list \<Rightarrow> compact_link list" where
  "data_links ids links = take DATA_LINKS (filter (\<lambda>l. cl_from l \<in> set ids \<and> cl_to l \<in> set ids) links)"

definition data_routes :: "jstr list \<Rightarrow> model_route list \<Rightarrow> model_route list" where
  "data_routes ids routes = filter (\<lambda>r. cr_nodes r \<noteq> [] \<and> (\<forall>i \<in> set (cr_nodes r). i \<in> set ids)) (take 200 routes)"

record growth =
  go_planning :: planning
  go_routes :: "model_route list"
  go_missing :: bool

definition grow_plan :: "int option \<Rightarrow> model_node list \<Rightarrow> compact_link list \<Rightarrow> model_route list \<Rightarrow> growth" where
  "grow_plan budget nodes links routes =
     (let start = \<lparr>pl_nodes = [], pl_links = [], pl_markers = [], pl_segments = [], pl_cost = 0\<rparr>;
          (sts, p) = plan_starts budget nodes (fairRouteOrder routes) start;
          (sts, p, missing) = grow_routes budget nodes links sts p False;
          p = (if routes = [] then plan_all_links budget links (plan_all_nodes budget nodes nodes p) else p)
      in \<lparr>go_planning = p, go_routes = map planned_route sts, go_missing = missing\<rparr>)"

record dom_plan =
  dp_view :: view_kind
  dp_renderable :: bool
  dp_presentation :: presentation
  dp_planning :: planning
  dp_routes :: "model_route list"
  dp_labels :: "label_record list"
  dp_items :: "mount_item list"
  dp_chunks :: "mount_item list list"
  dp_planned :: int
  dp_available :: int
  dp_existing :: int
  dp_estimated :: int
  dp_counts :: "view_count \<times> view_count \<times> view_count"
  dp_reasons :: "jstr list"
  dp_label_reasons :: "jstr list"
  dp_label_total :: nat

definition view_counts :: "nat \<times> nat \<times> nat \<Rightarrow> nat \<times> nat \<times> nat \<Rightarrow> planning \<Rightarrow> model_route list \<Rightarrow>
    view_count \<times> view_count \<times> view_count" where
  "view_counts totals datac p routes = (case (totals, datac) of ((tn, tlk, tr), (dn, dl, dr)) \<Rightarrow>
     (view_count_of (max dn (min DATA_NODES tn)) (length (pl_nodes p)),
      view_count_of (max dl (min DATA_LINKS tlk)) (length (pl_links p)),
      view_count_of (max dr (min 200 tr)) (length routes)))"

definition view_reasons :: "view_model \<Rightarrow> view_count \<times> view_count \<times> view_count \<Rightarrow> growth \<Rightarrow> bool \<Rightarrow> presentation \<Rightarrow> jstr list" where
  "view_reasons model counts g renderable pn = (case counts of (a, b, c) \<Rightarrow>
     (if DATA_NODES < length (tm_nodes model) then [js ''data_node_limit''] else []) @
     (if DATA_LINKS < length (tm_links model) then [js ''data_link_limit''] else []) @
     (if vc_omitted a > 0 \<or> vc_omitted b > 0 \<or> vc_omitted c > 0 \<or> (\<exists>r \<in> set (go_routes g). \<not> cr_complete r)
      then [js ''element_budget''] else []) @
     (if go_missing g then [js ''missing_link''] else []) @
     (if \<not> renderable then [js ''dom_budget''] else []) @
     (if sx_omitted (pn_contexts pn) > 0 \<or> sx_omitted (pn_node_counts pn) > 0 \<or> sx_omitted (pn_link_counts pn) > 0
      then [js ''presentation_budget''] else []))"

definition label_rows :: "mount_item list \<Rightarrow> nat" where
  "label_rows items = length (filter (\<lambda>x. case x of MLabelRow r \<Rightarrow> True | _ \<Rightarrow> False) items)"

text \<open>In the view of the map, the legend of all targets must fit or nothing is rendered.\<close>

definition legend_fits :: "view_kind \<Rightarrow> int \<Rightarrow> model_route list \<Rightarrow> bool" where
  "legend_fits view budget targets \<longleftrightarrow> \<not> (view = GeoView \<and> targets \<noteq> [] \<and> budget < 3 + int (length targets))"

definition planTopologyDOM :: "host6 \<Rightarrow> (jstr \<Rightarrow> jstr) \<Rightarrow> view_model \<Rightarrow> plan_options \<Rightarrow> dom_plan option" where
  "planTopologyDOM url6 collate model o' = do {
     view \<leftarrow> view_of (po_view o');
     b \<leftarrow> plan_budget_of o';
     (let dynamic = max 0 (bu_available b - reserve_of view);
          roomy = (bu_remaining b \<ge> reserve_of view);
          nodes = data_nodes (tm_nodes model);
          links = data_links (map cn_id nodes) (tm_links model);
          routes = data_routes (map cn_id nodes) (tm_routes model);
          budget = (if view = TopologyView then Some (max 0 (dynamic - 3)) else None);
          g = grow_plan budget nodes links routes;
          p = go_planning g;
          datac = (length nodes, length links, length routes);
          counts = view_counts (case vm_totals model of Some t \<Rightarrow> t | None \<Rightarrow> datac) datac p (go_routes g);
          pn = presentTopology url6 (pl_nodes p) (pl_links p) (go_routes g) (vm_show model) budget;
          targets = geo_targets (go_routes g);
          renderable = (roomy \<and> legend_fits view dynamic targets);
          reasons = view_reasons model counts g roomy pn;
          reasons = (if roomy \<and> \<not> renderable then reasons @ [js ''dom_budget''] else reasons);
          labels = sorted_labels collate (po_labels o');
          kept = take LABEL_RECORDS labels;
          m = mount_view view renderable dynamic pn targets (pl_markers p) kept
      in Some \<lparr>dp_view = view, dp_renderable = renderable, dp_presentation = pn, dp_planning = p, dp_routes = go_routes g,
           dp_labels = kept, dp_items = fst m, dp_chunks = chunks_of (bu_chunk b) [] 0 (fst m), dp_planned = snd m,
           dp_available = bu_available b, dp_existing = bu_existing b,
           dp_estimated = (if renderable then bu_existing b + reserve_of view + snd m else bu_existing b),
           dp_counts = counts, dp_reasons = reasons,
           dp_label_reasons = (if LABEL_RECORDS < length labels then [js ''record_limit''] else []) @
             (if view = LabelsView \<and> label_rows (fst m) < length kept then [js ''page_or_element_budget''] else []),
           dp_label_total = length labels\<rparr>) }"

section \<open>Inserting a chunk\<close>

text \<open>An element by its tag, its class, its data attributes and its children; what the callback returns
  is such a tree, or something that is not a detached element of the given document.\<close>

datatype element = Element string string "(string \<times> jstr) list" "element list"

fun elements :: "element \<Rightarrow> nat" where
  "elements (Element t c d es) = Suc (sum_list (map elements es))"

datatype chunk_error = BadCost | NotDetached | CostMismatch | OverChunk | OverDocument

record live_document =
  ld_outside :: nat
  ld_root :: "element list"

definition document_size :: "live_document \<Rightarrow> nat" where
  "document_size d = ld_outside d + sum_list (map elements (ld_root d))"

fun stage_items :: "('i \<Rightarrow> int) \<Rightarrow> ('i \<Rightarrow> element option) \<Rightarrow> 'i list \<Rightarrow> chunk_error + element list" where
  "stage_items cost materialize [] = Inr []"
| "stage_items cost materialize (x # xs) = (if cost x < 1 then Inl BadCost
     else (case materialize x of None \<Rightarrow> Inl NotDetached
       | Some e \<Rightarrow> if int (elements e) \<noteq> cost x then Inl CostMismatch
           else (case stage_items cost materialize xs of Inl err \<Rightarrow> Inl err | Inr es \<Rightarrow> Inr (e # es))))"

definition commitDOMChunk :: "('i \<Rightarrow> int) \<Rightarrow> ('i \<Rightarrow> element option) \<Rightarrow> 'i list \<Rightarrow> live_document \<Rightarrow>
    chunk_error + (live_document \<times> nat)" where
  "commitDOMChunk cost materialize chunk d = (case stage_items cost materialize chunk of Inl err \<Rightarrow> Inl err
     | Inr es \<Rightarrow> (let actual = sum_list (map elements es); declared = sum_list (map cost chunk) in
         if int actual \<noteq> declared then Inl CostMismatch
         else if int actual > CHUNK then Inl OverChunk
         else if int (document_size d + actual) > DOCUMENT then Inl OverDocument
         else Inr (d\<lparr>ld_root := ld_root d @ es\<rparr>, actual)))"

end
