(* ===== verification/Plan_Facts.thy ===== *)
theory Plan_Facts
  imports Dom_Plan
begin

text \<open>
  What the plan of a view guarantees: the order of the routes is fair, mounted items stay within the
  budget and are cut into chunks that the document accepts, and an insertion is all or nothing.
\<close>

section \<open>The order of the routes\<close>

lemma sum_lengths_drop: "(\<forall>g \<in> set gs. g = []) \<Longrightarrow> concat gs = []"
  by (induction gs) auto

lemma mset_heads: "mset (concat gs) = mset (map hd (filter (\<lambda>g. g \<noteq> []) gs)) + mset (concat (map tl gs))"
proof (induction gs)
  case (Cons g gs)
  then show ?case by (cases g) simp_all
qed simp

lemma interleave_step:
  "\<not> (\<forall>g \<in> set gs. g = []) \<Longrightarrow> interleave gs = map hd (filter (\<lambda>g. g \<noteq> []) gs) @ interleave (map tl gs)"
  by (subst interleave.simps) (rule if_not_P)

lemma mset_interleave: "mset (interleave gs) = mset (concat gs)"
proof (induction gs rule: interleave.induct)
  case (1 gs)
  show ?case
  proof (cases "\<forall>g \<in> set gs. g = []")
    case True
    then show ?thesis by (simp add: interleave.simps [of gs] sum_lengths_drop)
  next
    case False
    from 1 [OF False] show ?thesis by (simp add: interleave_step [OF False] mset_heads [of gs])
  qed
qed

text \<open>\<open>classes f gs\<close>: the \<open>k\<close>-th list holds exactly elements of the \<open>k\<close>-th class.\<close>

definition classes :: "('a \<Rightarrow> 'k) \<Rightarrow> 'k list \<Rightarrow> 'a list list \<Rightarrow> bool" where
  "classes f ks gs \<longleftrightarrow> distinct ks \<and> list_all2 (\<lambda>k g. \<forall>x \<in> set g. f x = k) ks gs"

lemma tl_mem: "x \<in> set (tl xs) \<Longrightarrow> x \<in> set xs"
  by (cases xs) auto

lemma classes_tl: "classes f ks gs \<Longrightarrow> classes f ks (map tl gs)"
  unfolding classes_def list_all2_map2 by (auto elim!: list_all2_mono dest: tl_mem)

lemma classes_heads:
  "classes f ks gs \<Longrightarrow> (k, g) \<in> set (zip ks gs) \<Longrightarrow>
     filter (\<lambda>x. f x = k) (map hd (filter (\<lambda>g. g \<noteq> []) gs)) = take 1 g"
proof (induction gs arbitrary: ks)
  case (Cons h gs)
  then obtain k' ks' where ks: "ks = k' # ks'" by (auto simp: classes_def list_all2_Cons2)
  have c: "classes f ks' gs" and h: "\<forall>x \<in> set h. f x = k'" and k': "k' \<notin> set ks'"
    using Cons.prems(1) by (auto simp: ks classes_def)
  show ?case
  proof (cases "k = k'")
    case True
    with Cons.prems(2) k' have "g = h" by (auto simp: ks dest: set_zip_leftD)
    moreover have "filter (\<lambda>x. f x = k) (map hd (filter (\<lambda>g. g \<noteq> []) gs)) = []"
    proof -
      have "f (hd g') \<noteq> k" if "g' \<in> set gs" "g' \<noteq> []" for g'
      proof -
        from that(1) obtain i where i: "i < length gs" "gs ! i = g'" by (metis in_set_conv_nth)
        with c have "\<forall>x \<in> set g'. f x = ks' ! i" "i < length ks'" by (auto simp: classes_def list_all2_conv_all_nth)
        then show ?thesis using that(2) k' True by (metis hd_in_set nth_mem)
      qed
      then show ?thesis by (auto simp: filter_empty_conv)
    qed
    ultimately show ?thesis using h True by (cases h) auto
  next
    case False
    with Cons.prems(2) have g: "(k, g) \<in> set (zip ks' gs)" by (simp add: ks)
    have "h \<noteq> [] \<Longrightarrow> f (hd h) \<noteq> k" using h False by auto
    then show ?thesis using Cons.IH [OF c g] by simp
  qed
qed simp

lemma zip_tl: "(k, g) \<in> set (zip ks gs) \<Longrightarrow> (k, tl g) \<in> set (zip ks (map tl gs))"
  by (auto simp: in_set_zip)

text \<open>Each list is kept in its order.\<close>

lemma interleave_class:
  "classes f ks gs \<Longrightarrow> (k, g) \<in> set (zip ks gs) \<Longrightarrow> filter (\<lambda>x. f x = k) (interleave gs) = g"
proof (induction gs arbitrary: g rule: interleave.induct)
  case (1 gs)
  show ?case
  proof (cases "\<forall>g \<in> set gs. g = []")
    case True
    with 1(3) show ?thesis by (auto simp: interleave.simps [of gs] dest: set_zip_rightD)
  next
    case False
    have "take 1 g @ tl g = g" by (cases g) auto
    then show ?thesis using interleave_step [OF False] 1(1) [OF False classes_tl [OF 1(2)] zip_tl [OF 1(3)]] classes_heads [OF 1(2,3)]
      by simp
  qed
qed

lemma filter_take_le: "length (filter P (take n xs)) \<le> length (filter P xs)"
proof -
  have "filter P xs = filter P (take n xs) @ filter P (drop n xs)" by (simp flip: filter_append)
  then show ?thesis by simp
qed

text \<open>No list is served twice more than another that has something left.\<close>

lemma interleave_fair:
  "classes f ks gs \<Longrightarrow> (i, gi) \<in> set (zip ks gs) \<Longrightarrow> (j, gj) \<in> set (zip ks gs) \<Longrightarrow>
     length (filter (\<lambda>x. f x = i) (take n (interleave gs))) \<le> Suc (length (filter (\<lambda>x. f x = j) (take n (interleave gs))))
     \<or> length (filter (\<lambda>x. f x = j) (take n (interleave gs))) = length gj"
proof (induction gs arbitrary: gi gj n rule: interleave.induct)
  case (1 gs)
  show ?case
  proof (cases "\<forall>g \<in> set gs. g = []")
    case True
    then show ?thesis by (simp add: interleave.simps [of gs])
  next
    case False
    define h where "h = map hd (filter (\<lambda>g. g \<noteq> []) gs)"
    define more where "more = interleave (map tl gs)"
    have step: "interleave gs = h @ more" using interleave_step [OF False] by (simp add: h_def more_def)
    have hi: "filter (\<lambda>x. f x = i) h = take 1 gi" and hj: "filter (\<lambda>x. f x = j) h = take 1 gj"
      unfolding h_def by (rule classes_heads [OF 1(2,3)]) (rule classes_heads [OF 1(2,4)])
    have ih: "length (filter (\<lambda>x. f x = i) (take m more)) \<le> Suc (length (filter (\<lambda>x. f x = j) (take m more)))
       \<or> length (filter (\<lambda>x. f x = j) (take m more)) = length (tl gj)" for m
      unfolding more_def by (rule 1(1) [OF False classes_tl [OF 1(2)] zip_tl [OF 1(3)] zip_tl [OF 1(4)]])
    have rest: "length (filter (\<lambda>x. f x = j) (take m more)) \<le> length (tl gj)" for m
      using filter_take_le [of "\<lambda>x. f x = j" m more] interleave_class [OF classes_tl [OF 1(2)] zip_tl [OF 1(4)]]
      by (simp add: more_def)
    show ?thesis
    proof (cases "n \<le> length h")
      case True
      have "length (filter (\<lambda>x. f x = i) (take n h)) \<le> 1"
        using filter_take_le [of "\<lambda>x. f x = i" n h] by (simp add: hi)
      with True show ?thesis by (simp add: step)
    next
      case False
      define m where "m = n - length h"
      have t: "take n (interleave gs) = h @ take m more" using False by (simp add: step m_def)
      show ?thesis using ih [of m] rest [of m] by (cases gi; cases gj) (auto simp: t hi hj)
    qed
  qed
qed

lemma mset_classes:
  "distinct ks \<Longrightarrow> mset (concat (map (\<lambda>i. filter (\<lambda>r. f r = i) rs) ks)) = mset (filter (\<lambda>r. f r \<in> set ks) rs)"
proof (induction ks)
  case (Cons k ks)
  have "mset (filter (\<lambda>r. f r \<in> set (k # ks)) rs) = mset (filter (\<lambda>r. f r = k) rs) + mset (filter (\<lambda>r. f r \<in> set ks) rs)"
    using Cons.prems by (induction rs) auto
  with Cons show ?case by simp
qed simp

definition route_classes :: "model_route list \<Rightarrow> model_route list list" where
  "route_classes rs = map (\<lambda>i. sort_key cr_attempt (filter (\<lambda>r. cr_result r = i) rs)) (sort (remdups (map cr_result rs)))"

lemma classes_routes: "classes cr_result (sort (remdups (map cr_result rs))) (route_classes rs)"
  by (auto simp: classes_def route_classes_def list_all2_conv_all_nth)

lemma zip_route_classes:
  "i \<in> cr_result ` set rs \<Longrightarrow> (i, sort_key cr_attempt (filter (\<lambda>r. cr_result r = i) rs)) \<in>
     set (zip (sort (remdups (map cr_result rs))) (route_classes rs))"
  by (auto simp: route_classes_def zip_map2 zip_same_conv_map image_def)

lemma fair_order: "fairRouteOrder rs = interleave (route_classes rs)"
  by (simp add: fairRouteOrder_def route_classes_def)

lemma fair_order_mset: "mset (fairRouteOrder rs) = mset rs"
proof -
  let ?ks = "sort (remdups (map cr_result rs))"
  have "mset (concat (map (\<lambda>i. sort_key cr_attempt (filter (\<lambda>r. cr_result r = i) rs)) ks)) =
      mset (concat (map (\<lambda>i. filter (\<lambda>r. cr_result r = i) rs) ks))" for ks
    by (induction ks) simp_all
  then have "mset (concat (route_classes rs)) = mset (concat (map (\<lambda>i. filter (\<lambda>r. cr_result r = i) rs) ?ks))"
    by (simp add: route_classes_def)
  also have "\<dots> = mset (filter (\<lambda>r. cr_result r \<in> set ?ks) rs)" by (rule mset_classes) simp
  also have "filter (\<lambda>r. cr_result r \<in> set ?ks) rs = rs" by (rule filter_True) auto
  finally show ?thesis by (simp add: fair_order mset_interleave)
qed

lemma fair_order_class:
  "filter (\<lambda>r. cr_result r = i) (fairRouteOrder rs) = sort_key cr_attempt (filter (\<lambda>r. cr_result r = i) rs)"
proof (cases "i \<in> cr_result ` set rs")
  case True
  then show ?thesis unfolding fair_order by (rule interleave_class [OF classes_routes zip_route_classes])
next
  case False
  moreover have "set (fairRouteOrder rs) = set rs" using fair_order_mset [of rs] by (rule mset_eq_setD)
  ultimately have "filter (\<lambda>r. cr_result r = i) (fairRouteOrder rs) = []" "filter (\<lambda>r. cr_result r = i) rs = []"
    by (auto simp: filter_empty_conv)
  then show ?thesis by simp
qed

text \<open>
  C34: the routes are drawn in a fair order: every route once, the routes of one result in the order
  of their attempts, and at any point no result is more than one route ahead of another that still
  has routes to come.
\<close>

theorem routes_in_fair_order:
  "mset (fairRouteOrder rs) = mset rs \<and>
   (\<forall>i. filter (\<lambda>r. cr_result r = i) (fairRouteOrder rs) = sort_key cr_attempt (filter (\<lambda>r. cr_result r = i) rs)) \<and>
   (\<forall>n i j. let served = (\<lambda>k. length (filter (\<lambda>r. cr_result r = k) (take n (fairRouteOrder rs)))) in
      served i \<le> served j + 1 \<or> served j = length (filter (\<lambda>r. cr_result r = j) rs))"
proof (intro conjI allI)
  fix n i j
  let ?served = "\<lambda>k. length (filter (\<lambda>r. cr_result r = k) (take n (fairRouteOrder rs)))"
  have none: "?served k = 0" "filter (\<lambda>r. cr_result r = k) rs = []" if "k \<notin> cr_result ` set rs" for k
    using that in_set_takeD [of _ n "fairRouteOrder rs"] mset_eq_setD [OF fair_order_mset [of rs]]
    by (auto simp: filter_empty_conv)
  have "?served i \<le> ?served j + 1 \<or> ?served j = length (filter (\<lambda>r. cr_result r = j) rs)"
  proof (cases "i \<in> cr_result ` set rs \<and> j \<in> cr_result ` set rs")
    case True
    from interleave_fair [OF classes_routes zip_route_classes zip_route_classes, of i rs j n] True
    show ?thesis by (simp add: fair_order)
  next
    case False
    with none [of i] none [of j] show ?thesis by auto
  qed
  then show "let served = ?served in served i \<le> served j + 1 \<or> served j = length (filter (\<lambda>r. cr_result r = j) rs)"
    by (simp add: Let_def)
qed (simp_all add: fair_order_mset fair_order_class)

section \<open>Mounting and chunks\<close>

definition cost_of :: "mount_item list \<Rightarrow> int" where
  "cost_of xs = sum_list (map dom_cost xs)"

lemma cost_of_simps [simp]: "cost_of [] = 0" "cost_of (x # xs) = dom_cost x + cost_of xs" "cost_of (xs @ ys) = cost_of xs + cost_of ys"
  by (simp_all add: cost_of_def)

lemma dom_cost_range: "1 \<le> dom_cost x" "dom_cost x \<le> 5"
  by (cases x; simp)+

definition fits :: "int \<Rightarrow> mounted \<Rightarrow> bool" where
  "fits budget m \<longleftrightarrow> snd m = cost_of (fst m) \<and> snd m \<le> budget"

lemma fits_start: "0 \<le> budget \<Longrightarrow> fits budget ([], 0)"
  by (simp add: fits_def)

lemma fits_mount: "fits budget m \<Longrightarrow> fits budget (fst (mount renderable budget x m))"
  by (simp add: fits_def mount_def)

lemma fits_each: "fits budget m \<Longrightarrow> fits budget (mount_each renderable budget xs m)"
  unfolding mount_each_def by (induction xs arbitrary: m) (simp_all add: fits_mount)

lemma fits_until: "fits budget m \<Longrightarrow> fits budget (mount_until renderable budget xs m)"
proof (induction renderable budget xs m rule: mount_until.induct)
  case (2 renderable budget x xs m)
  then show ?case using fits_mount [OF 2(2), of renderable x]
    by (cases "mount renderable budget x m") auto
qed simp

lemma fits_then:
  "fits budget m \<Longrightarrow> (\<And>m'. fits budget m' \<Longrightarrow> fits budget (f m')) \<Longrightarrow>
     fits budget (case mount renderable budget x m of (m', ok) \<Rightarrow> if ok then f m' else m')"
  using fits_mount [of budget m renderable x] by (cases "mount renderable budget x m") simp

lemma fits_geo: "0 \<le> budget \<Longrightarrow> fits budget (mount_geo renderable budget targets markers)"
  unfolding mount_geo_def Let_def
  by (cases "targets = []") (auto intro!: fits_then fits_until fits_each fits_mount fits_start)

lemma fits_labels: "0 \<le> budget \<Longrightarrow> fits budget (mount_labels renderable budget labels)"
  unfolding mount_labels_def by (auto intro!: fits_then fits_until fits_start)

lemma fits_view: "0 \<le> budget \<Longrightarrow> fits budget (mount_view view renderable budget pn targets markers labels)"
  by (cases view) (auto simp: mount_view_def intro: fits_each fits_start fits_geo fits_labels)

lemma not_mounted: "\<not> renderable \<Longrightarrow> mount renderable budget x m = (m, False)"
  by (simp add: mount_def)

lemma concat_chunks: "concat (chunks_of cap chunk cost xs) = chunk @ xs"
  by (induction cap chunk cost xs rule: chunks_of.induct) auto

lemma chunks_bounded:
  "5 \<le> cap \<Longrightarrow> cost = cost_of chunk \<Longrightarrow> cost \<le> cap \<Longrightarrow>
     list_all (\<lambda>c. c \<noteq> [] \<and> cost_of c \<le> cap) (chunks_of cap chunk cost xs)"
proof (induction cap chunk cost xs rule: chunks_of.induct)
  case (2 cap chunk cost x xs)
  show ?case
  proof (cases "chunk \<noteq> [] \<and> cost + dom_cost x > cap")
    case True
    have "list_all (\<lambda>c. c \<noteq> [] \<and> cost_of c \<le> cap) (chunks_of cap [x] (dom_cost x) xs)"
      using 2(1) [OF True 2(3)] 2(3) dom_cost_range [of x] by simp
    with True 2(4,5) show ?thesis by simp
  next
    case False
    have "cost + dom_cost x \<le> cap" using False 2(3,4) dom_cost_range [of x] by auto
    with 2(2) [OF False 2(3)] 2(4) False show ?thesis by auto
  qed
qed simp

section \<open>Inserting a chunk\<close>

text \<open>\<open>x\<close> becomes the detached element \<open>e\<close> of its declared cost.\<close>

definition staged :: "('i \<Rightarrow> int) \<Rightarrow> ('i \<Rightarrow> element option) \<Rightarrow> 'i \<Rightarrow> element \<Rightarrow> bool" where
  "staged cost materialize x e \<longleftrightarrow> 1 \<le> cost x \<and> materialize x = Some e \<and> int (elements e) = cost x"

lemma stage_items_Cons:
  "stage_items cost materialize (x # xs) = Inr es \<longleftrightarrow>
     (\<exists>e es'. es = e # es' \<and> staged cost materialize x e \<and> stage_items cost materialize xs = Inr es')"
  by (cases "materialize x"; cases "stage_items cost materialize xs") (auto simp: staged_def)

lemma stage_items_iff: "stage_items cost materialize xs = Inr es \<longleftrightarrow> list_all2 (staged cost materialize) xs es"
  by (induction xs arbitrary: es) (auto simp: stage_items_Cons list_all2_Cons1 simp del: stage_items.simps(2))

lemma staged_cost:
  "list_all2 (staged cost materialize) xs es \<Longrightarrow>
     int (sum_list (map elements es)) = sum_list (map cost xs)"
  by (induction rule: list_all2_induct) (auto simp: staged_def)

lemma document_size_root [simp]:
  "document_size (d\<lparr>ld_root := ld_root d @ es\<rparr>) = document_size d + sum_list (map elements es)"
  by (simp add: document_size_def)

lemma commit_iff:
  "commitDOMChunk cost materialize chunk d = Inr (d', n) \<longleftrightarrow>
     (\<exists>es. list_all2 (staged cost materialize) chunk es \<and>
        n = sum_list (map elements es) \<and> int n \<le> 100 \<and> int (document_size d + n) \<le> 1200 \<and>
        d' = d\<lparr>ld_root := ld_root d @ es\<rparr> \<and> document_size d' = document_size d + n)"
proof (cases "stage_items cost materialize chunk")
  case (Inl err)
  then have "\<not> list_all2 (staged cost materialize) chunk es" for es
    using stage_items_iff [of cost materialize chunk es] by simp
  with Inl show ?thesis by (simp add: commitDOMChunk_def)
next
  case (Inr es)
  let ?ok = "list_all2 (staged cost materialize) chunk"
  have only: "?ok es' \<longleftrightarrow> es' = es" for es' using stage_items_iff [of cost materialize chunk es'] Inr by auto
  have "int (sum_list (map elements es)) = sum_list (map cost chunk)" using only staged_cost by blast
  then show ?thesis unfolding only by (auto simp: commitDOMChunk_def Inr CHUNK_def DOCUMENT_def Let_def)
qed

text \<open>
  C20: an insertion is all or nothing: it succeeds exactly when every item of the chunk becomes a
  detached element of its declared cost, the chunk has at most 100 elements and the document at
  most 1200 afterwards; then exactly those elements are appended to the root, in order.
\<close>

theorem chunk_inserted_iff:
  "commitDOMChunk cost materialize chunk d = Inr (d', n) \<longleftrightarrow>
     (\<exists>es. list_all2 (staged cost materialize) chunk es \<and>
        n = sum_list (map elements es) \<and> int n \<le> 100 \<and> int (document_size d + n) \<le> 1200 \<and>
        d' = d\<lparr>ld_root := ld_root d @ es\<rparr> \<and> document_size d' = document_size d + n)"
  by (rule commit_iff)

section \<open>The plan stays within its budget\<close>

lemma bounded_range: "boundedInteger v fallback lo hi = Some x \<Longrightarrow> lo \<le> fallback \<Longrightarrow> fallback \<le> hi \<Longrightarrow> lo \<le> hi \<Longrightarrow> lo \<le> x \<and> x \<le> hi"
  by (auto simp: boundedInteger_def split: if_splits jval.splits)

lemma chunk_size_range: "chunk_size o' = Some cap \<Longrightarrow> 5 \<le> cap \<and> cap \<le> 100"
  by (auto simp: chunk_size_def CHUNK_def Let_def split: if_splits jval.splits option.splits)

lemma plan_budget_range:
  assumes "plan_budget_of o' = Some b"
  shows "0 \<le> bu_existing b" "bu_existing b \<le> 1200" "bu_remaining b = 1200 - bu_existing b" "bu_available b \<le> bu_remaining b"
    "5 \<le> bu_chunk b" "bu_chunk b \<le> 100"
proof -
  from assms obtain existing explicit cap where
    e: "boundedInteger (po_existing o') 0 0 DOCUMENT = Some existing" and c: "chunk_size o' = Some cap" and
    b: "b = \<lparr>bu_existing = existing, bu_remaining = max 0 (DOCUMENT - existing), bu_available = min explicit (max 0 (DOCUMENT - existing)), bu_chunk = cap\<rparr>"
    by (auto simp: plan_budget_of_def Let_def option_elims)
  from bounded_range [OF e] have r: "0 \<le> existing" "existing \<le> 1200" by (simp_all add: DOCUMENT_def)
  then show "0 \<le> bu_existing b" "bu_existing b \<le> 1200" "bu_remaining b = 1200 - bu_existing b"
    "bu_available b \<le> bu_remaining b" by (simp_all add: b DOCUMENT_def)
  from chunk_size_range [OF c] show "5 \<le> bu_chunk b" "bu_chunk b \<le> 100" by (simp_all add: b)
qed

lemma let_keep: "y = Let e f \<Longrightarrow> (\<And>x. x = e \<Longrightarrow> y = f x \<Longrightarrow> P) \<Longrightarrow> P"
  by (simp add: Let_def)

text \<open>The parts of a plan that the theorems below read.\<close>

lemma plan_parts:
  assumes "planTopologyDOM url6 collate model o' = Some p"
  obtains b nodes links routes g budget dynamic targets markers labels where "plan_budget_of o' = Some b"
    "dynamic = max 0 (bu_available b - reserve_of (dp_view p))"
    "nodes = data_nodes (tm_nodes model)" "links = data_links (map cn_id nodes) (tm_links model)"
    "routes = data_routes (map cn_id nodes) (tm_routes model)"
    "budget = (if dp_view p = TopologyView then Some (max 0 (dynamic - 3)) else None)"
    "g = grow_plan budget nodes links routes" "dp_planning p = go_planning g" "dp_routes p = go_routes g"
    "dp_presentation p = presentTopology url6 (pl_nodes (go_planning g)) (pl_links (go_planning g)) (go_routes g) (vm_show model) budget"
    "(dp_items p, dp_planned p) = mount_view (dp_view p) (dp_renderable p) dynamic (dp_presentation p) targets markers labels"
    "dp_existing p = bu_existing b" "dp_available p = bu_available b"
    "dp_chunks p = chunks_of (bu_chunk b) [] 0 (dp_items p)"
    "dp_renderable p \<longrightarrow> bu_remaining b \<ge> reserve_of (dp_view p)"
    "dp_estimated p = (if dp_renderable p then bu_existing b + reserve_of (dp_view p) + dp_planned p else bu_existing b)"
proof -
  from assms obtain view b where v: "view_of (po_view o') = Some view" and b: "plan_budget_of o' = Some b"
    unfolding planTopologyDOM_def
    by (cases "view_of (po_view o')"; cases "plan_budget_of o'") (simp_all only: Option.bind.simps option.distinct refl simp_thms)
  from assms have "Some p = planTopologyDOM url6 collate model o'" by simp
  then show thesis
    unfolding planTopologyDOM_def v b Option.bind.simps
  proof (elim let_keep, goal_cases)
    case (1 dynamic roomy nodes links routes budget g q datac counts pn targets renderable reasons reasons' labels kept m)
    have p: "dp_renderable p = renderable" "dp_items p = fst m" "dp_planned p = snd m" "dp_existing p = bu_existing b"
      "dp_available p = bu_available b" "dp_view p = view" "dp_chunks p = chunks_of (bu_chunk b) [] 0 (fst m)"
      "dp_presentation p = pn" "dp_planning p = q" "dp_routes p = go_routes g"
      "dp_estimated p = (if renderable then bu_existing b + reserve_of view + snd m else bu_existing b)"
      unfolding option.inject [THEN iffD1, OF 1(19)] by simp_all
    show thesis
      by (rule that [of b dynamic nodes links routes budget g targets "pl_markers q" kept])
        (simp_all only: b p 1(1,2,3,4,5,6,8,13,18) 1(7) 1(11) prod.collapse simp_thms, simp)
  qed
qed

lemma plan_budget:
  assumes "planTopologyDOM url6 collate model o' = Some p"
  shows "concat (dp_chunks p) = dp_items p \<and>
    list_all (\<lambda>c. c \<noteq> [] \<and> sum_list (map dom_cost c) \<le> 100) (dp_chunks p) \<and>
    dp_planned p = sum_list (map dom_cost (dp_items p)) \<and> dp_planned p \<le> max 0 (dp_available p - reserve_of (dp_view p)) \<and>
    dp_existing p \<le> dp_estimated p \<and> dp_estimated p \<le> 1200"
  using assms
proof (rule plan_parts, goal_cases)
  case (1 b nodes links routes g budget dynamic targets markers labels)
  note r = plan_budget_range [OF 1(1)]
  have "fits dynamic (dp_items p, dp_planned p)" unfolding 1(11) by (rule fits_view) (simp add: 1(2))
  then have f: "dp_planned p = cost_of (dp_items p)" "dp_planned p \<le> dynamic" by (simp_all add: fits_def)
  have "0 \<le> cost_of xs" for xs by (induction xs) (use dom_cost_range in \<open>auto intro: add_nonneg_nonneg order_trans [OF zero_le_one]\<close>)
  moreover have "0 \<le> reserve_of (dp_view p)" by (cases "dp_view p") (simp_all add: reserve_of_def)
  moreover have "list_all (\<lambda>c. c \<noteq> [] \<and> cost_of c \<le> bu_chunk b) (dp_chunks p)"
    unfolding 1(14) by (rule chunks_bounded) (use r in simp_all)
  then have "list_all (\<lambda>c. c \<noteq> [] \<and> cost_of c \<le> 100) (dp_chunks p)"
    using r by (auto simp: list_all_iff)
  moreover have "dp_renderable p \<Longrightarrow> bu_existing b + reserve_of (dp_view p) + dp_planned p \<le> 1200"
    using f(2) r(1-4) 1(15) unfolding 1(2) max_def by (simp split: if_splits)
  ultimately show ?case using f r by (simp add: 1(12,13,14,16) 1(2) concat_chunks cost_of_def)
qed

section \<open>An example\<close>

text \<open>Two nodes, their link, and the route over it, in a document of five elements.\<close>

definition example_node :: "string \<Rightarrow> model_node" where
  "example_node i = \<lparr>cn_id = js i, cn_kind = js ''ip'', cn_status = js ''healthy'', cn_hop_min = 1, cn_hop_max = 1,
     cn_observations = 1, cn_address = None, cn_public = False, cn_latency = None, cn_geo = None, cn_asn = None, mn_details = None\<rparr>"

definition example_view :: view_model where
  "example_view = \<lparr>tm_compact = False, tm_nodes = [example_node ''a'', example_node ''b''],
     tm_links = [\<lparr>cl_from = js ''a'', cl_to = js ''b'', cl_status = js ''healthy'', cl_observations = 1\<rparr>],
     tm_routes = [\<lparr>cr_result = 0, cr_attempt = 1, cr_status = js ''healthy'', cr_reached = True, cr_complete = True,
       cr_nodes = [js ''a'', js ''b''], mr_address = None\<rparr>],
     tm_server_reasons = [], tm_adapter_reasons = [], tm_adapter_counts = None, tm_stats = None, tm_result_stats = [],
     tm_geo = None, tm_geo_summary = None, vm_show = True, vm_totals = None\<rparr>"

definition example_options :: plan_options where
  "example_options = \<lparr>po_view = str ''topology'', po_existing = JNum (Fin 5), po_available = JUndef,
     po_dom_chunk = JNum (Fin 100), po_node_chunk = JUndef, po_labels = []\<rparr>"

lemma example_plan:
  "\<exists>p. planTopologyDOM (\<lambda>_. None) (\<lambda>x. x) example_view example_options = Some p \<and> length (dp_items p) = 6 \<and> length (dp_routes p) = 1"
proof -
  have "case planTopologyDOM (\<lambda>_. None) (\<lambda>x. x) example_view example_options of None \<Rightarrow> False
     | Some p \<Rightarrow> length (dp_items p) = 6 \<and> length (dp_routes p) = 1" by code_simp
  then show ?thesis by (simp split: option.splits)
qed

text \<open>
  C19: a plan stays within its budget: its chunks are its items in order, none is empty and none has
  more than 100 elements; its cost is what its items cost; and the document, with what the view
  reserves, will have no more than 1200 elements.
\<close>

theorem plan_within_budget:
  assumes "planTopologyDOM url6 collate model o' = Some p"
  shows "concat (dp_chunks p) = dp_items p \<and>
    list_all (\<lambda>c. c \<noteq> [] \<and> sum_list (map dom_cost c) \<le> 100) (dp_chunks p) \<and>
    dp_planned p = sum_list (map dom_cost (dp_items p)) \<and> dp_planned p \<le> max 0 (dp_available p - reserve_of (dp_view p)) \<and>
    dp_existing p \<le> dp_estimated p \<and> dp_estimated p \<le> 1200"
  using assms by (rule plan_budget)

theorem plan_within_budget_witness:
  "\<exists>p. planTopologyDOM (\<lambda>_. None) (\<lambda>x. x) example_view example_options = Some p \<and> length (dp_items p) = 6 \<and>
     concat (dp_chunks p) = dp_items p \<and> dp_estimated p \<le> 1200"
  using example_plan plan_within_budget [of "\<lambda>_. None" "\<lambda>x. x" example_view example_options] by blast

end
