(* ===== verification/Plan_Growth.thy ===== *)
theory Plan_Growth
  imports Plan_Facts
begin

text \<open>
  The invariant of the growing routes: what is planned stays within the element budget, and every
  planned route is a prefix of its route whose nodes and links are planned.
\<close>

section \<open>Nodes, links and steps\<close>

lemma node_at_id: "node_at nodes i = Some n \<Longrightarrow> cn_id n = i \<and> n \<in> set nodes"
  by (auto simp: node_at_def dest: map_of_SomeD)

lemma node_at_known: "i \<in> cn_id ` set nodes \<Longrightarrow> node_at nodes i \<noteq> None"
  by (auto simp: node_at_def map_of_eq_None_iff image_image)

lemma link_at_key: "link_at links key = Some l \<Longrightarrow> link_key (cl_from l) (cl_to l) = key \<and> l \<in> set links"
  unfolding link_at_def by (auto dest: find_mem)

lemma steps_of_snoc: "xs \<noteq> [] \<Longrightarrow> set (steps_of (xs @ [y])) = insert (last xs, y) (set (steps_of xs))"
proof (induction xs rule: steps_of.induct)
  case (1 a b xs)
  then show ?case by auto
qed auto

definition keys_of :: "jstr list \<Rightarrow> jstr set" where
  "keys_of path = (\<lambda>(a, b). link_key a b) ` set (steps_of path)"

lemma keys_of_single [simp]: "keys_of [x] = {}"
  by (simp add: keys_of_def)

lemma keys_of_snoc: "xs \<noteq> [] \<Longrightarrow> keys_of (xs @ [y]) = insert (link_key (last xs) y) (keys_of xs)"
  by (simp add: keys_of_def steps_of_snoc)

lemma prefix_take: "prefix xs ys \<Longrightarrow> xs = take (length xs) ys"
  by (auto simp: prefix_def)

lemma prefix_next: "prefix xs ys \<Longrightarrow> length xs < length ys \<Longrightarrow> prefix (xs @ [ys ! length xs]) ys"
  by (auto simp: prefix_def) (metis Cons_nth_drop_Suc append_eq_conv_conj append_Cons append_Nil drop_eq_Nil neq_Nil_conv nth_append_length)

section \<open>What is planned\<close>

text \<open>Only known nodes and links are planned, each once, and the cost counts them.\<close>

definition planned_ok :: "model_node list \<Rightarrow> compact_link list \<Rightarrow> int \<Rightarrow> planning \<Rightarrow> bool" where
  "planned_ok nodes links routes p \<longleftrightarrow> distinct (planned_ids p) \<and> distinct (planned_keys p) \<and>
     set (pl_nodes p) \<subseteq> set nodes \<and> set (pl_links p) \<subseteq> set links \<and>
     length (pl_markers p) \<le> DATA_NODES \<and> length (pl_segments p) \<le> DATA_LINKS \<and>
     pl_cost p = int (length (pl_nodes p)) + int (length (pl_links p)) + routes"

definition in_budget :: "int option \<Rightarrow> planning \<Rightarrow> bool" where
  "in_budget budget p \<longleftrightarrow> (case budget of None \<Rightarrow> True | Some b \<Rightarrow> pl_cost p \<le> b)"

text \<open>A route state whose path is planned.\<close>

definition path_ok :: "planning \<Rightarrow> route_state \<Rightarrow> bool" where
  "path_ok p st \<longleftrightarrow> rs_path st \<noteq> [] \<and> prefix (rs_path st) (cr_nodes (rs_route st)) \<and>
     set (rs_path st) \<subseteq> set (planned_ids p) \<and> keys_of (rs_path st) \<subseteq> set (planned_keys p)"

definition planned_grows :: "planning \<Rightarrow> planning \<Rightarrow> bool" where
  "planned_grows p q \<longleftrightarrow> set (planned_ids p) \<subseteq> set (planned_ids q) \<and> set (planned_keys p) \<subseteq> set (planned_keys q)"

lemma planned_grows_refl [simp]: "planned_grows p p"
  by (simp add: planned_grows_def)

lemma planned_grows_trans: "planned_grows p q \<Longrightarrow> planned_grows q r \<Longrightarrow> planned_grows p r"
  by (auto simp: planned_grows_def)

lemma path_ok_grows: "path_ok p st \<Longrightarrow> planned_grows p q \<Longrightarrow> path_ok q st"
  by (auto simp: path_ok_def planned_grows_def)

lemma plan_node_ids:
  "i \<in> cn_id ` set nodes \<Longrightarrow> planned_ids (plan_node nodes i p) = add_new i (planned_ids p)"
  using node_at_known [of i nodes] node_at_id [of nodes i]
  by (auto simp: plan_node_def add_new_def planned_ids_def split: option.splits)

lemma plan_node_rest [simp]:
  "pl_links (plan_node nodes i p) = pl_links p" "planned_keys (plan_node nodes i p) = planned_keys p"
  "pl_segments (plan_node nodes i p) = pl_segments p"
  by (auto simp: plan_node_def planned_keys_def split: option.splits)

lemma plan_node_cost:
  "i \<in> cn_id ` set nodes \<Longrightarrow> pl_cost (plan_node nodes i p) = pl_cost p + (if i \<in> set (planned_ids p) then 0 else 1)"
  using node_at_known [of i nodes] by (auto simp: plan_node_def split: option.splits)

lemma plan_node_ok: "planned_ok nodes links k p \<Longrightarrow> planned_ok nodes links k (plan_node nodes i p)"
  by (auto simp: planned_ok_def plan_node_def planned_ids_def planned_keys_def DATA_NODES_def
      dest: node_at_id split: option.splits if_splits)

lemma plan_link_ids [simp]: "planned_ids (plan_link links a b p) = planned_ids p" "pl_nodes (plan_link links a b p) = pl_nodes p"
  "pl_markers (plan_link links a b p) = pl_markers p" "pl_segments (plan_link links a b p) = pl_segments p"
  by (auto simp: plan_link_def planned_ids_def Let_def split: option.splits)

lemma plan_link_keys:
  "link_at links (link_key a b) \<noteq> None \<Longrightarrow> planned_keys (plan_link links a b p) = add_new (link_key a b) (planned_keys p)"
  using link_at_key [of links "link_key a b"] by (auto simp: plan_link_def add_new_def planned_keys_def Let_def split: option.splits)

lemma plan_link_cost:
  "link_at links (link_key a b) \<noteq> None \<Longrightarrow>
     pl_cost (plan_link links a b p) = pl_cost p + (if link_key a b \<in> set (planned_keys p) then 0 else 1)"
  by (auto simp: plan_link_def Let_def split: option.splits)

lemma plan_link_ok: "planned_ok nodes links k p \<Longrightarrow> planned_ok nodes links k (plan_link links a b p)"
  by (auto simp: planned_ok_def plan_link_def planned_ids_def planned_keys_def Let_def
      dest: link_at_key split: option.splits if_splits)

lemma segment_ok [simp]:
  "planned_ids (p\<lparr>pl_segments := s\<rparr>) = planned_ids p" "planned_keys (p\<lparr>pl_segments := s\<rparr>) = planned_keys p"
  by (simp_all add: planned_ids_def planned_keys_def)

lemma segment_planned: "planned_ok nodes links k p \<Longrightarrow> length s \<le> DATA_LINKS \<Longrightarrow> planned_ok nodes links k (p\<lparr>pl_segments := s\<rparr>)"
  by (simp add: planned_ok_def)

section \<open>Turns\<close>

text \<open>A turn of a route over known nodes.\<close>

lemma grow_ok:
  assumes g: "grow budget nodes links st p = (st', p', a, m)" and ok: "planned_ok nodes links k p" "in_budget budget p" "path_ok p st"
    and known: "set (cr_nodes (rs_route st)) \<subseteq> cn_id ` set nodes"
  shows "planned_ok nodes links k p'" "in_budget budget p'" "path_ok p' st'" "planned_grows p p'" "rs_route st' = rs_route st"
proof -
  have "planned_ok nodes links k p' \<and> in_budget budget p' \<and> path_ok p' st' \<and> planned_grows p p' \<and> rs_route st' = rs_route st"
  proof (cases "a")
    case False
    with g ok show ?thesis by (auto simp: grow_def Let_def path_ok_def split: if_splits)
  next
    case True
    define c src target key where d: "c = length (rs_path st)" "src = cr_nodes (rs_route st) ! (c - 1)"
      "target = cr_nodes (rs_route st) ! c" "key = link_key src target"
    define p1 where "p1 = (if target \<notin> set (planned_ids p) then plan_node nodes target p else p)"
    define p2 where "p2 = (if key \<notin> set (planned_keys p) then plan_link links src target p1 else p1)"
    have op: "open_state st" and l: "link_at links key \<noteq> None"
      and can: "canAdd budget ((if target \<notin> set (planned_ids p) then 1 else 0) + (if key \<notin> set (planned_keys p) then 1 else 0)) p"
      and st': "st' = st\<lparr>rs_path := rs_path st @ [target]\<rparr>"
      and p': "p' = p2 \<or> (\<exists>s. p' = p2\<lparr>pl_segments := s\<rparr> \<and> length s \<le> DATA_LINKS)"
      using g True by (auto simp: grow_def Let_def d p1_def p2_def split: if_splits)
    have c: "c < length (cr_nodes (rs_route st))" "0 < c" "last (rs_path st) = src"
      using op ok(3) by (auto simp: open_state_def path_ok_def d prefix_def last_conv_nth nth_append)
    have target: "target \<in> cn_id ` set nodes" using known c(1) by (auto simp: d(3))
    have p2: "planned_ids p2 = add_new target (planned_ids p)" "planned_keys p2 = add_new key (planned_keys p)"
      "pl_cost p2 = pl_cost p + (if target \<notin> set (planned_ids p) then 1 else 0) + (if key \<notin> set (planned_keys p) then 1 else 0)"
      using target l by (auto simp: p2_def p1_def d(4) plan_node_ids plan_link_keys plan_node_cost plan_link_cost add_new_def)
    have "planned_ok nodes links k p2" using ok(1) by (auto simp: p2_def p1_def intro: plan_node_ok plan_link_ok)
    moreover have "in_budget budget p2" using can by (auto simp: in_budget_def canAdd_def p2(3) split: option.splits)
    moreover have "prefix (rs_path st @ [target]) (cr_nodes (rs_route st))"
      using prefix_next [of "rs_path st"] ok(3) c(1) by (simp add: path_ok_def d(1,3))
    then have "path_ok p2 st'" using ok(3) c(3) by (auto simp: st' path_ok_def p2 keys_of_snoc d(4))
    moreover have "planned_grows p p2" by (auto simp: planned_grows_def p2)
    ultimately show ?thesis using p' by (auto simp: st' in_budget_def path_ok_def planned_grows_def intro: segment_planned split: option.splits)
  qed
  then show "planned_ok nodes links k p'" "in_budget budget p'" "path_ok p' st'" "planned_grows p p'" "rs_route st' = rs_route st" by auto
qed

text \<open>All states of a plan.\<close>

definition states_ok :: "model_node list \<Rightarrow> planning \<Rightarrow> route_state list \<Rightarrow> bool" where
  "states_ok nodes p sts \<longleftrightarrow> list_all (\<lambda>st. path_ok p st \<and> set (cr_nodes (rs_route st)) \<subseteq> cn_id ` set nodes) sts"

lemma states_ok_Cons [simp]:
  "states_ok nodes p []"
  "states_ok nodes p (st # sts) \<longleftrightarrow> path_ok p st \<and> set (cr_nodes (rs_route st)) \<subseteq> cn_id ` set nodes \<and> states_ok nodes p sts"
  by (simp_all add: states_ok_def)

lemma states_ok_grows: "states_ok nodes p sts \<Longrightarrow> planned_grows p q \<Longrightarrow> states_ok nodes q sts"
  by (auto simp: states_ok_def list_all_iff intro: path_ok_grows)

lemma grow_all_ok:
  "grow_all budget nodes links sts p = (sts', p', a, m) \<Longrightarrow> planned_ok nodes links k p \<Longrightarrow> in_budget budget p \<Longrightarrow> states_ok nodes p sts \<Longrightarrow>
     planned_ok nodes links k p' \<and> in_budget budget p' \<and> states_ok nodes p' sts' \<and> planned_grows p p' \<and> map rs_route sts' = map rs_route sts"
proof (induction sts arbitrary: p sts' p' a m)
  case (Cons st sts)
  obtain st1 p1 a1 m1 where g: "grow budget nodes links st p = (st1, p1, a1, m1)" by (cases "grow budget nodes links st p") auto
  obtain sts2 p2 a2 m2 where r: "grow_all budget nodes links sts p1 = (sts2, p2, a2, m2)" by (cases "grow_all budget nodes links sts p1") auto
  have known: "path_ok p st" "set (cr_nodes (rs_route st)) \<subseteq> cn_id ` set nodes" "states_ok nodes p sts" using Cons.prems(4) by simp_all
  note one = grow_ok [OF g Cons.prems(2,3) known(1,2)]
  from Cons.IH [OF r one(1,2) states_ok_grows [OF known(3) one(4)]] one known(2) Cons.prems(1) g r
  show ?case by (auto intro: path_ok_grows planned_grows_trans)
qed simp

lemma grow_routes_ok:
  "grow_routes budget nodes links sts p missing = (sts', p', m) \<Longrightarrow> planned_ok nodes links k p \<Longrightarrow> in_budget budget p \<Longrightarrow> states_ok nodes p sts \<Longrightarrow>
     planned_ok nodes links k p' \<and> in_budget budget p' \<and> states_ok nodes p' sts' \<and> map rs_route sts' = map rs_route sts"
proof (induction budget nodes links sts p missing arbitrary: sts' p' m rule: grow_routes.induct)
  case (1 budget nodes links sts p missing)
  obtain sts1 p1 a1 m1 where g: "grow_all budget nodes links sts p = (sts1, p1, a1, m1)" by (cases "grow_all budget nodes links sts p") auto
  note one = grow_all_ok [OF g 1(3-5)]
  show ?case
  proof (cases a1)
    case True
    with 1(2) g have "grow_routes budget nodes links sts1 p1 (missing \<or> m1) = (sts', p', m)" by (simp add: grow_routes.simps [of _ _ _ sts])
    from 1(1) [OF g [symmetric] refl refl True this] one show ?thesis by simp
  next
    case False
    with 1(2) g one show ?thesis by (auto simp: grow_routes.simps [of _ _ _ sts])
  qed
qed

section \<open>The start and the whole plan\<close>

lemma route_cost [simp]: "planned_ids (p\<lparr>pl_cost := c\<rparr>) = planned_ids p" "planned_keys (p\<lparr>pl_cost := c\<rparr>) = planned_keys p"
  by (simp_all add: planned_ids_def planned_keys_def)

definition routes_known :: "model_node list \<Rightarrow> model_route list \<Rightarrow> bool" where
  "routes_known nodes rs \<longleftrightarrow> list_all (\<lambda>r. cr_nodes r \<noteq> [] \<and> set (cr_nodes r) \<subseteq> cn_id ` set nodes) rs"

lemma plan_starts_ok:
  "plan_starts budget nodes rs p = (sts, p') \<Longrightarrow> planned_ok nodes links k p \<Longrightarrow> in_budget budget p \<Longrightarrow> routes_known nodes rs \<Longrightarrow>
     planned_ok nodes links (k + int (length sts)) p' \<and> in_budget budget p' \<and> states_ok nodes p' sts \<and> planned_grows p p' \<and>
     subseq (map rs_route sts) rs"
proof (induction rs arbitrary: p sts p' k)
  case (Cons r rs)
  have known: "cr_nodes r \<noteq> []" "set (cr_nodes r) \<subseteq> cn_id ` set nodes" "routes_known nodes rs"
    using Cons.prems(4) by (simp_all add: routes_known_def)
  let ?first = "hd (cr_nodes r)"
  let ?cost = "1 + (if ?first \<in> set (planned_ids p) then 0 else 1)"
  show ?case
  proof (cases "canAdd budget ?cost p")
    case False
    with Cons.prems(1) have "plan_starts budget nodes rs p = (sts, p')" by (simp add: Let_def)
    from Cons.IH [OF this Cons.prems(2,3) known(3)] show ?thesis by auto
  next
    case True
    define q where "q = (plan_node nodes ?first p)\<lparr>pl_cost := pl_cost (plan_node nodes ?first p) + 1\<rparr>"
    obtain sts1 p1 where r: "plan_starts budget nodes rs q = (sts1, p1)" by (cases "plan_starts budget nodes rs q") auto
    have eq: "sts = \<lparr>rs_route = r, rs_path = [?first], rs_blocked = False\<rparr> # sts1" "p' = p1"
      using Cons.prems(1) True r by (auto simp: Let_def q_def)
    have first: "?first \<in> cn_id ` set nodes" using known(1,2) by auto
    have "planned_ok nodes links k (plan_node nodes ?first p)" by (rule plan_node_ok [OF Cons.prems(2)])
    then have q: "planned_ok nodes links (k + 1) q" by (simp add: planned_ok_def q_def)
    have ids: "planned_ids q = add_new ?first (planned_ids p)" "planned_keys q = planned_keys p"
      "pl_cost q = pl_cost p + ?cost"
      by (simp_all add: q_def plan_node_ids [OF first] plan_node_cost [OF first])
    have "in_budget budget q" using True by (auto simp: in_budget_def canAdd_def ids(3) split: option.splits)
    note rest = Cons.IH [OF r q this known(3)]
    have "path_ok q \<lparr>rs_route = r, rs_path = [?first], rs_blocked = False\<rparr>"
      using known(1) by (cases "cr_nodes r") (simp_all add: path_ok_def ids)
    moreover have "planned_grows p q" by (auto simp: planned_grows_def ids)
    ultimately show ?thesis using rest known(2) by (auto simp: eq algebra_simps intro: path_ok_grows planned_grows_trans)
  qed
qed simp

lemma plan_all_nodes_ok:
  "planned_ok nodes links k p \<Longrightarrow> in_budget budget p \<Longrightarrow> set ns \<subseteq> set nodes \<Longrightarrow>
     planned_ok nodes links k (plan_all_nodes budget nodes ns p) \<and> in_budget budget (plan_all_nodes budget nodes ns p)"
proof (induction ns arbitrary: p)
  case (Cons n ns)
  show ?case
  proof (cases "canAdd budget 1 p")
    case True
    have "in_budget budget (plan_node nodes (cn_id n) p)"
      using True plan_node_cost [of "cn_id n" nodes p] Cons.prems(3)
      by (auto simp: in_budget_def canAdd_def split: option.splits)
    with Cons True show ?thesis by (simp add: plan_node_ok)
  next
    case False
    with Cons.prems show ?thesis by simp
  qed
qed simp

lemma plan_all_links_ok:
  assumes "planned_ok nodes links k p" "in_budget budget p"
  shows "planned_ok nodes links k (plan_all_links budget links p) \<and> in_budget budget (plan_all_links budget links p)"
proof -
  have "planned_ok nodes links k q \<and> in_budget budget q \<Longrightarrow> planned_ok nodes links k (foldl (\<lambda>p l.
     if cl_from l \<notin> set (planned_ids p) \<or> cl_to l \<notin> set (planned_ids p) \<or> \<not> canAdd budget 1 p then p
     else plan_link links (cl_from l) (cl_to l) p) q ls) \<and> in_budget budget (foldl (\<lambda>p l.
     if cl_from l \<notin> set (planned_ids p) \<or> cl_to l \<notin> set (planned_ids p) \<or> \<not> canAdd budget 1 p then p
     else plan_link links (cl_from l) (cl_to l) p) q ls)" for q ls
  proof (induction ls arbitrary: q)
    case (Cons l ls)
    have "in_budget budget (plan_link links (cl_from l) (cl_to l) q)" if "canAdd budget 1 q"
      using that Cons.prems by (auto simp: in_budget_def canAdd_def plan_link_def Let_def split: option.splits)
    with Cons show ?case by (simp add: plan_link_ok)
  qed simp
  then show ?thesis unfolding plan_all_links_def using assms by blast
qed

lemma grow_plan_ok:
  fixes links :: "compact_link list"
  assumes "routes_known nodes routes" "in_budget budget \<lparr>pl_nodes = [], pl_links = [], pl_markers = [], pl_segments = [], pl_cost = 0\<rparr>"
  defines "g \<equiv> grow_plan budget nodes links routes"
  obtains sts where "planned_ok nodes links (int (length sts)) (go_planning g)" "in_budget budget (go_planning g)"
    "routes = [] \<or> states_ok nodes (go_planning g) sts" "go_routes g = map planned_route sts"
    "subseq (map rs_route sts) (fairRouteOrder routes)"
proof -
  let ?p0 = "\<lparr>pl_nodes = [], pl_links = [], pl_markers = [], pl_segments = [], pl_cost = 0\<rparr>"
  obtain sts1 p1 where s1: "plan_starts budget nodes (fairRouteOrder routes) ?p0 = (sts1, p1)"
    by (cases "plan_starts budget nodes (fairRouteOrder routes) ?p0") auto
  obtain sts2 p2 m where s2: "grow_routes budget nodes links sts1 p1 False = (sts2, p2, m)"
    by (cases "grow_routes budget nodes links sts1 p1 False") auto
  have p0: "planned_ok nodes links 0 ?p0" by (simp add: planned_ok_def planned_ids_def planned_keys_def)
  have "routes_known nodes (fairRouteOrder routes)"
    using assms(1) mset_eq_setD [OF fair_order_mset [of routes]] by (simp add: routes_known_def list_all_iff)
  note one = plan_starts_ok [OF s1 p0 assms(2) this]
  from one have "planned_ok nodes links (int (length sts1)) p1" "in_budget budget p1" "states_ok nodes p1 sts1" by simp_all
  note two = grow_routes_ok [OF s2 this]
  have len: "length sts2 = length sts1" using two by (metis length_map)
  have g: "go_planning g = (if routes = [] then plan_all_links budget links (plan_all_nodes budget nodes nodes p2) else p2)"
    "go_routes g = map planned_route sts2"
    by (simp_all add: g_def grow_plan_def s1 s2)
  have ok: "planned_ok nodes links (int (length sts2)) (go_planning g) \<and> in_budget budget (go_planning g)"
    using two plan_all_nodes_ok [of nodes links "int (length sts2)" p2 budget nodes]
      plan_all_links_ok [of nodes links "int (length sts2)" "plan_all_nodes budget nodes nodes p2" budget] by (auto simp: g len)
  show thesis
    by (rule that [of sts2]) (use ok two one g in auto)
qed

section \<open>The data of a plan\<close>

lemma data_nodes_facts:
  "set (data_nodes ns) \<subseteq> set ns" "distinct (map cn_id (data_nodes ns))" "length (data_nodes ns) \<le> DATA_NODES"
proof -
  have "set (foldl (\<lambda>ns n. if length ns \<ge> DATA_NODES \<or> cn_id n \<in> set (map cn_id ns) then ns else ns @ [n]) acc ns) \<subseteq> set acc \<union> set ns \<and>
    distinct (map cn_id (foldl (\<lambda>ns n. if length ns \<ge> DATA_NODES \<or> cn_id n \<in> set (map cn_id ns) then ns else ns @ [n]) acc ns)) \<and>
    length (foldl (\<lambda>ns n. if length ns \<ge> DATA_NODES \<or> cn_id n \<in> set (map cn_id ns) then ns else ns @ [n]) acc ns) \<le> DATA_NODES"
    if "distinct (map cn_id acc)" "length acc \<le> DATA_NODES" for acc
    using that
  proof (induction ns arbitrary: acc)
    case (Cons n ns)
    show ?case
    proof (cases "length acc \<ge> DATA_NODES \<or> cn_id n \<in> set (map cn_id acc)")
      case True
      with Cons.IH [OF Cons.prems] show ?thesis by auto
    next
      case False
      with Cons.prems have "distinct (map cn_id (acc @ [n]))" "length (acc @ [n]) \<le> DATA_NODES" by auto
      from Cons.IH [OF this] False show ?thesis by auto
    qed
  qed simp
  from this [of "[]"] show "set (data_nodes ns) \<subseteq> set ns" "distinct (map cn_id (data_nodes ns))" "length (data_nodes ns) \<le> DATA_NODES"
    by (simp_all add: data_nodes_def)
qed

lemma data_links_facts: "set (data_links ids ls) \<subseteq> set ls" "length (data_links ids ls) \<le> DATA_LINKS"
  by (auto simp: data_links_def dest: in_set_takeD)

lemma data_routes_facts: "routes_known nodes (data_routes (map cn_id nodes) rs)" "set (data_routes ids rs) \<subseteq> set rs"
  by (auto simp: routes_known_def data_routes_def list_all_iff dest: in_set_takeD)

lemma prefix_length_eq: "prefix xs ys \<Longrightarrow> length xs = length ys \<Longrightarrow> xs = ys"
  by (auto simp: prefix_def)

lemma subseq_set: "subseq xs ys \<Longrightarrow> set xs \<subseteq> set ys"
  by (metis subseq_singleton_left subseq_order.trans subsetI)

lemma distinct_within: "distinct (map f xs) \<Longrightarrow> set xs \<subseteq> set ys \<Longrightarrow> length xs \<le> length ys"
  by (metis card_length card_mono distinct_card distinct_map finite_set order_trans)

definition planned_prefix :: "planning \<Rightarrow> model_route \<Rightarrow> model_route \<Rightarrow> bool" where
  "planned_prefix p r r' \<longleftrightarrow> prefix (cr_nodes r) (cr_nodes r') \<and> cr_nodes r \<noteq> [] \<and>
     r = r'\<lparr>cr_nodes := cr_nodes r, cr_complete := cr_complete r' \<and> cr_nodes r = cr_nodes r'\<rparr> \<and>
     set (cr_nodes r) \<subseteq> set (map cn_id (pl_nodes p)) \<and>
     list_all (\<lambda>(a, b). \<exists>l. l \<in> set (pl_links p) \<and> link_key (cl_from l) (cl_to l) = link_key a b) (steps_of (cr_nodes r))"

lemma planned_key_link: "key \<in> set (planned_keys p) \<Longrightarrow> \<exists>l. l \<in> set (pl_links p) \<and> link_key (cl_from l) (cl_to l) = key"
  by (auto simp: planned_keys_def)

lemma planned_route_prefix:
  assumes ok: "path_ok p st"
  shows "planned_prefix p (planned_route st) (rs_route st)"
proof -
  have len: "length (rs_path st) = length (cr_nodes (rs_route st)) \<longleftrightarrow> rs_path st = cr_nodes (rs_route st)"
    using ok prefix_length_eq [of "rs_path st" "cr_nodes (rs_route st)"] by (auto simp: path_ok_def)
  have links: "list_all (\<lambda>(a, b). \<exists>l. l \<in> set (pl_links p) \<and> link_key (cl_from l) (cl_to l) = link_key a b) (steps_of (rs_path st))"
    unfolding list_all_iff
  proof clarify
    fix a b assume "(a, b) \<in> set (steps_of (rs_path st))"
    then have "link_key a b \<in> keys_of (rs_path st)" by (force simp: keys_of_def)
    with ok have "link_key a b \<in> set (planned_keys p)" by (auto simp: path_ok_def)
    then show "\<exists>l. l \<in> set (pl_links p) \<and> link_key (cl_from l) (cl_to l) = link_key a b" by (rule planned_key_link)
  qed
  have nodes: "cr_nodes (planned_route st) = rs_path st" by (simp add: planned_route_def)
  have "planned_route st = (rs_route st)\<lparr>cr_nodes := rs_path st, cr_complete := cr_complete (rs_route st) \<and> rs_path st = cr_nodes (rs_route st)\<rparr>"
    by (simp only: planned_route_def len)
  with ok links show ?thesis unfolding planned_prefix_def nodes path_ok_def planned_ids_def by blast
qed

text \<open>
  C5: what is shown of the routes is true to the model: of at most 500 nodes and 1000 links of the
  model, each once, every planned route is a non-empty prefix of a route of the model, with its
  result, attempt, status and address, over planned nodes and along planned links, and it is called
  complete only when the whole of a complete route is planned.
\<close>

theorem planned_routes_true:
  assumes "planTopologyDOM url6 collate model o' = Some p"
  shows "length (pl_nodes (dp_planning p)) \<le> 500 \<and> length (pl_links (dp_planning p)) \<le> 1000 \<and>
    distinct (map cn_id (pl_nodes (dp_planning p))) \<and> set (pl_nodes (dp_planning p)) \<subseteq> set (tm_nodes model) \<and>
    distinct (map (\<lambda>l. link_key (cl_from l) (cl_to l)) (pl_links (dp_planning p))) \<and>
    set (pl_links (dp_planning p)) \<subseteq> set (tm_links model) \<and>
    list_all (\<lambda>r. \<exists>r'. r' \<in> set (tm_routes model) \<and> planned_prefix (dp_planning p) r r') (dp_routes p)"
  using assms
proof (rule plan_parts, goal_cases)
  case (1 b nodes links routes g budget dynamic targets markers labels)
  let ?q = "go_planning g"
  have "in_budget budget \<lparr>pl_nodes = [], pl_links = [], pl_markers = [], pl_segments = [], pl_cost = 0\<rparr>"
    by (simp add: 1(6) in_budget_def)
  moreover have "routes_known nodes routes" unfolding 1(5) by (rule data_routes_facts)
  ultimately obtain sts where sts: "planned_ok nodes links (int (length sts)) ?q" "routes = [] \<or> states_ok nodes ?q sts"
      "go_routes g = map planned_route sts" "subseq (map rs_route sts) (fairRouteOrder routes)"
    using grow_plan_ok unfolding 1(7) by metis
  have ok: "distinct (map cn_id (pl_nodes ?q))" "distinct (map (\<lambda>l. link_key (cl_from l) (cl_to l)) (pl_links ?q))"
      "set (pl_nodes ?q) \<subseteq> set nodes" "set (pl_links ?q) \<subseteq> set links"
    using sts(1) by (simp_all add: planned_ok_def planned_ids_def planned_keys_def)
  have sub: "rs_route ` set sts \<subseteq> set routes"
    using subseq_set [OF sts(4)] mset_eq_setD [OF fair_order_mset [of routes]] by auto
  have "list_all (\<lambda>r. \<exists>r'. r' \<in> set (tm_routes model) \<and> planned_prefix ?q r r') (go_routes g)"
  proof (cases "routes = []")
    case True
    with sub sts(3) show ?thesis by simp
  next
    case False
    then show ?thesis using sts(2,3) sub data_routes_facts(2) [of "map cn_id nodes" "tm_routes model"]
      by (auto simp: states_ok_def list_all_iff 1(5) intro!: planned_route_prefix exI [of _ "rs_route _"])
  qed
  then show ?case
    using ok distinct_within [OF ok(1,3)] distinct_within [OF ok(2,4)] data_nodes_facts [of "tm_nodes model"]
      data_links_facts [of "map cn_id nodes" "tm_links model"]
    by (auto simp: 1(3,4,8,9) DATA_NODES_def DATA_LINKS_def)
qed

theorem planned_routes_true_witness:
  "\<exists>p. planTopologyDOM (\<lambda>_. None) (\<lambda>x. x) example_view example_options = Some p \<and> length (dp_routes p) = 1 \<and>
     distinct (map cn_id (pl_nodes (dp_planning p))) \<and>
     list_all (\<lambda>r. \<exists>r'. r' \<in> set (tm_routes example_view) \<and> planned_prefix (dp_planning p) r r') (dp_routes p)"
  using example_plan planned_routes_true [of "\<lambda>_. None" "\<lambda>x. x" example_view example_options] by blast

end
