(* ===== verification/Presentation_Facts.thy ===== *)
theory Presentation_Facts
  imports Plan_Growth
begin

text \<open>
  What a presentation guarantees: its ids are distinct, it stays within its budget, and every step of
  a drawn route is a drawn link or a drawn connector between the two nodes.
\<close>

section \<open>Tables\<close>

lemma update_subset: "set (AList.update k v m) \<subseteq> insert (k, v) (set m)"
  by (induction m) auto

lemma update_fst: "fst ` set (AList.update k v m) = insert k (fst ` set m)"
  using dom_update [of k v m] by (simp add: dom_map_of_conv_image_fst)

lemma update_snd: "snd ` set (AList.update k v m) \<subseteq> insert v (snd ` set m)"
  using update_subset [of k v m] by force

lemma unique_fresh: "unique_id used base \<notin> set used"
  by (induction used base rule: unique_id.induct) (simp add: unique_id.simps)

section \<open>Folding a route\<close>

text \<open>The nodes presented so far: each under its own id, which is in use; connectors have other ids.\<close>

definition presenting_ok :: "model_node list \<Rightarrow> presenting \<Rightarrow> bool" where
  "presenting_ok nodes st \<longleftrightarrow> distinct (map fst (pr_nodes st)) \<and> (\<forall>(k, x) \<in> set (pr_nodes st). shown_id x = k) \<and>
     fst ` set (pr_nodes st) \<subseteq> set (pr_used st) \<and> cn_id ` set nodes \<subseteq> set (pr_used st) \<and>
     distinct (map cx_id (pr_connectors st)) \<and> cx_id ` set (pr_connectors st) \<subseteq> set (pr_used st) \<and>
     cx_id ` set (pr_connectors st) \<inter> (fst ` set (pr_nodes st) \<union> cn_id ` set nodes) = {}"

lemma seen_ok:
  assumes "presenting_ok nodes st" "i \<in> cn_id ` set nodes"
  shows "presenting_ok nodes (st\<lparr>pr_nodes := AList.update i (Seen (the (node_at nodes i))) (pr_nodes st)\<rparr>)"
proof -
  have "shown_id (Seen (the (node_at nodes i))) = i"
    using node_at_known [OF assms(2)] node_at_id [of nodes i] by auto
  then show ?thesis
    using assms update_subset [of i "Seen (the (node_at nodes i))" "pr_nodes st"]
    unfolding presenting_ok_def by (auto simp: update_fst distinct_update)
qed

lemma folded_ok:
  assumes "presenting_ok nodes st" "i \<notin> set (pr_used st)" "gn_id g = i"
  shows "presenting_ok nodes (st\<lparr>pr_used := pr_used st @ [i], pr_nodes := AList.update i (Folded g) (pr_nodes st)\<rparr>)"
  using assms update_subset [of i "Folded g" "pr_nodes st"]
  unfolding presenting_ok_def by (auto simp: update_fst distinct_update)

lemma tokenize_ok:
  "tokenize nodes show_unanswered r occurrence i st = (tokens, st') \<Longrightarrow> presenting_ok nodes st \<Longrightarrow> set (cr_nodes r) \<subseteq> cn_id ` set nodes \<Longrightarrow>
     presenting_ok nodes st' \<and> pr_connectors st' = pr_connectors st \<and> pr_observed st' = pr_observed st \<and>
     pr_spans st' = pr_spans st \<and> pr_routes st' = pr_routes st"
proof (induction nodes show_unanswered r occurrence i st arbitrary: tokens st' rule: tokenize.induct)
  case (1 nodes show_unanswered r occurrence i st)
  note unfold = tokenize.simps [of nodes show_unanswered r occurrence i st]
  let ?i = "cr_nodes r ! i"
  show ?case
  proof (cases "length (cr_nodes r) \<le> i")
    case True
    with 1(4,5) show ?thesis by (simp add: unfold)
  next
    case False
    then have known: "?i \<in> cn_id ` set nodes" using 1(6) by (meson linorder_not_le nth_mem subsetD)
    show ?thesis
    proof (cases "unanswered nodes ?i")
      case ans: False
      define st1 where "st1 = st\<lparr>pr_nodes := AList.update ?i (Seen (the (node_at nodes ?i))) (pr_nodes st)\<rparr>"
      obtain ts st2 where r: "tokenize nodes show_unanswered r occurrence (Suc i) st1 = (ts, st2)" by fastforce
      have "st' = st2" using 1(4) unfolding unfold using False ans r by (simp add: Let_def st1_def)
      moreover have "presenting_ok nodes st1" unfolding st1_def by (rule seen_ok [OF 1(5) known])
      ultimately show ?thesis using 1(1) [OF False refl ans st1_def r _ 1(6)] by (simp add: st1_def)
    next
      case True
      define run where "run = takeWhile (unanswered nodes) (drop i (cr_nodes r))"
      define n where "n = i + max 1 (length run)"
      show ?thesis
      proof (cases show_unanswered)
        case hidden: False
        have "tokenize nodes show_unanswered r occurrence n st = (tokens, st')"
          using 1(4) unfolding unfold using False True hidden by (simp add: Let_def run_def n_def)
        from 1(2) [OF False refl _ run_def n_def hidden this 1(5,6)] True show ?thesis by simp
      next
        case shown: True
        define gid where "gid = unique_id (pr_used st) (group_base r occurrence i)"
        define st1 where "st1 = st\<lparr>pr_used := pr_used st @ [gid], pr_nodes := AList.update gid (Folded (group_of nodes gid run)) (pr_nodes st)\<rparr>"
        obtain ts st2 where r: "tokenize nodes show_unanswered r occurrence n st1 = (ts, st2)" by fastforce
        have "st' = st2" using 1(4) unfolding unfold using False True shown r by (simp add: Let_def st1_def gid_def run_def n_def)
        moreover have "presenting_ok nodes st1" unfolding st1_def
          by (rule folded_ok [OF 1(5)]) (simp_all add: gid_def unique_fresh group_of_def Let_def)
        ultimately show ?thesis using 1(3) [OF False refl _ run_def n_def _ gid_def st1_def r _ 1(6)] True shown by (simp add: st1_def)
      qed
    qed
  qed
qed

section \<open>Connecting the tokens\<close>

text \<open>A remembered position has a connector between the two nodes of that step.\<close>

definition spans_ok :: "jstr list list \<Rightarrow> presenting \<Rightarrow> bool" where
  "spans_ok paths st \<longleftrightarrow> (\<forall>k i cid. map_of (pr_spans st) (k, i) = Some cid \<longrightarrow> k < length paths \<and> 1 \<le> i \<and> i < length (paths ! k) \<and>
     (\<exists>c \<in> set (pr_connectors st). cx_id c = cid \<and> cx_from c = paths ! k ! (i - 1) \<and> cx_to c = paths ! k ! i))"

definition observed_ok :: "compact_link list \<Rightarrow> presenting \<Rightarrow> bool" where
  "observed_ok links st \<longleftrightarrow> snd ` set (pr_observed st) \<subseteq> set links"

definition put_connector :: "string \<Rightarrow> nat option \<Rightarrow> nat \<Rightarrow> nat \<Rightarrow> route_token \<Rightarrow> route_token \<Rightarrow> presenting \<Rightarrow> presenting" where
  "put_connector name sk occurrence i a b st = (let cid = unique_id (pr_used st) (js name @ join [cColon] [dec occurrence, dec i]) in
     st\<lparr>pr_used := pr_used st @ [cid],
        pr_connectors := pr_connectors st @ [\<lparr>cx_id = cid, cx_from = tk_id a, cx_to = tk_id b, cx_skipped = sk, cx_route = occurrence\<rparr>],
        pr_spans := AList.update (occurrence, i) cid (pr_spans st)\<rparr>)"

lemma connect_cases:
  "connect pairs occurrence i a b st = st \<or> (\<exists>name sk. connect pairs occurrence i a b st = put_connector name sk occurrence i a b st) \<or>
   (\<exists>key l. map_of pairs key = Some l \<and> connect pairs occurrence i a b st = st\<lparr>pr_observed := AList.update key l (pr_observed st)\<rparr>)"
  by (auto simp: connect_def put_connector_def Let_def split: option.splits)

lemma put_ok:
  assumes "presenting_ok nodes st"
  shows "presenting_ok nodes (put_connector name sk occurrence i a b st)"
  using assms unique_fresh [of "pr_used st" "js name @ join [cColon] [dec occurrence, dec i]"]
  unfolding presenting_ok_def put_connector_def Let_def by auto

lemma put_spans:
  assumes "spans_ok paths st" "k < length paths" "1 \<le> i" "i < length (paths ! k)" "paths ! k ! (i - 1) = tk_id a" "paths ! k ! i = tk_id b"
  shows "spans_ok paths (put_connector name sk k i a b st)"
  using assms unfolding spans_ok_def put_connector_def Let_def by (auto simp: update_conv' split: if_splits)

lemma connect_ok:
  assumes "presenting_ok nodes st" "spans_ok paths st" "observed_ok links st" "snd ` set pairs \<subseteq> set links"
    "k < length paths" "1 \<le> i" "i < length (paths ! k)" "paths ! k ! (i - 1) = tk_id a" "paths ! k ! i = tk_id b"
  shows "presenting_ok nodes (connect pairs k i a b st) \<and> spans_ok paths (connect pairs k i a b st) \<and>
     observed_ok links (connect pairs k i a b st) \<and> pr_nodes (connect pairs k i a b st) = pr_nodes st \<and>
     pr_routes (connect pairs k i a b st) = pr_routes st"
proof -
  consider "connect pairs k i a b st = st" | name sk where "connect pairs k i a b st = put_connector name sk k i a b st" |
    key l where "map_of pairs key = Some l" "connect pairs k i a b st = st\<lparr>pr_observed := AList.update key l (pr_observed st)\<rparr>"
    using connect_cases [of pairs k i a b st] by blast
  then show ?thesis
  proof cases
    case 1
    with assms show ?thesis by simp
  next
    case (2 name sk)
    have "observed_ok links (put_connector name sk k i a b st) \<and> pr_nodes (put_connector name sk k i a b st) = pr_nodes st \<and>
      pr_routes (put_connector name sk k i a b st) = pr_routes st"
      using assms(3) by (simp add: put_connector_def observed_ok_def Let_def)
    with 2 put_ok [OF assms(1)] put_spans [OF assms(2,5-9)] show ?thesis by simp
  next
    case (3 key l)
    have "l \<in> set links" using map_of_SomeD [OF 3(1)] assms(4) by auto
    then have "observed_ok links (st\<lparr>pr_observed := AList.update key l (pr_observed st)\<rparr>)"
      using assms(3) subset_trans [OF update_snd [of key l "pr_observed st"]] by (simp add: observed_ok_def)
    with 3 assms(1,2) show ?thesis by (simp add: presenting_ok_def spans_ok_def)
  qed
qed

lemma connect_tokens_ok:
  "presenting_ok nodes st \<Longrightarrow> spans_ok paths st \<Longrightarrow> observed_ok links st \<Longrightarrow> snd ` set pairs \<subseteq> set links \<Longrightarrow>
     k < length paths \<Longrightarrow> 1 \<le> i \<Longrightarrow> paths ! k = pre @ map tk_id ts \<Longrightarrow> length pre = i - 1 \<Longrightarrow>
     presenting_ok nodes (connect_tokens pairs k i ts st) \<and> spans_ok paths (connect_tokens pairs k i ts st) \<and>
     observed_ok links (connect_tokens pairs k i ts st) \<and> pr_nodes (connect_tokens pairs k i ts st) = pr_nodes st \<and>
     pr_routes (connect_tokens pairs k i ts st) = pr_routes st"
proof (induction pairs k i ts st arbitrary: pre rule: connect_tokens.induct)
  case (1 pairs k i a b ts st)
  have at: "i < length (paths ! k)" "paths ! k ! (i - 1) = tk_id a" "paths ! k ! i = tk_id b"
    using 1(7,8,9) by (auto simp: nth_append)
  note one = connect_ok [OF 1(2-6) 1(7) at]
  have "presenting_ok nodes (connect_tokens pairs k (Suc i) (b # ts) (connect pairs k i a b st)) \<and>
      spans_ok paths (connect_tokens pairs k (Suc i) (b # ts) (connect pairs k i a b st)) \<and>
      observed_ok links (connect_tokens pairs k (Suc i) (b # ts) (connect pairs k i a b st)) \<and>
      pr_nodes (connect_tokens pairs k (Suc i) (b # ts) (connect pairs k i a b st)) = pr_nodes (connect pairs k i a b st) \<and>
      pr_routes (connect_tokens pairs k (Suc i) (b # ts) (connect pairs k i a b st)) = pr_routes (connect pairs k i a b st)"
    using one 1(5,6,7,8,9) by (intro 1(1) [of "pre @ [tk_id a]"]) auto
  with one show ?case by simp
qed simp_all

section \<open>All routes\<close>

lemma link_pairs_links: "snd ` set (link_pairs links) \<subseteq> set links"
proof -
  have "snd ` set (foldl (\<lambda>m l. AList.update (link_key (cl_from l) (cl_to l)) l m) m ls) \<subseteq> snd ` set m \<union> set ls" for m ls
  proof (induction ls arbitrary: m)
    case (Cons l ls)
    from Cons [of "AList.update (link_key (cl_from l) (cl_to l)) l m"] update_snd [of "link_key (cl_from l) (cl_to l)" l m]
    show ?case by (simp, blast)
  qed simp
  from this [of "[]" links] show ?thesis by (simp add: link_pairs_def)
qed

definition all_ok :: "model_node list \<Rightarrow> compact_link list \<Rightarrow> presenting \<Rightarrow> bool" where
  "all_ok nodes links st \<longleftrightarrow> presenting_ok nodes st \<and> spans_ok (map cr_nodes (pr_routes st)) st \<and> observed_ok links st"

lemma routes_ok [simp]:
  "presenting_ok nodes (st\<lparr>pr_routes := rs\<rparr>) = presenting_ok nodes st" "spans_ok paths (st\<lparr>pr_routes := rs\<rparr>) = spans_ok paths st"
  "observed_ok links (st\<lparr>pr_routes := rs\<rparr>) = observed_ok links st"
  by (simp_all add: presenting_ok_def spans_ok_def observed_ok_def)

lemma spans_ok_append: "spans_ok paths st \<Longrightarrow> spans_ok (paths @ [path]) st"
  unfolding spans_ok_def by (auto simp: nth_append) fastforce+

lemma present_route_ok:
  fixes show_unanswered :: bool
  assumes "all_ok nodes links st" "set (cr_nodes r) \<subseteq> cn_id ` set nodes" "k = length (pr_routes st)"
  defines "st' \<equiv> present_route nodes (link_pairs links) show_unanswered st (k, r)"
  shows "all_ok nodes links st'" "length (pr_routes st') = Suc (length (pr_routes st))"
proof -
  obtain tokens st1 where t: "tokenize nodes show_unanswered r k 0 st = (tokens, st1)" by fastforce
  from assms(1) have ok: "presenting_ok nodes st" "spans_ok (map cr_nodes (pr_routes st)) st" "observed_ok links st" by (simp_all add: all_ok_def)
  note one = tokenize_ok [OF t ok(1) assms(2)]
  let ?paths = "map cr_nodes (pr_routes st) @ [map tk_id tokens]"
  have "spans_ok ?paths st1"
    using spans_ok_append [OF ok(2), of "map tk_id tokens"] one by (simp add: spans_ok_def)
  moreover have "observed_ok links st1" using ok(3) one by (simp add: observed_ok_def)
  ultimately have two: "presenting_ok nodes (connect_tokens (link_pairs links) k 1 tokens st1) \<and> spans_ok ?paths (connect_tokens (link_pairs links) k 1 tokens st1) \<and>
     observed_ok links (connect_tokens (link_pairs links) k 1 tokens st1) \<and> pr_nodes (connect_tokens (link_pairs links) k 1 tokens st1) = pr_nodes st1 \<and>
     pr_routes (connect_tokens (link_pairs links) k 1 tokens st1) = pr_routes st1"
    using one assms(3) link_pairs_links [of links] by (intro connect_tokens_ok [where pre = "[]"]) (auto simp: nth_append)
  have st': "st' = (connect_tokens (link_pairs links) k 1 tokens st1)\<lparr>pr_routes := pr_routes st @ [r\<lparr>cr_nodes := map tk_id tokens\<rparr>]\<rparr>"
    using two one by (simp add: st'_def present_route_def t Let_def)
  show "length (pr_routes st') = Suc (length (pr_routes st))" by (simp add: st')
  show "all_ok nodes links st'" using two by (simp add: all_ok_def st')
qed

lemma present_fold_ok:
  "all_ok nodes links st \<Longrightarrow> list_all (\<lambda>r. set (cr_nodes r) \<subseteq> cn_id ` set nodes) rs \<Longrightarrow>
     all_ok nodes links (foldl (present_route nodes (link_pairs links) show_unanswered) st (enumerate (length (pr_routes st)) rs)) \<and>
     length (pr_routes (foldl (present_route nodes (link_pairs links) show_unanswered) st (enumerate (length (pr_routes st)) rs))) =
       length (pr_routes st) + length rs"
proof (induction rs arbitrary: st)
  case (Cons r rs)
  from Cons.prems have r: "set (cr_nodes r) \<subseteq> cn_id ` set nodes" "list_all (\<lambda>r. set (cr_nodes r) \<subseteq> cn_id ` set nodes) rs" by simp_all
  note one = present_route_ok [OF Cons.prems(1) r(1) refl, of show_unanswered]
  from Cons.IH [OF one(1) r(2)] one(2) show ?case by simp
qed simp

lemma nodes_table_ok:
  "distinct (map fst m) \<Longrightarrow> \<forall>(k, x) \<in> set m. shown_id x = k \<Longrightarrow> fst ` set m \<subseteq> ids \<Longrightarrow> cn_id ` set ns \<subseteq> ids \<Longrightarrow>
     distinct (map fst (foldl (\<lambda>m n. AList.update (cn_id n) (Seen n) m) m ns)) \<and>
     (\<forall>(k, x) \<in> set (foldl (\<lambda>m n. AList.update (cn_id n) (Seen n) m) m ns). shown_id x = k) \<and>
     fst ` set (foldl (\<lambda>m n. AList.update (cn_id n) (Seen n) m) m ns) \<subseteq> ids"
proof (induction ns arbitrary: m)
  case (Cons n ns)
  have "\<forall>(k, x) \<in> set (AList.update (cn_id n) (Seen n) m). shown_id x = k"
    using Cons.prems(2) update_subset [of "cn_id n" "Seen n" m] by auto
  moreover have "distinct (map fst (AList.update (cn_id n) (Seen n) m))" using Cons.prems(1) by (simp add: distinct_update)
  moreover have "fst ` set (AList.update (cn_id n) (Seen n) m) \<subseteq> ids" using Cons.prems(3,4) by (simp add: update_fst)
  ultimately show ?case using Cons.IH [of "AList.update (cn_id n) (Seen n) m"] Cons.prems(4) by simp
qed simp

lemma present_routes_ok:
  assumes "list_all (\<lambda>r. set (cr_nodes r) \<subseteq> cn_id ` set nodes) routes"
  shows "all_ok nodes links (present_routes nodes links routes show_unanswered)"
    "length (pr_routes (present_routes nodes links routes show_unanswered)) = length routes"
proof -
  let ?start = "\<lparr>pr_nodes = [], pr_observed = [], pr_connectors = [], pr_routes = [], pr_spans = [], pr_used = map cn_id nodes\<rparr>"
  have start: "all_ok nodes links ?start" by (simp add: all_ok_def presenting_ok_def spans_ok_def observed_ok_def)
  have "all_ok nodes links (?start\<lparr>pr_nodes := foldl (\<lambda>m n. AList.update (cn_id n) (Seen n) m) [] nodes, pr_observed := link_pairs links\<rparr>)"
    using nodes_table_ok [of "[]" "cn_id ` set nodes" nodes] link_pairs_links [of links]
    by (simp add: all_ok_def presenting_ok_def spans_ok_def observed_ok_def)
  then show "all_ok nodes links (present_routes nodes links routes show_unanswered)"
    "length (pr_routes (present_routes nodes links routes show_unanswered)) = length routes"
    using present_fold_ok [OF start assms, of show_unanswered] by (auto simp: present_routes_def Let_def)
qed

section \<open>Kept routes\<close>

definition step_kept :: "(nat \<Rightarrow> jstr option) \<Rightarrow> jstr list \<Rightarrow> jstr list \<Rightarrow> jstr list \<Rightarrow> bool" where
  "step_kept sp spans pairs p \<longleftrightarrow> (\<forall>j. 1 \<le> j \<and> j < length p \<longrightarrow>
     (case sp j of Some s \<Rightarrow> s \<in> set spans | None \<Rightarrow> link_key (p ! (j - 1)) (p ! j) \<in> set pairs))"

lemma step_kept_snoc:
  assumes "step_kept sp spans pairs p"
    and "p = [] \<or> (case sp (length p) of Some s \<Rightarrow> s \<in> set spans | None \<Rightarrow> link_key (last p) i \<in> set pairs)"
  shows "step_kept sp spans pairs (p @ [i])"
  unfolding step_kept_def
proof (intro allI impI)
  fix j assume j: "1 \<le> j \<and> j < length (p @ [i])"
  show "case sp j of Some s \<Rightarrow> s \<in> set spans | None \<Rightarrow> link_key ((p @ [i]) ! (j - 1)) ((p @ [i]) ! j) \<in> set pairs"
  proof (cases "j = length p")
    case True
    with j have "p \<noteq> []" by auto
    then have ends: "(p @ [i]) ! (j - 1) = last p" "(p @ [i]) ! j = i" using True by (simp_all add: nth_append last_conv_nth)
    show ?thesis unfolding ends using True assms(2) \<open>p \<noteq> []\<close> by simp
  next
    case False
    with j have lt: "j < length p" "j - 1 < length p" by auto
    then have at: "(p @ [i]) ! (j - 1) = p ! (j - 1)" "(p @ [i]) ! j = p ! j" by (simp_all add: nth_append)
    show ?thesis unfolding at using j lt(1) assms(1) by (simp add: step_kept_def)
  qed
qed

lemma kept_path_ok:
  "step_kept sp spans pairs p \<Longrightarrow> set p \<subseteq> set ids \<Longrightarrow>
     prefix (kept_path ids sp spans pairs p xs) (p @ xs) \<and> step_kept sp spans pairs (kept_path ids sp spans pairs p xs) \<and>
     set (kept_path ids sp spans pairs p xs) \<subseteq> set ids"
proof (induction xs arbitrary: p)
  case (Cons i xs)
  let ?stop = "i \<notin> set ids \<or> (p \<noteq> [] \<and> (case sp (length p) of Some s \<Rightarrow> s \<notin> set spans
            | None \<Rightarrow> link_key (last p) i \<notin> set pairs))"
  show ?case
  proof (cases ?stop)
    case True
    then have "kept_path ids sp spans pairs p (i # xs) = p" by auto
    with Cons.prems show ?thesis by simp
  next
    case False
    then have eq: "kept_path ids sp spans pairs p (i # xs) = kept_path ids sp spans pairs (p @ [i]) xs" by auto
    have "step_kept sp spans pairs (p @ [i])" by (rule step_kept_snoc [OF Cons.prems(1)]) (use False in \<open>auto split: option.splits\<close>)
    from Cons.IH [OF this] False Cons.prems(2) show ?thesis unfolding eq by simp
  qed
qed simp

lemma steps_of_nth: "(a, b) \<in> set (steps_of p) \<Longrightarrow> \<exists>j. 1 \<le> j \<and> j < length p \<and> a = p ! (j - 1) \<and> b = p ! j"
proof (induction p rule: steps_of.induct)
  case (1 x y xs)
  then consider "a = x" "b = y" | "(a, b) \<in> set (steps_of (y # xs))" by auto
  then show ?case
  proof cases
    case 1
    then show ?thesis by (intro exI [of _ 1]) simp
  next
    case 2
    from "1.IH" [OF this] obtain j where "1 \<le> j" "j < length (y # xs)" "a = (y # xs) ! (j - 1)" "b = (y # xs) ! j" by blast
    then show ?thesis by (intro exI [of _ "Suc j"]) (cases j; simp)
  qed
qed simp_all

section \<open>Annotated nodes\<close>

lemma update_values:
  "map_of m k = Some x \<Longrightarrow> f y = f x \<Longrightarrow> distinct (map fst m) \<Longrightarrow>
     map (\<lambda>(k, v). (k, f v)) (AList.update k y m) = map (\<lambda>(k, v). (k, f v)) m"
  by (induction m) (auto split: if_splits)

text \<open>The nodes without their contexts.\<close>

definition bare :: "(jstr \<times> shown_node) list \<times> shown_counts \<Rightarrow> (jstr \<times> shown) list" where
  "bare acc = map (\<lambda>(k, v). (k, sn_node v)) (fst acc)"

lemma bare_keys: "map fst (bare acc) = map fst (fst acc)" "map snd (bare acc) = map (sn_node \<circ> snd) (fst acc)"
  by (auto simp: bare_def)

lemma fold_bare:
  assumes "\<And>acc x. distinct (map fst (bare acc)) \<Longrightarrow> bare (f acc x) = bare acc"
  shows "distinct (map fst (bare acc)) \<Longrightarrow> bare (foldl f acc xs) = bare acc"
  by (induction xs arbitrary: acc) (simp_all add: assms)

lemma add_context_bare: "distinct (map fst (bare acc)) \<Longrightarrow> bare (add_context ctx acc i) = bare acc"
  unfolding bare_keys by (cases acc) (auto simp: bare_def add_context_def Let_def update_values split: option.splits)

lemma annotate_route_bare: "distinct (map fst (bare acc)) \<Longrightarrow> bare (annotate_route url6 nodes ok r k acc) = bare acc"
  by (cases r) (auto simp: annotate_route_def intro!: fold_bare add_context_bare)

lemma annotated_nodes:
  assumes "distinct (map shown_id retained)"
  shows "map sn_node (fst (annotateASN url6 nodes links routes retained keptRoutes keptPairs)) = retained"
proof -
  let ?copies = "map (\<lambda>n. (shown_id n, \<lparr>sn_node = n, sn_contexts = [], sn_omitted = 0\<rparr>)) retained"
  let ?acc = "(?copies, \<lparr>sx_total = 0, sx_displayed = 0, sx_omitted = 0\<rparr>)"
  define f where "f = (\<lambda>acc (k, r). annotate_route url6 nodes (\<lambda>pair. pair \<in> set keptPairs \<and> pair \<in> set (map (\<lambda>l. link_key (cl_from l) (cl_to l))
            (filter (\<lambda>l. 0 < cl_observations l \<and> up_status (cl_status l)) links))) r k acc)"
  have "distinct (map fst (bare ?acc))" using assms by (simp add: bare_keys comp_def)
  then have "bare (foldl f ?acc (enumerate 0 (zip routes keptRoutes))) = bare ?acc"
    by (rule fold_bare [rotated]) (auto simp: f_def intro: annotate_route_bare)
  then have "map snd (bare (foldl f ?acc (enumerate 0 (zip routes keptRoutes)))) = map snd (bare ?acc)" by (rule arg_cong)
  then show ?thesis unfolding bare_keys by (simp add: annotateASN_def Let_def split_beta comp_def f_def)
qed

section \<open>The presentation\<close>

lemma bounded_by_limit: "bounded_by limit budget used \<le> limit"
  by (simp add: bounded_by_def split: option.split)

lemma bounded_by_budget: "int used + int (bounded_by limit (Some b) used) \<le> max b (int used)"
  by (simp add: bounded_by_def)

text \<open>Two neighbouring nodes of a drawn route are joined by what is drawn.\<close>

definition joined :: "presentation \<Rightarrow> jstr \<times> jstr \<Rightarrow> bool" where
  "joined pn e \<longleftrightarrow> (\<exists>l. l \<in> set (pn_links pn) \<and> link_key (cl_from l) (cl_to l) = link_key (fst e) (snd e)) \<or>
     (\<exists>c. c \<in> set (pn_connectors pn) \<and> cx_from c = fst e \<and> cx_to c = snd e)"

lemma kept_step_joined:
  assumes step: "step_kept (\<lambda>i. map_of (pr_spans st) (k, i)) (map cx_id kept) (map (\<lambda>l. link_key (cl_from l) (cl_to l)) links) p"
    and sp: "spans_ok paths st" "k < length paths" "prefix p (paths ! k)" and kept: "set kept \<subseteq> set (pr_connectors st)"
    and ids: "distinct (map cx_id (pr_connectors st))" and pn: "pn_links pn = links" "pn_connectors pn = kept"
  shows "list_all (joined pn) (steps_of p)"
  unfolding list_all_iff
proof
  fix e assume "e \<in> set (steps_of p)"
  then obtain j where j: "1 \<le> j" "j < length p" "fst e = p ! (j - 1)" "snd e = p ! j"
    using steps_of_nth [of "fst e" "snd e" p] by auto
  show "joined pn e"
  proof (cases "map_of (pr_spans st) (k, j)")
    case None
    with step j(1,2) have "link_key (p ! (j - 1)) (p ! j) \<in> set (map (\<lambda>l. link_key (cl_from l) (cl_to l)) links)"
      by (auto simp: step_kept_def)
    then show ?thesis unfolding joined_def pn j(3,4) by auto
  next
    case (Some s)
    with step j(1,2) have "s \<in> cx_id ` set kept" by (auto simp: step_kept_def)
    then obtain c where c: "c \<in> set kept" "cx_id c = s" by auto
    from sp(1) Some obtain c' where c': "c' \<in> set (pr_connectors st)" "cx_id c' = s" "cx_from c' = paths ! k ! (j - 1)" "cx_to c' = paths ! k ! j"
      unfolding spans_ok_def by blast
    have "c' = c" using c c' kept ids by (metis distinct_map inj_on_def subsetD)
    moreover have "paths ! k ! (j - 1) = p ! (j - 1)" "paths ! k ! j = p ! j" using sp(3) j by (auto simp: prefix_def nth_append)
    ultimately show ?thesis using c(1) c'(3,4) by (auto simp: joined_def pn j(3,4))
  qed
qed

lemma presentation_parts:
  obtains st retained links connectors where
    "st = present_routes nodes ls routes show_unanswered"
    "retained = take (bounded_by 500 budget (length (pr_routes st))) (map snd (pr_nodes st))"
    "links = take (bounded_by 1000 budget (length (pr_routes st) + length retained))
       (filter (\<lambda>l. cl_from l \<in> set (map shown_id retained) \<and> cl_to l \<in> set (map shown_id retained)) (map snd (pr_observed st)))"
    "connectors = take (bounded_by 1000 budget (length (pr_routes st) + length retained) - length links)
       (filter (\<lambda>c. cx_from c \<in> set (map shown_id retained) \<and> cx_to c \<in> set (map shown_id retained)) (pr_connectors st))"
    "pn_links (presentTopology url6 nodes ls routes show_unanswered budget) = links"
    "pn_connectors (presentTopology url6 nodes ls routes show_unanswered budget) = connectors"
    "pn_routes (presentTopology url6 nodes ls routes show_unanswered budget) =
       map (keep_route (map shown_id retained) (pr_spans st) (map cx_id connectors) (map (\<lambda>l. link_key (cl_from l) (cl_to l)) links))
         (enumerate 0 (pr_routes st))"
    "\<exists>kr kp. pn_nodes (presentTopology url6 nodes ls routes show_unanswered budget) =
       sort_key (\<lambda>n. shown_id (sn_node n)) (fst (annotateASN url6 nodes ls routes retained kr kp))"
proof -
  obtain pn where pn: "pn = presentTopology url6 nodes ls routes show_unanswered budget" by simp
  then have "pn = presentTopology url6 nodes ls routes show_unanswered budget" .
  then show thesis unfolding presentTopology_def
  proof (elim let_keep, goal_cases)
    case (1 st retained ids room inside kept keptConnectors keptPairs keptRoutes ann)
    obtain annotated contexts where a: "annotateASN url6 nodes ls routes retained keptRoutes keptPairs = (annotated, contexts)" by fastforce
    note r = 1(11) [unfolded 1(10) a prod.case]
    show thesis
    proof (rule that [of st retained kept keptConnectors])
      show "st = present_routes nodes ls routes show_unanswered" by (rule 1(1))
      show "retained = take (bounded_by 500 budget (length (pr_routes st))) (map snd (pr_nodes st))" by (rule 1(2))
      show "kept = take (bounded_by 1000 budget (length (pr_routes st) + length retained))
          (filter (\<lambda>l. cl_from l \<in> set (map shown_id retained) \<and> cl_to l \<in> set (map shown_id retained)) (map snd (pr_observed st)))"
        unfolding 1(6) 1(5) 1(4) 1(3) ..
      show "keptConnectors = take (bounded_by 1000 budget (length (pr_routes st) + length retained) - length kept)
          (filter (\<lambda>c. cx_from c \<in> set (map shown_id retained) \<and> cx_to c \<in> set (map shown_id retained)) (pr_connectors st))"
        unfolding 1(7) 1(5) 1(4) 1(3) ..
      show "pn_links (presentTopology url6 nodes ls routes show_unanswered budget) = kept"
        "pn_connectors (presentTopology url6 nodes ls routes show_unanswered budget) = keptConnectors"
        unfolding pn [symmetric] by (simp_all add: r)
      show "pn_routes (presentTopology url6 nodes ls routes show_unanswered budget) =
          map (keep_route (map shown_id retained) (pr_spans st) (map cx_id keptConnectors) (map (\<lambda>l. link_key (cl_from l) (cl_to l)) kept))
            (enumerate 0 (pr_routes st))"
        unfolding pn [symmetric] by (simp add: r 1(9) 1(8) 1(3))
      show "\<exists>kr kp. pn_nodes (presentTopology url6 nodes ls routes show_unanswered budget) =
          sort_key (\<lambda>n. shown_id (sn_node n)) (fst (annotateASN url6 nodes ls routes retained kr kp))"
        unfolding pn [symmetric] by (rule exI [of _ keptRoutes], rule exI [of _ keptPairs]) (simp add: r a)
    qed
  qed
qed

lemma drawn_nodes:
  assumes "presenting_ok nodes st" "retained = take n (map snd (pr_nodes st))"
    "\<exists>kr kp. drawn = sort_key (\<lambda>n. shown_id (sn_node n)) (fst (annotateASN url6 nodes links routes retained kr kp))"
  shows "distinct (map (\<lambda>n. shown_id (sn_node n)) drawn)" "(\<lambda>n. shown_id (sn_node n)) ` set drawn = set (map shown_id retained)"
    "length drawn = length retained" "set (map shown_id retained) \<subseteq> fst ` set (pr_nodes st)"
proof -
  have "\<And>x. x \<in> set (pr_nodes st) \<Longrightarrow> (shown_id \<circ> snd) x = fst x" using assms(1) by (auto simp: presenting_ok_def)
  then have "map (shown_id \<circ> snd) (pr_nodes st) = map fst (pr_nodes st)" by (rule map_cong [OF refl])
  then have ids: "map shown_id retained = take n (map fst (pr_nodes st))" unfolding assms(2) take_map [symmetric] map_map by (rule arg_cong)
  then have d: "distinct (map shown_id retained)" using assms(1) by (simp add: presenting_ok_def)
  from assms(3) obtain kr kp where drawn: "drawn = sort_key (\<lambda>n. shown_id (sn_node n)) (fst (annotateASN url6 nodes links routes retained kr kp))"
    by blast
  let ?a = "fst (annotateASN url6 nodes links routes retained kr kp)"
  have same: "map (\<lambda>n. shown_id (sn_node n)) ?a = map shown_id retained"
    using annotated_nodes [OF d, of url6 nodes links routes kr kp] by (metis (no_types, lifting) comp_def map_map map_eq_conv)
  have m: "mset (map (\<lambda>n. shown_id (sn_node n)) drawn) = mset (map shown_id retained)"
    unfolding same [symmetric] drawn by simp
  then show "distinct (map (\<lambda>n. shown_id (sn_node n)) drawn)" using d by (metis mset_eq_imp_distinct_iff)
  show "(\<lambda>n. shown_id (sn_node n)) ` set drawn = set (map shown_id retained)" using mset_eq_setD [OF m] by simp
  show "length drawn = length retained" using mset_eq_length [OF m] by simp
  show "set (map shown_id retained) \<subseteq> fst ` set (pr_nodes st)" unfolding ids using set_take_subset [of n "map fst (pr_nodes st)"] by simp
qed

lemma drawn_budget:
  assumes "length ns \<le> bounded_by 500 (Some b) r" "length ls + length cs \<le> bounded_by 1000 (Some b) (r + length ns)"
  shows "int (length ns + length ls + length cs + r) \<le> max b (int r)"
proof (cases "b \<le> int r")
  case True
  then have "bounded_by 500 (Some b) r = 0" "bounded_by 1000 (Some b) (r + length ns) = 0" by (simp_all add: bounded_by_def)
  with assms show ?thesis by simp
next
  case False
  have "int (length ns) \<le> b - int r" using assms(1) False by (simp add: bounded_by_def le_nat_iff)
  moreover from this have "int (length ls + length cs) \<le> b - int (r + length ns)" using assms(2) by (simp add: bounded_by_def le_nat_iff)
  ultimately show ?thesis by simp
qed

lemma distinct_map_take: "distinct (map f xs) \<Longrightarrow> distinct (map f (take n xs))"
  by (metis distinct_take take_map)

lemma kept_sizes:
  assumes "length retained \<le> bounded_by 500 budget n" "kept = take (bounded_by 1000 budget (n + length retained)) ls"
    "connectors = take (bounded_by 1000 budget (n + length retained) - length kept) cs"
  shows "length kept + length connectors \<le> bounded_by 1000 budget (n + length retained)"
    "length retained \<le> 500" "length kept + length connectors \<le> 1000"
    "case budget of None \<Rightarrow> True | Some b \<Rightarrow> int (length retained + length kept + length connectors + n) \<le> max b (int n)"
proof -
  have "length kept \<le> bounded_by 1000 budget (n + length retained)" unfolding assms(2) by simp
  moreover have "length connectors \<le> bounded_by 1000 budget (n + length retained) - length kept" unfolding assms(3) by simp
  ultimately show l: "length kept + length connectors \<le> bounded_by 1000 budget (n + length retained)" by linarith
  show "length retained \<le> 500" using assms(1) bounded_by_limit [of 500 budget n] by linarith
  show "length kept + length connectors \<le> 1000" using l bounded_by_limit [of 1000 budget "n + length retained"] by linarith
  show "case budget of None \<Rightarrow> True | Some b \<Rightarrow> int (length retained + length kept + length connectors + n) \<le> max b (int n)"
  proof (cases budget)
    case (Some b)
    have "int (length retained + length kept + length connectors + n) \<le> max b (int n)"
      using assms(1) l unfolding Some by (rule drawn_budget)
    with Some show ?thesis by simp
  qed simp
qed

text \<open>A route of the result keeps a prefix of its nodes along what is drawn.\<close>

lemma kept_route_ok:
  assumes "spans_ok (map cr_nodes (pr_routes st)) st" "set connectors \<subseteq> set (pr_connectors st)" "distinct (map cx_id (pr_connectors st))"
    "pn_links pn = kept" "pn_connectors pn = connectors" "k < length (pr_routes st)"
    "r = keep_route ids (pr_spans st) (map cx_id connectors) (map (\<lambda>l. link_key (cl_from l) (cl_to l)) kept) (k, pr_routes st ! k)"
  shows "set (cr_nodes r) \<subseteq> set ids \<and> list_all (joined pn) (steps_of (cr_nodes r))"
proof -
  let ?p = "kept_path ids (\<lambda>i. map_of (pr_spans st) (k, i)) (map cx_id connectors)
    (map (\<lambda>l. link_key (cl_from l) (cl_to l)) kept) [] (cr_nodes (pr_routes st ! k))"
  have r: "cr_nodes r = ?p" by (simp add: assms(7) keep_route_def Let_def)
  have path: "prefix ?p ([] @ cr_nodes (pr_routes st ! k)) \<and> step_kept (\<lambda>i. map_of (pr_spans st) (k, i)) (map cx_id connectors)
      (map (\<lambda>l. link_key (cl_from l) (cl_to l)) kept) ?p \<and> set ?p \<subseteq> set ids"
    by (rule kept_path_ok) (simp_all add: step_kept_def)
  have lt: "k < length (map cr_nodes (pr_routes st))" and at: "map cr_nodes (pr_routes st) ! k = cr_nodes (pr_routes st ! k)"
    using assms(6) by simp_all
  have "list_all (joined pn) (steps_of ?p)"
    by (rule kept_step_joined [OF _ assms(1) lt _ assms(2,3,4,5)]) (use path in \<open>simp_all only: at append_Nil\<close>)
  with path show ?thesis unfolding r by simp
qed

lemma presentation_facts:
  assumes "list_all (\<lambda>r. set (cr_nodes r) \<subseteq> cn_id ` set nodes) routes"
    and pn: "pn = presentTopology url6 nodes links routes show_unanswered budget"
  shows "distinct (map (\<lambda>n. shown_id (sn_node n)) (pn_nodes pn)) \<and> distinct (map cx_id (pn_connectors pn)) \<and>
    cx_id ` set (pn_connectors pn) \<inter> (\<lambda>n. shown_id (sn_node n)) ` set (pn_nodes pn) = {} \<and>
    length (pn_nodes pn) \<le> 500 \<and> length (pn_links pn) + length (pn_connectors pn) \<le> 1000 \<and>
    set (pn_links pn) \<subseteq> set links \<and> length (pn_routes pn) = length routes \<and>
    list_all (\<lambda>r. set (cr_nodes r) \<subseteq> (\<lambda>n. shown_id (sn_node n)) ` set (pn_nodes pn) \<and> list_all (joined pn) (steps_of (cr_nodes r))) (pn_routes pn) \<and>
    (case budget of None \<Rightarrow> True | Some b \<Rightarrow> int (length (pn_nodes pn) + length (pn_links pn) + length (pn_connectors pn) + length (pn_routes pn))
       \<le> max b (int (length routes)))"
proof -
  obtain st retained kept connectors where parts:
    "st = present_routes nodes links routes show_unanswered"
    "retained = take (bounded_by 500 budget (length (pr_routes st))) (map snd (pr_nodes st))"
    "kept = take (bounded_by 1000 budget (length (pr_routes st) + length retained))
       (filter (\<lambda>l. cl_from l \<in> set (map shown_id retained) \<and> cl_to l \<in> set (map shown_id retained)) (map snd (pr_observed st)))"
    "connectors = take (bounded_by 1000 budget (length (pr_routes st) + length retained) - length kept)
       (filter (\<lambda>c. cx_from c \<in> set (map shown_id retained) \<and> cx_to c \<in> set (map shown_id retained)) (pr_connectors st))"
    "pn_links pn = kept" "pn_connectors pn = connectors"
    "pn_routes pn = map (keep_route (map shown_id retained) (pr_spans st) (map cx_id connectors) (map (\<lambda>l. link_key (cl_from l) (cl_to l)) kept))
         (enumerate 0 (pr_routes st))"
    "\<exists>kr kp. pn_nodes pn = sort_key (\<lambda>n. shown_id (sn_node n)) (fst (annotateASN url6 nodes links routes retained kr kp))"
    unfolding pn by (rule presentation_parts [of nodes links routes show_unanswered budget url6]) blast
  have ok: "presenting_ok nodes st" "spans_ok (map cr_nodes (pr_routes st)) st" "observed_ok links st" "length (pr_routes st) = length routes"
    using present_routes_ok [OF assms(1), of links show_unanswered] by (simp_all add: all_ok_def parts(1))
  note drawn = drawn_nodes [OF ok(1) parts(2,8)]
  have "length retained \<le> bounded_by 500 budget (length routes)" by (simp add: parts(2) ok(4))
  note sizes = kept_sizes [OF this parts(3) [unfolded ok(4)] parts(4) [unfolded ok(4)]]
  have kept: "set kept \<subseteq> set links" using ok(3) unfolding parts(3) observed_ok_def
    using set_take_subset subset_trans [OF filter_is_subset] by (metis (no_types, lifting) set_map subset_trans)
  have conn: "set connectors \<subseteq> set (pr_connectors st)" unfolding parts(4) by (auto dest: in_set_takeD)
  have cids: "distinct (map cx_id (pr_connectors st))" "cx_id ` set (pr_connectors st) \<inter> fst ` set (pr_nodes st) = {}"
    using ok(1) by (auto simp: presenting_ok_def)
  have connectors: "distinct (map cx_id connectors)"
    using cids(1) unfolding parts(4) by (simp add: distinct_map_take distinct_map_filter)
  have routes: "list_all (\<lambda>r. set (cr_nodes r) \<subseteq> set (map shown_id retained) \<and> list_all (joined pn) (steps_of (cr_nodes r))) (pn_routes pn)"
    unfolding parts(7) list_all_iff
  proof
    fix r assume "r \<in> set (map (keep_route (map shown_id retained) (pr_spans st) (map cx_id connectors) (map (\<lambda>l. link_key (cl_from l) (cl_to l)) kept))
         (enumerate 0 (pr_routes st)))"
    then obtain k where "k < length (pr_routes st)"
      "r = keep_route (map shown_id retained) (pr_spans st) (map cx_id connectors) (map (\<lambda>l. link_key (cl_from l) (cl_to l)) kept) (k, pr_routes st ! k)"
      by (auto simp: in_set_enumerate_eq)
    from kept_route_ok [OF ok(2) conn cids(1) parts(5,6) this]
    show "set (cr_nodes r) \<subseteq> set (map shown_id retained) \<and> (\<forall>x\<in>set (steps_of (cr_nodes r)). joined pn x)"
      unfolding list_all_iff .
  qed
  have apart: "cx_id ` set connectors \<inter> set (map shown_id retained) = {}" using cids(2) conn drawn(4) by blast
  have count: "length (pn_routes pn) = length routes" by (simp add: parts(7) ok(4))
  show ?thesis
    using drawn(1) connectors apart kept routes sizes(2,3,4) unfolding parts(5,6) drawn(2,3) count by blast
qed

text \<open>
  C6: what is drawn is consistent, when the nodes of all given routes are known: all node ids are distinct, connector ids are distinct and none is
  the id of a node; there are at most 500 nodes and 1000 links and connectors; every drawn link is a
  link of the topology; as many routes are drawn as given, every node of a drawn route is drawn, and
  any two neighbours on it are joined by a drawn link or a drawn connector; and with a budget
  of elements the drawing has no more of them than the larger of the budget and the number of routes.
\<close>

theorem presentation_consistent:
  assumes "list_all (\<lambda>r. set (cr_nodes r) \<subseteq> cn_id ` set nodes) routes"
    and pn: "pn = presentTopology url6 nodes links routes show_unanswered budget"
  shows "distinct (map (\<lambda>n. shown_id (sn_node n)) (pn_nodes pn)) \<and> distinct (map cx_id (pn_connectors pn)) \<and>
    cx_id ` set (pn_connectors pn) \<inter> (\<lambda>n. shown_id (sn_node n)) ` set (pn_nodes pn) = {} \<and>
    length (pn_nodes pn) \<le> 500 \<and> length (pn_links pn) + length (pn_connectors pn) \<le> 1000 \<and>
    set (pn_links pn) \<subseteq> set links \<and> length (pn_routes pn) = length routes \<and>
    list_all (\<lambda>r. set (cr_nodes r) \<subseteq> (\<lambda>n. shown_id (sn_node n)) ` set (pn_nodes pn) \<and> list_all (joined pn) (steps_of (cr_nodes r))) (pn_routes pn) \<and>
    (case budget of None \<Rightarrow> True | Some b \<Rightarrow> int (length (pn_nodes pn) + length (pn_links pn) + length (pn_connectors pn) + length (pn_routes pn))
       \<le> max b (int (length routes)))"
  using assms by (rule presentation_facts)

theorem presentation_consistent_witness:
  "let pn = presentTopology (\<lambda>_. None) (tm_nodes example_view) (tm_links example_view) (tm_routes example_view) True (Some 900) in
     distinct (map (\<lambda>n. shown_id (sn_node n)) (pn_nodes pn)) \<and> length (pn_routes pn) = 1 \<and>
     list_all (\<lambda>r. list_all (joined pn) (steps_of (cr_nodes r))) (pn_routes pn)"
proof -
  have "list_all (\<lambda>r. set (cr_nodes r) \<subseteq> cn_id ` set (tm_nodes example_view)) (tm_routes example_view)"
    by (simp add: example_view_def example_node_def)
  from presentation_consistent [OF this refl, of "\<lambda>_. None" "tm_links example_view" True "Some 900"]
  show ?thesis by (simp add: Let_def example_view_def list_all_iff)
qed

section \<open>Mounting the whole presentation\<close>

lemma mount_each_all:
  "snd m + cost_of xs \<le> budget \<Longrightarrow> mount_each True budget xs m = (fst m @ xs, snd m + cost_of xs)"
proof (induction xs arbitrary: m)
  case (Cons x xs)
  have "0 \<le> cost_of xs" by (induction xs) (use dom_cost_range in \<open>auto intro: add_nonneg_nonneg order_trans [OF zero_le_one]\<close>)
  with Cons.prems have "mount True budget x m = ((fst m @ [x], snd m + dom_cost x), True)" by (simp add: mount_def)
  with Cons.IH [of "(fst m @ [x], snd m + dom_cost x)"] Cons.prems show ?case by (simp add: mount_each_def add.assoc)
qed (simp add: mount_each_def)

lemma topology_items_cost:
  "cost_of (topology_items pn) = 3 + int (length (pn_nodes pn) + length (pn_links pn) + length (pn_connectors pn) + length (pn_routes pn))"
proof -
  have "cost_of (map MNode xs) = int (length xs)" for xs by (induction xs) simp_all
  moreover have "cost_of (map MLink xs) = int (length xs)" for xs by (induction xs) simp_all
  moreover have "cost_of (map MConnector xs) = int (length xs)" for xs by (induction xs) simp_all
  moreover have "cost_of (map MRoute xs) = int (length xs)" for xs by (induction xs) simp_all
  ultimately show ?thesis by (simp add: topology_items_def)
qed

text \<open>
  C18: the budgets of the two stages agree: when the graph can be rendered at all and its canvas and
  inspector fit, every node, link, connector and route of the presentation is mounted, in order; the
  mounting drops nothing that the presentation kept.
\<close>

theorem graph_mounted_whole:
  assumes "planTopologyDOM url6 collate model o' = Some p" "dp_view p = TopologyView" "dp_renderable p" "dp_available p \<ge> 183"
  shows "dp_items p = topology_items (dp_presentation p)"
  using assms(1)
proof (rule plan_parts, goal_cases)
  case (1 b nodes links routes g budget dynamic targets markers labels)
  have dynamic: "dynamic \<ge> 3" "budget = Some (dynamic - 3)"
    using assms(2,4) by (simp_all add: 1(2,6,13) reserve_of_def)
  have "in_budget budget \<lparr>pl_nodes = [], pl_links = [], pl_markers = [], pl_segments = [], pl_cost = 0\<rparr>"
    using dynamic by (simp add: in_budget_def)
  moreover have known: "routes_known nodes routes" unfolding 1(5) by (rule data_routes_facts)
  ultimately obtain sts where sts: "planned_ok nodes links (int (length sts)) (go_planning g)" "in_budget budget (go_planning g)"
      "routes = [] \<or> states_ok nodes (go_planning g) sts" "go_routes g = map planned_route sts" "subseq (map rs_route sts) (fairRouteOrder routes)"
    using grow_plan_ok unfolding 1(7) by metis
  have few: "int (length (go_routes g)) \<le> dynamic - 3"
    using sts(1,2,4) by (simp add: planned_ok_def in_budget_def dynamic(2))
  have "routes = [] \<Longrightarrow> sts = []" using sts(5) mset_eq_setD [OF fair_order_mset [of routes]] by (auto dest: subseq_set)
  then have "list_all (\<lambda>r. set (cr_nodes r) \<subseteq> cn_id ` set (pl_nodes (go_planning g))) (go_routes g)"
    using sts(3,4) by (auto simp: states_ok_def list_all_iff path_ok_def planned_ids_def planned_route_def)
  from presentation_facts [OF this 1(10)] have "int (length (pn_nodes (dp_presentation p)) + length (pn_links (dp_presentation p)) +
      length (pn_connectors (dp_presentation p)) + length (pn_routes (dp_presentation p))) \<le> max (dynamic - 3) (int (length (go_routes g)))"
    by (simp add: dynamic(2))
  with few have "cost_of (topology_items (dp_presentation p)) \<le> dynamic" by (simp add: topology_items_cost)
  then show ?case
    using 1(11) assms(2,3) mount_each_all [of "([], 0)" "topology_items (dp_presentation p)" dynamic] by (simp add: mount_view_def)
qed

theorem graph_mounted_whole_witness:
  "\<exists>p. planTopologyDOM (\<lambda>_. None) (\<lambda>x. x) example_view example_options = Some p \<and> dp_items p = topology_items (dp_presentation p)"
proof -
  have "case planTopologyDOM (\<lambda>_. None) (\<lambda>x. x) example_view example_options of None \<Rightarrow> False
     | Some p \<Rightarrow> dp_view p = TopologyView \<and> dp_renderable p \<and> dp_available p \<ge> 183" by code_simp
  then obtain p where p: "planTopologyDOM (\<lambda>_. None) (\<lambda>x. x) example_view example_options = Some p" "dp_view p = TopologyView"
    "dp_renderable p" "dp_available p \<ge> 183" by (auto split: option.splits)
  with graph_mounted_whole [OF p] show ?thesis by blast
qed

end
