(* ===== verification/Legacy_Facts.thy ===== *)
theory Legacy_Facts
  imports Legacy_Adapter
begin

text \<open>
  The loops of the adapter of reports without a compact topology: the walk of an attempt and the
  selection of edges in turns.  Both end, the walk because every turn visits another node, the
  selection because every turn uses up some effort; what the selection leaves is closed.
\<close>

section \<open>The walk\<close>

lemma walk_fuel:
  assumes "finite S" "\<And>i l n k. (l, (n, k)) \<in> set (out i) \<Longrightarrow> tn_id n \<in> S"
  shows "card (S - set visited) < fuel \<Longrightarrow> walk (fuel + m) out visited current = walk fuel out visited current"
proof (induction fuel arbitrary: visited current)
  case (Suc fuel)
  let ?P = "\<lambda>(l, (n, k)). tn_id n \<notin> set visited \<and> tn_hop n > tn_hop (fst current)"
  show ?case
  proof (cases "List.find ?P (out (tn_id (fst current)))")
    case (Some x)
    obtain l n k where x: "x = (l, (n, k))" by (cases x) auto
    with find_mem [OF Some] have "tn_id n \<in> S - set visited" using assms(2) by auto
    then have "card (S - set (tn_id n # visited)) < card (S - set visited)"
      using assms(1) by (intro psubset_card_mono) auto
    with Suc have "walk (fuel + m) out (tn_id n # visited) (n, k) = walk fuel out (tn_id n # visited) (n, k)" by simp
    with Some x show ?thesis by simp
  qed simp
qed simp

lemma by_id_mem: "by_id ordered i = Some p \<Longrightarrow> p \<in> set ordered \<and> tn_id (fst p) = i"
  unfolding by_id_def by (auto dest!: find_mem)

lemma fresh_subset: "set (foldl (\<lambda>ls l. if Q ls l then ls else ls @ [l]) acc xs) \<subseteq> set acc \<union> set xs"
proof (induction xs arbitrary: acc)
  case (Cons x xs)
  from Cons.IH [of "if Q acc x then acc else acc @ [x]"] show ?case by (auto split: if_splits)
qed simp

lemma outgoing_known: "(l, p) \<in> set (outgoing_of ordered links i) \<Longrightarrow> p \<in> set ordered \<and> l \<in> set links \<and> tl_from l = i \<and> tn_id (fst p) = tl_to l"
  unfolding outgoing_of_def Let_def by (auto dest!: subsetD [OF fresh_subset]) (use by_id_mem in force)+

lemma walk_long_enough:
  assumes "first \<in> set ordered"
  shows "walk (length ordered + m) (outgoing_of ordered links) [tn_id (fst first)] first =
    walk (length ordered) (outgoing_of ordered links) [tn_id (fst first)] first"
proof (rule walk_fuel)
  let ?S = "(tn_id \<circ> fst) ` set ordered"
  show "finite ?S" by simp
  show "tn_id n \<in> ?S" if "(l, (n, k)) \<in> set (outgoing_of ordered links i)" for i l n k
    using outgoing_known [OF that] by force
  have "card (?S - {tn_id (fst first)}) < card ?S"
    using assms by (intro psubset_card_mono) auto
  also have "\<dots> \<le> length ordered" using card_image_le [of "set ordered"] card_length le_trans by blast
  finally show "card (?S - set [tn_id (fst first)]) < length ordered" by simp
qed

text \<open>The walk goes along links to ever greater hops.\<close>

fun strides :: "(jstr \<Rightarrow> (trace_link \<times> placed) list) \<Rightarrow> placed \<Rightarrow> (placed \<times> trace_link) list \<Rightarrow> bool" where
  "strides out current [] = True"
| "strides out current ((p, l) # steps) = ((l, p) \<in> set (out (tn_id (fst current))) \<and> tn_hop (fst current) < tn_hop (fst p) \<and>
     strides out p steps)"

lemma walk_strides: "strides out current (walk fuel out visited current)"
proof (induction fuel arbitrary: visited current)
  case (Suc fuel)
  then show ?case by (auto split: option.splits dest!: find_mem)
qed simp

section \<open>The selection\<close>

lemma every_position: "p < n \<Longrightarrow> \<exists>s < n. (c + s) mod n = (p :: nat)"
proof -
  assume p: "p < n"
  have "(c + (p + (n - c mod n)) mod n) mod n = (c mod n + (p + (n - c mod n))) mod n" by (metis mod_add_eq mod_mod_trivial)
  also have "c mod n + (p + (n - c mod n)) = p + n"
  proof -
    have "c mod n < n" using p by (intro mod_less_divisor) simp
    then show ?thesis by arith
  qed
  finally have "(c + (p + (n - c mod n)) mod n) mod n = p" using p by simp
  then show ?thesis using p mod_less_divisor by (metis gr_zeroI not_less_zero)
qed

lemma no_next_route:
  assumes "next_route tg = None" "g \<in> set (tg_routes tg)"
  shows "\<not> extendable g"
proof -
  obtain p where p: "p < length (tg_routes tg)" "g = tg_routes tg ! p" using assms(2) by (auto simp: in_set_conv_nth)
  obtain s where s: "s < length (tg_routes tg)" "(tg_cursor tg + s) mod length (tg_routes tg) = p" using every_position [OF p(1)] by blast
  have "\<forall>q \<in> set (map (\<lambda>scanned. (tg_cursor tg + scanned) mod length (tg_routes tg)) [0..<length (tg_routes tg)]).
      \<not> extendable (tg_routes tg ! q)"
    using assms(1) by (auto simp: next_route_def find_None_iff)
  then show ?thesis using s p(2) by auto
qed

lemma idle_turn: "take_turn tg s = (tg', s', False) \<Longrightarrow> next_route tg = None"
  by (auto simp: take_turn_def split: option.splits prod.splits)

lemma idle_round: "play_round tgs s = (tgs', s', False) \<Longrightarrow> tg \<in> set tgs \<Longrightarrow> next_route tg = None"
  by (induction tgs arbitrary: s tgs' s') (auto split: prod.splits dest: idle_turn)

definition next_round :: "turn_group list \<times> selection \<Rightarrow> turn_group list \<times> selection" where
  "next_round x = (case play_round (fst x) (snd x) of (tgs, s, active) \<Rightarrow> (tgs, s))"

definition exhausted :: "turn_group list \<Rightarrow> bool" where
  "exhausted tgs \<longleftrightarrow> (\<forall>tg \<in> set tgs. \<forall>g \<in> set (tg_routes tg). \<not> extendable g)"

lemma select_rounds: "\<exists>n \<le> total_effort tgs. select tgs s = (next_round ^^ n) (tgs, s) \<and> exhausted (fst (select tgs s))"
proof (induction tgs s rule: select.induct)
  case (1 tgs s)
  obtain tgs' s' active where r: "play_round tgs s = (tgs', s', active)" by (cases "play_round tgs s") auto
  show ?case
  proof (cases active)
    case True
    from 1 [OF r [symmetric] refl True] obtain n where n: "n \<le> total_effort tgs'" "select tgs' s' = (next_round ^^ n) (tgs', s')"
      "exhausted (fst (select tgs' s'))" by blast
    have "total_effort tgs' < total_effort tgs" using play_round_effort [OF r] True by simp
    moreover have "select tgs s = (next_round ^^ Suc n) (tgs, s)"
      using n(2) r True by (simp add: select.simps [of tgs s] funpow_swap1 next_round_def)
    moreover have "select tgs s = select tgs' s'" using r True by (simp add: select.simps [of tgs s])
    ultimately show ?thesis using n by (intro exI [of _ "Suc n"]) auto
  next
    case False
    then have same: "tgs' = tgs" "s' = s" using play_round_effort [OF r] by auto
    then have "select tgs s = (tgs, s)" using r False by (simp add: select.simps [of tgs s])
    moreover have "exhausted tgs" using idle_round r False no_next_route by (fastforce simp: exhausted_def)
    ultimately show ?thesis by (intro exI [of _ 0]) simp
  qed
qed

lemma sum_groups:
  assumes "finite S" "f ` set xs \<subseteq> S"
  shows "(\<Sum>i\<in>S. sum_list (map h (filter (\<lambda>x. f x = i) xs))) = (sum_list (map h xs) :: nat)"
  using assms(2)
proof (induction xs)
  case (Cons x xs)
  have "sum_list (map h (filter (\<lambda>x. f x = i) (x # xs))) = (if i = f x then h x else 0) + sum_list (map h (filter (\<lambda>x. f x = i) xs))" for i
    by simp
  with Cons assms(1) show ?case by (simp add: sum.distrib)
qed simp

lemma start_effort: "total_effort (group_routes routes) = sum_list (map (\<lambda>r. Suc (length (lr_observations r))) routes)"
proof -
  let ?h = "\<lambda>r. Suc (length (lr_observations r))"
  have "total_effort (group_routes routes) =
      sum_list (map (\<lambda>i. sum_list (map ?h (filter (\<lambda>r. lr_result r = i) routes))) (sort (remdups (map lr_result routes))))"
    by (simp add: total_effort_def group_routes_def comp_def effort_def)
  also have "\<dots> = (\<Sum>i\<in>set (map lr_result routes). sum_list (map ?h (filter (\<lambda>r. lr_result r = i) routes)))"
    by (simp add: sum_list_distinct_conv_sum_set)
  also have "\<dots> = sum_list (map ?h routes)" by (rule sum_groups) auto
  finally show ?thesis .
qed

section \<open>What is selected\<close>

definition edges_taken :: "selection \<Rightarrow> growing \<Rightarrow> bool" where
  "edges_taken s g \<longleftrightarrow> gr_accepted g \<le> length (lr_observations (gr_route g)) - 1 \<and>
     (\<forall>i < gr_accepted g. observed_key g i \<in> set (se_nodes s) \<and> observed_key g (Suc i) \<in> set (se_nodes s) \<and>
        link_key (observed_key g i) (observed_key g (Suc i)) \<in> set (se_links s)) \<and>
     (gr_blocked g \<longrightarrow> se_node_limited s \<or> se_link_limited s)"

definition selection_ok :: "selection \<Rightarrow> bool" where
  "selection_ok s \<longleftrightarrow> distinct (se_nodes s) \<and> length (se_nodes s) \<le> DATA_NODES \<and> distinct (se_links s) \<and> length (se_links s) \<le> DATA_LINKS"

definition grows :: "selection \<Rightarrow> selection \<Rightarrow> bool" where
  "grows s t \<longleftrightarrow> set (se_nodes s) \<subseteq> set (se_nodes t) \<and> set (se_links s) \<subseteq> set (se_links t) \<and>
     (se_node_limited s \<longrightarrow> se_node_limited t) \<and> (se_link_limited s \<longrightarrow> se_link_limited t)"

definition taken :: "turn_group list \<Rightarrow> selection \<Rightarrow> bool" where
  "taken tgs s \<longleftrightarrow> (\<forall>tg \<in> set tgs. \<forall>g \<in> set (tg_routes tg). edges_taken s g)"

lemma grows_refl [simp]: "grows s s"
  by (simp add: grows_def)

lemma grows_trans: "grows s t \<Longrightarrow> grows t u \<Longrightarrow> grows s u"
  by (auto simp: grows_def)

lemma edges_mono: "edges_taken s g \<Longrightarrow> grows s t \<Longrightarrow> edges_taken t g"
  by (auto simp: edges_taken_def grows_def subset_iff)

lemma add_new_bound: "length (add_new t (add_new f ns)) \<le> length ns + ((if f \<in> set ns then 0 else 1) + (if t \<in> set ns then 0 else 1))"
  by (simp add: length_add_new)

lemma accept_edge:
  assumes "edges_taken s g" "extendable g" "grows s s'"
    "observed_key g (gr_accepted g) \<in> set (se_nodes s')" "observed_key g (Suc (gr_accepted g)) \<in> set (se_nodes s')"
    "link_key (observed_key g (gr_accepted g)) (observed_key g (Suc (gr_accepted g))) \<in> set (se_links s')"
  shows "edges_taken s' (g\<lparr>gr_accepted := gr_accepted g + 1\<rparr>)"
proof -
  have k: "observed_key (g\<lparr>gr_accepted := Suc (gr_accepted g)\<rparr>) i = observed_key g i" for i by (simp add: observed_key_def)
  show ?thesis using edges_mono [OF assms(1,3)] assms(2,4,5,6) by (simp add: edges_taken_def k extendable_def All_less_Suc)
qed

lemma block_route:
  assumes "edges_taken s g" "grows s s'" "se_node_limited s' \<or> se_link_limited s'"
  shows "edges_taken s' (g\<lparr>gr_blocked := True\<rparr>)"
  using edges_mono [OF assms(1,2)] assms(3) by (simp add: edges_taken_def observed_key_def)

lemma extend_ok:
  assumes "extendable g" "edges_taken s g" "selection_ok s" "extend_route g s = (g', s')"
  shows "edges_taken s' g' \<and> selection_ok s' \<and> grows s s'"
proof -
  let ?f = "observed_key g (gr_accepted g)" and ?t = "observed_key g (gr_accepted g + 1)"
  let ?nodes = "length (se_nodes s) + ((if ?f \<in> set (se_nodes s) then 0 else 1) + (if ?t \<in> set (se_nodes s) then 0 else 1))"
  let ?links = "length (se_links s) + (if link_key ?f ?t \<in> set (se_links s) then 0 else 1)"
  let ?s = "s\<lparr>se_nodes := add_new ?t (add_new ?f (se_nodes s)), se_links := add_new (link_key ?f ?t) (se_links s)\<rparr>"
  consider "g' = g\<lparr>gr_blocked := True\<rparr>" "s' = s\<lparr>se_node_limited := True\<rparr>"
    | "g' = g\<lparr>gr_blocked := True\<rparr>" "s' = s\<lparr>se_link_limited := True\<rparr>"
    | "?nodes \<le> DATA_NODES" "?links \<le> DATA_LINKS" "g' = g\<lparr>gr_accepted := gr_accepted g + 1\<rparr>" "s' = ?s"
    using assms(4) unfolding extend_route_def Let_def by (auto simp only: not_less prod.inject split: if_split_asm)
  then show ?thesis
  proof cases
    case 1
    then have "grows s s'" by (simp add: grows_def)
    then show ?thesis using block_route [OF assms(2)] 1 assms(3) by (simp add: selection_ok_def)
  next
    case 2
    then have "grows s s'" by (simp add: grows_def)
    then show ?thesis using block_route [OF assms(2)] 2 assms(3) by (simp add: selection_ok_def)
  next
    case 3
    have "grows s ?s" by (auto simp: grows_def)
    then have "edges_taken ?s g'" unfolding 3(3) by (rule accept_edge [OF assms(2,1)]) simp_all
    moreover have "length (add_new (link_key ?f ?t) (se_links s)) \<le> DATA_LINKS" unfolding length_add_new by (rule 3(2))
    then have "selection_ok ?s"
      using assms(3) le_trans [OF add_new_bound 3(1)] by (simp add: selection_ok_def)
    ultimately show ?thesis using \<open>grows s ?s\<close> 3(4) by simp
  qed
qed

lemma turn_ok:
  assumes "\<forall>g \<in> set (tg_routes tg). edges_taken s g" "selection_ok s" "take_turn tg s = (tg', s', a)"
  shows "(\<forall>g \<in> set (tg_routes tg'). edges_taken s' g) \<and> selection_ok s' \<and> grows s s'"
proof (cases "next_route tg")
  case None then show ?thesis using assms by (simp add: take_turn_def)
next
  case (Some p)
  obtain g t where e: "extend_route (tg_routes tg ! p) s = (g, t)" by fastforce
  note p = next_route_bound [OF Some]
  have ok: "edges_taken t g \<and> selection_ok t \<and> grows s t"
    using extend_ok [OF p(2) _ assms(2) e] assms(1) p(1) by simp
  have "set (tg_routes tg') \<subseteq> insert g (set (tg_routes tg))" "s' = t"
    using assms(3) Some e set_update_subset_insert [of "tg_routes tg" p g] by (auto simp: take_turn_def)
  then show ?thesis using ok assms(1) edges_mono by blast
qed

lemma round_ok:
  assumes "taken tgs s" "selection_ok s" "play_round tgs s = (tgs', s', a)"
  shows "taken tgs' s' \<and> selection_ok s' \<and> grows s s'"
  using assms
proof (induction tgs arbitrary: s tgs' s' a)
  case (Cons tg tgs)
  obtain tg1 s1 a1 where t: "take_turn tg s = (tg1, s1, a1)" by (cases "take_turn tg s") auto
  obtain tgs2 s2 a2 where r: "play_round tgs s1 = (tgs2, s2, a2)" by (cases "play_round tgs s1") auto
  have one: "(\<forall>g \<in> set (tg_routes tg1). edges_taken s1 g) \<and> selection_ok s1 \<and> grows s s1"
    using turn_ok [OF _ Cons.prems(2) t] Cons.prems(1) by (simp add: taken_def)
  then have "taken tgs s1" using Cons.prems(1) edges_mono by (simp add: taken_def) blast
  with one Cons.IH [OF _ _ r] have two: "taken tgs2 s2 \<and> selection_ok s2 \<and> grows s1 s2" by simp
  have "tgs' = tg1 # tgs2" "s' = s2" using Cons.prems(3) t r by auto
  then show ?case using one two edges_mono grows_trans by (simp add: taken_def) blast
qed (simp add: taken_def)

lemma select_ok: "taken tgs s \<Longrightarrow> selection_ok s \<Longrightarrow> taken (fst (select tgs s)) (snd (select tgs s)) \<and> selection_ok (snd (select tgs s))"
proof (induction tgs s rule: select.induct)
  case (1 tgs s)
  obtain tgs' s' active where r: "play_round tgs s = (tgs', s', active)" by (cases "play_round tgs s") auto
  from round_ok [OF 1(2,3) r] have "taken tgs' s'" "selection_ok s'" by auto
  with 1(1) [OF r [symmetric] refl] r show ?case by (simp add: select.simps [of tgs s])
qed

lemma selection_starts: "taken (group_routes routes) (start_selection routes)" "selection_ok (start_selection routes)"
  by (auto simp: taken_def group_routes_def edges_taken_def selection_ok_def start_selection_def local_start_def
      DATA_NODES_def DATA_LINKS_def split: option.splits)

text \<open>
  C35: the walk of an attempt ends: as many turns as there are nodes are enough, further ones add
  nothing, and every step follows one of the links to a node of greater hop.
\<close>

theorem walk_ends:
  assumes "ordered_nodes t = first # others"
  shows "walk (length (first # others) + m) (outgoing_of (first # others) links) [tn_id (fst first)] first =
      walk (length (first # others)) (outgoing_of (first # others) links) [tn_id (fst first)] first \<and>
    strides (outgoing_of (first # others) links) first
      (walk (length (first # others)) (outgoing_of (first # others) links) [tn_id (fst first)] first)"
  by (intro conjI walk_long_enough walk_strides) simp

text \<open>
  C17: the selection loop ends: after at most as many rounds as the routes have observations, and one
  more per route, no route can be extended, and that state is the result.
\<close>

theorem selection_terminates:
  "\<exists>n. n \<le> sum_list (map (\<lambda>r. Suc (length (lr_observations r))) routes) \<and>
     select (group_routes routes) (start_selection routes) = (next_round ^^ n) (group_routes routes, start_selection routes) \<and>
     exhausted (fst (select (group_routes routes) (start_selection routes)))"
  using select_rounds [of "group_routes routes" "start_selection routes"] unfolding start_effort by blast

lemma selection_ends_closed:
  assumes "select (group_routes routes) (start_selection routes) = (tgs, s)" "tg \<in> set tgs" "g \<in> set (tg_routes tg)"
  shows "edges_taken s g" "gr_accepted g = length (lr_observations (gr_route g)) - 1 \<or> se_node_limited s \<or> se_link_limited s"
proof -
  have "taken tgs s" using select_ok [OF selection_starts, of routes] assms(1) by simp
  then show e: "edges_taken s g" using assms(2,3) by (simp add: taken_def)
  have "\<not> extendable g"
    using select_rounds [of "group_routes routes" "start_selection routes"] assms by (auto simp: exhausted_def)
  with e show "gr_accepted g = length (lr_observations (gr_route g)) - 1 \<or> se_node_limited s \<or> se_link_limited s"
    by (auto simp: edges_taken_def extendable_def)
qed

text \<open>
  C16: the selection keeps its limits and is closed: at most 500 nodes and 1000 links, each once; the
  ends and the link of every accepted edge are selected; and a route that is not taken whole was
  stopped by a limit that is reported.
\<close>

theorem selection_closed:
  assumes "select (group_routes routes) (start_selection routes) = (tgs, s)"
  shows "distinct (se_nodes s) \<and> length (se_nodes s) \<le> 500 \<and> distinct (se_links s) \<and> length (se_links s) \<le> 1000 \<and>
    (\<forall>tg \<in> set tgs. \<forall>g \<in> set (tg_routes tg).
       (\<forall>i < gr_accepted g. observed_key g i \<in> set (se_nodes s) \<and> observed_key g (Suc i) \<in> set (se_nodes s) \<and>
          link_key (observed_key g i) (observed_key g (Suc i)) \<in> set (se_links s)) \<and>
       (gr_accepted g = length (lr_observations (gr_route g)) - 1 \<or> se_node_limited s \<or> se_link_limited s))"
proof -
  have "selection_ok s" using select_ok [OF selection_starts, of routes] assms by simp
  then show ?thesis using selection_ends_closed [OF assms]
    by (auto simp: selection_ok_def DATA_NODES_def DATA_LINKS_def edges_taken_def)
qed

section \<open>An example\<close>

definition example_node :: "string \<Rightarrow> int \<Rightarrow> trace_node" where
  "example_node i hop = \<lparr>tn_id = js i, tn_hop = hop, tn_address = [], tn_latency = jint 1, tn_status = js ''healthy'', tn_public = False, tn_geo = None, tn_asn = None\<rparr>"

definition example_observed :: "string \<Rightarrow> observation" where
  "example_observed k = \<lparr>ob_key = js k, ob_kind = js ''ip'', ob_address = js k, ob_node = example_node k 1\<rparr>"

definition example_route :: "nat \<Rightarrow> string list \<Rightarrow> legacy_route" where
  "example_route i ks = \<lparr>lr_result = i, lr_address = js ''h'', lr_attempt = 1, lr_occurrence = 0, lr_status = js ''healthy'', lr_reached = True,
     lr_complete = True, lr_observations = map example_observed ks, lr_edges = map (\<lambda>_. js ''healthy'') (tl ks)\<rparr>"

definition example_routes :: "legacy_route list" where
  "example_routes = [example_route 0 [''a'', ''b'', ''c''], example_route 1 [''a'', ''d'']]"

definition example_trace :: trace_topology where
  "example_trace = \<lparr>tt_reached = True, tt_nodes = [example_node ''a'' 0, example_node ''c'' 2, example_node ''b'' 1],
     tt_links = [\<lparr>tl_from = js ''a'', tl_to = js ''b'', tl_status = js ''healthy'', tl_delta = None\<rparr>,
       \<lparr>tl_from = js ''b'', tl_to = js ''c'', tl_status = js ''healthy'', tl_delta = None\<rparr>]\<rparr>"

lemma example_ordered:
  "ordered_nodes example_trace = [(example_node ''a'' 0, 0), (example_node ''b'' 1, 2), (example_node ''c'' 2, 1)]"
  by (simp add: ordered_nodes_def example_trace_def example_node_def upt_rec eval_nat_numeral)

theorem walk_ends_witness:
  "strides (outgoing_of (ordered_nodes example_trace) (tt_links example_trace)) (example_node ''a'' 0, 0)
     (walk 3 (outgoing_of (ordered_nodes example_trace) (tt_links example_trace)) [js ''a''] (example_node ''a'' 0, 0))"
proof -
  have "length [(example_node ''a'' 0, 0), (example_node ''b'' 1, 2 :: nat), (example_node ''c'' 2, 1)] = 3"
    "tn_id (fst (example_node ''a'' 0, 0 :: nat)) = js ''a''" by (simp_all add: example_node_def)
  with walk_ends [OF example_ordered, of 1 "tt_links example_trace"] show ?thesis unfolding example_ordered by metis
qed

theorem selection_closed_witness:
  "length (se_nodes (snd (select (group_routes example_routes) (start_selection example_routes)))) \<le> 500 \<and>
   se_nodes (snd (select (group_routes example_routes) (start_selection example_routes))) = map js [''a'', ''b'', ''d'', ''c'']"
proof
  let ?x = "select (group_routes example_routes) (start_selection example_routes)"
  show "length (se_nodes (snd ?x)) \<le> 500" using selection_closed [of example_routes "fst ?x" "snd ?x"] by simp
  show "se_nodes (snd ?x) = map js [''a'', ''b'', ''d'', ''c'']" by code_simp
qed

text \<open>
  An id may contain the unit that joins the ids of a link: keys of different links can be equal.
\<close>
lemma link_keys_collide: "\<exists>a b c d. (a, b) \<noteq> (c, d) \<and> link_key a b = link_key c d"
  by (rule exI [of _ "[97]"], rule exI [of _ "[98, 0, 99]"], rule exI [of _ "[97, 0, 98]"], rule exI [of _ "[99]"])
    (simp add: link_key_def)

end
