(* ===== verification/Render.thy ===== *)
theory Render
  imports Plan_Facts
begin

text \<open>
  The renderer of a plan (\<open>materializeTopologyItem\<close> and \<open>TopologyRenderCoordinator\<close> of
  \<open>frontend/topology-renderer.js\<close>): one session at a time inserts the chunks of its plan, one per
  scheduled callback, into the panel it owns, and organises the panel after each.  An interleaving is a sequence of operations; each is
  one synchronous segment of the source, for which \<open>ownsRequest\<close> has one answer.  The canvas
  drawing itself, the texts of the elements, and the listeners are not modelled.
\<close>

section \<open>Elements of an item\<close>

definition ROUTE_PALETTE :: "string list" where
  "ROUTE_PALETTE = [''#c9ff46'', ''#67d5ff'', ''#ff72a5'', ''#ff9f68'', ''#52e0b1'', ''#b58cff'', ''#ffe178'', ''#7ba4ff'',
     ''#ef96d8'', ''#5ce6e6'', ''#a7db77'', ''#e9b080'', ''#90b8dc'', ''#e6a6b5'', ''#92d3b5'', ''#d0b5ed'', ''#ddd28c'',
     ''#b5d1ec'', ''#eca477'', ''#91dce4'']"

definition routeColor :: "int \<Rightarrow> string" where
  "routeColor i = ROUTE_PALETTE ! (if i \<ge> 0 then nat i mod length ROUTE_PALETTE else 0)"

definition editable :: "shown \<Rightarrow> jstr option" where
  "editable n = (case n of Seen x \<Rightarrow> (case cn_address x of
       Some a \<Rightarrow> if a \<noteq> [] \<and> cn_kind x \<noteq> js ''local'' then Some a else None | None \<Rightarrow> None)
     | Folded g \<Rightarrow> None)"

definition shown_status :: "shown \<Rightarrow> jstr" where
  "shown_status n = (case n of Seen x \<Rightarrow> cn_status x | Folded g \<Rightarrow> js ''unknown'')"

definition truth :: "bool \<Rightarrow> jstr" where
  "truth b = (if b then js ''true'' else js ''false'')"

definition node_element :: "shown \<Rightarrow> element" where
  "node_element n = Element (if editable n = None then ''div'' else ''button'') ''topology-node''
     ((case editable n of None \<Rightarrow> [] | Some a \<Rightarrow> [(''label-address'', a)]) @
      [(''node-id'', shown_id n), (''status'', shown_status n)]) []"

definition route_element :: "model_route \<Rightarrow> element" where
  "route_element r = Element ''div'' ''topology-route'' [(''result-index'', nat_text (cr_result r)),
     (''attempt'', nat_text (cr_attempt r)), (''status'', cr_status r), (''reached'', truth (cr_reached r)),
     (''complete'', truth (cr_complete r)), (''node-ids'', join [cSpace] (cr_nodes r))] []"

definition leaf :: "string \<Rightarrow> element" where
  "leaf t = Element t [] [] []"

fun materializeTopologyItem :: "mount_item \<Rightarrow> element" where
  "materializeTopologyItem MCanvas = Element ''canvas'' ''topology-canvas'' [(''mode'', js ''2d''), (''dpr'', js ''1'')] []"
| "materializeTopologyItem MInspector = Element ''details'' ''topology-inspector'' [] [leaf ''summary'']"
| "materializeTopologyItem (MNode n) = node_element (sn_node n)"
| "materializeTopologyItem (MConnector c) = Element ''div'' ''topology-connector'' [(''from'', cx_from c), (''to'', cx_to c),
     (''kind'', if cx_skipped c = None then js ''fold'' else js ''bypass'')] []"
| "materializeTopologyItem (MLink l) = Element ''div'' ''topology-link'' [(''from'', cl_from l), (''to'', cl_to l), (''status'', cl_status l)] []"
| "materializeTopologyItem (MRoute r) = route_element r"
| "materializeTopologyItem MGeoCanvas = Element ''canvas'' ''topology-geo-canvas'' [] []"
| "materializeTopologyItem MLegend = Element ''section'' ''geo-target-legend'' [] [leaf ''p'']"
| "materializeTopologyItem (MTarget r) = Element ''div'' ''geo-target-entry'' [(''result-index'', nat_text (cr_result r))] []"
| "materializeTopologyItem MAccessibleList = Element ''div'' ''topology-geo-list'' [] []"
| "materializeTopologyItem (MAccessible m) = Element ''button'' [] [(''node-id'', fst m)] []"
| "materializeTopologyItem MLabelShell = Element ''table'' ''topology-labels'' [] [leaf ''caption'', leaf ''thead'', leaf ''tbody'']"
| "materializeTopologyItem (MLabelRow r) = Element ''tr'' [] [] [leaf ''td'', leaf ''td'', leaf ''td'',
     Element ''button'' [] [(''node-id'', lb_node r)] []]"

lemma materialized_cost: "int (elements (materializeTopologyItem x)) = dom_cost x"
  by (cases x) (simp_all add: leaf_def node_element_def route_element_def)

section \<open>The coordinator\<close>

text \<open>A panel has a root and a status line.  Who owns them is a session of this coordinator, by its
  generation, or another one.\<close>

datatype holder = Free | Held nat | Foreign
datatype panel = GraphPanel | MapPanel
datatype reason = ByUser | Replaced | Disposed | OtherReason

record panel_state =
  ps_root :: "element list"
  ps_root_holder :: holder
  ps_status_holder :: holder
  ps_busy :: "bool option"

text \<open>What \<open>onState\<close> is told, with the generation: the elements inserted and planned, whether the
  view could be rendered, whether nothing was observed.\<close>

datatype notice = Rendering nat nat int | RenderReady nat nat int | NotRenderable nat | EmptyView nat | RenderCancelled nat reason
  | RenderError nat

text \<open>The callback a session has scheduled: a chunk, the drawing of the graph, or of the map, and what
  comes next.\<close>

datatype callback = ChunkAt nat | DrawGraph nat | DrawMap nat

record session =
  ss_generation :: nat
  ss_panel :: panel
  ss_view :: view_kind
  ss_plan :: "dom_plan option"
  ss_aborted :: bool
  ss_scheduled :: "callback option"
  ss_committed :: nat
  ss_finished :: bool
  ss_limited :: bool

record coordinator =
  co_generation :: nat
  co_current :: "session option"
  co_graph :: panel_state
  co_map :: panel_state
  co_outside :: nat
  co_notices :: "notice list"

definition panel_of :: "panel \<Rightarrow> coordinator \<Rightarrow> panel_state" where
  "panel_of k c = (case k of GraphPanel \<Rightarrow> co_graph c | MapPanel \<Rightarrow> co_map c)"

definition on_panel :: "panel \<Rightarrow> (panel_state \<Rightarrow> panel_state) \<Rightarrow> coordinator \<Rightarrow> coordinator" where
  "on_panel k f c = (case k of GraphPanel \<Rightarrow> c\<lparr>co_graph := f (co_graph c)\<rparr> | MapPanel \<Rightarrow> c\<lparr>co_map := f (co_map c)\<rparr>)"

definition hidden_panel :: "panel \<Rightarrow> panel" where
  "hidden_panel k = (case k of GraphPanel \<Rightarrow> MapPanel | MapPanel \<Rightarrow> GraphPanel)"

definition panel_size :: "panel_state \<Rightarrow> nat" where
  "panel_size ps = sum_list (map elements (ps_root ps))"

definition countElements :: "coordinator \<Rightarrow> nat" where
  "countElements c = co_outside c + panel_size (co_graph c) + panel_size (co_map c)"

definition tell :: "notice \<Rightarrow> coordinator \<Rightarrow> coordinator" where
  "tell n c = c\<lparr>co_notices := co_notices c @ [n]\<rparr>"

definition set_session :: "session \<Rightarrow> coordinator \<Rightarrow> coordinator" where
  "set_session s c = c\<lparr>co_current := Some s\<rparr>"

definition active :: "bool \<Rightarrow> coordinator \<Rightarrow> session \<Rightarrow> bool" where
  "active owned c s \<longleftrightarrow> co_generation c = ss_generation s \<and> \<not> ss_aborted s \<and>
     ps_root_holder (panel_of (ss_panel s) c) = Held (ss_generation s) \<and> owned"

text \<open>The operations below act on the current session \<open>s\<close> of the coordinator.\<close>

definition fail_render :: "bool \<Rightarrow> session \<Rightarrow> coordinator \<Rightarrow> coordinator" where
  "fail_render owned s c = (if \<not> active owned c s then set_session s c
     else tell (RenderError (ss_generation s)) (on_panel (ss_panel s) (\<lambda>ps. ps\<lparr>ps_root := [], ps_busy := Some False\<rparr>)
       (set_session (s\<lparr>ss_aborted := True, ss_scheduled := None, ss_finished := True\<rparr>) c)))"

definition finish_render :: "bool \<Rightarrow> session \<Rightarrow> coordinator \<Rightarrow> coordinator" where
  "finish_render owned s c = (if \<not> active owned c s then set_session s c
     else tell (RenderReady (ss_generation s) (ss_committed s) (case ss_plan s of Some p \<Rightarrow> dp_planned p | None \<Rightarrow> 0))
       (on_panel (ss_panel s) (\<lambda>ps. ps\<lparr>ps_busy := Some False\<rparr>) (set_session (s\<lparr>ss_finished := True\<rparr>) c)))"

text \<open>\<open>scheduleSafely\<close>: the platform's scheduler may throw.\<close>

definition schedule_step :: "bool \<Rightarrow> bool \<Rightarrow> callback \<Rightarrow> session \<Rightarrow> coordinator \<Rightarrow> coordinator" where
  "schedule_step owned works k s c = (if \<not> active owned c s then set_session s c
     else if works then set_session (s\<lparr>ss_scheduled := Some k\<rparr>) c else fail_render owned s c)"

definition next_chunk :: "bool \<Rightarrow> bool \<Rightarrow> nat \<Rightarrow> dom_plan \<Rightarrow> session \<Rightarrow> coordinator \<Rightarrow> coordinator" where
  "next_chunk owned works i p s c = (if i < length (dp_chunks p) then schedule_step owned works (ChunkAt i) s c
     else finish_render owned s c)"

definition cancel_render :: "bool \<Rightarrow> reason \<Rightarrow> coordinator \<Rightarrow> coordinator" where
  "cancel_render owned why c = (case co_current c of None \<Rightarrow> c
     | Some s \<Rightarrow> (let g = ss_generation s; ps = panel_of (ss_panel s) c;
           announce = (ps_root_holder ps = Held g \<and> ps_status_holder ps = Held g \<and> \<not> ss_aborted s \<and> owned);
           ps = (if ps_root_holder ps = Held g then ps\<lparr>ps_root := [], ps_busy := None, ps_root_holder := Free\<rparr> else ps);
           ps = (if ps_status_holder ps = Held g then ps\<lparr>ps_status_holder := Free\<rparr> else ps);
           c = on_panel (ss_panel s) (\<lambda>_. ps) (c\<lparr>co_current := None\<rparr>)
         in if announce then tell (RenderCancelled g why) c else c))"

text \<open>The arguments of \<open>start\<close>; \<open>sa_live\<close> says that root and status are elements of the document,
  \<open>sa_dispose\<close> that the workspace empties the other panel, \<open>sa_valid\<close> that the mode and the
  transform are valid.\<close>

record start_args =
  sa_view :: view_kind
  sa_panel :: panel
  sa_model :: view_model
  sa_labels :: "jval list"
  sa_live :: bool
  sa_dispose :: bool
  sa_valid :: bool

definition options_of :: "nat \<Rightarrow> start_args \<Rightarrow> plan_options" where
  "options_of existing a = \<lparr>po_view = str (case sa_view a of TopologyView \<Rightarrow> ''topology'' | GeoView \<Rightarrow> ''geo'' | LabelsView \<Rightarrow> ''labels''),
     po_existing = JNum (Fin (of_nat existing)), po_available = JUndef, po_dom_chunk = JNum (Fin 100), po_node_chunk = JUndef,
     po_labels = sa_labels a\<rparr>"

text \<open>The session takes over root and status; what the other panel shows is removed; then the plan is
  made for the elements that remain.\<close>

definition take_panel :: "nat \<Rightarrow> panel_state \<Rightarrow> panel_state" where
  "take_panel g ps = \<lparr>ps_root = [], ps_root_holder = Held g, ps_status_holder = Held g, ps_busy = Some True\<rparr>"

definition new_session :: "nat \<Rightarrow> start_args \<Rightarrow> session" where
  "new_session g a = \<lparr>ss_generation = g, ss_panel = sa_panel a, ss_view = sa_view a, ss_plan = None, ss_aborted = False,
     ss_scheduled = None, ss_committed = 0, ss_finished = False, ss_limited = False\<rparr>"

definition semantic_total :: "dom_plan \<Rightarrow> nat" where
  "semantic_total p = (let n = dp_presentation p in length (pn_nodes n) + (length (pn_links n) + length (pn_connectors n)) +
     length (pn_routes n))"

definition show_plan :: "bool \<Rightarrow> bool \<Rightarrow> dom_plan \<Rightarrow> session \<Rightarrow> coordinator \<Rightarrow> coordinator" where
  "show_plan owned works p s c = (let g = ss_generation s in
     if \<not> active owned c s then set_session s c
     else if \<not> dp_renderable p then tell (NotRenderable g) (on_panel (ss_panel s)
       (\<lambda>ps. ps\<lparr>ps_root := [], ps_busy := Some False\<rparr>) (set_session (s\<lparr>ss_finished := True\<rparr>) c))
     else if ss_view s = TopologyView \<and> semantic_total p = 0 then tell (EmptyView g) (on_panel (ss_panel s)
       (\<lambda>ps. ps\<lparr>ps_root := [Element ''p'' ''topology-empty-state'' [] []], ps_busy := Some False\<rparr>)
       (set_session (s\<lparr>ss_finished := True\<rparr>) c))
     else next_chunk owned works 0 p s (tell (Rendering g 0 (dp_planned p)) c))"

definition start_render :: "host6 \<Rightarrow> (jstr \<Rightarrow> jstr) \<Rightarrow> bool \<Rightarrow> bool \<Rightarrow> start_args \<Rightarrow> coordinator \<Rightarrow> coordinator" where
  "start_render url6 collate owned works a c =
     (let c = cancel_render owned Replaced c; g = co_generation c + 1; c = c\<lparr>co_generation := g\<rparr> in
      if \<not> sa_live a then c
      else let s = new_session g a; c = on_panel (sa_panel a) (take_panel g) (set_session s c);
               c = (if sa_dispose a then on_panel (hidden_panel (sa_panel a)) (\<lambda>ps. ps\<lparr>ps_root := []\<rparr>) c else c)
        in if \<not> sa_valid a then fail_render owned s c
           else (case planTopologyDOM url6 collate (sa_model a) (options_of (countElements c) a) of
               None \<Rightarrow> fail_render owned s c
             | Some p \<Rightarrow> show_plan owned works p (s\<lparr>ss_plan := Some p\<rparr>) c))"

text \<open>The insertion of a chunk into the panel, in the whole document.\<close>

definition insert_chunk :: "mount_item list \<Rightarrow> panel \<Rightarrow> coordinator \<Rightarrow> (coordinator \<times> nat) option" where
  "insert_chunk chunk k c = (let ps = panel_of k c in
     case commitDOMChunk dom_cost (\<lambda>x. Some (materializeTopologyItem x)) chunk
       \<lparr>ld_outside = countElements c - panel_size ps, ld_root = ps_root ps\<rparr> of
       Inl err \<Rightarrow> None
     | Inr (d, n) \<Rightarrow> Some (on_panel k (\<lambda>ps. ps\<lparr>ps_root := ld_root d\<rparr>) c, n))"

text \<open>\<open>organizeCommittedDOM\<close>: once the element that collects others is in the panel, the children of the root that
  belong into it are appended to it.  The collecting element is a child of the root, or the body of a table that is one.
  A class is read together with the one tag it is used on.  The keyboard focus it also sets is no part of the elements.\<close>

fun element_tag :: "element \<Rightarrow> string" where "element_tag (Element t c d es) = t"
fun element_class :: "element \<Rightarrow> string" where "element_class (Element t c d es) = c"
fun element_children :: "element \<Rightarrow> element list" where "element_children (Element t c d es) = es"

fun append_children :: "element list \<Rightarrow> element \<Rightarrow> element" where
  "append_children ms (Element t c d es) = Element t c d (es @ ms)"

fun update_first :: "('a \<Rightarrow> bool) \<Rightarrow> ('a \<Rightarrow> 'a) \<Rightarrow> 'a list \<Rightarrow> 'a list" where
  "update_first b f [] = []"
| "update_first b f (x # xs) = (if b x then f x # xs else x # update_first b f xs)"

fun append_to_body :: "element list \<Rightarrow> element \<Rightarrow> element" where
  "append_to_body ms (Element t c d es) = Element t c d (update_first (\<lambda>e. element_tag e = ''tbody'') (append_children ms) es)"

definition move_children :: "(element \<Rightarrow> bool) \<Rightarrow> (element list \<Rightarrow> element \<Rightarrow> element) \<Rightarrow> (element \<Rightarrow> bool) \<Rightarrow> element list \<Rightarrow> element list" where
  "move_children box put moved es =
     (if list_ex box es then update_first box (put (filter moved es)) (filter (\<lambda>e. \<not> moved e) es) else es)"

definition is_legend :: "element \<Rightarrow> bool" where "is_legend e \<longleftrightarrow> element_tag e = ''section'' \<and> element_class e = ''geo-target-legend''"
definition is_entry :: "element \<Rightarrow> bool" where "is_entry e \<longleftrightarrow> element_tag e = ''div'' \<and> element_class e = ''geo-target-entry''"
definition is_list :: "element \<Rightarrow> bool" where "is_list e \<longleftrightarrow> element_tag e = ''div'' \<and> element_class e = ''topology-geo-list''"
definition is_button :: "element \<Rightarrow> bool" where "is_button e \<longleftrightarrow> element_tag e = ''button''"
definition is_label_table :: "element \<Rightarrow> bool" where
  "is_label_table e \<longleftrightarrow> element_tag e = ''table'' \<and> element_class e = ''topology-labels'' \<and> list_ex (\<lambda>e. element_tag e = ''tbody'') (element_children e)"
definition is_row :: "element \<Rightarrow> bool" where "is_row e \<longleftrightarrow> element_tag e = ''tr''"
definition is_inspector :: "element \<Rightarrow> bool" where "is_inspector e \<longleftrightarrow> element_tag e = ''details'' \<and> element_class e = ''topology-inspector''"
definition is_inspected :: "element \<Rightarrow> bool" where
  "is_inspected e \<longleftrightarrow> element_class e \<in> {''topology-node'', ''topology-link'', ''topology-connector'', ''topology-route''}"

definition organizeCommittedDOM :: "view_kind \<Rightarrow> element list \<Rightarrow> element list" where
  "organizeCommittedDOM v es = (case v of
     GeoView \<Rightarrow> move_children is_list append_children is_button (move_children is_legend append_children is_entry es)
   | LabelsView \<Rightarrow> move_children is_label_table append_to_body is_row es
   | TopologyView \<Rightarrow> move_children is_inspector append_children is_inspected es)"

definition organize_panel :: "session \<Rightarrow> coordinator \<Rightarrow> coordinator" where
  "organize_panel s = on_panel (ss_panel s) (\<lambda>ps. ps\<lparr>ps_root := organizeCommittedDOM (ss_view s) (ps_root ps)\<rparr>)"

definition run_chunk :: "bool \<Rightarrow> bool \<Rightarrow> nat \<Rightarrow> dom_plan \<Rightarrow> session \<Rightarrow> coordinator \<Rightarrow> coordinator" where
  "run_chunk owned works i p s c = (let chunk = dp_chunks p ! i in
     case insert_chunk chunk (ss_panel s) c of None \<Rightarrow> fail_render owned s c
     | Some (c, n) \<Rightarrow> (let c = organize_panel s c; s = s\<lparr>ss_committed := ss_committed s + n\<rparr> in
         if ss_view s = TopologyView \<and> MCanvas \<in> set chunk then schedule_step owned works (DrawGraph (i + 1)) s c
         else if ss_view s = GeoView \<and> i + 1 = length (dp_chunks p) then schedule_step owned works (DrawMap (i + 1)) s c
         else next_chunk owned works (i + 1) p s c))"

text \<open>A scheduled callback runs; \<open>draws\<close> tells whether the drawing succeeds, \<open>works\<close> whether the
  scheduler does.\<close>

definition fire :: "bool \<Rightarrow> bool \<Rightarrow> bool \<Rightarrow> nat \<Rightarrow> coordinator \<Rightarrow> coordinator" where
  "fire owned works draws g c = (case co_current c of None \<Rightarrow> c
     | Some s \<Rightarrow> (case (ss_scheduled s, ss_plan s) of
         (Some k, Some p) \<Rightarrow> (let s = s\<lparr>ss_scheduled := None\<rparr> in
             if ss_generation s \<noteq> g then c
             else if \<not> active owned c s then set_session s c
             else (case k of ChunkAt i \<Rightarrow> run_chunk owned works i p s c
               | DrawGraph i \<Rightarrow> next_chunk owned works i p (s\<lparr>ss_limited := \<not> draws\<rparr>) c
               | DrawMap i \<Rightarrow> if draws then next_chunk owned works i p s c else fail_render owned s c))
       | _ \<Rightarrow> c))"

section \<open>Operations\<close>

text \<open>Besides the operations of the coordinator: the rest of the page changes, and another
  coordinator takes a panel over.\<close>

datatype render_op = Start bool bool start_args | CancelRender bool reason | Fire bool bool bool nat
  | Elsewhere nat | TakenOver panel "element list"

fun render_step :: "host6 \<Rightarrow> (jstr \<Rightarrow> jstr) \<Rightarrow> render_op \<Rightarrow> coordinator \<Rightarrow> coordinator" where
  "render_step url6 collate (Start owned works a) c = start_render url6 collate owned works a c"
| "render_step url6 collate (CancelRender owned why) c = cancel_render owned why c"
| "render_step url6 collate (Fire owned works draws g) c = fire owned works draws g c"
| "render_step url6 collate (Elsewhere n) c = c\<lparr>co_outside := n\<rparr>"
| "render_step url6 collate (TakenOver k es) c = on_panel k (\<lambda>ps. ps\<lparr>ps_root := es, ps_root_holder := Foreign,
     ps_status_holder := Foreign\<rparr>) c"

definition new_coordinator :: "nat \<Rightarrow> coordinator" where
  "new_coordinator n = (let ps = \<lparr>ps_root = [], ps_root_holder = Free, ps_status_holder = Free, ps_busy = None\<rparr> in
     \<lparr>co_generation = 0, co_current = None, co_graph = ps, co_map = ps, co_outside = n, co_notices = []\<rparr>)"

inductive rendering :: "host6 \<Rightarrow> (jstr \<Rightarrow> jstr) \<Rightarrow> coordinator \<Rightarrow> bool" for url6 collate where
  created: "rendering url6 collate (new_coordinator n)"
| stepped: "rendering url6 collate c \<Longrightarrow> rendering url6 collate (render_step url6 collate x c)"

end
