(* ===== verification/Render_Facts.thy ===== *)
theory Render_Facts
  imports Render
begin

text \<open>
  What the renderer guarantees: in every reachable state the panel of a session shows the chunks
  inserted so far, an undisturbed rendering completes, and a callback is confined to the panel its
  session holds.
\<close>

section \<open>What a panel shows\<close>

lemma panel_of_on_panel [simp]:
  "panel_of k (on_panel k f c) = f (panel_of k c)" "k \<noteq> k' \<Longrightarrow> panel_of k (on_panel k' f c) = panel_of k c"
  by (cases k; cases k'; simp add: panel_of_def on_panel_def)+

lemma panel_of_simps [simp]:
  "panel_of k (c\<lparr>co_current := y\<rparr>) = panel_of k c" "panel_of k (c\<lparr>co_generation := g\<rparr>) = panel_of k c"
  "panel_of k (c\<lparr>co_notices := ns\<rparr>) = panel_of k c" "panel_of k (c\<lparr>co_outside := n\<rparr>) = panel_of k c"
  "panel_of k (tell x c) = panel_of k c" "panel_of k (set_session s c) = panel_of k c"
  by (cases k; simp add: panel_of_def tell_def set_session_def)+

lemma on_panel_simps [simp]:
  "co_current (on_panel k f c) = co_current c" "co_generation (on_panel k f c) = co_generation c"
  "co_outside (on_panel k f c) = co_outside c" "co_notices (on_panel k f c) = co_notices c"
  by (cases k; simp add: on_panel_def)+

lemma tell_simps [simp]:
  "co_current (tell x c) = co_current c" "co_generation (tell x c) = co_generation c" "co_notices (tell x c) = co_notices c @ [x]"
  "co_current (set_session s c) = Some s" "co_generation (set_session s c) = co_generation c"
  "co_notices (set_session s c) = co_notices c"
  by (simp_all add: tell_def set_session_def)

lemma count_simps [simp]:
  "countElements (tell x c) = countElements c" "countElements (set_session s c) = countElements c"
  "countElements (c\<lparr>co_current := y\<rparr>) = countElements c" "countElements (c\<lparr>co_generation := g\<rparr>) = countElements c"
  by (simp_all add: countElements_def tell_def set_session_def)

definition shown_items :: "mount_item list \<Rightarrow> element list" where
  "shown_items = map materializeTopologyItem"

definition items_size :: "mount_item list \<Rightarrow> nat" where
  "items_size xs = sum_list (map elements (shown_items xs))"

lemma items_size_cost: "int (items_size xs) = cost_of xs"
  by (induction xs) (simp_all add: items_size_def shown_items_def materialized_cost)

lemma count_on_panel:
  "countElements (on_panel k f c) + panel_size (panel_of k c) = countElements c + panel_size (f (panel_of k c))"
  by (cases k) (simp_all add: countElements_def on_panel_def panel_of_def)

lemma panel_in_document: "panel_size (panel_of k c) \<le> countElements c"
  by (cases k) (simp_all add: countElements_def panel_of_def)

text \<open>A chunk is inserted exactly when it and the document stay within their limits.\<close>

lemma staged_items: "list_all2 (staged dom_cost (\<lambda>x. Some (materializeTopologyItem x))) xs es \<longleftrightarrow> es = shown_items xs"
proof -
  have "staged dom_cost (\<lambda>x. Some (materializeTopologyItem x)) x e \<longleftrightarrow> e = materializeTopologyItem x" for x e
    using dom_cost_range [of x] by (auto simp: staged_def materialized_cost)
  then show ?thesis
    by (simp add: shown_items_def list_all2_conv_all_nth list_eq_iff_nth_eq) auto
qed

lemma insert_chunk_Some:
  "insert_chunk chunk k c = Some (c', n) \<longleftrightarrow> n = items_size chunk \<and> n \<le> 100 \<and> countElements c + n \<le> 1200 \<and>
     c' = on_panel k (\<lambda>ps. ps\<lparr>ps_root := ps_root ps @ shown_items chunk\<rparr>) c"
proof -
  let ?d = "\<lparr>ld_outside = countElements c - panel_size (panel_of k c), ld_root = ps_root (panel_of k c)\<rparr>"
  let ?commit = "commitDOMChunk dom_cost (\<lambda>x. Some (materializeTopologyItem x)) chunk ?d"
  have size: "document_size ?d = countElements c"
    using panel_in_document [of k c] by (simp add: document_size_def panel_size_def)
  have same: "on_panel k (\<lambda>ps. ps\<lparr>ps_root := ps_root (panel_of k c) @ es\<rparr>) c = on_panel k (\<lambda>ps. ps\<lparr>ps_root := ps_root ps @ es\<rparr>) c" for es
    by (cases k) (simp_all add: on_panel_def panel_of_def)
  have iff: "?commit = Inr (d', m) \<longleftrightarrow> m = items_size chunk \<and> m \<le> 100 \<and> countElements c + m \<le> 1200 \<and>
      d' = ?d\<lparr>ld_root := ps_root (panel_of k c) @ shown_items chunk\<rparr>" for d' m
  proof -
    have grown: "document_size \<lparr>ld_outside = countElements c - panel_size (panel_of k c), ld_root = ps_root (panel_of k c) @ es\<rparr> =
        countElements c + sum_list (map elements es)" for es
      using panel_in_document [of k c] by (simp add: document_size_def panel_size_def)
    have one: "(\<exists>es. es = x \<and> P es) \<longleftrightarrow> P x" for x and P :: "element list \<Rightarrow> bool" by simp
    show ?thesis unfolding commit_iff staged_items size one items_size_def
      by (cases "d' = ?d\<lparr>ld_root := ps_root (panel_of k c) @ shown_items chunk\<rparr>") (simp_all add: grown, linarith?)
  qed
  show ?thesis
  proof (cases ?commit)
    case (Inl err)
    with iff [of "?d\<lparr>ld_root := ps_root (panel_of k c) @ shown_items chunk\<rparr>" n] show ?thesis
      by (auto simp: insert_chunk_def Let_def)
  next
    case (Inr r)
    then obtain d' m where r: "?commit = Inr (d', m)" by (cases r) auto
    with iff [of d' m] show ?thesis by (auto simp: insert_chunk_def Let_def same)
  qed
qed

section \<open>Organising a panel\<close>

text \<open>Organising after every chunk is the same as organising once, because what collects is never moved and stays what
  it is.\<close>

lemma update_first_append: "list_ex b xs \<Longrightarrow> update_first b f (xs @ ys) = update_first b f xs @ ys"
  by (induction xs) auto

lemma update_first_twice: "(\<And>e. b e \<Longrightarrow> b (f e)) \<Longrightarrow> update_first b g (update_first b f xs) = update_first b (\<lambda>e. g (f e)) xs"
  by (induction xs) auto

lemma update_first_none: "\<not> list_ex b xs \<Longrightarrow> update_first b f xs = xs"
  by (induction xs) auto

lemma update_first_cong: "(\<And>e. b e \<Longrightarrow> f e = g e) \<Longrightarrow> update_first b f xs = update_first b g xs"
  by (induction xs) auto

lemma filter_update_first:
  "(\<And>e. b e \<Longrightarrow> P e \<and> P (f e)) \<Longrightarrow> filter P (update_first b f xs) = update_first b f (filter P xs)"
  "(\<And>e. b e \<Longrightarrow> \<not> Q e \<and> \<not> Q (f e)) \<Longrightarrow> filter Q (update_first b f xs) = filter Q xs"
  by (induction xs) auto

lemma list_ex_update_first: "(\<And>e. b e \<Longrightarrow> P (f e) = P e) \<Longrightarrow> list_ex P (update_first b f xs) = list_ex P xs"
  by (induction xs) auto

lemma list_ex_filter: "(\<And>e. b e \<Longrightarrow> P e) \<Longrightarrow> list_ex b (filter P xs) = list_ex b xs"
  by (induction xs) auto

lemma update_first_commute:
  assumes "\<And>e. a e \<Longrightarrow> \<not> b e" "\<And>e. a e \<Longrightarrow> \<not> b (f e)" "\<And>e. b e \<Longrightarrow> \<not> a (g e)"
  shows "update_first a f (update_first b g xs) = update_first b g (update_first a f xs)"
  using assms by (induction xs) auto

definition size_of :: "element list \<Rightarrow> nat" where
  "size_of es = sum_list (map elements es)"

lemma size_of_simps [simp]: "size_of [] = 0" "size_of (e # es) = elements e + size_of es" "size_of (xs @ ys) = size_of xs + size_of ys"
  by (simp_all add: size_of_def)

lemma size_of_filter: "size_of (filter P es) + size_of (filter (\<lambda>e. \<not> P e) es) = size_of es"
  by (induction es) auto

lemma size_update_first: "list_ex b es \<Longrightarrow> (\<And>e. b e \<Longrightarrow> elements (f e) = elements e + k) \<Longrightarrow>
    size_of (update_first b f es) = size_of es + k"
  by (induction es) auto

locale adoption =
  fixes box :: "element \<Rightarrow> bool" and put :: "element list \<Rightarrow> element \<Rightarrow> element" and moved :: "element \<Rightarrow> bool"
  assumes box_stays: "box e \<Longrightarrow> \<not> moved e"
    and box_put: "box e \<Longrightarrow> box (put ms e)"
    and put_put: "box e \<Longrightarrow> put ks (put ms e) = put (ms @ ks) e"
    and put_size: "box e \<Longrightarrow> elements (put ms e) = elements e + size_of ms"
begin

lemma move_again: "move_children box put moved (move_children box put moved xs @ ys) = move_children box put moved (xs @ ys)"
proof (cases "list_ex box xs")
  case True
  let ?rest = "filter (\<lambda>e. \<not> moved e)" and ?out = "filter moved"
  let ?zs = "update_first box (put (?out xs)) (?rest xs)"
  have box: "list_ex box (?rest xs)" using True box_stays by (simp add: list_ex_filter)
  then have z: "list_ex box ?zs" by (simp add: list_ex_update_first box_put)
  have out: "?out ?zs = []" "?rest ?zs = ?zs"
    using box_stays box_put by (simp_all add: filter_update_first)
  have "move_children box put moved (?zs @ ys) = update_first box (put (?out ys)) (?zs @ ?rest ys)"
    using z out by (simp add: move_children_def)
  also have "\<dots> = update_first box (put (?out ys)) ?zs @ ?rest ys" using z by (rule update_first_append)
  also have "update_first box (put (?out ys)) ?zs = update_first box (put (?out xs @ ?out ys)) (?rest xs)"
    using box_put put_put by (simp add: update_first_twice cong: update_first_cong)
  finally show ?thesis using True box by (simp add: move_children_def update_first_append)
qed (simp add: move_children_def)

lemma move_size: "size_of (move_children box put moved es) = size_of es"
proof (cases "list_ex box es")
  case True
  then have "list_ex box (filter (\<lambda>e. \<not> moved e) es)" using box_stays by (simp add: list_ex_filter)
  from size_update_first [OF this, of "put (filter moved es)" "size_of (filter moved es)"] put_size size_of_filter [of moved es]
  show ?thesis using True by (simp add: move_children_def)
qed (simp add: move_children_def)

end

lemma append_children_facts [simp]:
  "element_tag (append_children ms e) = element_tag e" "element_class (append_children ms e) = element_class e"
  "append_children ks (append_children ms e) = append_children (ms @ ks) e" "elements (append_children ms e) = elements e + size_of ms"
  by (cases e; simp add: size_of_def)+

lemma append_to_body_facts [simp]:
  "element_tag (append_to_body ms e) = element_tag e" "element_class (append_to_body ms e) = element_class e"
  "append_to_body ks (append_to_body ms e) = append_to_body (ms @ ks) e"
  by (cases e; simp add: update_first_twice)+

lemma append_to_body_label: "is_label_table e \<Longrightarrow> is_label_table (append_to_body ms e) \<and> elements (append_to_body ms e) = elements e + size_of ms"
proof (cases e)
  case (Element t c d es)
  assume "is_label_table e"
  then have b: "list_ex (\<lambda>e. element_tag e = ''tbody'') es" "t = ''table''" "c = ''topology-labels''" by (simp_all add: Element is_label_table_def)
  have "size_of (update_first (\<lambda>e. element_tag e = ''tbody'') (append_children ms) es) = size_of es + size_of ms"
    by (rule size_update_first [OF b(1)]) simp
  then show ?thesis using b by (simp add: Element is_label_table_def list_ex_update_first size_of_def)
qed

interpretation inspector: adoption is_inspector append_children is_inspected
  by unfold_locales (auto simp: is_inspector_def is_inspected_def)

interpretation legend: adoption is_legend append_children is_entry
  by unfold_locales (auto simp: is_legend_def is_entry_def)

interpretation geo_list: adoption is_list append_children is_button
  by unfold_locales (auto simp: is_list_def is_button_def)

interpretation label_table: adoption is_label_table append_to_body is_row
  by unfold_locales (auto simp: append_to_body_label, auto simp: is_label_table_def is_row_def)

text \<open>Two adoptions that share no element commute.\<close>

lemma move_commute:
  assumes apart: "\<And>e. a e \<Longrightarrow> \<not> b e \<and> \<not> m e \<and> \<not> n e" "\<And>e. b e \<Longrightarrow> \<not> m e \<and> \<not> n e" "\<And>e. m e \<Longrightarrow> \<not> n e"
    and stays: "\<And>ms e. a e \<Longrightarrow> a (f ms e)" "\<And>ms e. b e \<Longrightarrow> b (g ms e)"
  shows "move_children b g n (move_children a f m es) = move_children a f m (move_children b g n es)"
proof (cases "list_ex a es \<and> list_ex b es")
  case True
  let ?m = "filter (\<lambda>e. \<not> m e)" and ?n = "filter (\<lambda>e. \<not> n e)"
  let ?A = "update_first a (f (filter m es))" and ?B = "update_first b (g (filter n es))"
  have ex: "list_ex b (?A (?m es)) = list_ex b es" "list_ex a (?B (?n es)) = list_ex a es"
    using apart stays by (subst list_ex_update_first, blast, simp add: list_ex_filter)+
  have moved: "filter n (?A (?m es)) = filter n es" "filter m (?B (?n es)) = filter m es"
    using apart stays by (subst filter_update_first(2), blast, simp, intro filter_cong refl, blast)+
  have kept: "?n (?A (?m es)) = ?A (?n (?m es))" "?m (?B (?n es)) = ?B (?m (?n es))"
    using apart stays by (intro filter_update_first(1); blast)+
  have same: "?n (?m es) = ?m (?n es)" by (simp add: conj_commute)
  have "?B (?A xs) = ?A (?B xs)" for xs
    using apart stays by (intro update_first_commute [symmetric]; blast)
  then show ?thesis using True by (simp only: move_children_def ex moved kept same if_True)
next
  case False
  have "list_ex b (update_first a (f ms) xs) = list_ex b xs" "list_ex a (update_first b (g ms) xs) = list_ex a xs" for ms xs
    using apart stays by (intro list_ex_update_first; blast)+
  then have "list_ex b (move_children a f m es) = list_ex b es" "list_ex a (move_children b g n es) = list_ex a es"
    using apart by (simp_all add: move_children_def list_ex_filter)
  then show ?thesis using False by (auto simp: move_children_def)
qed

lemma geo_commute: "move_children is_list append_children is_button (move_children is_legend append_children is_entry es) =
    move_children is_legend append_children is_entry (move_children is_list append_children is_button es)"
  by (rule move_commute) (auto simp: is_legend_def is_entry_def is_list_def is_button_def)

lemma organize_again: "organizeCommittedDOM v (organizeCommittedDOM v xs @ ys) = organizeCommittedDOM v (xs @ ys)"
proof (cases v)
  case GeoView
  let ?a = "move_children is_legend append_children is_entry" and ?b = "move_children is_list append_children is_button"
  have "?b (?a (?b (?a xs) @ ys)) = ?b (?a (?a (?b xs) @ ys))" by (simp only: geo_commute [of xs])
  also have "\<dots> = ?b (?a (?b xs @ ys))" by (simp only: legend.move_again)
  also have "\<dots> = ?a (?b (?b xs @ ys))" by (rule geo_commute)
  also have "\<dots> = ?a (?b (xs @ ys))" by (simp only: geo_list.move_again)
  also have "\<dots> = ?b (?a (xs @ ys))" by (rule geo_commute [symmetric])
  finally show ?thesis by (simp add: organizeCommittedDOM_def GeoView)
qed (simp_all add: organizeCommittedDOM_def inspector.move_again label_table.move_again)

lemma organize_size: "size_of (organizeCommittedDOM v es) = size_of es"
  by (cases v) (simp_all add: organizeCommittedDOM_def inspector.move_size legend.move_size geo_list.move_size label_table.move_size)

lemma organize_Nil [simp]: "organizeCommittedDOM v [] = []"
  by (cases v) (simp_all add: organizeCommittedDOM_def move_children_def)

lemma count_organized: "countElements (organize_panel s c) = countElements c"
  using count_on_panel [of "ss_panel s" "\<lambda>ps. ps\<lparr>ps_root := organizeCommittedDOM (ss_view s) (ps_root ps)\<rparr>" c]
  by (simp add: organize_panel_def panel_size_def size_of_def [symmetric] organize_size)

section \<open>The invariant\<close>

fun next_index :: "callback \<Rightarrow> nat" where
  "next_index (ChunkAt i) = i"
| "next_index (DrawGraph i) = i"
| "next_index (DrawMap i) = i"

text \<open>A session with a callback to come has a plan of the page; what it has inserted so far is what its
  panel shows, organised, as long as it holds it.\<close>

definition mid_render :: "host6 \<Rightarrow> (jstr \<Rightarrow> jstr) \<Rightarrow> coordinator \<Rightarrow> session \<Rightarrow> callback \<Rightarrow> dom_plan \<Rightarrow> bool" where
  "mid_render url6 collate c s k p \<longleftrightarrow> (\<exists>model o'. planTopologyDOM url6 collate model o' = Some p) \<and>
     \<not> ss_aborted s \<and> \<not> ss_finished s \<and> next_index k \<le> length (dp_chunks p) \<and> (\<forall>i. k = ChunkAt i \<longrightarrow> i < length (dp_chunks p)) \<and>
     ss_committed s = items_size (concat (take (next_index k) (dp_chunks p))) \<and>
     (ps_root_holder (panel_of (ss_panel s) c) = Held (ss_generation s) \<longrightarrow>
        ps_root (panel_of (ss_panel s) c) = organizeCommittedDOM (ss_view s) (shown_items (concat (take (next_index k) (dp_chunks p)))))"

definition session_ok :: "host6 \<Rightarrow> (jstr \<Rightarrow> jstr) \<Rightarrow> coordinator \<Rightarrow> session \<Rightarrow> bool" where
  "session_ok url6 collate c s \<longleftrightarrow> ss_generation s = co_generation c \<and>
     (\<forall>k. ss_scheduled s = Some k \<longrightarrow> (\<exists>p. ss_plan s = Some p \<and> mid_render url6 collate c s k p))"

definition render_ok :: "host6 \<Rightarrow> (jstr \<Rightarrow> jstr) \<Rightarrow> coordinator \<Rightarrow> bool" where
  "render_ok url6 collate c \<longleftrightarrow> (\<forall>s. co_current c = Some s \<longrightarrow> session_ok url6 collate c s) \<and>
     (\<forall>k g. ps_root_holder (panel_of k c) = Held g \<longrightarrow> g \<le> co_generation c)"

text \<open>Segments that keep the holders and end without a callback, or with one that is right.\<close>

definition holders_kept :: "coordinator \<Rightarrow> coordinator \<Rightarrow> bool" where
  "holders_kept c c' \<longleftrightarrow> co_generation c' = co_generation c \<and> (\<forall>k. ps_root_holder (panel_of k c') = ps_root_holder (panel_of k c))"

lemma holders_kept_simps [simp]:
  "holders_kept c c" "holders_kept c (tell x c') = holders_kept c c'" "holders_kept c (set_session s c') = holders_kept c c'"
  by (simp_all add: holders_kept_def)

lemma holders_kept_panel [simp]:
  "holders_kept c (on_panel k (\<lambda>ps. ps\<lparr>ps_root := r ps, ps_busy := b\<rparr>) c') = holders_kept c c'"
  "holders_kept c (on_panel k (\<lambda>ps. ps\<lparr>ps_root := r ps\<rparr>) c') = holders_kept c c'"
  "holders_kept c (on_panel k (\<lambda>ps. ps\<lparr>ps_busy := b\<rparr>) c') = holders_kept c c'"
  unfolding holders_kept_def by (auto simp: panel_of_def on_panel_def split: panel.split)

definition bounded_holders :: "coordinator \<Rightarrow> bool" where
  "bounded_holders c \<longleftrightarrow> (\<forall>k g. ps_root_holder (panel_of k c) = Held g \<longrightarrow> g \<le> co_generation c)"

lemma bounded_kept: "bounded_holders c \<Longrightarrow> holders_kept c c' \<Longrightarrow> bounded_holders c'"
  by (simp add: bounded_holders_def holders_kept_def)

lemma render_okI:
  "bounded_holders c \<Longrightarrow> holders_kept c c' \<Longrightarrow> co_current c' = Some s \<Longrightarrow> session_ok url6 collate c' s \<Longrightarrow> render_ok url6 collate c'"
  using bounded_kept [of c c'] by (simp add: render_ok_def bounded_holders_def)

lemma idle_session: "ss_scheduled s = None \<Longrightarrow> ss_generation s = co_generation c \<Longrightarrow> session_ok url6 collate c s"
  by (simp add: session_ok_def)

text \<open>The ends of a segment; the session has no callback when they start.\<close>

lemma fail_ok:
  assumes "bounded_holders c" "ss_scheduled s = None" "ss_generation s = co_generation c"
  shows "render_ok url6 collate (fail_render owned s c)"
proof (cases "active owned c s")
  case True
  then show ?thesis
    by (intro render_okI [OF assms(1), where s = "s\<lparr>ss_aborted := True, ss_scheduled := None, ss_finished := True\<rparr>"])
      (simp_all add: fail_render_def assms(3) idle_session)
next
  case False
  then show ?thesis
    by (intro render_okI [OF assms(1), where s = s]) (simp_all add: fail_render_def assms idle_session)
qed

lemma finish_ok:
  assumes "bounded_holders c" "ss_scheduled s = None" "ss_generation s = co_generation c"
  shows "render_ok url6 collate (finish_render owned s c)"
proof (cases "active owned c s")
  case True
  then show ?thesis
    by (intro render_okI [OF assms(1), where s = "s\<lparr>ss_finished := True\<rparr>"])
      (simp_all add: finish_render_def assms idle_session)
next
  case False
  then show ?thesis
    by (intro render_okI [OF assms(1), where s = s]) (simp_all add: finish_render_def assms idle_session)
qed

text \<open>After \<open>i\<close> chunks.\<close>

definition inserted :: "host6 \<Rightarrow> (jstr \<Rightarrow> jstr) \<Rightarrow> coordinator \<Rightarrow> session \<Rightarrow> dom_plan \<Rightarrow> nat \<Rightarrow> bool" where
  "inserted url6 collate c s p i \<longleftrightarrow> (\<exists>model o'. planTopologyDOM url6 collate model o' = Some p) \<and> ss_plan s = Some p \<and>
     ss_scheduled s = None \<and> ss_generation s = co_generation c \<and> \<not> ss_aborted s \<and> \<not> ss_finished s \<and> i \<le> length (dp_chunks p) \<and>
     ss_committed s = items_size (concat (take i (dp_chunks p))) \<and>
     (ps_root_holder (panel_of (ss_panel s) c) = Held (ss_generation s) \<longrightarrow>
        ps_root (panel_of (ss_panel s) c) = organizeCommittedDOM (ss_view s) (shown_items (concat (take i (dp_chunks p)))))"

lemma inserted_tell [simp]: "inserted url6 collate (tell x c) s p i = inserted url6 collate c s p i"
  by (simp add: inserted_def)

lemma schedule_ok:
  assumes "bounded_holders c" "inserted url6 collate c s p i" "next_index k = i" "\<And>j. k = ChunkAt j \<Longrightarrow> j < length (dp_chunks p)"
  shows "render_ok url6 collate (schedule_step owned works k s c)"
proof -
  have s: "ss_scheduled s = None" "ss_generation s = co_generation c" using assms(2) by (simp_all add: inserted_def)
  have k: "session_ok url6 collate (set_session (s\<lparr>ss_scheduled := Some k\<rparr>) c) (s\<lparr>ss_scheduled := Some k\<rparr>)"
    using assms(2-4) by (simp add: session_ok_def mid_render_def inserted_def)
  consider "\<not> active owned c s" | "active owned c s" "works" | "active owned c s" "\<not> works" by blast
  then show ?thesis
  proof cases
    case 1
    then show ?thesis unfolding schedule_step_def by (intro render_okI [OF assms(1), where s = s]) (simp_all add: s idle_session)
  next
    case 2
    then show ?thesis unfolding schedule_step_def by (intro render_okI [OF assms(1), where s = "s\<lparr>ss_scheduled := Some k\<rparr>"]) (simp_all add: k)
  next
    case 3
    with fail_ok [OF assms(1) s] show ?thesis by (simp add: schedule_step_def)
  qed
qed

lemma next_chunk_ok:
  assumes "bounded_holders c" "inserted url6 collate c s p i"
  shows "render_ok url6 collate (next_chunk owned works i p s c)"
  using schedule_ok [OF assms, of "ChunkAt i" owned works] finish_ok [OF assms(1), of s url6 collate owned] assms(2)
  by (auto simp: next_chunk_def inserted_def)

lemma shown_items_append [simp]: "shown_items (xs @ ys) = shown_items xs @ shown_items ys"
  by (simp add: shown_items_def)

lemma items_size_append [simp]: "items_size (xs @ ys) = items_size xs + items_size ys"
  by (simp add: items_size_def)

lemma inserted_next:
  assumes "inserted url6 collate c s p i" "i < length (dp_chunks p)" "insert_chunk (dp_chunks p ! i) (ss_panel s) c = Some (c', n)"
  shows "inserted url6 collate (organize_panel s c') (s\<lparr>ss_committed := ss_committed s + n\<rparr>) p (Suc i)"
    "holders_kept c (organize_panel s c')"
proof -
  have c': "n = items_size (dp_chunks p ! i)" "c' = on_panel (ss_panel s) (\<lambda>ps. ps\<lparr>ps_root := ps_root ps @ shown_items (dp_chunks p ! i)\<rparr>) c"
    using assms(3) by (simp_all add: insert_chunk_Some)
  show "holders_kept c (organize_panel s c')" by (simp add: c'(2) organize_panel_def)
  have "concat (take (Suc i) (dp_chunks p)) = concat (take i (dp_chunks p)) @ dp_chunks p ! i"
    using assms(2) by (simp add: take_Suc_conv_app_nth)
  then show "inserted url6 collate (organize_panel s c') (s\<lparr>ss_committed := ss_committed s + n\<rparr>) p (Suc i)"
    using assms(1,2) by (simp add: inserted_def c' organize_panel_def organize_again)
qed

lemma run_chunk_ok:
  assumes b: "bounded_holders c" and i: "inserted url6 collate c s p i" "i < length (dp_chunks p)"
  shows "render_ok url6 collate (run_chunk owned works i p s c)"
proof (cases "insert_chunk (dp_chunks p ! i) (ss_panel s) c")
  case None
  with fail_ok [OF b, of s] i(1) show ?thesis by (simp add: run_chunk_def Let_def inserted_def)
next
  case (Some r)
  then obtain c' n where r: "insert_chunk (dp_chunks p ! i) (ss_panel s) c = Some (c', n)" by (cases r) auto
  note one = inserted_next [OF i r]
  note b' = bounded_kept [OF b one(2)]
  have "render_ok url6 collate (schedule_step owned works (DrawGraph (Suc i)) (s\<lparr>ss_committed := ss_committed s + n\<rparr>) (organize_panel s c'))"
    "render_ok url6 collate (schedule_step owned works (DrawMap (Suc i)) (s\<lparr>ss_committed := ss_committed s + n\<rparr>) (organize_panel s c'))"
    "render_ok url6 collate (next_chunk owned works (Suc i) p (s\<lparr>ss_committed := ss_committed s + n\<rparr>) (organize_panel s c'))"
    by (rule schedule_ok [OF b' one(1)]; simp)+ (rule next_chunk_ok [OF b' one(1)])
  then show ?thesis by (auto simp: run_chunk_def Let_def r)
qed

lemma render_ok_parts: "render_ok url6 collate c \<longleftrightarrow> bounded_holders c \<and> (\<forall>s. co_current c = Some s \<longrightarrow> session_ok url6 collate c s)"
  by (auto simp: render_ok_def bounded_holders_def)

lemma fire_ok:
  assumes "render_ok url6 collate c"
  shows "render_ok url6 collate (fire owned works draws g c)"
proof (cases "\<exists>s k p. co_current c = Some s \<and> ss_scheduled s = Some k \<and> ss_plan s = Some p \<and> ss_generation s = g")
  case True
  then obtain s k p where s: "co_current c = Some s" "ss_scheduled s = Some k" "ss_plan s = Some p" "ss_generation s = g" by blast
  from assms have b: "bounded_holders c" and ok: "session_ok url6 collate c s" by (simp_all add: render_ok_parts s)
  let ?s = "s\<lparr>ss_scheduled := None\<rparr>"
  have i: "inserted url6 collate c ?s p (next_index k)" and lt: "\<And>j. k = ChunkAt j \<Longrightarrow> j < length (dp_chunks p)"
    using ok by (simp_all add: session_ok_def mid_render_def inserted_def s)
  have i': "inserted url6 collate c (?s\<lparr>ss_limited := x\<rparr>) p (next_index k)" for x using i by (simp add: inserted_def)
  have gen: "ss_generation s = co_generation c" using ok by (simp add: session_ok_def)
  have idle: "render_ok url6 collate (set_session ?s c)"
    by (rule render_okI [OF b, where s = ?s]) (simp_all add: idle_session gen)
  have failed: "render_ok url6 collate (fail_render owned ?s c)" by (rule fail_ok [OF b]) (simp_all add: gen)
  have eq: "fire owned works draws g c = (if \<not> active owned c ?s then set_session ?s c
       else (case k of ChunkAt i \<Rightarrow> run_chunk owned works i p ?s c
         | DrawGraph i \<Rightarrow> next_chunk owned works i p (?s\<lparr>ss_limited := \<not> draws\<rparr>) c
         | DrawMap i \<Rightarrow> if draws then next_chunk owned works i p ?s c else fail_render owned ?s c))"
    by (simp add: fire_def s Let_def)
  show ?thesis
  proof (cases k)
    case (ChunkAt j)
    with run_chunk_ok [OF b, of url6 collate ?s p j owned works] i lt idle show ?thesis by (simp add: eq)
  next
    case (DrawGraph j)
    with next_chunk_ok [OF b, of url6 collate "?s\<lparr>ss_limited := \<not> draws\<rparr>" p j owned works] i' idle show ?thesis by (simp add: eq)
  next
    case (DrawMap j)
    with next_chunk_ok [OF b, of url6 collate ?s p j owned works] i idle failed show ?thesis by (simp add: eq)
  qed
next
  case False
  then have "fire owned works draws g c = c" by (auto simp: fire_def Let_def split: option.splits)
  with assms show ?thesis by simp
qed

lemma cancel_current [simp]: "co_current (cancel_render owned why c) = None" "co_generation (cancel_render owned why c) = co_generation c"
  by (simp_all add: cancel_render_def Let_def split: option.splits)

lemma cancel_bounded:
  assumes "bounded_holders c"
  shows "bounded_holders (cancel_render owned why c)"
proof (cases "co_current c")
  case None
  with assms show ?thesis by (simp add: cancel_render_def)
next
  case (Some s)
  have "ps_root_holder (panel_of k (cancel_render owned why c)) \<in> {ps_root_holder (panel_of k c), Free}" for k
    by (cases "k = ss_panel s") (simp_all add: cancel_render_def Some Let_def)
  then show ?thesis using assms unfolding bounded_holders_def by (metis cancel_current(2) holder.distinct(1) empty_iff insert_iff)
qed

lemma show_plan_ok:
  assumes b: "bounded_holders c" and i: "inserted url6 collate c s p 0"
  shows "render_ok url6 collate (show_plan owned works p s c)"
proof -
  have s: "ss_scheduled s = None" "ss_generation s = co_generation c" using i by (simp_all add: inserted_def)
  have "render_ok url6 collate (set_session s c)"
    by (rule render_okI [OF b, where s = s]) (simp_all add: s idle_session)
  moreover have "render_ok url6 collate (tell x (on_panel (ss_panel s) (\<lambda>ps. ps\<lparr>ps_root := r, ps_busy := Some False\<rparr>)
      (set_session (s\<lparr>ss_finished := True\<rparr>) c)))" for x r
    by (rule render_okI [OF b, where s = "s\<lparr>ss_finished := True\<rparr>"]) (simp_all add: s idle_session)
  moreover have "render_ok url6 collate (next_chunk owned works 0 p s (tell x c))" for x
    using next_chunk_ok [of "tell x c" url6 collate s p 0 owned works] b i by (simp add: bounded_holders_def)
  ultimately show ?thesis by (auto simp: show_plan_def Let_def)
qed

text \<open>The state in which the plan of a start is made.\<close>

definition prepared :: "start_args \<Rightarrow> bool \<Rightarrow> coordinator \<Rightarrow> coordinator" where
  "prepared a owned c = (let c = cancel_render owned Replaced c; g = co_generation c + 1; c = c\<lparr>co_generation := g\<rparr>;
     c = on_panel (sa_panel a) (take_panel g) (set_session (new_session g a) c) in
     if sa_dispose a then on_panel (hidden_panel (sa_panel a)) (\<lambda>ps. ps\<lparr>ps_root := []\<rparr>) c else c)"

lemma hidden_panel_other [simp]: "hidden_panel k \<noteq> k" "k \<noteq> hidden_panel k"
  by (cases k; simp add: hidden_panel_def)+

lemma prepared_facts:
  "co_generation (prepared a owned c) = co_generation c + 1" "ps_root_holder (panel_of (sa_panel a) (prepared a owned c)) = Held (co_generation c + 1)"
  "ps_root (panel_of (sa_panel a) (prepared a owned c)) = []" "ps_status_holder (panel_of (sa_panel a) (prepared a owned c)) = Held (co_generation c + 1)"
  by (simp_all add: prepared_def Let_def take_panel_def)

lemma prepared_bounded:
  assumes "bounded_holders c"
  shows "bounded_holders (prepared a owned c)"
proof -
  have "bounded_holders (cancel_render owned Replaced c)" by (rule cancel_bounded [OF assms])
  then have "ps_root_holder (panel_of k (cancel_render owned Replaced c)) = Held g \<Longrightarrow> g \<le> co_generation c" for k g
    unfolding bounded_holders_def by simp
  moreover have "ps_root_holder (panel_of k (prepared a owned c)) =
      (if k = sa_panel a then Held (co_generation c + 1) else ps_root_holder (panel_of k (cancel_render owned Replaced c)))" for k
  proof (cases "k = sa_panel a")
    case True
    then show ?thesis by (simp add: prepared_facts)
  next
    case False
    then have "k = hidden_panel (sa_panel a)" by (cases k; cases "sa_panel a") (simp_all add: hidden_panel_def)
    with False show ?thesis by (simp add: prepared_def Let_def)
  qed
  ultimately show ?thesis unfolding bounded_holders_def prepared_facts(1) by (auto split: if_splits intro: le_SucI)
qed

lemma start_unfold:
  "start_render url6 collate owned works a c =
     (if \<not> sa_live a then (cancel_render owned Replaced c)\<lparr>co_generation := co_generation c + 1\<rparr>
      else let s = new_session (co_generation c + 1) a; c = prepared a owned c in
        if \<not> sa_valid a then fail_render owned s c
        else (case planTopologyDOM url6 collate (sa_model a) (options_of (countElements c) a) of
            None \<Rightarrow> fail_render owned s c
          | Some p \<Rightarrow> show_plan owned works p (s\<lparr>ss_plan := Some p\<rparr>) c))"
  by (simp only: start_render_def prepared_def Let_def cancel_current)

lemma start_ok:
  assumes "bounded_holders c"
  shows "render_ok url6 collate (start_render url6 collate owned works a c)"
proof -
  let ?c = "prepared a owned c" and ?s = "new_session (co_generation c + 1) a"
  note b = prepared_bounded [OF assms, of a owned]
  have failed: "render_ok url6 collate (fail_render owned ?s ?c)"
    by (rule fail_ok [OF b]) (simp_all add: new_session_def prepared_facts)
  have shown: "render_ok url6 collate (show_plan owned works p (?s\<lparr>ss_plan := Some p\<rparr>) ?c)"
    if "planTopologyDOM url6 collate (sa_model a) (options_of (countElements ?c) a) = Some p" for p
    by (rule show_plan_ok [OF b]) (use that in \<open>auto simp: inserted_def new_session_def prepared_facts items_size_def shown_items_def\<close>)
  have none: "render_ok url6 collate ((cancel_render owned Replaced c)\<lparr>co_generation := co_generation c + 1\<rparr>)"
    using cancel_bounded [OF assms, of owned Replaced] by (auto simp: render_ok_parts bounded_holders_def intro: le_SucI)
  show ?thesis unfolding start_unfold Let_def using failed shown none by (auto split: option.split)
qed

text \<open>What happens elsewhere may take panels away, but gives none.\<close>

lemma render_ok_away:
  assumes "render_ok url6 collate c" "co_current c' = co_current c" "co_generation c' = co_generation c"
    and away: "\<And>k g. ps_root_holder (panel_of k c') = Held g \<Longrightarrow> ps_root_holder (panel_of k c) = Held g \<and> ps_root (panel_of k c') = ps_root (panel_of k c)"
  shows "render_ok url6 collate c'"
proof -
  have "mid_render url6 collate c' s k p" if "mid_render url6 collate c s k p" for s k p
    using that away [of "ss_panel s" "ss_generation s"] unfolding mid_render_def by auto
  moreover have "bounded_holders c'" using assms(1,3) away unfolding render_ok_parts bounded_holders_def by metis
  ultimately show ?thesis using assms(1-3) unfolding render_ok_parts session_ok_def by metis
qed

lemma rendering_ok: "rendering url6 collate c \<Longrightarrow> render_ok url6 collate c"
proof (induction rule: rendering.induct)
  case (created n)
  show ?case by (auto simp: render_ok_def new_coordinator_def panel_of_def Let_def split: panel.splits)
next
  case (stepped c x)
  then have b: "bounded_holders c" by (simp add: render_ok_parts)
  show ?case
  proof (cases x)
    case (Start owned works a)
    with start_ok [OF b] show ?thesis by simp
  next
    case (CancelRender owned why)
    with cancel_bounded [OF b] show ?thesis by (simp add: render_ok_parts)
  next
    case (Fire owned works draws g)
    with fire_ok [OF stepped(2)] show ?thesis by simp
  next
    case (Elsewhere n)
    show ?thesis by (rule render_ok_away [OF stepped(2)]) (simp_all add: Elsewhere)
  next
    case (TakenOver k es)
    show ?thesis
    proof (rule render_ok_away [OF stepped(2)], goal_cases)
      case (3 k' g)
      then show ?case by (cases "k' = k") (simp_all add: TakenOver)
    qed (simp_all add: TakenOver)
  qed
qed

section \<open>A rendering that is not disturbed completes\<close>

text \<open>A session between two callbacks: the elements still to come fit into the document.\<close>

definition going :: "host6 \<Rightarrow> (jstr \<Rightarrow> jstr) \<Rightarrow> dom_plan \<Rightarrow> nat \<Rightarrow> callback \<Rightarrow> coordinator \<Rightarrow> bool" where
  "going url6 collate p g k c \<longleftrightarrow> (\<exists>s. co_current c = Some s \<and> ss_generation s = g \<and> ss_scheduled s = Some k \<and>
     inserted url6 collate c (s\<lparr>ss_scheduled := None\<rparr>) p (next_index k) \<and> active True c s \<and>
     (\<forall>i. k = ChunkAt i \<longrightarrow> i < length (dp_chunks p)) \<and>
     int (countElements c) + cost_of (concat (drop (next_index k) (dp_chunks p))) \<le> 1200)"

definition rendered :: "dom_plan \<Rightarrow> nat \<Rightarrow> coordinator \<Rightarrow> bool" where
  "rendered p g c \<longleftrightarrow> (\<exists>s. co_current c = Some s \<and> ss_generation s = g \<and> ss_finished s \<and> \<not> ss_aborted s \<and>
     ps_root (panel_of (ss_panel s) c) = organizeCommittedDOM (ss_view s) (map materializeTopologyItem (dp_items p)) \<and>
     int (panel_size (panel_of (ss_panel s) c)) = dp_planned p \<and>
     ps_busy (panel_of (ss_panel s) c) = Some False \<and>
     (\<exists>n. int n = dp_planned p \<and> ss_committed s = n \<and> last (co_notices c) = RenderReady g n (dp_planned p)) \<and>
     countElements c \<le> 1200)"

fun steps_left :: "dom_plan \<Rightarrow> callback \<Rightarrow> nat" where
  "steps_left p (ChunkAt i) = 2 * (length (dp_chunks p) - i)"
| "steps_left p (DrawGraph i) = Suc (2 * (length (dp_chunks p) - i))"
| "steps_left p (DrawMap i) = Suc (2 * (length (dp_chunks p) - i))"

lemma made_plan:
  assumes "inserted url6 collate c s p i"
  shows "concat (dp_chunks p) = dp_items p" "dp_planned p = cost_of (dp_items p)" "list_all (\<lambda>x. cost_of x \<le> 100) (dp_chunks p)"
  using assms plan_budget [of url6 collate _ _ p] by (auto simp: inserted_def cost_of_def list_all_iff)

lemma going_scheduled:
  assumes "inserted url6 collate c s p (next_index k)" "active True c s" "\<And>i. k = ChunkAt i \<Longrightarrow> i < length (dp_chunks p)"
    "int (countElements c) + cost_of (concat (drop (next_index k) (dp_chunks p))) \<le> 1200"
  shows "going url6 collate p (ss_generation s) k (schedule_step True True k s c)"
proof -
  have "s\<lparr>ss_scheduled := None\<rparr> = s" using assms(1) by (simp add: inserted_def)
  then show ?thesis using assms unfolding going_def schedule_step_def by (auto simp: active_def inserted_def)
qed

lemma rendered_finish:
  assumes i: "inserted url6 collate c s p (length (dp_chunks p))" and a: "active True c s" and c: "int (countElements c) \<le> 1200"
  shows "rendered p (ss_generation s) (finish_render True s c)"
proof -
  note plan = made_plan [OF i]
  have held: "ps_root (panel_of (ss_panel s) c) = organizeCommittedDOM (ss_view s) (shown_items (dp_items p))" "ss_committed s = items_size (dp_items p)" "ss_plan s = Some p"
    using i a by (auto simp: inserted_def active_def plan(1))
  have "countElements (on_panel (ss_panel s) (\<lambda>ps. ps\<lparr>ps_busy := Some False\<rparr>) c') = countElements c'" for c'
    using count_on_panel [of "ss_panel s" "\<lambda>ps. ps\<lparr>ps_busy := Some False\<rparr>" c'] by (simp add: panel_size_def)
  moreover have "sum_list (map elements (organizeCommittedDOM (ss_view s) (shown_items xs))) = items_size xs" for xs
    using organize_size [of "ss_view s" "shown_items xs"] by (simp add: size_of_def items_size_def)
  ultimately show ?thesis
    using a i c held items_size_cost [of "dp_items p"] by (simp add: rendered_def finish_render_def plan(2) panel_size_def shown_items_def [symmetric] inserted_def)
qed

lemma going_next:
  assumes i: "inserted url6 collate c s p i" and a: "active True c s"
    and c: "int (countElements c) + cost_of (concat (drop i (dp_chunks p))) \<le> 1200"
  shows "(i < length (dp_chunks p) \<and> going url6 collate p (ss_generation s) (ChunkAt i) (next_chunk True True i p s c)) \<or>
    (i = length (dp_chunks p) \<and> rendered p (ss_generation s) (next_chunk True True i p s c))"
proof (cases "i < length (dp_chunks p)")
  case True
  with going_scheduled [of url6 collate c s p "ChunkAt i"] i a c show ?thesis by (simp add: next_chunk_def)
next
  case False
  with i have "i = length (dp_chunks p)" by (simp add: inserted_def)
  with rendered_finish [of url6 collate c s p] i a c show ?thesis by (simp add: next_chunk_def)
qed

lemma going_chunk:
  assumes i: "inserted url6 collate c s p i" "i < length (dp_chunks p)" and a: "active True c s"
    and c: "int (countElements c) + cost_of (concat (drop i (dp_chunks p))) \<le> 1200"
  defines "c' \<equiv> run_chunk True True i p s c"
  shows "(\<exists>k. going url6 collate p (ss_generation s) k c' \<and> steps_left p k < 2 * (length (dp_chunks p) - i)) \<or> rendered p (ss_generation s) c'"
proof -
  let ?x = "dp_chunks p ! i"
  note plan = made_plan [OF i(1)]
  have d: "concat (drop i (dp_chunks p)) = ?x @ concat (drop (Suc i) (dp_chunks p))"
    using i(2) by (simp add: Cons_nth_drop_Suc [symmetric])
  have nonneg: "0 \<le> cost_of xs" for xs using items_size_cost [of xs] by linarith
  have x: "items_size ?x \<le> 100" using plan(3) i(2) items_size_cost [of ?x] by (auto simp: list_all_length)
  have "int (countElements c) + cost_of ?x + cost_of (concat (drop (Suc i) (dp_chunks p))) \<le> 1200" using c d by simp
  then have fits: "countElements c + items_size ?x \<le> 1200"
    and rest: "int (countElements c + items_size ?x) + cost_of (concat (drop (Suc i) (dp_chunks p))) \<le> 1200"
    using nonneg [of "concat (drop (Suc i) (dp_chunks p))"] items_size_cost [of ?x] by linarith+
  obtain c0 where ins: "insert_chunk ?x (ss_panel s) c = Some (c0, items_size ?x)"
    and c0: "c0 = on_panel (ss_panel s) (\<lambda>ps. ps\<lparr>ps_root := ps_root ps @ shown_items ?x\<rparr>) c"
    using insert_chunk_Some [of ?x "ss_panel s" c _ "items_size ?x"] x fits by auto
  let ?s = "s\<lparr>ss_committed := ss_committed s + items_size ?x\<rparr>"
  define c1 where "c1 = organize_panel s c0"
  have size: "countElements c1 = countElements c + items_size ?x"
    using count_organized [of s c0] count_on_panel [of "ss_panel s" "\<lambda>ps. ps\<lparr>ps_root := ps_root ps @ shown_items ?x\<rparr>" c]
    by (simp add: c1_def c0 panel_size_def items_size_def)
  note one = inserted_next [OF i ins, folded c1_def]
  have a1: "active True c1 ?s" using a by (simp add: active_def c1_def c0 organize_panel_def)
  have bound: "int (countElements c1) + cost_of (concat (drop (Suc i) (dp_chunks p))) \<le> 1200" using rest by (simp only: size)
  have left: "2 * (length (dp_chunks p) - Suc i) < 2 * (length (dp_chunks p) - i)" "Suc (2 * (length (dp_chunks p) - Suc i)) < 2 * (length (dp_chunks p) - i)"
    using i(2) by linarith+
  have "going url6 collate p (ss_generation s) k (schedule_step True True k ?s c1)" if "k = DrawGraph (Suc i) \<or> k = DrawMap (Suc i)" for k
    using going_scheduled [of url6 collate c1 ?s p k] one(1) a1 bound that by auto
  moreover have "(Suc i < length (dp_chunks p) \<and> going url6 collate p (ss_generation s) (ChunkAt (Suc i)) (next_chunk True True (Suc i) p ?s c1)) \<or>
      rendered p (ss_generation s) (next_chunk True True (Suc i) p ?s c1)"
    using going_next [OF one(1) a1 bound] by auto
  moreover have "c' \<in> {schedule_step True True (DrawGraph (Suc i)) ?s c1, schedule_step True True (DrawMap (Suc i)) ?s c1,
      next_chunk True True (Suc i) p ?s c1}"
    by (simp add: c'_def run_chunk_def Let_def ins c1_def)
  ultimately show ?thesis using left by (metis empty_iff insert_iff steps_left.simps)
qed

lemma going_fire:
  assumes "going url6 collate p g k c"
  defines "c' \<equiv> fire True True True g c"
  shows "(\<exists>k'. going url6 collate p g k' c' \<and> steps_left p k' < steps_left p k) \<or> rendered p g c'"
proof -
  from assms(1) obtain s where s: "co_current c = Some s" "ss_generation s = g" "ss_scheduled s = Some k"
    and i: "inserted url6 collate c (s\<lparr>ss_scheduled := None\<rparr>) p (next_index k)" and a: "active True c s"
    and lt: "\<And>i. k = ChunkAt i \<Longrightarrow> i < length (dp_chunks p)"
    and b: "int (countElements c) + cost_of (concat (drop (next_index k) (dp_chunks p))) \<le> 1200"
    unfolding going_def by blast
  let ?s = "s\<lparr>ss_scheduled := None\<rparr>"
  have a': "active True c (?s\<lparr>ss_limited := x\<rparr>)" "active True c ?s" for x using a by (simp_all add: active_def)
  have i': "inserted url6 collate c (?s\<lparr>ss_limited := x\<rparr>) p (next_index k)" for x using i by (simp add: inserted_def)
  have p: "ss_plan s = Some p" using i by (simp add: inserted_def)
  show ?thesis
  proof (cases k)
    case (ChunkAt j)
    then have "c' = run_chunk True True j p ?s c" using a' by (simp add: c'_def fire_def s p Let_def)
    with going_chunk [of url6 collate c ?s p j] i lt a' b s(2) ChunkAt show ?thesis by simp
  next
    case (DrawGraph j)
    then have "c' = next_chunk True True j p (?s\<lparr>ss_limited := False\<rparr>) c" using a' by (simp add: c'_def fire_def s p Let_def)
    with going_next [of url6 collate c "?s\<lparr>ss_limited := False\<rparr>" p j] i' a' b s(2) DrawGraph show ?thesis by auto
  next
    case (DrawMap j)
    then have "c' = next_chunk True True j p ?s c" using a' by (simp add: c'_def fire_def s p Let_def)
    with going_next [of url6 collate c ?s p j] i a' b s(2) DrawMap show ?thesis by auto
  qed
qed

lemma going_completes:
  "going url6 collate p g k c \<Longrightarrow> \<exists>n. n \<le> Suc (steps_left p k) \<and> rendered p g ((fire True True True g ^^ n) c)"
proof (induction "steps_left p k" arbitrary: k c rule: less_induct)
  case less
  let ?c = "fire True True True g c"
  from going_fire [OF less(2)] show ?case
  proof
    assume "\<exists>k'. going url6 collate p g k' ?c \<and> steps_left p k' < steps_left p k"
    then obtain k' where k': "going url6 collate p g k' ?c" "steps_left p k' < steps_left p k" by blast
    from less(1) [OF k'(2,1)] obtain n where n: "n \<le> Suc (steps_left p k')" "rendered p g ((fire True True True g ^^ n) ?c)" by blast
    then have "rendered p g ((fire True True True g ^^ Suc n) c)" by (simp only: funpow_Suc_right comp_apply)
    moreover have "Suc n \<le> Suc (steps_left p k)" using n(1) k'(2) by linarith
    ultimately show ?thesis by blast
  next
    assume "rendered p g ?c"
    then show ?thesis by (intro exI [of _ 1]) simp
  qed
qed

lemma steps_left_bound: "steps_left p k \<le> 2 * length (dp_chunks p) + 1"
  by (cases k) simp_all

text \<open>
  C11: a rendering under way completes: if its session keeps its panel and its request, the scheduler
  works, the drawing succeeds and what is still to come fits into a document of 1200 elements, then
  after at most two callbacks per chunk and two more the panel shows exactly the elements of the plan's
  items, organised as the view organises them, as many as planned, the panel is no longer busy, the last
  notice says that all planned elements are inserted, and the document has no more than 1200 elements.
\<close>

theorem rendering_completes:
  assumes "rendering url6 collate c" "co_current c = Some s" "ss_scheduled s = Some k" "ss_plan s = Some p"
    "ps_root_holder (panel_of (ss_panel s) c) = Held (ss_generation s)"
    "int (countElements c) + dp_planned p \<le> 1200 + int (ss_committed s)"
  shows "\<exists>n. n \<le> 2 * length (dp_chunks p) + 2 \<and> rendered p (ss_generation s) ((fire True True True (ss_generation s) ^^ n) c)"
proof -
  have ok: "session_ok url6 collate c s" using rendering_ok [OF assms(1)] assms(2) by (simp add: render_ok_def)
  then have mid: "mid_render url6 collate c s k p" and gen: "ss_generation s = co_generation c"
    using assms(3,4) by (auto simp: session_ok_def)
  have i: "inserted url6 collate c (s\<lparr>ss_scheduled := None\<rparr>) p (next_index k)"
    using mid gen assms(4) by (simp add: inserted_def mid_render_def)
  have "cost_of (concat (take (next_index k) (dp_chunks p))) + cost_of (concat (drop (next_index k) (dp_chunks p))) = dp_planned p"
    unfolding made_plan(2) [OF i] made_plan(1) [OF i, symmetric]
    by (metis append_take_drop_id concat_append cost_of_simps(3))
  then have "int (countElements c) + cost_of (concat (drop (next_index k) (dp_chunks p))) \<le> 1200"
    using assms(6) mid items_size_cost [of "concat (take (next_index k) (dp_chunks p))"] by (simp add: mid_render_def)
  then have "going url6 collate p (ss_generation s) k c"
    using assms(2,3,5) i mid gen by (auto simp: going_def active_def mid_render_def)
  from going_completes [OF this] obtain n where
    n: "n \<le> Suc (steps_left p k)" "rendered p (ss_generation s) ((fire True True True (ss_generation s) ^^ n) c)" by blast
  have "n \<le> 2 * length (dp_chunks p) + 2" using n(1) steps_left_bound [of p k] by linarith
  with n(2) show ?thesis by blast
qed

definition example_start :: start_args where
  "example_start = \<lparr>sa_view = TopologyView, sa_panel = GraphPanel, sa_model = example_view, sa_labels = [], sa_live = True,
     sa_dispose = True, sa_valid = True\<rparr>"

definition example_rendering :: coordinator where
  "example_rendering = start_render (\<lambda>_. None) (\<lambda>x. x) True True example_start (new_coordinator 5)"

lemma example_rendering_state:
  "\<exists>s p. co_current example_rendering = Some s \<and> ss_scheduled s = Some (ChunkAt 0) \<and> ss_plan s = Some p \<and>
     ps_root_holder (panel_of (ss_panel s) example_rendering) = Held (ss_generation s) \<and> ss_generation s = 1 \<and>
     int (countElements example_rendering) + dp_planned p \<le> 1200 + int (ss_committed s) \<and> length (dp_items p) = 6"
proof -
  have "case co_current example_rendering of None \<Rightarrow> False | Some s \<Rightarrow> (case ss_plan s of None \<Rightarrow> False | Some p \<Rightarrow>
     ss_scheduled s = Some (ChunkAt 0) \<and> ps_root_holder (panel_of (ss_panel s) example_rendering) = Held (ss_generation s) \<and>
     ss_generation s = 1 \<and> int (countElements example_rendering) + dp_planned p \<le> 1200 + int (ss_committed s) \<and> length (dp_items p) = 6)"
    by code_simp
  then show ?thesis by (simp split: option.splits)
qed

lemma example_rendering_reachable: "rendering (\<lambda>_. None) (\<lambda>x. x) example_rendering"
  using stepped [OF created [of "\<lambda>_. None" "\<lambda>x. x" 5], of "Start True True example_start"] by (simp add: example_rendering_def)

theorem rendering_completes_witness:
  "\<exists>n p. length (dp_items p) = 6 \<and> rendered p 1 ((fire True True True 1 ^^ n) example_rendering)"
proof -
  obtain s p where s: "co_current example_rendering = Some s" "ss_scheduled s = Some (ChunkAt 0)" "ss_plan s = Some p"
    "ps_root_holder (panel_of (ss_panel s) example_rendering) = Held (ss_generation s)"
    "int (countElements example_rendering) + dp_planned p \<le> 1200 + int (ss_committed s)" "ss_generation s = 1" "length (dp_items p) = 6"
    using example_rendering_state by blast
  from rendering_completes [OF example_rendering_reachable s(1-5)] s(6,7) show ?thesis by auto
qed

section \<open>Callbacks are confined\<close>

lemma fail_root: "ps_root (panel_of k (fail_render owned s c)) = ps_root (panel_of k c) \<or> k = ss_panel s \<and> active owned c s"
  by (cases "k = ss_panel s") (simp_all add: fail_render_def)

lemma fail_count: "countElements (fail_render owned s c) \<le> countElements c"
proof -
  have "countElements (on_panel (ss_panel s) (\<lambda>ps. ps\<lparr>ps_root := [], ps_busy := Some False\<rparr>) c') \<le> countElements c'" for c'
    using count_on_panel [of "ss_panel s" "\<lambda>ps. ps\<lparr>ps_root := [], ps_busy := Some False\<rparr>" c'] by (simp add: panel_size_def)
  from this [of "set_session (s\<lparr>ss_aborted := True, ss_scheduled := None, ss_finished := True\<rparr>) c"] show ?thesis
    by (simp add: fail_render_def)
qed

lemma schedule_root:
  "ps_root (panel_of k (schedule_step owned works x s c)) = ps_root (panel_of k c) \<or> k = ss_panel s \<and> active owned c s"
  using fail_root [of k owned s c] by (auto simp: schedule_step_def)

lemma schedule_count: "countElements (schedule_step owned works x s c) \<le> countElements c"
  using fail_count [of owned s c] by (simp add: schedule_step_def)

lemma next_root:
  "ps_root (panel_of k (next_chunk owned works i p s c)) = ps_root (panel_of k c) \<or> k = ss_panel s \<and> active owned c s"
proof -
  have "ps_root (panel_of k (finish_render owned s c)) = ps_root (panel_of k c)"
    by (cases "k = ss_panel s") (simp_all add: finish_render_def)
  with schedule_root [of k owned works "ChunkAt i" s c] show ?thesis by (simp add: next_chunk_def)
qed

lemma next_count: "countElements (next_chunk owned works i p s c) \<le> countElements c"
proof -
  have "countElements (on_panel (ss_panel s) (\<lambda>ps. ps\<lparr>ps_busy := Some False\<rparr>) c') = countElements c'" for c'
    using count_on_panel [of "ss_panel s" "\<lambda>ps. ps\<lparr>ps_busy := Some False\<rparr>" c'] by (simp add: panel_size_def)
  then have "countElements (finish_render owned s c) = countElements c" by (simp add: finish_render_def)
  with schedule_count [of owned works "ChunkAt i" s c] show ?thesis by (simp add: next_chunk_def)
qed

lemma confined_chunk:
  assumes "active owned c s"
  shows "ps_root (panel_of k (run_chunk owned works i p s c)) = ps_root (panel_of k c) \<or> k = ss_panel s"
    "countElements (run_chunk owned works i p s c) \<le> max 1200 (countElements c)"
proof -
  have "(ps_root (panel_of k (run_chunk owned works i p s c)) = ps_root (panel_of k c) \<or> k = ss_panel s) \<and>
    countElements (run_chunk owned works i p s c) \<le> max 1200 (countElements c)"
  proof (cases "insert_chunk (dp_chunks p ! i) (ss_panel s) c")
    case None
    with fail_root [of k owned s c] fail_count [of owned s c] show ?thesis by (auto simp: run_chunk_def Let_def)
  next
    case (Some r)
    then obtain c0 n where r: "insert_chunk (dp_chunks p ! i) (ss_panel s) c = Some (c0, n)" by (cases r) auto
    define c1 where "c1 = organize_panel s c0"
    let ?x = "dp_chunks p ! i"
    have c0: "n = items_size ?x" "countElements c + n \<le> 1200" "c0 = on_panel (ss_panel s) (\<lambda>ps. ps\<lparr>ps_root := ps_root ps @ shown_items ?x\<rparr>) c"
      using r by (simp_all add: insert_chunk_Some)
    have "countElements c1 \<le> 1200"
      using count_organized [of s c0] count_on_panel [of "ss_panel s" "\<lambda>ps. ps\<lparr>ps_root := ps_root ps @ shown_items ?x\<rparr>" c] c0
      by (simp add: c1_def panel_size_def items_size_def)
    moreover have "ps_root (panel_of k c1) = ps_root (panel_of k c) \<or> k = ss_panel s" by (cases "k = ss_panel s") (simp_all add: c1_def c0(3) organize_panel_def)
    moreover have "\<exists>c2. run_chunk owned works i p s c = c2 \<and> countElements c2 \<le> countElements c1 \<and>
        (ps_root (panel_of k c2) = ps_root (panel_of k c1) \<or> k = ss_panel s)"
      using next_root [of k owned works "Suc i" p "s\<lparr>ss_committed := ss_committed s + n\<rparr>" c1]
        next_count [of owned works "Suc i" p "s\<lparr>ss_committed := ss_committed s + n\<rparr>" c1]
        schedule_root [of k owned works _ "s\<lparr>ss_committed := ss_committed s + n\<rparr>" c1]
        schedule_count [of owned works _ "s\<lparr>ss_committed := ss_committed s + n\<rparr>" c1]
      by (auto simp: run_chunk_def Let_def r c1_def)
    ultimately show ?thesis by auto
  qed
  then show "ps_root (panel_of k (run_chunk owned works i p s c)) = ps_root (panel_of k c) \<or> k = ss_panel s"
    "countElements (run_chunk owned works i p s c) \<le> max 1200 (countElements c)" by auto
qed

text \<open>
  C21: a scheduled callback is confined: it changes what a panel shows only while its session is the
  coordinator's latest, holds that panel and still owns its request, and it never makes the document
  larger than 1200 elements.
\<close>

theorem callback_confined:
  "(ps_root (panel_of k (fire owned works draws g c)) = ps_root (panel_of k c) \<or>
      (ps_root_holder (panel_of k c) = Held g \<and> g = co_generation c \<and> owned)) \<and>
   countElements (fire owned works draws g c) \<le> max 1200 (countElements c)"
proof (cases "\<exists>s x p. co_current c = Some s \<and> ss_scheduled s = Some x \<and> ss_plan s = Some p \<and> ss_generation s = g")
  case True
  then obtain s x p where s: "co_current c = Some s" "ss_scheduled s = Some x" "ss_plan s = Some p" "ss_generation s = g" by blast
  let ?s = "s\<lparr>ss_scheduled := None\<rparr>"
  show ?thesis
  proof (cases "active owned c ?s")
    case True
    note held = True [unfolded active_def]
    show ?thesis
    proof (cases x)
      case (ChunkAt i)
      with True held confined_chunk(1) [OF True, of k works i p] confined_chunk(2) [OF True, of works i p] show ?thesis by (auto simp: fire_def s Let_def)
    next
      case (DrawGraph i)
      with True held next_root [of k owned works i p "?s\<lparr>ss_limited := \<not> draws\<rparr>" c] next_count [of owned works i p "?s\<lparr>ss_limited := \<not> draws\<rparr>" c]
      show ?thesis by (auto simp: fire_def s Let_def)
    next
      case (DrawMap i)
      with True held next_root [of k owned works i p ?s c] next_count [of owned works i p ?s c] fail_root [of k owned ?s c] fail_count [of owned ?s c]
      show ?thesis by (auto simp: fire_def s Let_def)
    qed
  next
    case False
    then show ?thesis by (simp add: fire_def s Let_def)
  qed
next
  case False
  then have "fire owned works draws g c = c" by (auto simp: fire_def Let_def split: option.splits)
  then show ?thesis by simp
qed

end
