(* ===== verification/IP_Context.thy ===== *)
theory IP_Context
  imports Geo_Details Json_Roundtrip
begin

text \<open>
  The IP context of a node (\<open>normalizeIPContext\<close> and \<open>parseIPContext\<close> of \<open>frontend/state.js\<close>):
  reverse names, the registration whose range holds the address, and the routing with its
  origins, each from its own source and no newer than the whole.
\<close>

section \<open>Closed values\<close>

definition contextMember :: "string list \<Rightarrow> jval \<Rightarrow> bool" where
  "contextMember members v \<longleftrightarrow> (case v of JStr s \<Rightarrow> s \<in> set (map js members) | _ \<Rightarrow> False)"

definition context_field :: "jstr list \<Rightarrow> jkey \<times> jdesc \<Rightarrow> bool" where
  "context_field allowed f = (case f of (k, d) \<Rightarrow> allowed_key allowed k \<and> is_enum d \<and> is_data d \<and> desc_value d \<noteq> JNull)"

fun contextObject :: "string list \<Rightarrow> string list \<Rightarrow> jval \<Rightarrow> props option" where
  "contextObject required optional (JObj i plain ps) = do {
     guard plain;
     guard (\<forall>f \<in> set ps. context_field (map js (required @ optional)) f);
     guard (\<forall>k \<in> set required. has ps k);
     Some ps }"
| "contextObject required optional _ = None"

fun contextArray :: "nat \<Rightarrow> jval \<Rightarrow> jval list option" where
  "contextArray limit (JArr i plain ds) = do {
     guard plain;
     guard (length ds \<le> limit);
     guard (\<forall>d \<in> set ds. is_enum d \<and> is_data d);
     Some (map desc_value ds) }"
| "contextArray limit _ = None"

fun contextInt :: "int \<Rightarrow> jval \<Rightarrow> int option" where
  "contextInt limit (JNum n) = do { i \<leftarrow> num_int n; guard (0 \<le> i \<and> i \<le> limit); Some i }"
| "contextInt limit _ = None"

text \<open>A millisecond timestamp whose time prints back as the same text: its time.\<close>

fun contextStamp :: "jval \<Rightarrow> int option" where
  "contextStamp (JStr t) = (case match_stamp t of
       Some s \<Rightarrow> (case st_fraction s of
           Some f \<Rightarrow> if length f = 3 \<and> take 4 t \<noteq> js ''0000'' then parse_stamp t else None
         | None \<Rightarrow> None)
     | None \<Rightarrow> None)"
| "contextStamp _ = None"

text \<open>\<open>URL\<close>'s host parser is the parameter \<open>url6\<close>; only its own canonical texts are taken.\<close>

definition context_words :: "jstr \<Rightarrow> nat list" where
  "context_words t = (let halves = split_pair cColon t;
      words = (\<lambda>h. if h = [] then [] else map (digits_val 16) (split_on cColon h));
      left = words (hd halves); right = (if length halves > 1 then words (halves ! 1) else [])
   in if length halves > 1 then left @ replicate (8 - length left - length right) 0 @ right else left)"

definition lower_hex :: "unit16 \<Rightarrow> bool" where
  "lower_hex c \<longleftrightarrow> is_digit c \<or> (uc CHR ''a'' \<le> c \<and> c \<le> uc CHR ''f'')"

fun contextIP :: "host6 \<Rightarrow> jval \<Rightarrow> ip_bits option" where
  "contextIP url6 (JStr t) = do {
     guard (length t \<le> 39);
     (if cColon \<notin> set t then map_option (\<lambda>b. \<lparr>ip_width = 32, ip_value = bval b\<rparr>) (ipv4Bits t)
      else do {
        guard (\<forall>c \<in> set t. lower_hex c \<or> c = cColon);
        guard (url6 t = Some t);
        (let bits = shift_in 16 (context_words t) in do {
           guard (drop_bit 32 bits \<noteq> 65535);
           Some \<lparr>ip_width = 128, ip_value = bits\<rparr> }) }) }"
| "contextIP url6 _ = None"

definition contextCount :: "props \<Rightarrow> nat \<Rightarrow> nat \<Rightarrow> unit option" where
  "contextCount ps n limit = (let omitted = (case get ps ''omitted'' of JNum m \<Rightarrow> num_rat m | _ \<Rightarrow> None) in
     guard (if get ps ''status'' = str ''ok'' then 1 \<le> n \<and> n \<le> limit \<and> omitted = Some 0
       else if get ps ''status'' = str ''limited'' then n = limit \<and> (case omitted of Some m \<Rightarrow> 0 < m | None \<Rightarrow> False)
       else n = 0 \<and> omitted = Some 0))"

text \<open>\<open>timed\<close>: the part's source, and a time no later than the whole's.\<close>

definition timed :: "int \<Rightarrow> props \<Rightarrow> string \<Rightarrow> string \<Rightarrow> unit option" where
  "timed fetched ps source key = do {
     guard (get ps ''source'' = str source);
     t \<leftarrow> contextStamp (get ps key);
     guard (t \<le> fetched) }"

section \<open>Reverse names\<close>

definition label_unit :: "unit16 \<Rightarrow> bool" where
  "label_unit c \<longleftrightarrow> (uc CHR ''a'' \<le> c \<and> c \<le> uc CHR ''z'') \<or> is_digit c \<or> c = uc CHR ''_''"

definition valid_label :: "jstr \<Rightarrow> bool" where
  "valid_label l \<longleftrightarrow> 1 \<le> length l \<and> length l \<le> 63 \<and> label_unit (hd l) \<and> label_unit (last l) \<and>
     (\<forall>c \<in> set l. label_unit c \<or> c = cMinus)"

definition FORWARD_STATUSES :: "string list" where
  "FORWARD_STATUSES = [''confirmed'', ''mismatch'', ''not_found'', ''timeout'', ''unavailable'', ''invalid_response'', ''limited'']"

text \<open>The names in order; the result says whether one of them is transient.\<close>

fun reverse_names :: "jstr \<Rightarrow> jval list \<Rightarrow> bool option" where
  "reverse_names previous [] = Some False"
| "reverse_names previous (v # vs) = do {
     n \<leftarrow> contextObject [''name'', ''forward_status''] [] v;
     name \<leftarrow> (case get n ''name'' of JStr s \<Rightarrow> Some s | _ \<Rightarrow> None);
     guard (length name \<le> 253 \<and> previous < name \<and> (\<forall>l \<in> set (split_on cDot name). valid_label l));
     guard (contextMember FORWARD_STATUSES (get n ''forward_status''));
     rest \<leftarrow> reverse_names name vs;
     Some (\<not> contextMember [''confirmed'', ''mismatch'', ''not_found'', ''limited''] (get n ''forward_status'') \<or> rest) }"

definition reverse_dns :: "int \<Rightarrow> jval \<Rightarrow> bool option" where
  "reverse_dns fetched v = do {
     r \<leftarrow> contextObject [''status'', ''source'', ''fetched_at'', ''names'', ''omitted''] [] v;
     timed fetched r ''system_resolver'' ''fetched_at'';
     guard (contextMember [''ok'', ''limited'', ''not_found'', ''timeout'', ''unavailable'', ''invalid_response''] (get r ''status''));
     names \<leftarrow> contextArray 8 (get r ''names'');
     contextInt 56 (get r ''omitted'');
     contextCount r (length names) 8;
     transient \<leftarrow> reverse_names [] names;
     Some (\<not> contextMember [''ok'', ''limited'', ''not_found''] (get r ''status'') \<or> transient) }"

section \<open>Registration\<close>

definition REGISTRATION_FACTS :: "string list" where
  "REGISTRATION_FACTS = [''start_address'', ''end_address'', ''handle'', ''name'', ''type'', ''country'', ''organization'',
     ''registered_at'', ''updated_at'']"

definition country_code :: "jstr \<Rightarrow> bool" where
  "country_code t \<longleftrightarrow> length t = 2 \<and> (\<forall>c \<in> set t. uc CHR ''A'' \<le> c \<and> c \<le> uc CHR ''Z'')"

text \<open>The bytes of the present texts.\<close>

fun registration_texts :: "props \<Rightarrow> string list \<Rightarrow> nat option" where
  "registration_texts reg [] = Some 0"
| "registration_texts reg (k # ks) = (if \<not> has reg k then registration_texts reg ks else do {
     t \<leftarrow> (case get reg k of JStr s \<Rightarrow> Some s | _ \<Rightarrow> None);
     guard (well_formed t \<and> length t > 0);
     guard (utf8_length t \<le> 256);
     guard (k = ''country'' \<longrightarrow> country_code t);
     rest \<leftarrow> registration_texts reg ks;
     Some (utf8_length t + rest) })"

definition stamp_if_present :: "props \<Rightarrow> string \<Rightarrow> unit option" where
  "stamp_if_present ps k = (if has ps k then do { contextStamp (get ps k); Some () } else Some ())"

definition registration_facts :: "host6 \<Rightarrow> ip_bits \<Rightarrow> props \<Rightarrow> unit option" where
  "registration_facts url6 query reg = do {
     start \<leftarrow> contextIP url6 (get reg ''start_address'');
     end' \<leftarrow> contextIP url6 (get reg ''end_address'');
     guard (ip_width start = ip_width query \<and> ip_width end' = ip_width query \<and>
       ip_value start \<le> ip_value query \<and> ip_value query \<le> ip_value end');
     bytes \<leftarrow> registration_texts reg [''handle'', ''name'', ''type'', ''country'', ''organization''];
     guard (bytes \<le> 1536);
     stamp_if_present reg ''registered_at'';
     stamp_if_present reg ''updated_at'' }"

definition registration :: "host6 \<Rightarrow> ip_bits \<Rightarrow> int \<Rightarrow> jval \<Rightarrow> bool option" where
  "registration url6 query fetched v = do {
     reg \<leftarrow> contextObject [''status'', ''source'', ''fetched_at''] (''registry'' # REGISTRATION_FACTS) v;
     timed fetched reg ''rdap'' ''fetched_at'';
     guard (contextMember [''ok'', ''not_found'', ''timeout'', ''unavailable'', ''rate_limited'', ''invalid_response''] (get reg ''status''));
     guard (has reg ''registry'' \<longrightarrow> contextMember [''arin'', ''apnic'', ''ripe'', ''lacnic'', ''afrinic''] (get reg ''registry''));
     (if get reg ''status'' = str ''ok'' then registration_facts url6 query reg
      else guard (\<forall>k \<in> set REGISTRATION_FACTS. \<not> has reg k));
     Some (\<not> contextMember [''ok'', ''not_found''] (get reg ''status'')) }"

section \<open>Routing\<close>

definition prefix_length :: "jstr \<Rightarrow> nat option" where
  "prefix_length t = (if dec_octet t then Some (digits_val 10 t) else None)"

definition routing_prefix :: "host6 \<Rightarrow> ip_bits \<Rightarrow> jval \<Rightarrow> unit option" where
  "routing_prefix url6 query v = (case v of
     JStr t \<Rightarrow> (case split_on cSlash t of
         [address, len] \<Rightarrow> do {
           network \<leftarrow> contextIP url6 (JStr address);
           n \<leftarrow> prefix_length len;
           guard (n \<le> ip_width query \<and> ip_width network = ip_width query);
           (let shift = ip_width query - n in
            guard (push_bit shift (drop_bit shift (ip_value network)) = ip_value network \<and>
              drop_bit shift (ip_value query) = drop_bit shift (ip_value network))) }
       | _ \<Rightarrow> None)
   | _ \<Rightarrow> None)"

fun routing_origins :: "int \<Rightarrow> int \<Rightarrow> jval list \<Rightarrow> bool option" where
  "routing_origins fetched previous [] = Some False"
| "routing_origins fetched previous (v # vs) = do {
     origin \<leftarrow> contextObject [''asn'', ''rpki''] [] v;
     asn \<leftarrow> contextInt 4294967295 (get origin ''asn'');
     guard (previous < asn);
     rpki \<leftarrow> contextObject [''status'', ''source'', ''checked_at''] [''validity''] (get origin ''rpki'');
     timed fetched rpki ''ripe_rpki'' ''checked_at'';
     guard (contextMember [''ok'', ''timeout'', ''unavailable'', ''rate_limited'', ''invalid_response''] (get rpki ''status''));
     guard (if get rpki ''status'' = str ''ok''
       then contextMember [''valid'', ''invalid_asn'', ''invalid_length'', ''unknown''] (get rpki ''validity'')
       else \<not> has rpki ''validity'');
     rest \<leftarrow> routing_origins fetched asn vs;
     Some (get rpki ''status'' \<noteq> str ''ok'' \<or> rest) }"

definition routing :: "host6 \<Rightarrow> ip_bits \<Rightarrow> int \<Rightarrow> jval \<Rightarrow> bool option" where
  "routing url6 query fetched v = do {
     r \<leftarrow> contextObject [''status'', ''source'', ''fetched_at'', ''origins'', ''omitted''] [''prefix''] v;
     timed fetched r ''ripe_ris'' ''fetched_at'';
     guard (contextMember [''ok'', ''limited'', ''not_found'', ''timeout'', ''unavailable'', ''rate_limited'', ''invalid_response''] (get r ''status''));
     origins \<leftarrow> contextArray 4 (get r ''origins'');
     contextInt 60 (get r ''omitted'');
     contextCount r (length origins) 4;
     (if contextMember [''ok'', ''limited''] (get r ''status'') then routing_prefix url6 query (get r ''prefix'')
      else guard (\<not> has r ''prefix''));
     transient \<leftarrow> routing_origins fetched 0 origins;
     Some (\<not> contextMember [''ok'', ''limited'', ''not_found''] (get r ''status'') \<or> transient) }"

section \<open>The context\<close>

definition IP_CONTEXT_BYTES :: nat where
  "IP_CONTEXT_BYTES = 16384"

text \<open>Go's \<open>encoding/json\<close> escapes these units; \<open>unicode_escape\<close> writes four hexadecimal digits.\<close>

definition go_escaped :: "unit16 \<Rightarrow> bool" where
  "go_escaped c \<longleftrightarrow> c \<in> {0x3c, 0x3e, 0x26, 0x2028, 0x2029}"

definition go_escape :: "jstr \<Rightarrow> jstr" where
  "go_escape t = escape_by go_escaped t"

definition canonical_context :: "jval \<Rightarrow> jstr" where
  "canonical_context whole = go_escape (json_text whole) @ [10]"

definition context_parts :: "host6 \<Rightarrow> jstr \<Rightarrow> jval \<Rightarrow> props option" where
  "context_parts url6 address v = do {
     query \<leftarrow> contextIP url6 (JStr address);
     guard (canonicalPublicIP url6 address = Some address);
     whole \<leftarrow> contextObject [''schema_version'', ''address'', ''source'', ''fetched_at'', ''expires_at'', ''reverse_dns'',
       ''registration'', ''routing''] [] v;
     version \<leftarrow> contextInt 1 (get whole ''schema_version'');
     guard (version = 1 \<and> get whole ''address'' = JStr address \<and> contextMember [''upstream'', ''cache''] (get whole ''source''));
     fetched \<leftarrow> contextStamp (get whole ''fetched_at'');
     expires \<leftarrow> contextStamp (get whole ''expires_at'');
     r \<leftarrow> reverse_dns fetched (get whole ''reverse_dns'');
     g \<leftarrow> registration url6 query fetched (get whole ''registration'');
     t \<leftarrow> routing url6 query fetched (get whole ''routing'');
     guard (expires - fetched = (if r \<or> g \<or> t then 30000 else 300000));
     Some whole }"

definition normalizeIPContext :: "host6 \<Rightarrow> jval \<Rightarrow> jstr \<Rightarrow> jval option" where
  "normalizeIPContext url6 v address = do {
     context_parts url6 address v;
     guard (utf8_length (canonical_context v) \<le> IP_CONTEXT_BYTES);
     json_parse (canonical_context v) }"

section \<open>Bytes\<close>

type_synonym bytes = "8 word list"

text \<open>\<open>TextDecoder('utf-8', fatal, ignoreBOM)\<close>: the code points of a well-formed UTF-8 text as units;
  overlong forms, surrogates and values past \<open>0x10ffff\<close> are refused.\<close>

definition continuation :: "8 word \<Rightarrow> bool" where
  "continuation b \<longleftrightarrow> 0x80 \<le> b \<and> b \<le> 0xbf"

definition point_units :: "nat \<Rightarrow> jstr" where
  "point_units n = (if n < 0x10000 then [of_nat n]
     else [of_nat (0xd800 + (n - 0x10000) div 1024), of_nat (0xdc00 + (n - 0x10000) mod 1024)])"

fun utf8_decode :: "bytes \<Rightarrow> jstr option" where
  "utf8_decode [] = Some []"
| "utf8_decode (a # bs) = (let n = unat a in
     if n < 0x80 then map_option (\<lambda>t. of_nat n # t) (utf8_decode bs)
     else if 0xc2 \<le> n \<and> n \<le> 0xdf then (case bs of
         b # r \<Rightarrow> if continuation b then map_option (\<lambda>t. point_units ((n - 0xc0) * 64 + (unat b - 0x80)) @ t) (utf8_decode r) else None
       | _ \<Rightarrow> None)
     else if 0xe0 \<le> n \<and> n \<le> 0xef then (case bs of
         b # c # r \<Rightarrow> (let p = (n - 0xe0) * 4096 + (unat b - 0x80) * 64 + (unat c - 0x80) in
           if continuation b \<and> continuation c \<and> 0x800 \<le> p \<and> \<not> (0xd800 \<le> p \<and> p \<le> 0xdfff)
           then map_option (\<lambda>t. point_units p @ t) (utf8_decode r) else None)
       | _ \<Rightarrow> None)
     else if 0xf0 \<le> n \<and> n \<le> 0xf4 then (case bs of
         b # c # d # r \<Rightarrow> (let p = (n - 0xf0) * 262144 + (unat b - 0x80) * 4096 + (unat c - 0x80) * 64 + (unat d - 0x80) in
           if continuation b \<and> continuation c \<and> continuation d \<and> 0x10000 \<le> p \<and> p \<le> 0x10ffff
           then map_option (\<lambda>t. point_units p @ t) (utf8_decode r) else None)
       | _ \<Rightarrow> None)
     else None)"

definition parseIPContext :: "host6 \<Rightarrow> bytes \<Rightarrow> jstr \<Rightarrow> jval option" where
  "parseIPContext url6 bs address = do {
     guard (length bs \<le> IP_CONTEXT_BYTES);
     text \<leftarrow> utf8_decode bs;
     v \<leftarrow> contextJSON text;
     normalizeIPContext url6 v address }"

end
