(* ===== verification/IP_Controller.thy ===== *)
theory IP_Controller
  imports IP_Context Request_Input Request_Lane
begin

text \<open>
  The controller of IP context queries (\<open>createIPContextController\<close> of \<open>frontend/state.js\<close>): one
  flight at a time, fenced by owner, generation, abort signal and deadline, and a cache of 64
  addresses in order of use.  The asynchronous body of \<open>query\<close> is cut at its \<open>await\<close>s: each
  operation below is one synchronous segment, and an interleaving is a sequence of operations.
\<close>

section \<open>The cache\<close>

text \<open>A \<open>Map\<close> in insertion order, from addresses to contexts.\<close>

type_synonym 'v lru = "(jstr \<times> 'v) list"

definition CACHE_SIZE :: nat where "CACHE_SIZE = 64"

definition map_delete :: "jstr \<Rightarrow> 'v lru \<Rightarrow> 'v lru" where
  "map_delete k c = filter (\<lambda>e. fst e \<noteq> k) c"

text \<open>\<open>cache.delete(k); cache.set(k, v)\<close>: the entry becomes the newest.\<close>

definition map_renew :: "jstr \<Rightarrow> 'v \<Rightarrow> 'v lru \<Rightarrow> 'v lru" where
  "map_renew k v c = map_delete k c @ [(k, v)]"

text \<open>\<open>cached(address)\<close>, for the entries that are still valid by \<open>live\<close>.\<close>

definition cached :: "('v \<Rightarrow> bool) \<Rightarrow> jstr \<Rightarrow> 'v lru \<Rightarrow> 'v option \<times> 'v lru" where
  "cached live k c = (case map_of c k of
     Some v \<Rightarrow> if live v then (Some v, map_renew k v c) else (None, map_delete k c)
   | None \<Rightarrow> (None, map_delete k c))"

text \<open>\<open>while (cache.size > 64) cache.delete(first)\<close>.\<close>

fun evict :: "nat \<Rightarrow> 'v lru \<Rightarrow> 'v lru" where
  "evict limit [] = []"
| "evict limit (e # c) = (if limit < length (e # c) then evict limit c else e # c)"

definition store :: "jstr \<Rightarrow> 'v \<Rightarrow> 'v lru \<Rightarrow> 'v lru" where
  "store k v c = evict CACHE_SIZE (map_renew k v c)"

section \<open>The state\<close>

text \<open>The report is an object identity; the token may be empty.\<close>

record owner =
  ow_report :: nat
  ow_base :: jstr
  ow_auth :: nat
  ow_token :: jstr
  ow_address :: jstr

datatype view = Idle | Loading | Ready jval bool | Cancelled | Ineligible | Unavailable | InsecureAuth | TimedOut
  | Unsupported | Unauthorized | RateLimited | Busy | InvalidResponse

text \<open>Where the asynchronous body waits: for the response, for a chunk, or for the cancelled body.\<close>

datatype stage = Fetching | Reading | Cleaning

record flight =
  fl_id :: nat
  fl_owner :: "nat \<times> owner"
  fl_generation :: nat
  fl_deadline :: int
  fl_aborted :: bool
  fl_body :: bool
  fl_body_cancelled :: bool
  fl_settled :: "bool option"
  fl_timer :: bool
  fl_bytes :: bytes
  fl_stage :: stage

text \<open>The owner is copied at each \<open>setOwner\<close>; its number is the copy's identity.\<close>

record controller =
  c_owner :: "(nat \<times> owner) option"
  c_generation :: nat
  c_alive :: bool
  c_flight :: "flight option"
  c_view :: view
  c_cache :: "jval lru"
  c_next :: nat

definition createIPContextController :: controller where
  "createIPContextController = \<lparr>c_owner = None, c_generation = 0, c_alive = True, c_flight = None, c_view = Idle,
     c_cache = [], c_next = 0\<rparr>"

text \<open>What the segment reads from outside: the wall clock, and the \<open>n\<close>-th readings of the monotonic
  clock and of \<open>isCurrentOwner\<close>.\<close>

record reading =
  r_now :: int
  r_mono :: "nat \<Rightarrow> int"
  r_current :: "nat \<Rightarrow> bool"

section \<open>Helpers\<close>

definition expires_at :: "jval \<Rightarrow> int option" where
  "expires_at v = (case v of JObj i plain ps \<Rightarrow> contextStamp (get ps ''expires_at'') | _ \<Rightarrow> None)"

definition unexpired :: "int \<Rightarrow> jval \<Rightarrow> bool" where
  "unexpired now v = (case expires_at v of Some e \<Rightarrow> \<not> e \<le> now | None \<Rightarrow> True)"

definition stopBody :: "flight \<Rightarrow> flight" where
  "stopBody f = (if \<not> fl_body f \<or> fl_body_cancelled f then f else f\<lparr>fl_body_cancelled := True\<rparr>)"

definition settle_flight :: "bool \<Rightarrow> flight \<Rightarrow> flight" where
  "settle_flight b f = (case fl_settled f of None \<Rightarrow> f\<lparr>fl_settled := Some b\<rparr> | Some x \<Rightarrow> f)"

definition clearDeadline :: "flight \<Rightarrow> flight" where
  "clearDeadline f = f\<lparr>fl_timer := False\<rparr>"

definition abort :: "flight \<Rightarrow> flight" where
  "abort f = f\<lparr>fl_aborted := True\<rparr>"

definition revoke :: "controller \<Rightarrow> controller" where
  "revoke c = c\<lparr>c_generation := c_generation c + 1,
     c_flight := map_option (\<lambda>f. settle_flight False (stopBody (abort (clearDeadline f)))) (c_flight c)\<rparr>"

definition sameScope :: "owner option \<Rightarrow> owner option \<Rightarrow> bool" where
  "sameScope a b = (case (a, b) of (Some x, Some y) \<Rightarrow> ow_report x = ow_report y \<and> ow_base x = ow_base y \<and>
       ow_auth x = ow_auth y \<and> ow_token x = ow_token y | _ \<Rightarrow> False)"

definition owns :: "controller \<Rightarrow> flight \<Rightarrow> bool \<Rightarrow> bool" where
  "owns c f current \<longleftrightarrow> c_alive c \<and> c_generation c = fl_generation f \<and> c_owner c = Some (fl_owner f) \<and> current"

definition live :: "reading \<Rightarrow> nat \<Rightarrow> controller \<Rightarrow> flight \<Rightarrow> bool" where
  "live r n c f \<longleftrightarrow> owns c f (r_current r n) \<and> \<not> fl_aborted f \<and> r_mono r n < fl_deadline f"

definition publish :: "view \<Rightarrow> controller \<Rightarrow> controller" where
  "publish v c = c\<lparr>c_view := v\<rparr>"

abbreviation set_flight :: "flight option \<Rightarrow> controller \<Rightarrow> controller" where
  "set_flight f c \<equiv> c\<lparr>c_flight := f\<rparr>"

section \<open>Owner, cancellation and destruction\<close>

definition lookup :: "int \<Rightarrow> jstr \<Rightarrow> controller \<Rightarrow> jval option \<times> controller" where
  "lookup now k c = (case cached (unexpired now) k (c_cache c) of (v, cache) \<Rightarrow> (v, c\<lparr>c_cache := cache\<rparr>))"

definition setOwner :: "owner option \<Rightarrow> reading \<Rightarrow> controller \<Rightarrow> controller" where
  "setOwner next' r c = (let old = map_option snd (c_owner c) in
     if \<not> c_alive c then c
     else if sameScope old next' \<and> map_option ow_address old = map_option ow_address next' then c
     else let c = (if sameScope old next' then c else c\<lparr>c_cache := []\<rparr>);
              c = (revoke c)\<lparr>c_owner := map_option (\<lambda>o'. (c_next c, o')) next', c_next := c_next c + 1\<rparr>
          in (case next' of None \<Rightarrow> publish Idle c
              | Some o' \<Rightarrow> (case lookup (r_now r) (ow_address o') c of
                  (Some v, c) \<Rightarrow> publish (Ready v True) c | (None, c) \<Rightarrow> publish Idle c)))"

definition cancel :: "controller \<Rightarrow> controller" where
  "cancel c = (if \<not> c_alive c then c else publish Cancelled (revoke c))"

definition destroy :: "controller \<Rightarrow> controller" where
  "destroy c = (if \<not> c_alive c then c
     else (revoke c)\<lparr>c_alive := False, c_owner := None, c_cache := [], c_view := Idle\<rparr>)"

section \<open>The flight\<close>

text \<open>The timer's callback: only the current, unsettled flight is ended.\<close>

definition timeout :: "nat \<Rightarrow> bool \<Rightarrow> controller \<Rightarrow> controller" where
  "timeout i current c = (case c_flight c of None \<Rightarrow> c
     | Some f \<Rightarrow> if fl_id f \<noteq> i \<or> fl_settled f \<noteq> None then c
         else let c = (if owns c f current \<and> \<not> fl_aborted f then publish TimedOut c else c)
           in set_flight (Some (settle_flight False (clearDeadline (stopBody (abort f))))) c)"

text \<open>\<open>finally\<close>: a deadline that has passed ends the flight as its timer would; the flight is freed at
  once, or after its cancelled body has closed.\<close>

definition expire :: "reading \<Rightarrow> nat \<Rightarrow> flight \<Rightarrow> controller \<Rightarrow> controller" where
  "expire r n f c = (if owns c f (r_current r n) \<and> \<not> fl_aborted f \<and> r_mono r n \<ge> fl_deadline f
     then timeout (fl_id f) (r_current r (n + 1)) c else c)"

definition release :: "controller \<Rightarrow> controller" where
  "release c = (case c_flight c of None \<Rightarrow> c
     | Some f \<Rightarrow> (let f = settle_flight False (clearDeadline f) in
         if fl_body_cancelled f then set_flight (Some (f\<lparr>fl_stage := Cleaning\<rparr>)) c else set_flight None c))"

definition finish :: "reading \<Rightarrow> nat \<Rightarrow> flight \<Rightarrow> controller \<Rightarrow> controller" where
  "finish r n f c = release (expire r n f (set_flight (Some f) c))"

text \<open>\<open>catch\<close> and then \<open>finally\<close>.\<close>

definition fail :: "view \<Rightarrow> reading \<Rightarrow> nat \<Rightarrow> flight \<Rightarrow> controller \<Rightarrow> controller" where
  "fail v r n f c = (let f = stopBody f; c = (if live r n c f then publish v c else c) in finish r (n + 1) f c)"

text \<open>An early return after \<open>stopBody\<close>.\<close>

definition give_up :: "reading \<Rightarrow> nat \<Rightarrow> flight \<Rightarrow> controller \<Rightarrow> controller" where
  "give_up r n f c = finish r n (stopBody f) c"

definition thrown_view :: "bool \<Rightarrow> view" where
  "thrown_view type_or_syntax = (if type_or_syntax then InvalidResponse else Unavailable)"

definition hostname_of :: "jstr \<Rightarrow> jstr" where
  "hostname_of h = (if h \<noteq> [] \<and> hd h = cLBrack then takeWhile (\<lambda>c. c \<noteq> cRBrack) h @ [cRBrack]
     else takeWhile (\<lambda>c. c \<noteq> cColon) h)"

definition base_url :: "url_parser \<Rightarrow> jstr \<Rightarrow> url option" where
  "base_url purl base = (case purl base of None \<Rightarrow> None
     | Some u \<Rightarrow> if protocol u \<in> {js ''http:'', js ''https:''} \<and> username u = [] \<and> password u = [] \<and> search u = [] \<and> hash u = []
         then Some u else None)"

definition insecure :: "url \<Rightarrow> owner \<Rightarrow> bool" where
  "insecure u o' \<longleftrightarrow> ow_token o' \<noteq> [] \<and> protocol u \<noteq> js ''https:'' \<and>
     hostname_of (host u) \<notin> {js ''localhost'', js ''127.0.0.1'', js ''[::1]''}"

definition eligible :: "host6 \<Rightarrow> jstr \<Rightarrow> bool" where
  "eligible url6 a \<longleftrightarrow> contextIP url6 (JStr a) \<noteq> None \<and> canonicalPublicIP url6 a = Some a"

text \<open>How the platform answers the two calls of the segment that starts a flight: whether \<open>setTimer\<close>
  works, and whether \<open>fetch\<close> throws before it waits (and then whether a \<open>TypeError\<close>).\<close>

record start_calls =
  sc_timer :: bool
  sc_throws :: "bool option"

definition new_flight :: "reading \<Rightarrow> nat \<times> owner \<Rightarrow> controller \<Rightarrow> flight" where
  "new_flight r o' c = \<lparr>fl_id = c_next c, fl_owner = o', fl_generation = c_generation c, fl_deadline = r_mono r 0 + 10000,
     fl_aborted = False, fl_body = False, fl_body_cancelled = False, fl_settled = None, fl_timer = True, fl_bytes = [],
     fl_stage = Fetching\<rparr>"

definition start_flight :: "start_calls \<Rightarrow> reading \<Rightarrow> nat \<times> owner \<Rightarrow> controller \<Rightarrow> controller" where
  "start_flight calls r o' c = (let f = new_flight r o' c; c = c\<lparr>c_next := c_next c + 1\<rparr> in
     if \<not> sc_timer calls then publish Unavailable c
     else let c = publish Loading (set_flight (Some f) c) in
       if \<not> live r 1 c f then finish r 2 f c
       else if \<not> live r 2 c f then finish r 3 f c
       else (case sc_throws calls of Some t \<Rightarrow> fail (thrown_view t) r 3 f c | None \<Rightarrow> c))"

definition query :: "url_parser \<Rightarrow> host6 \<Rightarrow> start_calls \<Rightarrow> reading \<Rightarrow> controller \<Rightarrow> controller" where
  "query purl url6 calls r c = (case c_owner c of None \<Rightarrow> c
     | Some o' \<Rightarrow>
       if \<not> c_alive c \<or> \<not> r_current r 0 then c
       else if \<not> eligible url6 (ow_address (snd o')) then publish Ineligible c
       else if c_flight c \<noteq> None then c
       else (case lookup (r_now r) (ow_address (snd o')) c of
           (Some v, c) \<Rightarrow> publish (Ready v True) c
         | (None, c) \<Rightarrow> (case base_url purl (ow_base (snd o')) of
             None \<Rightarrow> publish Unavailable c
           | Some u \<Rightarrow> if insecure u (snd o') then publish InsecureAuth c else start_flight calls r o' c)))"

text \<open>The response: redirected, status, declared length, and whether its body has a reader.\<close>

record fetch_response =
  fd_redirected :: bool
  fd_status :: int
  fd_length :: "jstr option"
  fd_body :: bool
  fd_reader :: bool

definition status_view :: "int \<Rightarrow> view" where
  "status_view s = (if s = 404 then Unsupported else if s = 401 then Unauthorized else if s = 429 then RateLimited
     else if s = 503 then Busy else Unavailable)"

definition declared_ok :: "jstr option \<Rightarrow> bool" where
  "declared_ok d = (case d of None \<Rightarrow> True
     | Some t \<Rightarrow> t \<noteq> [] \<and> (\<forall>c \<in> set t. is_digit c) \<and> digits_val 10 t \<le> IP_CONTEXT_BYTES)"

definition fetch_resolved :: "fetch_response \<Rightarrow> reading \<Rightarrow> flight \<Rightarrow> controller \<Rightarrow> controller" where
  "fetch_resolved d r f c = (let f = f\<lparr>fl_body := fd_body d\<rparr> in
     if \<not> live r 0 c f then give_up r 1 f c
     else if fd_redirected d \<or> fd_status d \<noteq> 200 then
       (let f = stopBody f; c = (if live r 1 c f then publish (status_view (fd_status d)) c else c) in finish r 2 f c)
     else if \<not> declared_ok (fd_length d) \<or> \<not> fd_reader d then fail InvalidResponse r 1 f c
     else if \<not> live r 1 c f then give_up r 2 f c
     else if \<not> live r 2 c f then give_up r 3 f c
     else set_flight (Some (f\<lparr>fl_stage := Reading\<rparr>)) c)"

datatype chunk = Done | Bytes bytes | NotBytes

definition address_of :: "jval \<Rightarrow> jstr" where
  "address_of v = (case v of JObj i plain ps \<Rightarrow> (case get ps ''address'' of JStr s \<Rightarrow> s | _ \<Rightarrow> []) | _ \<Rightarrow> [])"

text \<open>After the last chunk.\<close>

definition complete :: "host6 \<Rightarrow> reading \<Rightarrow> flight \<Rightarrow> controller \<Rightarrow> controller" where
  "complete url6 r f c =
     (if \<not> live r 1 c f then finish r 2 f c
      else (case parseIPContext url6 (fl_bytes f) (ow_address (snd (fl_owner f))) of
          None \<Rightarrow> fail InvalidResponse r 2 f c
        | Some v \<Rightarrow> if \<not> live r 2 c f then finish r 3 f c
            else let c = (if (case expires_at v of Some e \<Rightarrow> r_now r < e | None \<Rightarrow> False)
                   then c\<lparr>c_cache := store (address_of v) v (c_cache c)\<rparr> else c);
                 c = publish (Ready v False) c
              in finish r 3 (settle_flight True f) c))"

definition read_chunk :: "host6 \<Rightarrow> chunk \<Rightarrow> reading \<Rightarrow> flight \<Rightarrow> controller \<Rightarrow> controller" where
  "read_chunk url6 k r f c =
     (if \<not> live r 0 c f then give_up r 1 f c
      else (case k of Done \<Rightarrow> complete url6 r f c
        | NotBytes \<Rightarrow> fail InvalidResponse r 1 f c
        | Bytes bs \<Rightarrow> if length (fl_bytes f) + length bs \<le> IP_CONTEXT_BYTES
            then (let f = f\<lparr>fl_bytes := fl_bytes f @ bs\<rparr> in
              if live r 1 c f then set_flight (Some f) c else give_up r 2 f c)
            else fail InvalidResponse r 1 f c))"

section \<open>Interleavings\<close>

text \<open>The segments in any order; those of a flight carry its number and are taken where it waits.\<close>

datatype operation = SetOwner "owner option" reading | Cancel | Destroy | Query start_calls reading
  | TimerFired nat bool | FetchResolved nat fetch_response reading | FetchRejected nat bool reading
  | ChunkRead nat chunk reading | ReadRejected nat bool reading | BodyClosed nat

definition on_flight :: "nat \<Rightarrow> stage \<Rightarrow> (flight \<Rightarrow> controller \<Rightarrow> controller) \<Rightarrow> controller \<Rightarrow> controller" where
  "on_flight i st g c = (case c_flight c of None \<Rightarrow> c
     | Some f \<Rightarrow> if fl_id f = i \<and> fl_stage f = st then g f c else c)"

definition free :: "flight \<Rightarrow> controller \<Rightarrow> controller" where
  "free f c = set_flight None c"

fun perform :: "url_parser \<Rightarrow> host6 \<Rightarrow> operation \<Rightarrow> controller \<Rightarrow> controller" where
  "perform purl url6 (SetOwner o' r) c = setOwner o' r c"
| "perform purl url6 Cancel c = cancel c"
| "perform purl url6 Destroy c = destroy c"
| "perform purl url6 (Query calls r) c = query purl url6 calls r c"
| "perform purl url6 (TimerFired i b) c = timeout i b c"
| "perform purl url6 (FetchResolved i d r) c = on_flight i Fetching (fetch_resolved d r) c"
| "perform purl url6 (FetchRejected i t r) c = on_flight i Fetching (fail (thrown_view t) r 0) c"
| "perform purl url6 (ChunkRead i k r) c = on_flight i Reading (read_chunk url6 k r) c"
| "perform purl url6 (ReadRejected i t r) c = on_flight i Reading (fail (thrown_view t) r 0) c"
| "perform purl url6 (BodyClosed i) c = on_flight i Cleaning free c"

fun flight_of :: "operation \<Rightarrow> nat option" where
  "flight_of (TimerFired i b) = Some i"
| "flight_of (FetchResolved i d r) = Some i"
| "flight_of (FetchRejected i t r) = Some i"
| "flight_of (ChunkRead i k r) = Some i"
| "flight_of (ReadRejected i t r) = Some i"
| "flight_of (BodyClosed i) = Some i"
| "flight_of _ = None"

definition in_flight :: "controller \<Rightarrow> nat option" where
  "in_flight c = map_option fl_id (c_flight c)"

inductive reachable :: "url_parser \<Rightarrow> host6 \<Rightarrow> controller \<Rightarrow> bool" for purl url6 where
  start: "reachable purl url6 createIPContextController"
| step: "reachable purl url6 c \<Longrightarrow> reachable purl url6 (perform purl url6 x c)"

section \<open>Segments of a flight keep its number\<close>

lemma helpers_id [simp]:
  "fl_id (stopBody f) = fl_id f" "fl_id (settle_flight b f) = fl_id f" "fl_id (clearDeadline f) = fl_id f" "fl_id (abort f) = fl_id f"
  by (auto simp: stopBody_def settle_flight_def clearDeadline_def abort_def split: option.splits)

lemma in_flight_simps [simp]:
  "in_flight (publish v c) = in_flight c" "in_flight (c\<lparr>c_cache := x\<rparr>) = in_flight c"
  "in_flight (set_flight f c) = map_option fl_id f" "in_flight (revoke c) = in_flight c"
  by (auto simp: in_flight_def publish_def revoke_def option.map_comp comp_def)

lemma timeout_flight [simp]: "in_flight (timeout i b c) = in_flight c"
  by (auto simp: timeout_def in_flight_def publish_def split: option.splits)

definition keeps :: "nat \<Rightarrow> controller \<Rightarrow> bool" where
  "keeps i c \<longleftrightarrow> in_flight c = Some i \<or> in_flight c = None"

lemma keeps_simps [simp]:
  "keeps i (publish v c) = keeps i c" "keeps i (c\<lparr>c_cache := x\<rparr>) = keeps i c" "keeps (fl_id f) (set_flight (Some f) c)"
  "keeps i (set_flight None c)"
  by (auto simp: keeps_def)

lemma release_flight: "keeps i c \<Longrightarrow> keeps i (release c)"
  by (auto simp: keeps_def release_def in_flight_def Let_def split: option.splits)

lemma expire_flight [simp]: "in_flight (expire r n f c) = in_flight c"
  by (simp add: expire_def)

lemma finish_flight [simp]: "fl_id f = i \<Longrightarrow> keeps i (finish r n f c)"
  unfolding finish_def by (rule release_flight) (simp add: keeps_def)

lemma fail_flight [simp]: "fl_id f = i \<Longrightarrow> keeps i (fail v r n f c)"
  by (simp add: fail_def Let_def)

lemma give_up_flight [simp]: "fl_id f = i \<Longrightarrow> keeps i (give_up r n f c)"
  by (simp add: give_up_def)

lemma stage_flight [simp]: "fl_id f = i \<Longrightarrow> keeps i (set_flight (Some (f\<lparr>fl_stage := st\<rparr>)) c)"
  by (simp add: keeps_def)

lemma fetch_flight [simp]: "fl_id f = i \<Longrightarrow> keeps i (fetch_resolved d r f c)"
  by (simp add: fetch_resolved_def Let_def)

lemma complete_flight [simp]: "fl_id f = i \<Longrightarrow> keeps i (complete url6 r f c)"
  by (simp add: complete_def Let_def split: option.splits)

lemma chunk_flight [simp]: "fl_id f = i \<Longrightarrow> keeps i (read_chunk url6 k r f c)"
  by (cases k) (simp_all add: read_chunk_def Let_def, simp add: keeps_def)

lemma on_flight_other: "in_flight c \<noteq> Some i \<Longrightarrow> on_flight i st g c = c"
  by (auto simp: on_flight_def in_flight_def split: option.splits)

lemma on_flight_keeps:
  assumes "\<And>f. fl_id f = i \<Longrightarrow> keeps i (g f c)"
  shows "in_flight (on_flight i st g c) = in_flight c \<or> in_flight (on_flight i st g c) = None"
proof (cases "c_flight c")
  case (Some f)
  with assms [of f] show ?thesis by (auto simp: on_flight_def in_flight_def keeps_def)
qed (simp add: on_flight_def)

text \<open>The controller is a machine whose flight has an owner: segments of another flight change
  nothing.\<close>

interpretation controller: owned_machine "perform purl url6" in_flight flight_of for purl url6
proof
  fix e w s assume "flight_of e = Some w" "in_flight s \<noteq> Some w"
  then show "perform purl url6 e s = s"
    by (cases e) (auto simp: on_flight_other timeout_def in_flight_def split: option.splits)
next
  fix e w s assume e: "flight_of e = Some w"
  show "in_flight (perform purl url6 e s) = in_flight s \<or> in_flight (perform purl url6 e s) = None"
  proof (cases e)
    case (FetchResolved i d r)
    show ?thesis unfolding FetchResolved perform.simps by (rule on_flight_keeps) simp
  next
    case (FetchRejected i t r)
    show ?thesis unfolding FetchRejected perform.simps by (rule on_flight_keeps) simp
  next
    case (ChunkRead i k r)
    show ?thesis unfolding ChunkRead perform.simps by (rule on_flight_keeps) simp
  next
    case (ReadRejected i t r)
    show ?thesis unfolding ReadRejected perform.simps by (rule on_flight_keeps) simp
  next
    case (BodyClosed i)
    show ?thesis unfolding BodyClosed perform.simps by (rule on_flight_keeps) (simp add: free_def)
  qed (use e in simp_all)
qed

end
