(* ===== verification/Context_Facts.thy ===== *)
theory Context_Facts
  imports IP_Controller
begin

text \<open>
  What \<open>parseIPContext\<close> returns: the value the strict reader found in the bytes, unchanged by the
  printing and reading again that ends \<open>normalizeIPContext\<close>, and about the requested address.
\<close>

section \<open>Printing as Go does and reading again\<close>

interpretation go_reader: plain_reader json_policy go_escaped
proof
  fix c assume "go_escaped c"
  then show "\<not> grammar_unit c"
    by (auto simp: go_escaped_def grammar_unit_def is_digit_def is_high_def is_low_def)
qed (simp_all add: json_reader.numbers json_reader.texts)

lemma canonical_reads:
  assumes "strict_value n v"
  shows "json_parse (canonical_context v) = Some v"
proof -
  have "length (json_text v) \<le> Suc (length (canonical_context v))"
    using escape_by_length [of "json_text v" go_escaped] by (simp add: canonical_context_def go_escape_def)
  from strict_levels [OF assms this] show ?thesis
    using go_reader.line_reads by (simp add: json_parse_def canonical_context_def go_escape_def room_def json_policy_def)
qed

lemma parsed_reads:
  assumes "parseIPContext url6 bs a = Some v"
  obtains t where "utf8_decode bs = Some t" "contextJSON t = Some v" "context_parts url6 a v \<noteq> None"
    "normalizeIPContext url6 v a = Some v"
proof -
  from assms obtain u w where t: "utf8_decode bs = Some u" "contextJSON u = Some w" "normalizeIPContext url6 w a = Some v"
    by (auto simp: parseIPContext_def option_elims)
  moreover have "v = w"
    using t(3) canonical_reads [OF contextJSON_strict [OF t(2)]] by (auto simp: normalizeIPContext_def option_elims)
  ultimately show ?thesis using that by (auto simp: normalizeIPContext_def option_elims)
qed

section \<open>The address and the times\<close>

lemma option_bindE:
  assumes "Option.bind m f = Some y"
  obtains x where "m = Some x" "f x = Some y"
  using assms by (cases m) auto

lemma contextObject_props: "contextObject req opt v = Some ps \<Longrightarrow> \<exists>i. v = JObj i True ps"
  by (cases v) (auto simp: option_elims)

lemma parts_about:
  assumes "context_parts url6 a v \<noteq> None"
  obtains i ps fetched expires where "v = JObj i True ps" "canonicalPublicIP url6 a = Some a" "get ps ''address'' = JStr a"
    "contextStamp (get ps ''fetched_at'') = Some fetched" "contextStamp (get ps ''expires_at'') = Some expires"
    "expires - fetched = 30000 \<or> expires - fetched = 300000"
proof -
  from assms obtain ps where "context_parts url6 a v = Some ps" by auto
  then show ?thesis
    unfolding context_parts_def
  proof (elim option_bindE, goal_cases)
    case (1 query u1 whole version u2 fetched expires r g t u3)
    from 1(3) obtain i where "v = JObj i True whole" using contextObject_props by blast
    moreover have "expires - fetched = 30000 \<or> expires - fetched = 300000"
      using 1(11) by (cases "r \<or> g \<or> t") simp_all
    ultimately show ?thesis using that 1(2,5,6,7) by simp
  qed
qed

lemma parsed_facts:
  assumes "parseIPContext url6 bs a = Some v"
  shows "(\<exists>t. utf8_decode bs = Some t \<and> contextJSON t = Some v) \<and> normalizeIPContext url6 v a = Some v \<and>
    address_of v = a \<and> canonicalPublicIP url6 a = Some a \<and>
    (\<exists>i ps fetched expires. v = JObj i True ps \<and> contextStamp (get ps ''fetched_at'') = Some fetched \<and>
       expires_at v = Some expires \<and> expires - fetched \<in> {30000, 300000})"
proof -
  from assms obtain t where t: "utf8_decode bs = Some t" "contextJSON t = Some v" "context_parts url6 a v \<noteq> None"
    "normalizeIPContext url6 v a = Some v" by (rule parsed_reads)
  from t(3) show ?thesis
    by (rule parts_about) (use t in \<open>simp add: address_of_def expires_at_def\<close>)
qed

text \<open>
  C14: a context that \<open>parseIPContext\<close> returns is the value the bytes say: the printing and parsing that
  ends \<open>normalizeIPContext\<close> changes nothing, so normalising it again gives it back.  It is about the
  requested address, which is public, and it expires 30 or 300 seconds after it was fetched.
\<close>

theorem parsed_context_stable:
  assumes "parseIPContext url6 bs a = Some v"
  shows "(\<exists>t. utf8_decode bs = Some t \<and> contextJSON t = Some v) \<and> normalizeIPContext url6 v a = Some v \<and>
    address_of v = a \<and> canonicalPublicIP url6 a = Some a \<and>
    (\<exists>i ps fetched expires. v = JObj i True ps \<and> contextStamp (get ps ''fetched_at'') = Some fetched \<and>
       expires_at v = Some expires \<and> expires - fetched \<in> {30000, 300000})"
  using assms by (rule parsed_facts)

section \<open>An example\<close>

abbreviation fields :: "(string \<times> jval) list \<Rightarrow> props" where
  "fields kvs \<equiv> map (\<lambda>(k, v). (Key (js k), Data True v)) kvs"

definition example_part :: "string \<Rightarrow> (string \<times> jval) list \<Rightarrow> (string \<times> jval) list" where
  "example_part source fs = [(''status'', str ''not_found''), (''source'', str source),
     (''fetched_at'', str ''2024-01-02T03:04:05.000Z'')] @ fs"

definition example_dns :: "(string \<times> jval) list" where
  "example_dns = example_part ''system_resolver'' [(''names'', arr []), (''omitted'', num 0)]"

definition example_registration :: "(string \<times> jval) list" where
  "example_registration = example_part ''rdap'' []"

definition example_routing :: "(string \<times> jval) list" where
  "example_routing = example_part ''ripe_ris'' [(''origins'', arr []), (''omitted'', num 0)]"

definition example_fields :: "(string \<times> jval) list" where
  "example_fields = [(''schema_version'', num 1), (''address'', str ''8.8.8.8''), (''source'', str ''upstream''),
     (''fetched_at'', str ''2024-01-02T03:04:05.000Z''), (''expires_at'', str ''2024-01-02T03:09:05.000Z''),
     (''reverse_dns'', obj example_dns), (''registration'', obj example_registration), (''routing'', obj example_routing)]"

definition example_context :: jval where
  "example_context = obj example_fields"

definition example_bytes :: bytes where
  "example_bytes = map ucast (json_text example_context)"

text \<open>Printable ASCII that neither printer escapes.\<close>

definition plain_unit :: "unit16 \<Rightarrow> bool" where
  "plain_unit c \<longleftrightarrow> 32 \<le> c \<and> c < 128 \<and> c \<notin> {cQuote, cBackslash, 0x3c, 0x3e, 0x26}"

lemma plain_quote: "list_all plain_unit t \<Longrightarrow> quote_units t = t"
proof (induction t rule: quote_units.induct)
  case (3 c d s)
  then have "\<not> is_high c" "\<not> is_low c" "escape_unit c = [c]"
    by (auto simp: plain_unit_def is_high_def is_low_def escape_unit_def word_less_nat_alt word_le_nat_alt)
  with 3 show ?case by simp
qed (auto simp: plain_unit_def is_high_def is_low_def escape_unit_def word_less_nat_alt word_le_nat_alt)

lemma ascii_decodes: "\<forall>c \<in> set t. unat c < 128 \<Longrightarrow> utf8_decode (map ucast t) = Some (t :: jstr)"
proof (induction t)
  case (Cons c t)
  then have "unat (ucast c :: 8 word) = unat c" by (simp add: unsigned_ucast_eq unsigned_take_bit_eq take_bit_nat_eq_self_iff)
  with Cons show ?case by simp
qed simp

lemma ascii_length: "\<forall>c \<in> set t. unat c < 128 \<Longrightarrow> utf8_length t = length t"
  by (induction t) (auto simp: word_le_nat_alt utf8_bytes_def)

lemmas example_defs = example_context_def example_fields_def example_dns_def example_registration_def example_routing_def
  example_part_def obj_def arr_def str_def num_def

lemma example_numbers: "number_text (jint 0) = [48]" "number_text (jint 1) = [49]"
proof -
  have "dec 0 = [48]" "dec 1 = [49]" by code_simp+
  then show "number_text (jint 0) = [48]" "number_text (jint 1) = [49]" by (simp_all add: number_text_nat MAX_SAFE_def)
qed

lemma example_units: "list_all (\<lambda>c. plain_unit c \<or> c = cQuote) (json_text example_context)"
  by (simp add: example_defs quote_def plain_quote example_numbers js_def plain_unit_def del: quote_units.simps)

lemma example_length: "length (json_text example_context) \<le> 1000"
  by (simp add: example_defs quote_def plain_quote example_numbers js_def plain_unit_def del: quote_units.simps)

lemma example_strict: "strict_value 16 example_context" "tokens_of example_context \<le> 16384"
  by code_simp+

lemmas stamp_defs = str_def js_def match_stamp_def digits_at_def stamp_tail_def parse_stamp_def valid_civil_def stamp_ms_def
  day_number_def year_days_def month_days_def month_lengths_def leap_def fraction_ms_def digits_val_def digit_val_def is_digit_def

lemma example_stamps: "contextStamp (str ''2024-01-02T03:04:05.000Z'') = Some 1704164645000"
  "contextStamp (str ''2024-01-02T03:09:05.000Z'') = Some 1704164945000"
  by (simp_all add: stamp_defs)

lemma example_timed:
  "timed 1704164645000 (fields example_dns) ''system_resolver'' ''fetched_at'' = Some ()"
  "timed 1704164645000 (fields example_registration) ''rdap'' ''fetched_at'' = Some ()"
  "timed 1704164645000 (fields example_routing) ''ripe_ris'' ''fetched_at'' = Some ()"
proof -
  have "get (fields example_dns) ''fetched_at'' = str ''2024-01-02T03:04:05.000Z''"
    "get (fields example_registration) ''fetched_at'' = str ''2024-01-02T03:04:05.000Z''"
    "get (fields example_routing) ''fetched_at'' = str ''2024-01-02T03:04:05.000Z''"
    "get (fields example_dns) ''source'' = str ''system_resolver''" "get (fields example_registration) ''source'' = str ''rdap''"
    "get (fields example_routing) ''source'' = str ''ripe_ris''"
    by code_simp+
  then show "timed 1704164645000 (fields example_dns) ''system_resolver'' ''fetched_at'' = Some ()"
    "timed 1704164645000 (fields example_registration) ''rdap'' ''fetched_at'' = Some ()"
    "timed 1704164645000 (fields example_routing) ''ripe_ris'' ''fetched_at'' = Some ()"
    by (simp_all add: timed_def example_stamps)
qed

lemma example_dns_read: "reverse_dns 1704164645000 (obj example_dns) = Some False"
proof -
  let ?f = "fields example_dns"
  have f: "contextObject [''status'', ''source'', ''fetched_at'', ''names'', ''omitted''] [] (obj example_dns) = Some ?f"
    "contextArray 8 (get ?f ''names'') = Some []" "contextInt 56 (get ?f ''omitted'') = Some 0"
    "contextCount ?f 0 8 = Some ()"
    "contextMember [''ok'', ''limited'', ''not_found'', ''timeout'', ''unavailable'', ''invalid_response''] (get ?f ''status'')"
    "contextMember [''ok'', ''limited'', ''not_found''] (get ?f ''status'')"
    by code_simp+
  show ?thesis by (simp only: f example_timed(1) reverse_dns_def bind.simps guard_True reverse_names.simps list.size not_False_eq_True HOL.simp_thms)
qed

lemma example_registration_read: "registration u q 1704164645000 (obj example_registration) = Some False"
proof -
  let ?f = "fields example_registration"
  have f: "contextObject [''status'', ''source'', ''fetched_at''] (''registry'' # REGISTRATION_FACTS) (obj example_registration) = Some ?f"
    "contextMember [''ok'', ''not_found'', ''timeout'', ''unavailable'', ''rate_limited'', ''invalid_response''] (get ?f ''status'')"
    "\<not> has ?f ''registry''" "get ?f ''status'' \<noteq> str ''ok''" "(\<forall>k \<in> set REGISTRATION_FACTS. \<not> has ?f k) = True"
    "contextMember [''ok'', ''not_found''] (get ?f ''status'')"
    by code_simp+
  show ?thesis by (simp only: f example_timed(2) registration_def bind.simps guard_True if_False simp_thms not_False_eq_True HOL.simp_thms)
qed

lemma example_routing_read: "routing u q 1704164645000 (obj example_routing) = Some False"
proof -
  let ?f = "fields example_routing"
  have f: "contextObject [''status'', ''source'', ''fetched_at'', ''origins'', ''omitted''] [''prefix''] (obj example_routing) = Some ?f"
    "contextArray 4 (get ?f ''origins'') = Some []" "contextInt 60 (get ?f ''omitted'') = Some 0"
    "contextCount ?f 0 4 = Some ()"
    "contextMember [''ok'', ''limited'', ''not_found'', ''timeout'', ''unavailable'', ''rate_limited'', ''invalid_response''] (get ?f ''status'')"
    "\<not> contextMember [''ok'', ''limited''] (get ?f ''status'')" "\<not> has ?f ''prefix''"
    "contextMember [''ok'', ''limited'', ''not_found''] (get ?f ''status'')"
    by code_simp+
  show ?thesis by (simp only: f example_timed(3) routing_def bind.simps guard_True if_False simp_thms routing_origins.simps list.size not_False_eq_True HOL.simp_thms)
qed

lemma example_fields_read:
  "get (fields example_fields) ''address'' = JStr (js ''8.8.8.8'')"
  "get (fields example_fields) ''fetched_at'' = str ''2024-01-02T03:04:05.000Z''"
  "get (fields example_fields) ''expires_at'' = str ''2024-01-02T03:09:05.000Z''"
  "get (fields example_fields) ''reverse_dns'' = obj example_dns"
  "get (fields example_fields) ''registration'' = obj example_registration"
  "get (fields example_fields) ''routing'' = obj example_routing"
  by (simp_all add: ownValue_def example_fields_def js_def str_def)

lemma example_parts: "context_parts (\<lambda>_. None) (js ''8.8.8.8'') example_context = Some (fields example_fields)"
proof -
  have f: "contextIP (\<lambda>_. None) (JStr (js ''8.8.8.8'')) = Some \<lparr>ip_width = 32, ip_value = 134744072\<rparr>"
    "canonicalPublicIP (\<lambda>_. None) (js ''8.8.8.8'') = Some (js ''8.8.8.8'')"
    "contextObject [''schema_version'', ''address'', ''source'', ''fetched_at'', ''expires_at'', ''reverse_dns'',
       ''registration'', ''routing''] [] example_context = Some (fields example_fields)"
    "contextInt 1 (get (fields example_fields) ''schema_version'') = Some 1"
    "contextMember [''upstream'', ''cache''] (get (fields example_fields) ''source'')"
    by code_simp+
  have "(1704164945000 :: int) - 1704164645000 = 300000" by simp
  then show ?thesis by (simp only: context_parts_def f example_fields_read bind.simps guard_True simp_thms example_stamps
      example_dns_read example_registration_read example_routing_read if_False)
qed

lemma plain_ascii: "plain_unit c \<or> c = cQuote \<Longrightarrow> unat c < 128 \<and> \<not> go_escaped c"
  by (auto simp: plain_unit_def go_escaped_def word_less_nat_alt)

lemma example_ascii: "\<forall>c \<in> set (json_text example_context). unat c < 128 \<and> \<not> go_escaped c"
proof
  fix c assume "c \<in> set (json_text example_context)"
  with example_units show "unat c < 128 \<and> \<not> go_escaped c" by (intro plain_ascii) (simp add: list_all_iff)
qed

lemma example_canonical_text: "canonical_context example_context = json_text example_context @ [10]"
  using example_ascii by (simp add: canonical_context_def go_escape_def escape_by_id)

lemma example_short: "length (json_text example_context) \<le> IP_CONTEXT_BYTES"
  "utf8_length (canonical_context example_context) \<le> IP_CONTEXT_BYTES"
  using example_length example_ascii ascii_length [of "json_text example_context @ [10]"]
  by (simp_all add: example_canonical_text IP_CONTEXT_BYTES_def)

lemma example_parsed: "parseIPContext (\<lambda>_. None) example_bytes (js ''8.8.8.8'') = Some example_context"
proof -
  have "utf8_decode example_bytes = Some (json_text example_context)"
    using example_ascii by (simp add: example_bytes_def ascii_decodes)
  moreover have "contextJSON (json_text example_context) = Some example_context"
    using context_reader.text_reads [OF example_strict(1)] example_strict(2) by (simp add: contextJSON_def room_def context_policy_def)
  moreover have "normalizeIPContext (\<lambda>_. None) example_context (js ''8.8.8.8'') = Some example_context"
    using example_parts example_short(2) canonical_reads [OF example_strict(1)] by (auto simp: normalizeIPContext_def)
  ultimately show ?thesis using example_short(1) by (simp add: parseIPContext_def example_bytes_def)
qed

theorem parsed_context_stable_witness:
  "normalizeIPContext (\<lambda>_. None) example_context (js ''8.8.8.8'') = Some example_context"
  using parsed_context_stable [OF example_parsed] by blast

end
