(* ===== verification/Cache_Facts.thy ===== *)
theory Cache_Facts
  imports IP_Controller
begin

text \<open>
  The controller's cache against its specification: a map with the time of the last use of every
  address, from which a full cache forgets the address unused for longest.  The code keeps no
  times; the order of its \<open>Map\<close> takes their place.
\<close>

section \<open>Implementations of a specified machine\<close>

fun run :: "('e \<Rightarrow> 'c \<Rightarrow> 'r \<times> 'c) \<Rightarrow> 'e list \<Rightarrow> 'c \<Rightarrow> 'r list \<times> 'c" where
  "run step [] c = ([], c)"
| "run step (e # es) c = (let (r, c') = step e c; (rs, c'') = run step es c' in (r # rs, c''))"

locale implementation =
  fixes step :: "'e \<Rightarrow> 'c \<Rightarrow> 'r \<times> 'c" and spec :: "'e \<Rightarrow> 's \<Rightarrow> 'r \<times> 's" and related :: "'c \<Rightarrow> 's \<Rightarrow> bool"
  assumes same_answer: "related c s \<Longrightarrow> fst (step e c) = fst (spec e s)"
    and still_related: "related c s \<Longrightarrow> related (snd (step e c)) (snd (spec e s))"
begin

lemma runs_agree:
  "related c s \<Longrightarrow> fst (run step es c) = fst (run spec es s) \<and> related (snd (run step es c)) (snd (run spec es s))"
  by (induction es arbitrary: c s) (simp_all add: split_beta Let_def same_answer still_related)

end

section \<open>The cache and its specification\<close>

datatype cache_operation = Lookup int jstr | Store jstr jval | Clear

fun cache_step :: "cache_operation \<Rightarrow> jval lru \<Rightarrow> jval option \<times> jval lru" where
  "cache_step (Lookup now k) c = cached (unexpired now) k c"
| "cache_step (Store k v) c = (None, store k v c)"
| "cache_step Clear c = (None, [])"

record recency =
  rc_value :: "jstr \<Rightarrow> jval option"
  rc_used :: "jstr \<Rightarrow> nat"
  rc_clock :: nat

definition unused :: recency where
  "unused = \<lparr>rc_value = Map.empty, rc_used = (\<lambda>_. 0), rc_clock = 0\<rparr>"

definition touch :: "jstr \<Rightarrow> jval \<Rightarrow> recency \<Rightarrow> recency" where
  "touch k v s = \<lparr>rc_value = (rc_value s)(k \<mapsto> v), rc_used = (rc_used s)(k := rc_clock s), rc_clock = Suc (rc_clock s)\<rparr>"

definition forget :: "jstr \<Rightarrow> recency \<Rightarrow> recency" where
  "forget k s = s\<lparr>rc_value := (rc_value s)(k := None)\<rparr>"

text \<open>Only the addresses that fewer than \<open>n\<close> others were used after.\<close>

definition recent :: "nat \<Rightarrow> recency \<Rightarrow> recency" where
  "recent n s = s\<lparr>rc_value := rc_value s |` {k. card {l \<in> dom (rc_value s). rc_used s k < rc_used s l} < n}\<rparr>"

fun recency_step :: "cache_operation \<Rightarrow> recency \<Rightarrow> jval option \<times> recency" where
  "recency_step (Lookup now k) s = (case rc_value s k of
     Some v \<Rightarrow> if unexpired now v then (Some v, touch k v s) else (None, forget k s)
   | None \<Rightarrow> (None, s))"
| "recency_step (Store k v) s = (None, recent 64 (touch k v s))"
| "recency_step Clear s = (None, s\<lparr>rc_value := Map.empty\<rparr>)"

definition ordered_by_use :: "jval lru \<Rightarrow> recency \<Rightarrow> bool" where
  "ordered_by_use c s \<longleftrightarrow> map_of c = rc_value s \<and> sorted_wrt (<) (map (rc_used s \<circ> fst) c) \<and>
     (\<forall>e \<in> set c. rc_used s (fst e) < rc_clock s)"

text \<open>The cache has at most 64 entries, in the order of the last use of their addresses.\<close>

definition keeps_recent :: "jval lru \<Rightarrow> recency \<Rightarrow> bool" where
  "keeps_recent c s \<longleftrightarrow> ordered_by_use c s \<and> distinct (map fst c) \<and> length c \<le> 64"

section \<open>Deleting, renewing and evicting\<close>

lemma map_of_delete: "map_of (map_delete k c) = (map_of c)(k := None)"
  by (induction c) (auto simp: map_delete_def fun_eq_iff)

lemma delete_absent: "map_of c k = None \<Longrightarrow> map_delete k c = c"
  by (induction c) (auto simp: map_delete_def split: if_splits)

lemma sorted_filter: "sorted_wrt R (map f c) \<Longrightarrow> sorted_wrt R (map f (filter P c))"
  by (induction c) auto

lemma delete_ordered: "ordered_by_use c s \<Longrightarrow> ordered_by_use (map_delete k c) (forget k s)"
  unfolding ordered_by_use_def forget_def map_of_delete
  by (auto simp: map_delete_def intro: sorted_filter)

lemma renew_ordered:
  assumes "ordered_by_use c s"
  shows "ordered_by_use (map_renew k v c) (touch k v s)"
proof -
  have "\<forall>e \<in> set (map_delete k c). fst e \<noteq> k" by (simp add: map_delete_def)
  then have same: "map (rc_used (touch k v s) \<circ> fst) (map_delete k c) = map (rc_used s \<circ> fst) (map_delete k c)"
    by (auto simp: touch_def)
  from delete_ordered [OF assms, of k] show ?thesis
    unfolding ordered_by_use_def map_renew_def map_append same sorted_wrt_append
    by (auto simp: touch_def forget_def map_delete_def fun_eq_iff map_add_def less_Suc_eq split: option.splits)
qed

lemma renew_distinct: "distinct (map fst c) \<Longrightarrow> distinct (map fst (map_renew k v c))"
  by (auto simp: map_renew_def map_delete_def distinct_map_filter)

lemma delete_length: "length (map_delete k c) \<le> length c"
  by (simp add: map_delete_def)

lemma renew_length: "length (map_renew k v c) \<le> Suc (length c)"
  using delete_length [of k c] by (simp add: map_renew_def)

lemma renew_present: "map_of c k \<noteq> None \<Longrightarrow> length (map_renew k v c) \<le> length c"
proof -
  assume "map_of c k \<noteq> None"
  then obtain e where "e \<in> set c" "fst e = k" by (metis map_of_eq_None_iff imageE)
  then have "length (map_delete k c) < length c" unfolding map_delete_def by (intro length_filter_less) auto
  then show ?thesis by (simp add: map_renew_def)
qed

lemma evict_drop: "evict n c = drop (length c - n) c"
  by (induction c) (auto simp: Suc_diff_le)

lemma use_order:
  assumes "ordered_by_use c s" "i < length c" "j < length c"
  shows "rc_used s (fst (c ! i)) < rc_used s (fst (c ! j)) \<longleftrightarrow> i < j"
proof -
  have less: "rc_used s (fst (c ! a)) < rc_used s (fst (c ! b))" if "a < b" "b < length c" for a b
    using assms(1) that sorted_wrt_nth_less [of "(<)" "map (rc_used s \<circ> fst) c" a b] by (simp add: ordered_by_use_def)
  show ?thesis using less [of i j] less [of j i] assms(2,3) by (cases i j rule: linorder_cases) auto
qed

lemma later_uses:
  assumes "ordered_by_use c s" "distinct (map fst c)" "i < length c"
  shows "card {l \<in> dom (rc_value s). rc_used s (fst (c ! i)) < rc_used s l} = length c - Suc i"
proof -
  have "dom (rc_value s) = fst ` set c" using assms(1) dom_map_of_conv_image_fst by (metis ordered_by_use_def)
  also have "\<dots> = (\<lambda>j. fst (c ! j)) ` {..<length c}" by (auto simp: set_conv_nth image_iff)
  finally have "{l \<in> dom (rc_value s). rc_used s (fst (c ! i)) < rc_used s l} = (\<lambda>j. fst (c ! j)) ` {i <..< length c}"
    using use_order [OF assms(1,3)] by auto
  moreover have "inj_on (\<lambda>j. fst (c ! j)) {i <..< length c}"
    using assms(2) by (auto simp: inj_on_def distinct_conv_nth) (metis)
  ultimately show ?thesis by (simp add: card_image)
qed

lemma map_of_nth: "distinct (map fst c) \<Longrightarrow> i < length c \<Longrightarrow> map_of c (fst (c ! i)) = Some (snd (c ! i))"
  by (simp add: map_of_eq_Some_iff)

lemma map_of_drop:
  assumes "distinct (map fst c)" "i < length c"
  shows "map_of (drop m c) (fst (c ! i)) = (if m \<le> i then Some (snd (c ! i)) else None)"
proof (cases "m \<le> i")
  case True
  then show ?thesis using map_of_nth [of "drop m c" "i - m"] assms by (simp add: distinct_drop flip: drop_map)
next
  case False
  have "fst (c ! i) \<notin> fst ` set (drop m c)"
  proof
    assume "fst (c ! i) \<in> fst ` set (drop m c)"
    then obtain j where "fst (c ! i) = fst (c ! (m + j))" "m + j < length c" 
      by (auto simp: in_set_conv_nth) (metis fst_conv less_diff_conv add.commute)
    with assms False show False by (auto simp: distinct_conv_nth)
  qed
  then show ?thesis using False by (simp add: map_of_eq_None_iff)
qed

lemma evict_recent:
  assumes "ordered_by_use c s" "distinct (map fst c)"
  shows "ordered_by_use (evict n c) (recent n s)"
proof -
  let ?m = "length c - n"
  have "map_of (drop ?m c) k = rc_value (recent n s) k" for k
  proof (cases "k \<in> fst ` set c")
    case True
    then obtain i where i: "i < length c" "k = fst (c ! i)" by (auto simp: in_set_conv_nth)
    have "rc_value s k = Some (snd (c ! i))" using assms map_of_nth [OF assms(2) i(1)] i(2) by (simp add: ordered_by_use_def)
    moreover have "?m \<le> i \<longleftrightarrow> length c - Suc i < n" using i(1) by auto
    ultimately show ?thesis using later_uses [OF assms i(1)] map_of_drop [OF assms(2) i(1), of ?m] i(2)
      by (simp add: recent_def restrict_map_def)
  next
    case False
    then have "map_of (drop ?m c) k = None" using set_drop_subset by (fastforce simp: map_of_eq_None_iff)
    moreover have "rc_value s k = None" using assms(1) False by (metis map_of_eq_None_iff ordered_by_use_def)
    ultimately show ?thesis by (simp add: recent_def restrict_map_def)
  qed
  moreover have "sorted_wrt (<) (map (rc_used s \<circ> fst) (drop ?m c))"
    using assms(1) sorted_wrt_drop by (metis drop_map ordered_by_use_def)
  ultimately show ?thesis
    using assms(1) by (auto simp: ordered_by_use_def evict_drop recent_def fun_eq_iff dest: in_set_dropD)
qed

section \<open>Refinement\<close>

interpretation cache: implementation cache_step recency_step keeps_recent
proof
  fix c s e assume r: "keeps_recent c s"
  then have o: "ordered_by_use c s" "map_of c = rc_value s" "distinct (map fst c)" "length c \<le> 64"
    by (auto simp: keeps_recent_def ordered_by_use_def)
  show "fst (cache_step e c) = fst (recency_step e s)"
    using o(2) by (cases e) (auto simp: cached_def split: option.splits)
  show "keeps_recent (snd (cache_step e c)) (snd (recency_step e s))"
  proof (cases e)
    case (Lookup now k)
    have "keeps_recent (map_renew k v c) (touch k v s)" if "map_of c k = Some v" for v
      using renew_ordered [OF o(1)] renew_distinct [OF o(3)] renew_present [of c k v] that o(4) by (simp add: keeps_recent_def)
    moreover have "keeps_recent (map_delete k c) (forget k s)"
      using delete_ordered [OF o(1), of k] o(3) le_trans [OF delete_length [of k c] o(4)]
      by (simp add: keeps_recent_def map_delete_def distinct_map_filter)
    ultimately show ?thesis using Lookup o(2) r delete_absent [of c k] by (auto simp: cached_def split: option.splits)
  next
    case (Store k v)
    have "ordered_by_use (store k v c) (recent 64 (touch k v s))" unfolding store_def CACHE_SIZE_def
      by (rule evict_recent [OF renew_ordered [OF o(1)] renew_distinct [OF o(3)]])
    moreover have "distinct (map fst (store k v c))" "length (store k v c) \<le> 64"
      using renew_distinct [OF o(3), of k v] by (simp_all add: store_def CACHE_SIZE_def evict_drop distinct_drop flip: drop_map)
    ultimately show ?thesis using Store by (simp add: keeps_recent_def)
  next
    case Clear then show ?thesis by (simp add: keeps_recent_def ordered_by_use_def)
  qed
qed

lemma cache_starts: "keeps_recent [] unused"
  by (simp add: keeps_recent_def ordered_by_use_def unused_def)

text \<open>
  C7: the controller's cache is a least-recently-used cache of 64 addresses: for every sequence of
  lookups at any times, stores and clears, every answer is that of the map with use times, and the
  cache holds exactly the entries of that map, in the order of their last use.
\<close>

theorem cache_keeps_recent:
  "fst (run cache_step es []) = fst (run recency_step es unused) \<and>
   keeps_recent (snd (run cache_step es [])) (snd (run recency_step es unused))"
  using cache_starts by (rule cache.runs_agree)

end
