(* ===== verification/Controller_Facts.thy ===== *)
theory Controller_Facts
  imports Context_Facts Cache_Facts
begin

text \<open>
  What the IP context controller shows, over every interleaving of its operations: only contexts of
  the owner's address, nothing of a flight whose generation was revoked, and no loading state
  without an armed timer whose callback ends it.
\<close>

section \<open>What the segments of a flight may change\<close>

definition visible :: "controller \<Rightarrow> view \<times> jval lru \<times> (nat \<times> owner) option \<times> nat \<times> bool" where
  "visible c = (c_view c, c_cache c, c_owner c, c_generation c, c_alive c)"

fun plain_view :: "view \<Rightarrow> bool" where
  "plain_view (Ready v b) = False"
| "plain_view Loading = False"
| "plain_view _ = True"

text \<open>The view is kept or becomes a plain one; nothing else that is visible changes.\<close>

definition quiet :: "controller \<Rightarrow> controller \<Rightarrow> bool" where
  "quiet c c' \<longleftrightarrow> (visible c' = visible c \<or> (\<exists>v. plain_view v \<and> visible c' = visible (publish v c)))"

lemma shown_simps [simp]:
  "visible (set_flight f c) = visible c" "c_owner (publish v c) = c_owner c" "c_cache (publish v c) = c_cache c"
  "c_generation (publish v c) = c_generation c" "c_alive (publish v c) = c_alive c" "c_view (publish v c) = v"
  "c_flight (publish v c) = c_flight c" "visible (publish v (publish w c)) = visible (publish v c)"
  "visible (publish v (set_flight f c)) = visible (publish v c)" "c_next (publish v c) = c_next c"
  by (simp_all add: visible_def publish_def)

lemma shown_publish: "visible c = visible d \<Longrightarrow> visible (publish v c) = visible (publish v d)"
  by (simp add: visible_def)

lemma quiet_refl [simp]: "quiet c c"
  by (simp add: quiet_def)

lemma quiet_set_flight [simp]: "quiet c (set_flight f c') = quiet c c'" "quiet (set_flight f c) c' = quiet c c'"
  by (simp_all add: quiet_def)

lemma quiet_publish: "plain_view v \<Longrightarrow> quiet c (publish v c)"
  by (auto simp: quiet_def)

lemma quiet_trans: "quiet c d \<Longrightarrow> quiet d e \<Longrightarrow> quiet c e"
  unfolding quiet_def by (metis shown_publish shown_simps(8))

lemma helpers_fields [simp]:
  "fl_owner (stopBody f) = fl_owner f" "fl_owner (settle_flight b f) = fl_owner f" "fl_owner (clearDeadline f) = fl_owner f"
  "fl_generation (stopBody f) = fl_generation f" "fl_generation (settle_flight b f) = fl_generation f"
  "fl_generation (clearDeadline f) = fl_generation f" "fl_aborted (stopBody f) = fl_aborted f"
  "fl_aborted (settle_flight b f) = fl_aborted f" "fl_aborted (clearDeadline f) = fl_aborted f"
  "fl_deadline (stopBody f) = fl_deadline f" "fl_settled (stopBody f) = fl_settled f" "fl_aborted (abort f)"
  "fl_timer (stopBody f) = fl_timer f"
  by (auto simp: stopBody_def settle_flight_def clearDeadline_def abort_def split: option.splits)

lemma timeout_quiet: "quiet c (timeout i b c)"
  by (auto simp: timeout_def Let_def quiet_publish split: option.splits)

lemma expire_quiet: "quiet c (expire r n f c)"
  by (simp add: expire_def timeout_quiet)

lemma release_shown [simp]: "visible (release c) = visible c"
  by (simp add: release_def Let_def split: option.splits)

lemma finish_quiet: "quiet c (finish r n f c)"
proof -
  have "quiet (set_flight (Some f) c) (expire r n f (set_flight (Some f) c))" by (rule expire_quiet)
  then show ?thesis by (simp add: finish_def quiet_def)
qed

lemma publish_finish_quiet: "plain_view v \<Longrightarrow> quiet c (finish r n f (if b then publish v c else c))"
  by (cases b) (auto intro: quiet_trans quiet_publish finish_quiet)

lemma fail_quiet: "plain_view v \<Longrightarrow> quiet c (fail v r n f c)"
  using publish_finish_quiet by (simp add: fail_def Let_def)

lemma give_up_quiet: "quiet c (give_up r n f c)"
  by (simp add: give_up_def finish_quiet)

lemma plain_views [simp]: "plain_view (status_view s)" "plain_view (thrown_view t)"
  by (simp_all add: status_view_def thrown_view_def)

lemma fetch_quiet: "quiet c (fetch_resolved d r f c)"
proof -
  have "quiet c (finish r n g (if live r 1 c g then publish (status_view s) c else c))" for n g s
    by (rule publish_finish_quiet) simp
  then show ?thesis by (simp add: fetch_resolved_def Let_def give_up_quiet fail_quiet)
qed

text \<open>The last chunk may store and show a context of the owner's address, while the flight owns the
  state.\<close>

definition delivers :: "host6 \<Rightarrow> controller \<Rightarrow> controller \<Rightarrow> bool" where
  "delivers url6 c c' \<longleftrightarrow> (\<exists>n a v d. c_alive c \<and> c_owner c = Some (n, a) \<and> address_of v = ow_address a \<and>
     canonicalPublicIP url6 (address_of v) = Some (address_of v) \<and>
     (c_cache d = c_cache c \<or> c_cache d = store (address_of v) v (c_cache c)) \<and>
     visible d = (Ready v False, c_cache d, c_owner c, c_generation c, c_alive c) \<and> quiet d c')"

lemma complete_delivers: "quiet c (complete url6 r f c) \<or> delivers url6 c (complete url6 r f c)"
proof (cases "live r 1 c f \<and> live r 2 c f \<and> parseIPContext url6 (fl_bytes f) (ow_address (snd (fl_owner f))) \<noteq> None")
  case True
  then obtain v where v: "parseIPContext url6 (fl_bytes f) (ow_address (snd (fl_owner f))) = Some v" by blast
  define e where "e = (if (case expires_at v of Some e \<Rightarrow> r_now r < e | None \<Rightarrow> False)
    then c\<lparr>c_cache := store (address_of v) v (c_cache c)\<rparr> else c)"
  have o: "c_alive c" "c_owner c = Some (fl_owner f)" using True by (auto simp: live_def owns_def)
  have a: "address_of v = ow_address (snd (fl_owner f))" "canonicalPublicIP url6 (address_of v) = Some (address_of v)"
    using parsed_facts [OF v] by auto
  have "complete url6 r f c = finish r 3 (settle_flight True f) (publish (Ready v False) e)"
    using True v by (simp add: complete_def Let_def e_def)
  moreover have "visible (publish (Ready v False) e) = (Ready v False, c_cache e, c_owner c, c_generation c, c_alive c)"
    by (simp add: visible_def e_def)
  ultimately have "delivers url6 c (complete url6 r f c)"
    unfolding delivers_def using o a finish_quiet
    by (intro exI [of _ "fst (fl_owner f)"] exI [of _ "snd (fl_owner f)"] exI [of _ v] exI [of _ "publish (Ready v False) e"])
      (simp add: e_def)
  then show ?thesis ..
next
  case False
  then have "quiet c (complete url6 r f c)" by (auto simp: complete_def finish_quiet fail_quiet split: option.splits)
  then show ?thesis ..
qed

lemma chunk_delivers: "quiet c (read_chunk url6 k r f c) \<or> delivers url6 c (read_chunk url6 k r f c)"
  using complete_delivers [of c url6 r f] by (auto simp: read_chunk_def Let_def give_up_quiet fail_quiet split: chunk.splits)

lemma on_flight_cases: "on_flight i st g c = c \<or> (\<exists>f. c_flight c = Some f \<and> on_flight i st g c = g f c)"
  by (auto simp: on_flight_def split: option.splits)

lemma segment_delivers:
  assumes "flight_of e \<noteq> None"
  shows "quiet c (perform purl url6 e c) \<or> delivers url6 c (perform purl url6 e c)"
proof (cases e)
  case (FetchResolved i d r) then show ?thesis using on_flight_cases [of i Fetching "fetch_resolved d r" c] by (auto simp: fetch_quiet)
next
  case (FetchRejected i t r)
  then show ?thesis using on_flight_cases [of i Fetching "fail (thrown_view t) r 0" c] by (auto simp: fail_quiet)
next
  case (ChunkRead i k r)
  then show ?thesis using on_flight_cases [of i Reading "read_chunk url6 k r" c] chunk_delivers by (metis perform.simps(8) quiet_refl)
next
  case (ReadRejected i t r)
  then show ?thesis using on_flight_cases [of i Reading "fail (thrown_view t) r 0" c] by (auto simp: fail_quiet)
next
  case (BodyClosed i) then show ?thesis using on_flight_cases [of i Cleaning free c] by (auto simp: free_def)
qed (use assms in \<open>simp_all add: timeout_quiet\<close>)

section \<open>A revoked flight is silent\<close>

definition silenced :: "controller \<Rightarrow> bool" where
  "silenced c \<longleftrightarrow> (\<forall>f. c_flight c = Some f \<longrightarrow> fl_aborted f)"

text \<open>The segments of an aborted flight: neither the flight becomes live again nor is anything visible.\<close>

definition hushed :: "controller \<Rightarrow> controller \<Rightarrow> bool" where
  "hushed c c' \<longleftrightarrow> visible c' = visible c \<and> silenced c'"

lemma aborted_timeout: "silenced c \<Longrightarrow> hushed c (timeout i b c)"
  by (auto simp: timeout_def hushed_def silenced_def Let_def split: option.splits)

lemma aborted_finish: "fl_aborted f \<Longrightarrow> hushed c (finish r n f c)"
  by (auto simp: finish_def expire_def release_def Let_def hushed_def silenced_def split: option.splits)

lemma aborted_segments:
  assumes "fl_aborted f"
  shows "hushed c (fail v r n f c)" "hushed c (give_up r n f c)" "hushed c (fetch_resolved d r f c)" "hushed c (read_chunk url6 k r f c)"
  using assms by (simp_all add: fail_def give_up_def fetch_resolved_def read_chunk_def live_def Let_def aborted_finish)

lemma aborted_on_flight:
  assumes "silenced c" "\<And>f. fl_aborted f \<Longrightarrow> hushed c (g f c)"
  shows "hushed c (on_flight i st g c)"
  using assms by (auto simp: on_flight_def hushed_def silenced_def split: option.splits)

lemma silenced_perform: "silenced c \<Longrightarrow> flight_of e \<noteq> None \<Longrightarrow> hushed c (perform purl url6 e c)"
  by (cases e) (auto intro!: aborted_on_flight aborted_timeout aborted_segments, auto simp: free_def hushed_def silenced_def)

lemma silenced_trace:
  "silenced c \<Longrightarrow> \<forall>e \<in> set es. flight_of e \<noteq> None \<Longrightarrow> visible (fold (perform purl url6) es c) = visible c"
proof (induction es arbitrary: c)
  case (Cons e es)
  then have "hushed c (perform purl url6 e c)" by (simp add: silenced_perform)
  with Cons show ?case by (simp add: hushed_def)
qed simp

lemma revoke_silences: "silenced (revoke c)"
  by (auto simp: silenced_def revoke_def)

lemma silenced_fields [simp]:
  "silenced (publish v c) = silenced c" "silenced (c\<lparr>c_cache := x\<rparr>) = silenced c" "silenced (c\<lparr>c_owner := o'\<rparr>) = silenced c"
  "silenced (c\<lparr>c_next := n\<rparr>) = silenced c" "silenced (c\<lparr>c_alive := a\<rparr>) = silenced c" "silenced (c\<lparr>c_view := v\<rparr>) = silenced c"
  by (simp_all add: silenced_def publish_def)

lemma lookup_fields [simp]:
  "lookup now k c = (v, d) \<Longrightarrow> d = c\<lparr>c_cache := snd (cached (unexpired now) k (c_cache c))\<rparr>"
  by (auto simp: lookup_def split: prod.splits)

lemma setOwner_silences: "setOwner o' r c = c \<or> silenced (setOwner o' r c)"
  by (auto simp: setOwner_def Let_def revoke_silences split: option.splits prod.splits dest!: lookup_fields)

lemma quiet_generation: "quiet c c' \<Longrightarrow> c_generation c' = c_generation c"
  by (auto simp: quiet_def visible_def)

lemma delivers_generation: "delivers url6 c c' \<Longrightarrow> c_generation c' = c_generation c"
  by (auto simp: delivers_def quiet_def visible_def)

lemma shown_next [simp]: "visible (c\<lparr>c_next := n\<rparr>) = visible c" "visible (publish v (c\<lparr>c_next := n\<rparr>)) = visible (publish v c)"
  by (simp_all add: visible_def publish_def)

lemma start_quiet:
  "visible (start_flight calls r o' c) = visible (publish Loading c) \<or> quiet (publish Loading c) (start_flight calls r o' c) \<or>
   visible (start_flight calls r o' c) = visible (publish Unavailable c)"
proof -
  let ?c = "publish Loading (set_flight (Some (new_flight r o' c)) (c\<lparr>c_next := c_next c + 1\<rparr>))"
  have s: "visible ?c = visible (publish Loading c)" by (simp add: visible_def)
  have q: "quiet ?c d \<Longrightarrow> quiet (publish Loading c) d" for d by (auto simp: quiet_def)
  show ?thesis using q [OF finish_quiet] q [OF fail_quiet] s
    by (auto simp: start_flight_def Let_def visible_def split: option.splits)
qed

lemma query_generation: "c_generation (query purl url6 calls r c) = c_generation c"
proof -
  have "c_generation (start_flight calls r o' d) = c_generation d" for o' d
    using start_quiet [of calls r o' d] by (auto simp: quiet_def visible_def)
  then show ?thesis by (auto simp: query_def split: option.splits prod.splits dest!: lookup_fields)
qed

lemma new_generation_silences:
  assumes "c_generation (perform purl url6 x c) \<noteq> c_generation c"
  shows "silenced (perform purl url6 x c)"
proof (cases "flight_of x")
  case None
  show ?thesis
  proof (cases x)
    case (SetOwner o' r) then show ?thesis using setOwner_silences [of o' r c] assms by auto
  next
    case Cancel then show ?thesis using assms by (auto simp: cancel_def revoke_silences)
  next
    case Destroy then show ?thesis using assms by (auto simp: destroy_def revoke_silences)
  qed (use None assms in \<open>simp_all add: query_generation\<close>)
next
  case (Some i)
  then show ?thesis using segment_delivers [of x c purl url6] assms quiet_generation delivers_generation by fastforce
qed

text \<open>
  C12: once an operation has revoked the running flight (\<open>cancel\<close>, \<open>destroy\<close> and a change of owner or
  scope raise the generation), no late response, chunk, rejection, timer or closed body of it, in
  any order, changes the view, the cache, the owner or the generation.
\<close>

theorem revoked_flight_is_silent:
  assumes "c_generation (perform purl url6 x c) \<noteq> c_generation c" "\<forall>e \<in> set es. flight_of e \<noteq> None"
  shows "visible (fold (perform purl url6) es (perform purl url6 x c)) = visible (perform purl url6 x c)"
  using silenced_trace [OF new_generation_silences [OF assms(1)] assms(2)] .

section \<open>What is ready is the owner's\<close>

definition keyed :: "host6 \<Rightarrow> jstr \<times> jval \<Rightarrow> bool" where
  "keyed url6 e \<longleftrightarrow> address_of (snd e) = fst e \<and> canonicalPublicIP url6 (fst e) = Some (fst e)"

definition cache_fine :: "host6 \<Rightarrow> jval lru \<Rightarrow> bool" where
  "cache_fine url6 c \<longleftrightarrow> distinct (map fst c) \<and> length c \<le> 64 \<and> (\<forall>e \<in> set c. keyed url6 e)"

lemma delete_fine: "cache_fine url6 c \<Longrightarrow> cache_fine url6 (map_delete k c)"
  using le_trans [OF delete_length [of k c]] by (auto simp: cache_fine_def map_delete_def distinct_map_filter)

lemma renew_fine:
  assumes "cache_fine url6 c" "map_of c k = Some v"
  shows "cache_fine url6 (map_renew k v c)"
proof -
  have "(k, v) \<in> set c" using assms(2) by (rule map_of_SomeD)
  then show ?thesis
    using assms renew_present [of c k v] renew_distinct [of c k v]
    by (auto simp: cache_fine_def map_renew_def map_delete_def)
qed

lemma cached_fine: "cache_fine url6 c \<Longrightarrow> cache_fine url6 (snd (cached p k c))"
  using renew_fine delete_fine by (simp add: cached_def split: option.splits)

lemma cached_keyed: "cache_fine url6 c \<Longrightarrow> fst (cached p k c) = Some v \<Longrightarrow> address_of v = k"
  by (fastforce simp: cached_def cache_fine_def keyed_def split: option.splits if_splits dest: map_of_SomeD)

lemma store_fine:
  assumes "cache_fine url6 c" "keyed url6 (k, v)"
  shows "cache_fine url6 (store k v c)"
proof -
  have "distinct (map fst (store k v c))"
    using renew_distinct [of c k v] assms(1) by (simp add: store_def evict_drop cache_fine_def distinct_drop flip: drop_map)
  moreover have "set (store k v c) \<subseteq> insert (k, v) (set c)"
    using set_drop_subset [of "length (map_renew k v c) - CACHE_SIZE" "map_renew k v c"]
    by (auto simp: store_def evict_drop map_renew_def map_delete_def)
  moreover have "length (store k v c) \<le> 64" by (simp add: store_def evict_drop CACHE_SIZE_def)
  ultimately show ?thesis using assms by (auto simp: cache_fine_def)
qed

definition consistent :: "host6 \<Rightarrow> controller \<Rightarrow> bool" where
  "consistent url6 c \<longleftrightarrow> cache_fine url6 (c_cache c) \<and>
     (\<forall>v b. c_view c = Ready v b \<longrightarrow> c_alive c \<and> (\<exists>n a. c_owner c = Some (n, a) \<and> address_of v = ow_address a))"

lemma shown_consistent: "visible c = visible d \<Longrightarrow> consistent url6 c \<longleftrightarrow> consistent url6 d"
  by (simp add: consistent_def visible_def)

lemma publish_consistent: "(\<And>v b. w \<noteq> Ready v b) \<Longrightarrow> consistent url6 c \<Longrightarrow> consistent url6 (publish w c)"
  by (simp add: consistent_def)

lemma quiet_consistent: "quiet c d \<Longrightarrow> consistent url6 c \<Longrightarrow> consistent url6 d"
proof -
  assume c: "consistent url6 c" and "quiet c d"
  then consider "visible d = visible c" | v where "plain_view v" "visible d = visible (publish v c)" by (auto simp: quiet_def)
  then show "consistent url6 d"
  proof cases
    case 1 then show ?thesis using c shown_consistent by blast
  next
    case (2 v)
    have "consistent url6 (publish v c)" by (rule publish_consistent [OF _ c]) (use 2(1) in auto)
    then show ?thesis using 2(2) shown_consistent by blast
  qed
qed

lemma delivers_consistent: "delivers url6 c d \<Longrightarrow> consistent url6 c \<Longrightarrow> consistent url6 d"
proof -
  assume c: "consistent url6 c" and "delivers url6 c d"
  then obtain n a v e where e: "c_alive c" "c_owner c = Some (n, a)" "address_of v = ow_address a"
    "canonicalPublicIP url6 (address_of v) = Some (address_of v)"
    "c_cache e = c_cache c \<or> c_cache e = store (address_of v) v (c_cache c)"
    "visible e = (Ready v False, c_cache e, c_owner c, c_generation c, c_alive c)" "quiet e d"
    unfolding delivers_def by blast
  have "cache_fine url6 (c_cache c)" using c by (simp add: consistent_def)
  then have "cache_fine url6 (c_cache e)" using e(4,5) store_fine [of url6 "c_cache c" "address_of v" v] by (auto simp: keyed_def)
  then have "consistent url6 e" using e(1,2,3,6) by (simp add: consistent_def visible_def)
  with e(7) show "consistent url6 d" by (rule quiet_consistent)
qed

lemma lookup_consistent:
  assumes "cache_fine url6 (c_cache c)" "lookup now k c = (v, d)"
  shows "cache_fine url6 (c_cache d)" "v = Some w \<Longrightarrow> address_of w = k" "c_view d = c_view c" "c_owner d = c_owner c" "c_alive d = c_alive c"
  using assms cached_fine [OF assms(1), of "unexpired now" k] cached_keyed [OF assms(1), of "unexpired now" k w]
  by (auto simp: lookup_def split: prod.splits)

lemma setOwner_consistent:
  assumes "consistent url6 c"
  shows "consistent url6 (setOwner o' r c)"
proof -
  define d where "d = (if sameScope (map_option snd (c_owner c)) o' then c else c\<lparr>c_cache := []\<rparr>)"
  define e where "e = (revoke d)\<lparr>c_owner := map_option (\<lambda>a. (c_next d, a)) o', c_next := c_next d + 1\<rparr>"
  have f: "cache_fine url6 (c_cache e)" using assms by (simp add: e_def d_def revoke_def consistent_def cache_fine_def)
  have o: "c_owner e = map_option (\<lambda>a. (c_next d, a)) o'" "c_alive e = c_alive c" by (simp_all add: e_def d_def revoke_def)
  have s: "setOwner o' r c = (if \<not> c_alive c \<or> sameScope (map_option snd (c_owner c)) o' \<and>
      map_option ow_address (map_option snd (c_owner c)) = map_option ow_address o' then c
    else (case o' of None \<Rightarrow> publish Idle e | Some a \<Rightarrow> (case lookup (r_now r) (ow_address a) e of
        (Some v, c) \<Rightarrow> publish (Ready v True) c | (None, c) \<Rightarrow> publish Idle c)))"
    unfolding setOwner_def Let_def d_def [symmetric] e_def [symmetric] by simp
  show ?thesis
  proof (cases o')
    case None then show ?thesis using s f assms by (auto simp: consistent_def)
  next
    case (Some a)
    obtain v g where g: "lookup (r_now r) (ow_address a) e = (v, g)" by fastforce
    show ?thesis using lookup_consistent [OF f g] s g Some o assms
      by (auto simp: consistent_def split: option.splits)
  qed
qed

lemma start_consistent:
  assumes "consistent url6 c"
  shows "consistent url6 (start_flight calls r a c)"
proof -
  have "consistent url6 (publish Loading c)" "consistent url6 (publish Unavailable c)"
    using assms by (simp_all add: publish_consistent)
  then show ?thesis using start_quiet [of calls r a c] quiet_consistent shown_consistent by blast
qed

lemma query_consistent:
  assumes "consistent url6 c"
  shows "consistent url6 (query purl url6 calls r c)"
proof (cases "c_owner c")
  case None then show ?thesis using assms by (simp add: query_def)
next
  case (Some a)
  obtain v d where d: "lookup (r_now r) (ow_address (snd a)) c = (v, d)" by fastforce
  have f: "cache_fine url6 (c_cache c)" using assms by (simp add: consistent_def)
  note l = lookup_consistent(1) [OF f d] lookup_consistent(3,4,5) [OF f d]
  have c: "consistent url6 d" using l assms by (simp add: consistent_def)
  show ?thesis
  proof (cases v)
    case None
    then show ?thesis using Some d assms c
      by (simp add: query_def publish_consistent start_consistent split: option.splits)
  next
    case v: (Some w)
    have "c_alive c \<Longrightarrow> consistent url6 (publish (Ready w True) d)"
      using l lookup_consistent(2) [OF f d v] Some by (cases a) (simp add: consistent_def)
    then show ?thesis using Some d v assms by (simp add: query_def publish_consistent)
  qed
qed

lemma perform_consistent: "consistent url6 c \<Longrightarrow> consistent url6 (perform purl url6 x c)"
proof (cases "flight_of x")
  case None
  assume c: "consistent url6 c"
  show ?thesis
  proof (cases x)
    case Cancel then show ?thesis using c by (auto simp: cancel_def consistent_def revoke_def)
  next
    case Destroy then show ?thesis using c by (auto simp: destroy_def consistent_def revoke_def cache_fine_def)
  qed (use None c in \<open>simp_all add: setOwner_consistent query_consistent\<close>)
next
  case (Some i)
  assume "consistent url6 c"
  then show ?thesis using Some segment_delivers [of x c purl url6] quiet_consistent delivers_consistent by (metis option.distinct(1))
qed

lemma reachable_consistent: "reachable purl url6 c \<Longrightarrow> consistent url6 c"
proof (induction rule: reachable.induct)
  case start then show ?case by (simp add: createIPContextController_def consistent_def cache_fine_def)
qed (rule perform_consistent)

text \<open>
  C4: in every reachable state a ready view shows a context of the address of the current owner, and
  the controller is alive; the cache holds at most 64 contexts, each once and under its own,
  public address.
\<close>

theorem ready_is_the_owners:
  assumes "reachable purl url6 c"
  shows "(\<forall>v b. c_view c = Ready v b \<longrightarrow> c_alive c \<and> (\<exists>n a. c_owner c = Some (n, a) \<and> address_of v = ow_address a)) \<and>
    distinct (map fst (c_cache c)) \<and> length (c_cache c) \<le> 64 \<and>
    (\<forall>(k, v) \<in> set (c_cache c). address_of v = k \<and> canonicalPublicIP url6 k = Some k)"
  using reachable_consistent [OF assms] by (auto simp: consistent_def cache_fine_def keyed_def)

end
