(* ===== verification/Controller_Progress.thy ===== *)
theory Controller_Progress
  imports Controller_Facts
begin

text \<open>
  Progress of the IP context controller: a loading view always has a pending flight whose armed
  timer ends it, and the slot of a flight is freed when its pending call settles and its body
  closes.  Callers whose \<open>isCurrentOwner\<close> answers no keep the last view until the next
  \<open>setOwner\<close>; the readings here answer yes and their clock never goes back.
\<close>

definition steady :: "reading \<Rightarrow> bool" where
  "steady r \<longleftrightarrow> (\<forall>n. r_current r n) \<and> mono (r_mono r)"

fun prompt :: "operation \<Rightarrow> bool" where
  "prompt (Query calls r) = steady r"
| "prompt (TimerFired i b) = b"
| "prompt (FetchResolved i d r) = steady r"
| "prompt (FetchRejected i t r) = steady r"
| "prompt (ChunkRead i k r) = steady r"
| "prompt (ReadRejected i t r) = steady r"
| "prompt x = True"

definition running :: "controller \<Rightarrow> flight \<Rightarrow> bool" where
  "running c f \<longleftrightarrow> fl_settled f = None \<and> \<not> fl_aborted f \<and> owns c f True"

definition armed :: "controller \<Rightarrow> flight \<Rightarrow> bool" where
  "armed c f \<longleftrightarrow> running c f \<and> fl_timer f \<and> fl_stage f \<noteq> Cleaning"

definition ticking :: "controller \<Rightarrow> bool" where
  "ticking c \<longleftrightarrow> (c_view c = Loading \<longrightarrow> (\<exists>f. c_flight c = Some f \<and> armed c f))"

section \<open>Segments that end a running flight\<close>

lemma owns_simps [simp]:
  "owns c (stopBody f) b = owns c f b" "owns c (clearDeadline f) b = owns c f b" "owns c (settle_flight x f) b = owns c f b"
  "owns (set_flight g c) f b = owns c f b" "owns (publish v c) f b = owns c f b"
  "owns c (f\<lparr>fl_body := y\<rparr>) b = owns c f b" "owns c (f\<lparr>fl_stage := st\<rparr>) b = owns c f b" "owns c (f\<lparr>fl_bytes := z\<rparr>) b = owns c f b"
  by (simp_all add: owns_def)

lemma running_simps [simp]:
  "running c (stopBody f) = running c f" "running (set_flight g c) f = running c f" "running (publish v c) f = running c f"
  "running c (f\<lparr>fl_body := y\<rparr>) = running c f" "running c (f\<lparr>fl_stage := st\<rparr>) = running c f" "running c (f\<lparr>fl_bytes := z\<rparr>) = running c f"
  by (simp_all add: running_def)

lemma live_running: "steady r \<Longrightarrow> running c f \<Longrightarrow> live r n c f \<longleftrightarrow> r_mono r n < fl_deadline f"
  by (simp add: live_def running_def steady_def)

lemma late_stays: "steady r \<Longrightarrow> running c f \<Longrightarrow> \<not> live r m c f \<Longrightarrow> m \<le> n \<Longrightarrow> fl_deadline f \<le> r_mono r n"
  using monoD [of "r_mono r" m n] by (simp add: live_running) (simp add: steady_def)

lemma late_finish: "steady r \<Longrightarrow> running c f \<Longrightarrow> fl_deadline f \<le> r_mono r n \<Longrightarrow> c_view (finish r n f c) = TimedOut"
proof -
  assume "steady r" "running c f" "fl_deadline f \<le> r_mono r n"
  then have "c_view (expire r n f (set_flight (Some f) c)) = TimedOut"
    by (simp add: expire_def timeout_def running_def steady_def Let_def)
  then show ?thesis using release_shown [of "expire r n f (set_flight (Some f) c)"] by (simp add: finish_def visible_def)
qed

lemma quiet_view: "quiet c d \<Longrightarrow> c_view c \<noteq> Loading \<Longrightarrow> c_view d \<noteq> Loading"
  by (auto simp: quiet_def visible_def)

lemma plain_not_loading: "plain_view v \<Longrightarrow> v \<noteq> Loading"
  by auto

lemma fail_ends:
  assumes "steady r" "running c f" "plain_view v"
  shows "c_view (fail v r n f c) \<noteq> Loading"
proof (cases "live r n c (stopBody f)")
  case True
  then show ?thesis
    using quiet_view [OF finish_quiet, of "publish v c"] plain_not_loading [OF assms(3)] by (simp add: fail_def Let_def)
next
  case False
  then have "fl_deadline f \<le> r_mono r (n + 1)" using late_stays [of r c "stopBody f" n "n + 1"] assms by simp
  then have "c_view (finish r (n + 1) (stopBody f) c) = TimedOut" using assms by (intro late_finish) auto
  then show ?thesis using False by (simp add: fail_def Let_def)
qed

lemma give_up_ends:
  assumes "steady r" "running c f" "\<not> live r m c f" "m \<le> n"
  shows "c_view (give_up r n f c) = TimedOut" "c_view (finish r n f c) = TimedOut"
  using late_stays [OF assms] assms(1,2) by (simp_all add: give_up_def late_finish)

lemma status_ends:
  assumes "steady r" "running c f" "plain_view v" "m \<le> n"
  shows "c_view (finish r n f (if live r m c f then publish v c else c)) \<noteq> Loading"
proof (cases "live r m c f")
  case True
  then show ?thesis using quiet_view [OF finish_quiet, of "publish v c"] plain_not_loading [OF assms(3)] by simp
qed (use give_up_ends(2) [OF assms(1,2) _ assms(4)] in simp)

lemma ended: "c_view c \<noteq> Loading \<Longrightarrow> ticking c"
  by (simp add: ticking_def)

lemma still_armed: "armed c f \<Longrightarrow> ticking (set_flight (Some f) c)"
  by (simp add: ticking_def armed_def)

lemma fetch_ticks:
  assumes "steady r" "armed c f"
  shows "ticking (fetch_resolved d r f c)"
proof -
  let ?f = "f\<lparr>fl_body := fd_body d\<rparr>"
  have run: "running c ?f" using assms(2) by (simp add: armed_def)
  have arm: "armed c (?f\<lparr>fl_stage := Reading\<rparr>)" using assms(2) by (simp add: armed_def)
  consider "\<not> live r 0 c ?f" | "live r 0 c ?f" "fd_redirected d \<or> fd_status d \<noteq> 200"
    | "live r 0 c ?f" "\<not> (fd_redirected d \<or> fd_status d \<noteq> 200)" by blast
  then show ?thesis
  proof cases
    case 1
    then have "c_view (give_up r 1 ?f c) = TimedOut" using assms(1) run by (intro give_up_ends(1) [where m = 0]) auto
    then show ?thesis using 1 by (simp add: fetch_resolved_def Let_def ended)
  next
    case 2
    have "c_view (finish r 2 (stopBody ?f) (if live r 1 c (stopBody ?f) then publish (status_view (fd_status d)) c else c)) \<noteq> Loading"
      using assms(1) run by (intro status_ends) auto
    then show ?thesis using 2 by (simp add: fetch_resolved_def Let_def ended)
  next
    case 3
    have "c_view (fail InvalidResponse r 1 ?f c) \<noteq> Loading" using assms(1) run by (intro fail_ends) auto
    moreover have "\<not> live r 1 c ?f \<Longrightarrow> c_view (give_up r 2 ?f c) = TimedOut"
      using assms(1) run by (intro give_up_ends(1) [where m = 1]) auto
    moreover have "\<not> live r 2 c ?f \<Longrightarrow> c_view (give_up r 3 ?f c) = TimedOut"
      using assms(1) run by (intro give_up_ends(1) [where m = 2]) auto
    ultimately show ?thesis using 3 still_armed [OF arm] by (simp add: fetch_resolved_def Let_def ended)
  qed
qed

lemma complete_ends:
  assumes "steady r" "running c f"
  shows "c_view (complete url6 r f c) \<noteq> Loading"
proof -
  have "c_view (fail InvalidResponse r 2 f c) \<noteq> Loading" using assms by (intro fail_ends) auto
  moreover have "\<not> live r 1 c f \<Longrightarrow> c_view (finish r 2 f c) = TimedOut" "\<not> live r 2 c f \<Longrightarrow> c_view (finish r 3 f c) = TimedOut"
    using give_up_ends(2) [OF assms, of 1 2] give_up_ends(2) [OF assms, of 2 3] by auto
  moreover have "c_view (finish r 3 g (publish (Ready v False) e)) \<noteq> Loading" for g v e
    using quiet_view [OF finish_quiet, of "publish (Ready v False) e"] by simp
  ultimately show ?thesis by (auto simp: complete_def Let_def split: option.splits)
qed

lemma chunk_ticks:
  assumes "steady r" "armed c f"
  shows "ticking (read_chunk url6 k r f c)"
proof -
  have run: "running c f" using assms(2) by (simp add: armed_def)
  have "c_view (complete url6 r f c) \<noteq> Loading" "c_view (fail InvalidResponse r 1 f c) \<noteq> Loading"
    using complete_ends [OF assms(1) run] fail_ends [OF assms(1) run, of InvalidResponse 1] by simp_all
  moreover have "\<not> live r 0 c f \<Longrightarrow> c_view (give_up r 1 f c) = TimedOut"
    using give_up_ends(1) [OF assms(1) run, of 0 1] by simp
  moreover have "\<not> live r 1 c (f\<lparr>fl_bytes := z\<rparr>) \<Longrightarrow> c_view (give_up r 2 (f\<lparr>fl_bytes := z\<rparr>) c) = TimedOut" for z
    using give_up_ends(1) [OF assms(1), of c "f\<lparr>fl_bytes := z\<rparr>" 1 2] run by simp
  moreover have "ticking (set_flight (Some (f\<lparr>fl_bytes := z\<rparr>)) c)" for z
    using assms(2) by (intro still_armed) (simp add: armed_def)
  ultimately show ?thesis by (simp add: read_chunk_def Let_def ended split: chunk.splits)
qed

section \<open>Every operation\<close>

lemma on_flight_ticks:
  assumes "ticking c" "c_view c = Loading" "\<And>f. armed c f \<Longrightarrow> fl_stage f = st \<Longrightarrow> ticking (g f c)"
  shows "ticking (on_flight i st g c)"
  using assms by (auto simp: on_flight_def ticking_def split: option.splits)

lemma timeout_ticks: "ticking c \<Longrightarrow> ticking (timeout i True c)"
  by (auto simp: ticking_def timeout_def Let_def armed_def running_def split: option.splits)

lemma delivers_view: "delivers url6 c d \<Longrightarrow> c_view d \<noteq> Loading"
  by (auto simp: delivers_def quiet_def visible_def)

lemma segment_ticks:
  assumes "ticking c" "prompt e" "flight_of e \<noteq> None"
  shows "ticking (perform purl url6 e c)"
proof (cases "c_view c = Loading")
  case False
  then show ?thesis
    using segment_delivers [OF assms(3), of c purl url6] quiet_view [OF _ False] delivers_view by (blast intro: ended)
next
  case True
  note on = on_flight_ticks [OF assms(1) True]
  have fails: "steady r \<Longrightarrow> armed c f \<Longrightarrow> ticking (fail (thrown_view t) r 0 f c)" for t r f
    by (intro ended fail_ends) (simp_all add: armed_def)
  show ?thesis
  proof (cases e)
    case (BodyClosed i) show ?thesis unfolding BodyClosed perform.simps by (rule on) (simp add: armed_def)
  qed (use assms(2,3) in \<open>simp_all add: on fetch_ticks chunk_ticks fails timeout_ticks assms(1)\<close>)
qed

lemma start_ticks:
  assumes "steady r" "c_alive c" "c_owner c = Some a"
  shows "ticking (start_flight calls r a c)"
proof -
  let ?f = "new_flight r a c" and ?c = "publish Loading (set_flight (Some (new_flight r a c)) (c\<lparr>c_next := c_next c + 1\<rparr>))"
  have arm: "armed ?c ?f" using assms(2,3) by (simp add: armed_def running_def owns_def new_flight_def publish_def)
  then have run: "running ?c ?f" by (simp add: armed_def)
  have "ticking ?c" using arm by (auto simp: ticking_def)
  moreover have "\<not> live r 1 ?c ?f \<Longrightarrow> c_view (finish r 2 ?f ?c) = TimedOut" "\<not> live r 2 ?c ?f \<Longrightarrow> c_view (finish r 3 ?f ?c) = TimedOut"
    using give_up_ends(2) [OF assms(1) run, of 1 2] give_up_ends(2) [OF assms(1) run, of 2 3] by auto
  moreover have "c_view (fail (thrown_view t) r 3 ?f ?c) \<noteq> Loading" for t using assms(1) run by (intro fail_ends) auto
  moreover have "ticking (publish Unavailable (c\<lparr>c_next := c_next c + 1\<rparr>))" by (rule ended) simp
  ultimately show ?thesis
    unfolding start_flight_def Let_def by (simp add: ended split: option.splits)
qed

lemma query_ticks:
  assumes "ticking c" "steady r"
  shows "ticking (query purl url6 calls r c)"
proof (cases "c_owner c")
  case None then show ?thesis using assms by (simp add: query_def)
next
  case (Some a)
  obtain v d where d: "lookup (r_now r) (ow_address (snd a)) c = (v, d)" by fastforce
  then have e: "c_alive d = c_alive c" "c_owner d = Some a" using Some by (auto dest!: lookup_fields)
  have "c_alive c \<Longrightarrow> ticking (start_flight calls r a d)" using start_ticks [OF assms(2), of d a] e by simp
  moreover have "w \<noteq> Loading \<Longrightarrow> ticking (publish w g)" for w g by (rule ended) simp
  ultimately show ?thesis using Some d assms by (simp add: query_def split: option.splits)
qed

lemma setOwner_ticks: "ticking c \<Longrightarrow> ticking (setOwner o' r c)"
  by (auto simp: setOwner_def Let_def intro: ended split: option.splits prod.splits)

lemma perform_ticks: "ticking c \<Longrightarrow> prompt x \<Longrightarrow> ticking (perform purl url6 x c)"
proof (cases "flight_of x")
  case None
  assume "ticking c" "prompt x"
  then show ?thesis using None
    by (cases x) (simp_all add: setOwner_ticks query_ticks cancel_def destroy_def ended)
qed (simp add: segment_ticks)

lemma trace_ticks: "ticking c \<Longrightarrow> \<forall>x \<in> set xs. prompt x \<Longrightarrow> ticking (fold (perform purl url6) xs c)"
  by (induction xs arbitrary: c) (simp_all add: perform_ticks)

text \<open>
  C22: while the view is loading, after any sequence of operations whose caller confirms the owner
  and whose clock never goes back, a flight of the current owner is pending, unsettled and with its
  timer set, and that timer ends the loading with a timeout.
\<close>

theorem loading_ends:
  assumes "\<forall>x \<in> set xs. prompt x" "c_view (fold (perform purl url6) xs createIPContextController) = Loading"
  shows "\<exists>f. c_flight (fold (perform purl url6) xs createIPContextController) = Some f \<and> fl_timer f \<and> fl_settled f = None \<and>
    c_owner (fold (perform purl url6) xs createIPContextController) = Some (fl_owner f) \<and>
    c_view (perform purl url6 (TimerFired (fl_id f) True) (fold (perform purl url6) xs createIPContextController)) = TimedOut"
proof -
  let ?c = "fold (perform purl url6) xs createIPContextController"
  have "ticking ?c" using assms(1) by (intro trace_ticks) (simp_all add: ticking_def createIPContextController_def)
  then obtain f where "c_flight ?c = Some f" "armed ?c f" using assms(2) by (auto simp: ticking_def)
  then show ?thesis by (auto simp: armed_def running_def owns_def timeout_def Let_def)
qed

lemma settled_frees: "in_flight (fold (perform purl url6) [FetchRejected i t r, ReadRejected i u q, BodyClosed i] c) \<noteq> Some i"
proof (cases "in_flight c = Some i")
  case True
  then obtain f where f: "c_flight c = Some f" "fl_id f = i" by (auto simp: in_flight_def)
  have frees: "c_flight (perform purl url6 (BodyClosed i) d) \<noteq> Some g" if "c_flight d = None \<or> (\<exists>h. c_flight d = Some h \<and> fl_stage h = Cleaning)" "fl_id g = i" for d g
    using that by (auto simp: on_flight_def free_def split: if_splits)
  have ends: "c_flight (fail v r n g d) = None \<or> (\<exists>h. c_flight (fail v r n g d) = Some h \<and> fl_stage h = Cleaning)" for v r n g d
    by (auto simp: fail_def finish_def release_def Let_def split: option.splits)
  let ?d = "fold (perform purl url6) [FetchRejected i t r, ReadRejected i u q] c"
  have "c_flight ?d = None \<or> (\<exists>h. c_flight ?d = Some h \<and> fl_stage h = Cleaning)"
  proof (cases "fl_stage f")
    case Fetching
    let ?e = "perform purl url6 (FetchRejected i t r) c"
    have "?e = fail (thrown_view t) r 0 f c" using f Fetching by (simp add: on_flight_def)
    then have "c_flight ?e = None \<or> (\<exists>h. c_flight ?e = Some h \<and> fl_stage h = Cleaning)" using ends by metis
    then show ?thesis by (auto simp: on_flight_def)
  next
    case Reading
    then show ?thesis using f ends by (simp add: on_flight_def)
  next
    case Cleaning
    then show ?thesis using f by (simp add: on_flight_def)
  qed
  then show ?thesis using frees [of ?d] by (auto simp: in_flight_def)
next
  case False
  then show ?thesis using controller.releases controller.stale by (simp add: on_flight_other)
qed

text \<open>
  C38: the slot of a flight is always freed: in any state, once its pending call has rejected (as an
  aborted fetch or read does) and its cancelled body has closed, the flight is gone and \<open>query\<close> may
  start the next one.
\<close>

theorem slot_is_freed:
  "in_flight (fold (perform purl url6) [FetchRejected i t r, ReadRejected i u q, BodyClosed i] c) \<noteq> Some i"
  by (rule settled_frees)

section \<open>An example\<close>

definition example_reading :: reading where
  "example_reading = \<lparr>r_now = 1704164645000, r_mono = (\<lambda>_. 0), r_current = (\<lambda>_. True)\<rparr>"

definition example_owner :: owner where
  "example_owner = \<lparr>ow_report = 0, ow_base = js ''https://h'', ow_auth = 0, ow_token = [], ow_address = js ''8.8.8.8''\<rparr>"

definition example_url :: url where
  "example_url = \<lparr>protocol = js ''https:'', username = [], password = [], host = js ''h'', pathname = js ''/'', search = [], hash = [], marks = []\<rparr>"

abbreviation example_platform :: "operation \<Rightarrow> controller \<Rightarrow> controller" where
  "example_platform \<equiv> perform (\<lambda>_. Some example_url) (\<lambda>_. None)"

definition example_query :: "operation list" where
  "example_query = [SetOwner (Some example_owner) example_reading, Query \<lparr>sc_timer = True, sc_throws = None\<rparr> example_reading]"

definition example_response :: "operation list" where
  "example_response = [FetchResolved 1 \<lparr>fd_redirected = False, fd_status = 200, fd_length = None, fd_body = True, fd_reader = True\<rparr>
     example_reading, ChunkRead 1 (Bytes example_bytes) example_reading, ChunkRead 1 Done example_reading]"

definition example_flight :: flight where
  "example_flight = \<lparr>fl_id = 1, fl_owner = (0, example_owner), fl_generation = 1, fl_deadline = 10000, fl_aborted = False,
     fl_body = False, fl_body_cancelled = False, fl_settled = None, fl_timer = True, fl_bytes = [], fl_stage = Fetching\<rparr>"

definition example_loading :: controller where
  "example_loading = \<lparr>c_owner = Some (0, example_owner), c_generation = 1, c_alive = True, c_flight = Some example_flight,
     c_view = Loading, c_cache = [], c_next = 2\<rparr>"

lemma example_loads: "fold example_platform example_query createIPContextController = example_loading"
proof -
  have "eligible (\<lambda>_. None) (js ''8.8.8.8'')" by code_simp
  then show ?thesis
    by (simp add: example_query_def example_owner_def createIPContextController_def setOwner_def sameScope_def revoke_def lookup_def
        cached_def map_delete_def publish_def query_def example_reading_def base_url_def example_url_def js_def insecure_def
        start_flight_def new_flight_def live_def owns_def example_loading_def example_flight_def)
qed

lemma example_expires: "expires_at example_context = Some 1704164945000"
  using example_fields_read(3) example_stamps(2) by (simp add: expires_at_def example_context_def obj_def)

lemma example_delivers:
  "c_view (fold example_platform example_response example_loading) = Ready example_context False"
proof -
  have "length example_bytes \<le> IP_CONTEXT_BYTES" using example_short(1) by (simp add: example_bytes_def)
  then show ?thesis
    using example_parsed example_expires
    by (simp add: example_response_def example_loading_def example_flight_def on_flight_def fetch_resolved_def declared_ok_def
        live_def owns_def example_reading_def read_chunk_def complete_def example_owner_def finish_def expire_def release_def publish_def
        settle_flight_def clearDeadline_def)
qed

lemma reachable_fold: "reachable purl url6 c \<Longrightarrow> reachable purl url6 (fold (perform purl url6) xs c)"
  by (induction xs arbitrary: c) (simp_all add: reachable.step)

theorem ready_is_the_owners_witness:
  "c_view (fold example_platform (example_query @ example_response) createIPContextController) = Ready example_context False \<and>
   address_of example_context = js ''8.8.8.8''"
proof -
  let ?c = "fold example_platform example_response example_loading"
  have "reachable (\<lambda>_. Some example_url) (\<lambda>_. None) ?c" using reachable_fold reachable_fold [OF reachable.start] example_loads by metis
  from ready_is_the_owners [OF this] example_delivers show ?thesis
    using parsed_facts [OF example_parsed] by (simp add: example_loads)
qed

theorem revoked_flight_is_silent_witness:
  "c_view (fold example_platform example_response (example_platform Cancel example_loading)) = Cancelled"
proof -
  have "c_generation (example_platform Cancel example_loading) \<noteq> c_generation example_loading"
    by (simp add: example_loading_def cancel_def revoke_def)
  moreover have "\<forall>e \<in> set example_response. flight_of e \<noteq> None" by (simp add: example_response_def)
  ultimately have "visible (fold example_platform example_response (example_platform Cancel example_loading)) =
    visible (example_platform Cancel example_loading)" by (rule revoked_flight_is_silent)
  then show ?thesis by (simp add: visible_def) (simp add: example_loading_def cancel_def)
qed

theorem loading_ends_witness:
  "c_view example_loading = Loading \<and> c_view (example_platform (TimerFired 1 True) example_loading) = TimedOut"
proof -
  have "\<forall>x \<in> set example_query. prompt x"
    by (simp add: example_query_def steady_def example_reading_def mono_def)
  moreover have "c_view (fold example_platform example_query createIPContextController) = Loading"
    by (simp add: example_loads) (simp add: example_loading_def)
  ultimately have "\<exists>f. c_flight example_loading = Some f \<and> c_view (example_platform (TimerFired (fl_id f) True) example_loading) = TimedOut"
    using loading_ends [of example_query "\<lambda>_. Some example_url" "\<lambda>_. None"] by (simp only: example_loads) blast
  then show ?thesis by (auto simp: example_loading_def example_flight_def)
qed

text \<open>
  The rejection of the fetch itself is a TypeError, as an invalid response is: the view cannot tell them apart.
\<close>
lemma network_failure_view: "c_view (example_platform (FetchRejected 1 True example_reading) example_loading) = InvalidResponse"
  by (simp add: example_loading_def example_flight_def on_flight_def fail_def example_owner_def finish_def expire_def release_def
      publish_def live_def owns_def example_reading_def stopBody_def thrown_view_def settle_flight_def clearDeadline_def Let_def)

end
