(* ===== verification/IP_Labels.thy ===== *)
theory IP_Labels
  imports Legacy_IP Context_JSON
begin

text \<open>
  The labels a user gives to addresses (\<open>frontend/app.js\<close>): reading a file of labels in JSON or CSV
  (\<open>parseIPLabelImport\<close>, \<open>parseCSVLine\<close>), keeping the valid records, one per canonical address in
  numeric order (\<open>normalizeIPLabelRows\<close>, \<open>compareCanonicalIP\<close>), and merging them into the table of at
  most 500 (\<open>upsertIPLabels\<close>, \<open>loadIPLabels\<close>).  Parameters: \<open>lower\<close> is \<open>toLowerCase\<close> and \<open>collate\<close> gives
  the sort key of \<open>localeCompare\<close>.
\<close>

definition LABEL_RECORDS :: nat where "LABEL_RECORDS = 500"
definition LABEL :: nat where "LABEL = 256"
definition NOTE :: nat where "NOTE = 1024"

section \<open>Texts\<close>

text \<open>\<open>String(value ?? '')\<close>.\<close>

definition text_of :: "jval \<Rightarrow> jstr option" where
  "text_of v = js_String (coalesce v (JStr []))"

text \<open>\<open>[...text]\<close>: the code points of a text, an unpaired surrogate alone.\<close>

fun characters :: "jstr \<Rightarrow> jstr list" where
  "characters [] = []"
| "characters [c] = [[c]]"
| "characters (c # d # s) = (if is_high c \<and> is_low d then [c, d] # characters s else [c] # characters (d # s))"

definition truncateCharacters :: "jval \<Rightarrow> nat \<Rightarrow> jstr option" where
  "truncateCharacters v maximum = map_option (\<lambda>t. concat (take maximum (characters (trim t)))) (text_of v)"

text \<open>\<open>canonicalIPAddress\<close> of a text; the empty text when it is no address.\<close>

definition canonicalIPAddress :: "jstr \<Rightarrow> jstr" where
  "canonicalIPAddress t = (case canonicalIP (trim t) of Some a \<Rightarrow> a | None \<Rightarrow> [])"

section \<open>Reading a file\<close>

text \<open>One line: quotes toggle, a doubled quote inside quotes is a quote, a comma outside ends a field.\<close>

fun csv_fields :: "jstr \<Rightarrow> bool \<Rightarrow> jstr \<Rightarrow> jstr list" where
  "csv_fields value' quoted [] = [trim value']"
| "csv_fields value' quoted (c # r) =
     (if c = cQuote \<and> quoted \<and> (case r of d # s \<Rightarrow> d = cQuote | [] \<Rightarrow> False) then csv_fields (value' @ [cQuote]) quoted (tl r)
      else if c = cQuote then csv_fields value' (\<not> quoted) r
      else if c = cComma \<and> \<not> quoted then trim value' # csv_fields [] quoted r
      else csv_fields (value' @ [c]) quoted r)"

definition parseCSVLine :: "jstr \<Rightarrow> jstr list" where
  "parseCSVLine line = csv_fields [] False line"

text \<open>\<open>text.split(/\r?\n/)\<close>.\<close>

fun split_lines :: "jstr \<Rightarrow> jstr list" where
  "split_lines [] = [[]]"
| "split_lines (c # s) =
     (if c = 10 then [] # split_lines s
      else if c = 13 \<and> (case s of d # t \<Rightarrow> d = 10 | [] \<Rightarrow> False) then [] # split_lines (tl s)
      else (case split_lines s of [] \<Rightarrow> [[c]] | l # ls \<Rightarrow> (c # l) # ls))"

text \<open>What \<open>normalizeIPLabelRows\<close> reads of a row: its three properties, or that it is no plain object.\<close>

datatype row = Fields jval jval jval | Refused

text \<open>A property read of a parsed value; reading from \<open>null\<close> or \<open>undefined\<close> throws.\<close>

fun property :: "jval \<Rightarrow> string \<Rightarrow> jval option" where
  "property JUndef k = None"
| "property JNull k = None"
| "property (JObj i plain ps) k = Some (get ps k)"
| "property v k = Some JUndef"

definition either :: "jval \<Rightarrow> jval \<Rightarrow> jval" where
  "either a b = (if truthy a then a else b)"

definition json_row :: "jval \<Rightarrow> row option" where
  "json_row v = do {
     a \<leftarrow> property v ''ip''; b \<leftarrow> property v ''address''; l \<leftarrow> property v ''label''; m \<leftarrow> property v ''name'';
     n \<leftarrow> property v ''note''; d \<leftarrow> property v ''description'';
     Some (Fields (either a b) (either l m) (either (either n d) (JStr [])))}"

text \<open>An entry of an object: its key is the address, its value the label or an object with it.\<close>

definition optional_property :: "jval \<Rightarrow> string \<Rightarrow> jval" where
  "optional_property v k = (case property v k of Some x \<Rightarrow> x | None \<Rightarrow> JUndef)"

definition json_entry :: "jstr \<times> jval \<Rightarrow> row" where
  "json_entry e = (case e of (ip, v) \<Rightarrow> (case v of
     JStr s \<Rightarrow> Fields (JStr ip) (JStr s) (JStr [])
   | _ \<Rightarrow> Fields (JStr ip) (either (optional_property v ''label'') (optional_property v ''name''))
       (either (either (optional_property v ''note'') (optional_property v ''description'')) (JStr []))))"

text \<open>\<open>Object.entries\<close> of a parsed value that is no array; a text has its units as entries.\<close>

fun value_entries :: "jval \<Rightarrow> (jstr \<times> jval) list option" where
  "value_entries (JObj i plain ps) = Some (List.map_filter (\<lambda>(k, d). case k of Key t \<Rightarrow> Some (t, desc_value d) | Symbol n \<Rightarrow> None) ps)"
| "value_entries (JStr s) = Some (map (\<lambda>(i, c). (dec i, JStr [c])) (enumerate 0 s))"
| "value_entries JUndef = None"
| "value_entries JNull = None"
| "value_entries v = Some []"

fun json_rows :: "jval \<Rightarrow> row list option" where
  "json_rows (JArr i plain ds) = traverse json_row (map desc_value ds)"
| "json_rows v = map_option (map json_entry) (value_entries v)"

definition index_of :: "jstr list \<Rightarrow> string \<Rightarrow> int" where
  "index_of cells k = (if js k \<in> set cells then int (length (takeWhile (\<lambda>f. f \<noteq> js k) cells)) else -1)"

definition field_at :: "jstr list \<Rightarrow> int \<Rightarrow> jval" where
  "field_at cells i = (if 0 \<le> i \<and> i < int (length cells) then JStr (cells ! nat i) else JUndef)"

definition csv_rows :: "(jstr \<Rightarrow> jstr) \<Rightarrow> jstr \<Rightarrow> row list" where
  "csv_rows lower t = (let lines = filter (\<lambda>l. trim l \<noteq> []) (split_lines t) in
     case lines of [] \<Rightarrow> []
     | l # ls \<Rightarrow> (let first = map lower (parseCSVLine l);
          hasHeader = (js ''ip'' \<in> set first \<or> js ''address'' \<in> set first);
          ip = (if hasHeader then max (index_of first ''ip'') (index_of first ''address'') else 0);
          label = (if hasHeader then max (index_of first ''label'') (index_of first ''name'') else 1);
          note = (if hasHeader then max (index_of first ''note'') (index_of first ''description'') else 2)
        in map (\<lambda>line. let cells = parseCSVLine line in
             Fields (field_at cells ip) (field_at cells label)
               (if 0 \<le> note then either (field_at cells note) (JStr []) else JStr []))
           (if hasHeader then ls else l # ls)))"

definition ends_with :: "jstr \<Rightarrow> jstr \<Rightarrow> bool" where
  "ends_with suffix' t \<longleftrightarrow> length suffix' \<le> length t \<and> drop (length t - length suffix') t = suffix'"

definition parseIPLabelImport :: "(jstr \<Rightarrow> jstr) \<Rightarrow> jstr \<Rightarrow> jstr \<Rightarrow> row list option" where
  "parseIPLabelImport lower t filename =
     (if ends_with (js ''.json'') (lower filename) \<or> (trim t \<noteq> [] \<and> (hd (trim t) = cLBrace \<or> hd (trim t) = cLBrack))
      then Option.bind (json_parse t) json_rows
      else Some (csv_rows lower t))"

section \<open>The order of canonical addresses\<close>

text \<open>Numeric comparison of two parts; a missing part compares as \<open>NaN\<close>, which \<open>sort\<close> takes as 0.\<close>

fun compare_parts :: "nat \<Rightarrow> nat list \<Rightarrow> nat list \<Rightarrow> int" where
  "compare_parts 0 a b = 0"
| "compare_parts (Suc n) (x # a) (y # b) = (if x \<noteq> y then int x - int y else compare_parts n a b)"
| "compare_parts (Suc n) [] [] = 0"
| "compare_parts (Suc n) a b = 0"

text \<open>The words and the zone of a canonical IPv6 text.\<close>

definition sort_words :: "jstr \<Rightarrow> nat list \<times> jstr" where
  "sort_words v = (let parts = split_on cPercent v; halves = split_pair cColon (hd parts);
       words = (\<lambda>h. if h = [] then [] else map (digits_val 16) (split_on cColon h));
       before = words (hd halves); after' = (if length halves > 1 then words (halves ! 1) else [])
     in (before @ replicate (8 - length before - length after') 0 @ after', join [cPercent] (tl parts)))"

definition compareCanonicalIP :: "(jstr \<Rightarrow> jstr) \<Rightarrow> jstr \<Rightarrow> jstr \<Rightarrow> int" where
  "compareCanonicalIP collate l r = (let left = canonicalIPAddress l; right = canonicalIPAddress r;
       leftV4 = (cColon \<notin> set left); rightV4 = (cColon \<notin> set right) in
     if leftV4 \<noteq> rightV4 then (if leftV4 then -1 else 1)
     else if leftV4 then compare_parts 4 (map (digits_val 10) (split_on cDot left)) (map (digits_val 10) (split_on cDot right))
     else (case (sort_words left, sort_words right) of ((a, za), (b, zb)) \<Rightarrow>
       (let d = compare_parts 8 a b in
        if d \<noteq> 0 then d else if collate za < collate zb then -1 else if collate za = collate zb then 0 else 1)))"

text \<open>A stable sort by a comparator.\<close>

fun insert_by :: "('a \<Rightarrow> 'a \<Rightarrow> int) \<Rightarrow> 'a \<Rightarrow> 'a list \<Rightarrow> 'a list" where
  "insert_by cmp x [] = [x]"
| "insert_by cmp x (y # ys) = (if cmp x y \<le> 0 then x # y # ys else y # insert_by cmp x ys)"

definition sort_by :: "('a \<Rightarrow> 'a \<Rightarrow> int) \<Rightarrow> 'a list \<Rightarrow> 'a list" where
  "sort_by cmp xs = foldr (insert_by cmp) xs []"

section \<open>Records\<close>

record ip_label =
  il_ip :: jstr
  il_label :: jstr
  il_note :: jstr

definition by_address :: "(jstr \<Rightarrow> jstr) \<Rightarrow> (jstr \<times> ip_label) list \<Rightarrow> (jstr \<times> ip_label) list" where
  "by_address collate = sort_by (\<lambda>a b. compareCanonicalIP collate (fst a) (fst b))"

record label_rows =
  lr_labels :: "(jstr \<times> ip_label) list"
  lr_invalid :: nat
  lr_omitted :: nat

record accepting =
  ac_labels :: "(jstr \<times> ip_label) list"
  ac_invalid :: nat
  ac_duplicates :: nat

definition accept_row :: "row \<Rightarrow> accepting \<Rightarrow> accepting option" where
  "accept_row r s = (case r of Refused \<Rightarrow> Some (s\<lparr>ac_invalid := ac_invalid s + 1\<rparr>)
     | Fields a l n \<Rightarrow> do {
         address \<leftarrow> text_of a;
         label \<leftarrow> truncateCharacters l LABEL;
         (let ip = canonicalIPAddress address in
          if ip = [] \<or> label = [] then Some (s\<lparr>ac_invalid := ac_invalid s + 1\<rparr>)
          else do {
            note \<leftarrow> truncateCharacters n NOTE;
            Some (s\<lparr>ac_duplicates := ac_duplicates s + (if ip \<in> fst ` set (ac_labels s) then 1 else 0),
              ac_labels := AList.update ip \<lparr>il_ip = ip, il_label = label, il_note = note\<rparr> (ac_labels s)\<rparr>) }) })"

fun accept_rows :: "row list \<Rightarrow> accepting \<Rightarrow> accepting option" where
  "accept_rows [] s = Some s"
| "accept_rows (r # rs) s = Option.bind (accept_row r s) (accept_rows rs)"

text \<open>\<open>rows\<close> is \<open>None\<close> for a value that is no array.\<close>

definition normalizeIPLabelRows :: "(jstr \<Rightarrow> jstr) \<Rightarrow> row list option \<Rightarrow> nat \<Rightarrow> label_rows option" where
  "normalizeIPLabelRows collate rows maximum = (case rows of
     None \<Rightarrow> Some \<lparr>lr_labels = [], lr_invalid = 1, lr_omitted = 0\<rparr>
   | Some rs \<Rightarrow> do {
       s \<leftarrow> accept_rows rs \<lparr>ac_labels = [], ac_invalid = 0, ac_duplicates = 0\<rparr>;
       (let sorted' = by_address collate (ac_labels s);
            kept = take maximum sorted' in
        Some \<lparr>lr_labels = kept, lr_invalid = ac_invalid s, lr_omitted = ac_duplicates s + (length sorted' - length kept)\<rparr>) })"

section \<open>The table\<close>

record upserted =
  up_imported :: nat
  up_invalid :: nat
  up_omitted :: nat
  up_reason :: "string option"

text \<open>The page calls \<open>upsertIPLabels\<close> with \<open>manual\<close> only for one record literal.\<close>

definition manual_refusal :: "row list \<Rightarrow> (jstr \<times> ip_label) list \<Rightarrow> upserted option option" where
  "manual_refusal rows labels = (case (case rows of Fields a l n # rs \<Rightarrow> (a, l, n) | _ \<Rightarrow> (JUndef, JUndef, JUndef)) of
     (a, l, n) \<Rightarrow> do {
       address \<leftarrow> text_of a; label \<leftarrow> text_of l; note \<leftarrow> text_of n;
       Some (let ip = canonicalIPAddress address in
         if length (characters (trim label)) > LABEL \<or> length (characters (trim note)) > NOTE
         then Some \<lparr>up_imported = 0, up_invalid = 0, up_omitted = 0, up_reason = Some ''characters''\<rparr>
         else if ip \<noteq> [] \<and> ip \<notin> fst ` set labels \<and> length labels \<ge> LABEL_RECORDS
         then Some \<lparr>up_imported = 0, up_invalid = 0, up_omitted = 1, up_reason = Some ''capacity''\<rparr>
         else None) })"

text \<open>The incoming records enter while there is room; an existing address is always updated.\<close>

fun merge_labels :: "(jstr \<times> ip_label) list \<Rightarrow> (jstr \<times> ip_label) list \<Rightarrow> nat \<Rightarrow> (jstr \<times> ip_label) list \<times> nat" where
  "merge_labels combined [] imported = (combined, imported)"
| "merge_labels combined ((k, m) # ms) imported =
     (if k \<notin> fst ` set combined \<and> length combined \<ge> LABEL_RECORDS then merge_labels combined ms imported
      else merge_labels (AList.update k m combined) ms (imported + 1))"

definition upsertIPLabels :: "(jstr \<Rightarrow> jstr) \<Rightarrow> bool \<Rightarrow> row list \<Rightarrow> (jstr \<times> ip_label) list \<Rightarrow>
    (upserted \<times> (jstr \<times> ip_label) list) option" where
  "upsertIPLabels collate manual rows labels = do {
     refusal \<leftarrow> (if manual then manual_refusal rows labels else Some None);
     (case refusal of Some u \<Rightarrow> Some (u, labels)
      | None \<Rightarrow> do {
          incoming \<leftarrow> normalizeIPLabelRows collate (Some rows) (length rows);
          (case merge_labels labels (lr_labels incoming) 0 of (combined, imported) \<Rightarrow>
             Some (\<lparr>up_imported = imported, up_invalid = lr_invalid incoming,
                 up_omitted = lr_omitted incoming + (length (lr_labels incoming) - imported), up_reason = None\<rparr>,
               by_address collate combined)) }) }"

text \<open>A stored row: a parsed object is plain.\<close>

fun stored_row :: "jval \<Rightarrow> row" where
  "stored_row (JObj i plain ps) = (if plain then Fields (get ps ''ip'') (get ps ''label'') (get ps ''note'') else Refused)"
| "stored_row v = Refused"

definition stored_rows :: "jval \<Rightarrow> row list option" where
  "stored_rows v = (case v of JArr i plain ds \<Rightarrow> Some (map (stored_row \<circ> desc_value) ds) | _ \<Rightarrow> None)"

text \<open>\<open>loadIPLabels\<close>, for the item of the storage (\<open>None\<close> when reading it throws).\<close>

definition loadIPLabels :: "(jstr \<Rightarrow> jstr) \<Rightarrow> jstr option \<Rightarrow> label_rows" where
  "loadIPLabels collate item = (case do { t \<leftarrow> item; v \<leftarrow> json_parse (if t = [] then js ''[]'' else t);
       normalizeIPLabelRows collate (stored_rows v) LABEL_RECORDS } of
     Some r \<Rightarrow> r | None \<Rightarrow> \<lparr>lr_labels = [], lr_invalid = 1, lr_omitted = 0\<rparr>)"

text \<open>A field edited in the table; a record whose label becomes empty is deleted.\<close>

definition edit_label :: "jstr \<Rightarrow> bool \<Rightarrow> jstr \<Rightarrow> (jstr \<times> ip_label) list \<Rightarrow> (jstr \<times> ip_label) list" where
  "edit_label ip is_label input labels = (case map_of labels ip of None \<Rightarrow> labels
     | Some m \<Rightarrow> (let cut = (\<lambda>maximum. concat (take maximum (characters (trim input))));
          m = (if is_label then m\<lparr>il_label := cut LABEL\<rparr> else m\<lparr>il_note := cut NOTE\<rparr>)
        in if il_label m = [] then filter (\<lambda>e. fst e \<noteq> ip) labels else AList.update ip m labels))"

definition delete_label :: "jstr \<Rightarrow> (jstr \<times> ip_label) list \<Rightarrow> (jstr \<times> ip_label) list" where
  "delete_label ip labels = filter (\<lambda>e. fst e \<noteq> ip) labels"

datatype label_edit = Upsert bool "row list" | Edit jstr bool jstr | Delete jstr

text \<open>An upsert that throws leaves the table as it is.\<close>

fun edit_table :: "(jstr \<Rightarrow> jstr) \<Rightarrow> label_edit \<Rightarrow> (jstr \<times> ip_label) list \<Rightarrow> (jstr \<times> ip_label) list" where
  "edit_table collate (Upsert manual rows) labels = (case upsertIPLabels collate manual rows labels of
     Some (u, labels') \<Rightarrow> labels' | None \<Rightarrow> labels)"
| "edit_table collate (Edit ip is_label input) labels = edit_label ip is_label input labels"
| "edit_table collate (Delete ip) labels = delete_label ip labels"

end
