(* ===== verification/Label_Facts.thy ===== *)
theory Label_Facts
  imports IP_Labels "HOL-Library.Multiset"
begin

text \<open>
  The label table: whatever is loaded, imported, edited and deleted, it keeps its bounds; an import
  accounts for every row; and a line of quoted fields reads back.
\<close>

section \<open>Cutting and sorting\<close>

lemma characters_head: "c # s = concat (characters (c # s)) \<and> hd (hd (characters (c # s))) = c \<and> hd (characters (c # s)) \<noteq> []"
proof (induction "c # s" arbitrary: c s rule: characters.induct)
  case (3 c d s)
  then show ?case by (cases s) auto
qed simp

lemma characters_take: "characters (concat (take n (characters t))) = take n (characters t)"
proof (induction t arbitrary: n rule: characters.induct)
  case (2 c)
  then show ?case by (cases n) simp_all
next
  case (3 c d s)
  show ?case
  proof (cases n)
    case (Suc m)
    show ?thesis
    proof (cases "is_high c \<and> is_low d")
      case True
      then show ?thesis using 3(1) Suc by simp
    next
      case False
      have split: "characters (c # d # s) = [c] # characters (d # s)" using False by auto
      show ?thesis
      proof (cases m)
        case 0 then show ?thesis using Suc split by simp
      next
        case m: (Suc k)
        obtain u v where u: "characters (d # s) = u # v" "u \<noteq> []" "hd u = d"
          using characters_head [of d s] by (cases "characters (d # s)") auto
        then obtain w where w: "concat (take m (characters (d # s))) = d # w" using m by (cases u) auto
        have "characters (c # d # w) = [c] # characters (d # w)" using False by auto
        then show ?thesis using 3(2) [OF False, of m] Suc split w by simp
      qed
    qed
  qed simp
qed simp

lemma cut_bound: "length (characters (concat (take n (characters t)))) \<le> n"
  by (simp add: characters_take)

lemma mset_insert_by: "mset (insert_by cmp x xs) = add_mset x (mset xs)"
  by (induction xs) auto

lemma mset_sort_by: "mset (sort_by cmp xs) = mset xs"
  by (induction xs) (simp_all add: sort_by_def mset_insert_by)

lemma by_address_same: "set (by_address collate xs) = set xs" "length (by_address collate xs) = length xs"
  "distinct (map fst (by_address collate xs)) = distinct (map fst xs)"
proof -
  have m: "mset (by_address collate xs) = mset xs" by (simp add: by_address_def mset_sort_by)
  then show "set (by_address collate xs) = set xs" by (rule mset_eq_setD)
  from m show "length (by_address collate xs) = length xs" by (rule mset_eq_length)
  from m have "mset (map fst (by_address collate xs)) = mset (map fst xs)" by simp
  then show "distinct (map fst (by_address collate xs)) = distinct (map fst xs)" by (rule mset_eq_imp_distinct_iff)
qed

section \<open>Canonical addresses\<close>

text \<open>The canonical text of an address is its own canonical text.\<close>

lemma canonical_v4_again:
  assumes "parseIPv4 t = Some (a, b)"
  shows "canonicalIP a = Some a \<and> trim a = a"
proof -
  obtain bytes where b: "traverse ipv4_byte (split_on cDot t) = Some bytes" "length (split_on cDot t) = 4" "a = join [cDot] (map dec bytes)"
    using assms by (auto simp: parseIPv4_def Let_def split: if_splits)
  have "parseIPv4 a = Some (a, bytes)"
    unfolding b(3) by (rule dec_bytes_text) (use traverse_bytes [OF b(1)] traverse_length [OF b(1)] b(2) in simp_all)
  moreover have "\<forall>c \<in> set a. plain_unit c" unfolding b(3) by (rule plain_join) (auto simp: plain_dec)
  then have "trim a = a" by (rule plain_text(1))
  ultimately show ?thesis by (simp add: canonicalIP_def)
qed

lemma plain_not_space: "plain_unit c \<Longrightarrow> \<not> is_space c"
  using plain_text(1) [of "[c]"] by (auto simp: trim_def split: if_splits)

lemma trim_ends: "s \<noteq> [] \<Longrightarrow> \<not> is_space (hd s) \<Longrightarrow> \<not> is_space (last s) \<Longrightarrow> trim s = s"
  by (simp add: trim_def dropWhile_hd hd_rev)

lemma last_trimmed: "trim s \<noteq> [] \<Longrightarrow> \<not> is_space (last (trim s))"
  using hd_dropWhile [of is_space "rev (dropWhile is_space s)"] by (simp add: trim_def last_rev)

lemma hd_split_on: "hd (split_on c s) = takeWhile (\<lambda>x. x \<noteq> c) s"
proof (induction s)
  case (Cons x s)
  then show ?case by (cases "split_on c s") auto
qed simp

lemma octet_digits: "ipv4_byte p = Some n \<Longrightarrow> cColon \<notin> set p"
  by (auto simp: ipv4_byte_def dec_octet_def js_def is_digit_def split: if_splits)

text \<open>A text with a colon before its first dot is no dotted quad.\<close>

lemma colon_no_quad:
  assumes "cColon \<in> set t" "cDot \<notin> set t"
  shows "parseIPv4 (t @ z) = None"
proof -
  obtain part rest where parts: "split_on cDot (t @ z) = part # rest" by (cases "split_on cDot (t @ z)") simp_all
  have "part = t @ takeWhile (\<lambda>x. x \<noteq> cDot) z"
    using hd_split_on [of cDot "t @ z"] assms(2) by (auto simp: parts takeWhile_append takeWhile_eq_all_conv)
  then have "ipv4_byte part = None" using assms(1) octet_digits [of part] by (cases "ipv4_byte part") auto
  then show ?thesis by (simp add: parseIPv4_def parts Let_def)
qed

lemma zoned_text_again:
  assumes "length hs = 8" "\<forall>h \<in> set hs. h < 65536" "\<not> ((\<forall>h \<in> set (take 5 hs). h = 0) \<and> hs ! 5 = 0xffff)"
  shows "canonicalIP (v6_text hs @ (if zone = [] then [] else cPercent # zone)) = Some (v6_text hs @ (if zone = [] then [] else cPercent # zone))"
proof -
  let ?t = "v6_text hs" and ?z = "if zone = [] then [] else cPercent # zone"
  note plain = plain_text [OF plain_v6_text, of hs] and colon = colon_in_v6_text [OF assms(1)]
  have address: "takeWhile (\<lambda>c. c \<noteq> cPercent) (?t @ ?z) = ?t"
    using plain(3) by (auto simp: takeWhile_append takeWhile_eq_all_conv)
  have "whole_words (split_pair cColon ?t) = Some hs"
    unfolding whole_words_agree using assms by (intro ipv6_group_text) simp_all
  then have "parseIPv6 (?t @ ?z) = Some (?t @ ?z)"
    using plain(3) colon by (auto simp: parseIPv6_def address words_text_def Let_def if_not_P [OF assms(3)])
  moreover have "parseIPv4 (?t @ ?z) = None" using colon_no_quad [OF colon dot_notin_v6_text] .
  ultimately show ?thesis by (simp add: canonicalIP_def)
qed

lemma canonical_again: "canonicalIPAddress (canonicalIPAddress t) = canonicalIPAddress t"
proof (cases "canonicalIP (trim t)")
  case (Some a)
  have "trim a = a \<and> canonicalIP a = Some a"
  proof (cases "parseIPv4 (trim t)")
    case (Some r)
    then show ?thesis using \<open>canonicalIP (trim t) = Some a\<close> canonical_v4_again [of "trim t"]
      by (cases r) (auto simp: canonicalIP_def intro: trim_no_space)
  next
    case None
    let ?address = "takeWhile (\<lambda>c. c \<noteq> cPercent) (trim t)"
    let ?zone = "drop (Suc (length ?address)) (trim t)"
    obtain hs where hs: "whole_words (split_pair cColon ?address) = Some hs" "words_text ?zone hs = Some a"
      using \<open>canonicalIP (trim t) = Some a\<close> None by (auto simp: canonicalIP_def parseIPv6_def Let_def option_elims split: if_splits)
    have len: "length hs = 8" "\<forall>h \<in> set hs. h < 65536" using ipv6_group_bound hs(1) unfolding whole_words_agree by blast+
    show ?thesis
    proof (cases "(\<forall>h \<in> set (take 5 hs). h = 0) \<and> hs ! 5 = 0xffff")
      case True
      then have "map_option fst (parseIPv4 (join [cDot] (map dec [hs ! 6 div 256, hs ! 6 mod 256, hs ! 7 div 256, hs ! 7 mod 256]))) = Some a"
        using hs(2) unfolding words_text_def if_P [OF True] by blast
      then obtain b where "parseIPv4 (join [cDot] (map dec [hs ! 6 div 256, hs ! 6 mod 256, hs ! 7 div 256, hs ! 7 mod 256])) = Some (a, b)"
        by auto
      then show ?thesis using canonical_v4_again by blast
    next
      case False
      then have a: "a = v6_text hs @ (if ?zone = [] then [] else cPercent # ?zone)" using hs(2) unfolding words_text_def if_not_P [OF False] by blast
      have ne: "v6_text hs \<noteq> []" using colon_in_v6_text [OF len(1)] by auto
      have head: "\<not> is_space (hd (v6_text hs))" "trim (v6_text hs) = v6_text hs"
        using plain_not_space plain_v6_text [of hs] hd_in_set [OF ne] plain_text(1) [OF plain_v6_text] by blast+
      have "trim a = a"
      proof (cases "?zone = []")
        case False
        then have "last ?zone = last (trim t)" "trim t \<noteq> []" by auto
        then have "\<not> is_space (last a)" using last_trimmed [of t] False by (simp add: a)
        then show ?thesis using ne head by (intro trim_ends) (simp_all add: a)
      qed (simp add: a head(2))
      then show ?thesis using zoned_text_again [OF len False, of ?zone] by (simp only: a)
    qed
  qed
  with Some show ?thesis by (simp add: canonicalIPAddress_def)
qed (simp add: canonicalIPAddress_def, code_simp)

section \<open>The records of the table\<close>

definition label_ok :: "jstr \<times> ip_label \<Rightarrow> bool" where
  "label_ok e \<longleftrightarrow> il_ip (snd e) = fst e \<and> fst e \<noteq> [] \<and> canonicalIPAddress (fst e) = fst e \<and> il_label (snd e) \<noteq> [] \<and>
     length (characters (il_label (snd e))) \<le> LABEL \<and> length (characters (il_note (snd e))) \<le> NOTE"

definition labels_ok :: "(jstr \<times> ip_label) list \<Rightarrow> bool" where
  "labels_ok ls \<longleftrightarrow> distinct (map fst ls) \<and> (\<forall>e \<in> set ls. label_ok e)"

definition table_ok :: "(jstr \<times> ip_label) list \<Rightarrow> bool" where
  "table_ok ls \<longleftrightarrow> labels_ok ls \<and> length ls \<le> LABEL_RECORDS"

lemma set_update_subset: "set (AList.update k v al) \<subseteq> insert (k, v) (set al)"
  by (induction al) auto

lemma update_ok: "labels_ok ls \<Longrightarrow> label_ok (k, m) \<Longrightarrow> labels_ok (AList.update k m ls)"
  using set_update_subset [of k m ls] distinct_update [of ls k m] by (auto simp: labels_ok_def)

lemma length_update_key: "length (AList.update k v al) = (if k \<in> fst ` set al then length al else Suc (length al))"
  by (induction al) auto

lemma accept_row_ok:
  assumes "labels_ok (ac_labels s)" "accept_row r s = Some t"
  shows "labels_ok (ac_labels t) \<and> length (ac_labels t) + ac_invalid t + ac_duplicates t = Suc (length (ac_labels s) + ac_invalid s + ac_duplicates s)"
proof (cases r)
  case (Fields a l n)
  obtain address label where al: "text_of a = Some address" "truncateCharacters l LABEL = Some label"
    using assms(2) Fields by (auto simp: accept_row_def option_elims)
  show ?thesis
  proof (cases "canonicalIPAddress address = [] \<or> label = []")
    case True
    then show ?thesis using assms Fields al by (auto simp: accept_row_def Let_def)
  next
    case False
    then obtain note' where n: "truncateCharacters n NOTE = Some note'"
      using assms(2) Fields al by (auto simp: accept_row_def Let_def option_elims)
    let ?m = "\<lparr>il_ip = canonicalIPAddress address, il_label = label, il_note = note'\<rparr>"
    have t: "t = s\<lparr>ac_duplicates := ac_duplicates s + (if canonicalIPAddress address \<in> fst ` set (ac_labels s) then 1 else 0),
        ac_labels := AList.update (canonicalIPAddress address) ?m (ac_labels s)\<rparr>"
      using assms(2) Fields al n False by (simp add: accept_row_def Let_def)
    have "label_ok (canonicalIPAddress address, ?m)"
      using False al(2) n cut_bound canonical_again by (auto simp: label_ok_def truncateCharacters_def)
    from update_ok [OF assms(1) this] show ?thesis by (simp add: t length_update_key)
  qed
next
  case Refused
  then show ?thesis using assms by (auto simp: accept_row_def)
qed

lemma accept_rows_ok:
  assumes "labels_ok (ac_labels s)" "accept_rows rs s = Some t"
  shows "labels_ok (ac_labels t) \<and>
    length (ac_labels t) + ac_invalid t + ac_duplicates t = length rs + length (ac_labels s) + ac_invalid s + ac_duplicates s"
  using assms
proof (induction rs arbitrary: s)
  case (Cons r rs)
  then obtain u where u: "accept_row r s = Some u" "accept_rows rs u = Some t" by (auto simp: option_elims)
  from accept_row_ok [OF Cons.prems(1) u(1)] Cons.IH [OF _ u(2)] show ?case by simp
qed simp

lemma normalized_ok:
  assumes "normalizeIPLabelRows collate (Some rows) maximum = Some n"
  shows "labels_ok (lr_labels n)" "length (lr_labels n) \<le> maximum" "length (lr_labels n) + lr_invalid n + lr_omitted n = length rows"
proof -
  let ?start = "\<lparr>ac_labels = [], ac_invalid = 0, ac_duplicates = 0\<rparr>"
  obtain s where s: "accept_rows rows ?start = Some s"
    and n: "n = \<lparr>lr_labels = take maximum (by_address collate (ac_labels s)), lr_invalid = ac_invalid s,
      lr_omitted = ac_duplicates s + (length (by_address collate (ac_labels s)) - length (take maximum (by_address collate (ac_labels s))))\<rparr>"
    using assms by (auto simp: normalizeIPLabelRows_def option_elims Let_def)
  have ok: "labels_ok (ac_labels s)" "length (ac_labels s) + ac_invalid s + ac_duplicates s = length rows"
    using accept_rows_ok [OF _ s] by (simp_all add: labels_ok_def)
  have "distinct (map fst (take maximum (by_address collate (ac_labels s))))"
    using ok(1) by (simp add: labels_ok_def by_address_same distinct_take flip: take_map)
  then show "labels_ok (lr_labels n)" using ok(1) by (auto simp: n labels_ok_def by_address_same dest: in_set_takeD)
  show "length (lr_labels n) \<le> maximum" by (simp add: n)
  show "length (lr_labels n) + lr_invalid n + lr_omitted n = length rows" using ok(2) by (simp add: n by_address_same)
qed

section \<open>Every edit\<close>

lemma merge_ok:
  assumes "table_ok combined" "\<forall>e \<in> set ms. label_ok e" "merge_labels combined ms k = (c, j)"
  shows "table_ok c \<and> k \<le> j \<and> j \<le> k + length ms \<and> fst ` set combined \<subseteq> fst ` set c"
  using assms
proof (induction combined ms k rule: merge_labels.induct)
  case (2 combined key m ms imported)
  show ?case
  proof (cases "key \<notin> fst ` set combined \<and> length combined \<ge> LABEL_RECORDS")
    case True
    with 2(1) [OF True] 2(3-) show ?thesis by simp
  next
    case False
    have t: "table_ok (AList.update key m combined)"
      using 2(3,4) False update_ok [of combined key m] by (auto simp: table_ok_def length_update_key)
    have ms: "\<forall>e \<in> set ms. label_ok e" and r: "merge_labels (AList.update key m combined) ms (imported + 1) = (c, j)"
      using 2(4,5) False by auto
    have "fst ` set combined \<subseteq> fst ` set (AList.update key m combined)"
      using dom_update [of key m combined] by auto
    with 2(2) [OF False t ms r] show ?thesis by (simp add: subset_trans)
  qed
qed simp

lemma upsert_ok:
  assumes "table_ok labels" "upsertIPLabels collate manual rows labels = Some (u, labels')"
  shows "table_ok labels' \<and> fst ` set labels \<subseteq> fst ` set labels'"
    "\<not> manual \<Longrightarrow> up_imported u + up_invalid u + up_omitted u = length rows"
proof -
  obtain refusal where r: "(if manual then manual_refusal rows labels else Some None) = Some refusal"
    using assms(2) by (auto simp: upsertIPLabels_def option_elims)
  have both: "table_ok labels' \<and> fst ` set labels \<subseteq> fst ` set labels' \<and>
      (\<not> manual \<longrightarrow> up_imported u + up_invalid u + up_omitted u = length rows)"
  proof (cases refusal)
    case (Some v)
    then show ?thesis using assms r by (auto simp: upsertIPLabels_def split: if_splits)
  next
    case None
    obtain n where n: "normalizeIPLabelRows collate (Some rows) (length rows) = Some n"
      using assms(2) None unfolding upsertIPLabels_def r by (auto simp: option_elims)
    obtain c j where m: "merge_labels labels (lr_labels n) 0 = (c, j)" by fastforce
    have res: "labels' = by_address collate c" "up_imported u = j" "up_invalid u = lr_invalid n"
        "up_omitted u = lr_omitted n + (length (lr_labels n) - j)"
      using assms(2) None n m unfolding upsertIPLabels_def r by auto
    note ok = normalized_ok [OF n] merge_ok [OF assms(1) _ m]
    have "\<forall>e \<in> set (lr_labels n). label_ok e" using ok(1) by (simp add: labels_ok_def)
    with ok(4) have c: "table_ok c" "j \<le> length (lr_labels n)" "fst ` set labels \<subseteq> fst ` set c" by simp_all
    then show ?thesis using ok(3) by (simp add: res table_ok_def labels_ok_def by_address_same)
  qed
  then show "table_ok labels' \<and> fst ` set labels \<subseteq> fst ` set labels'" by simp
  from both show "\<not> manual \<Longrightarrow> up_imported u + up_invalid u + up_omitted u = length rows" by simp
qed

lemma delete_ok: "table_ok labels \<Longrightarrow> table_ok (delete_label ip labels)"
  using le_trans [OF length_filter_le] by (auto simp: table_ok_def labels_ok_def delete_label_def distinct_map_filter)

lemma edit_ok:
  assumes "table_ok labels"
  shows "table_ok (edit_label ip is_label input labels)"
proof (cases "map_of labels ip")
  case (Some m)
  have m: "label_ok (ip, m)" using assms map_of_SomeD [OF Some] by (auto simp: table_ok_def labels_ok_def)
  let ?m = "if is_label then m\<lparr>il_label := concat (take LABEL (characters (trim input)))\<rparr> else m\<lparr>il_note := concat (take NOTE (characters (trim input)))\<rparr>"
  have e: "edit_label ip is_label input labels = (if il_label ?m = [] then delete_label ip labels else AList.update ip ?m labels)"
    using Some by (simp add: edit_label_def Let_def delete_label_def)
  have "il_label ?m \<noteq> [] \<Longrightarrow> label_ok (ip, ?m)" using m cut_bound by (auto simp: label_ok_def)
  moreover have "ip \<in> fst ` set labels" using map_of_SomeD [OF Some] by force
  ultimately show ?thesis
    using assms delete_ok update_ok [of labels ip ?m] by (auto simp: e table_ok_def length_update_key)
qed (use assms in \<open>simp add: edit_label_def\<close>)

lemma load_ok: "table_ok (lr_labels (loadIPLabels collate item))"
proof -
  have "table_ok (lr_labels n)" if "normalizeIPLabelRows collate rows LABEL_RECORDS = Some n" for rows n
  proof (cases rows)
    case None
    with that show ?thesis by (auto simp: normalizeIPLabelRows_def table_ok_def labels_ok_def)
  next
    case (Some rs)
    with that normalized_ok [of collate rs LABEL_RECORDS n] show ?thesis by (simp add: table_ok_def)
  qed
  then show ?thesis
    by (auto simp: loadIPLabels_def table_ok_def [of "[]"] labels_ok_def option_elims split: option.splits)
qed

lemma edits_ok: "table_ok labels \<Longrightarrow> table_ok (fold (edit_table collate) es labels)"
proof (induction es arbitrary: labels)
  case (Cons e es)
  then have "table_ok (edit_table collate e labels)"
    using upsert_ok(1) edit_ok delete_ok by (cases e) (auto split: option.splits)
  with Cons show ?case by simp
qed simp

text \<open>
  C27: whatever the browser's storage holds and whatever is then imported, typed, edited and deleted,
  the label table has at most 500 records, each under its own, non-empty address in canonical form and
  only once, with a label of 1 to 256 characters and a note of at most 1024.
\<close>

theorem label_table_bounded:
  "let labels = fold (edit_table collate) es (lr_labels (loadIPLabels collate item)) in
   length labels \<le> 500 \<and> distinct (map fst labels) \<and>
   list_all (\<lambda>(ip, m). il_ip m = ip \<and> ip \<noteq> [] \<and> canonicalIPAddress ip = ip \<and> il_label m \<noteq> [] \<and> length (characters (il_label m)) \<le> 256 \<and>
     length (characters (il_note m)) \<le> 1024) labels"
  using edits_ok [OF load_ok [of collate item], where collate = collate and es = es]
  by (auto simp: Let_def table_ok_def labels_ok_def label_ok_def list_all_iff LABEL_RECORDS_def LABEL_def NOTE_def)

text \<open>
  C39: an import accounts for every row of its file: imported, invalid and omitted rows add up to the
  rows, and no address that had a label loses its record.
\<close>

theorem import_accounted:
  assumes "upsertIPLabels collate False rows (fold (edit_table collate) es (lr_labels (loadIPLabels collate item))) = Some (u, labels')"
  shows "up_imported u + up_invalid u + up_omitted u = length rows \<and>
    fst ` set (fold (edit_table collate) es (lr_labels (loadIPLabels collate item))) \<subseteq> fst ` set labels'"
  using upsert_ok [OF edits_ok [OF load_ok] assms] by blast

section \<open>Quoted fields\<close>

text \<open>A field as a writer of CSV files quotes it.\<close>

fun csv_escape :: "jstr \<Rightarrow> jstr" where
  "csv_escape [] = []"
| "csv_escape (c # s) = (if c = cQuote then [cQuote, cQuote] else [c]) @ csv_escape s"

definition csv_quote :: "jstr \<Rightarrow> jstr" where
  "csv_quote f = cQuote # csv_escape f @ [cQuote]"

lemma csv_inside: "(case r of d # s \<Rightarrow> d \<noteq> cQuote | [] \<Rightarrow> True) \<Longrightarrow>
    csv_fields v True (csv_escape f @ cQuote # r) = csv_fields (v @ f) False r"
  by (induction f arbitrary: v) (auto split: list.splits)

lemma csv_quoted: "(case r of d # s \<Rightarrow> d \<noteq> cQuote | [] \<Rightarrow> True) \<Longrightarrow> csv_fields [] False (csv_quote f @ r) = csv_fields f False r"
  using csv_inside [of r "[]" f] by (simp add: csv_quote_def)

text \<open>
  C40: fields written between quotes, with the quotes inside doubled, and joined by commas read back
  as the same fields, trimmed, whatever commas and quotes they hold.
\<close>

theorem csv_line_roundtrip:
  assumes "fs \<noteq> []"
  shows "parseCSVLine (join [cComma] (map csv_quote fs)) = map trim fs"
  using assms
proof (induction fs)
  case (Cons f fs)
  show ?case
  proof (cases fs)
    case Nil
    then show ?thesis using csv_quoted [of "[]" f] by (simp add: parseCSVLine_def)
  next
    case (Cons g gs)
    let ?r = "cComma # join [cComma] (map csv_quote fs)"
    have "join [cComma] (map csv_quote (f # fs)) = csv_quote f @ ?r" using Cons by simp
    moreover have "csv_fields [] False (csv_quote f @ ?r) = csv_fields f False ?r" by (rule csv_quoted) simp
    ultimately show ?thesis using Cons.IH Cons by (simp add: parseCSVLine_def)
  qed
qed simp

theorem csv_line_roundtrip_witness:
  "parseCSVLine (join [cComma] (map csv_quote [js ''a,b'', js ''c'']))  = [trim (js ''a,b''), trim (js ''c'')]"
  using csv_line_roundtrip [of "[js ''a,b'', js ''c'']"] by simp

section \<open>An example\<close>

definition example_rows :: "row list" where
  "example_rows = [Fields (str ''10.0.0.1'') (str ''core'') (JStr []), Refused, Fields (str ''10.0.0.1'') (str ''edge'') (JStr [])]"

lemma example_upsert:
  "case upsertIPLabels id False example_rows [] of None \<Rightarrow> False
   | Some (u, ls) \<Rightarrow> up_imported u = 1 \<and> up_invalid u = 1 \<and> up_omitted u = 1 \<and> map fst ls = [js ''10.0.0.1'']"
  by code_simp

theorem import_accounted_witness:
  "\<exists>u ls. upsertIPLabels id False example_rows (lr_labels (loadIPLabels id None)) = Some (u, ls) \<and>
     up_imported u + up_invalid u + up_omitted u = 3"
proof -
  have start: "fold (edit_table id) [] (lr_labels (loadIPLabels id None)) = []" by (simp add: loadIPLabels_def)
  obtain u ls where u: "upsertIPLabels id False example_rows [] = Some (u, ls)"
    using example_upsert by (auto split: option.splits)
  then have "upsertIPLabels id False example_rows (fold (edit_table id) [] (lr_labels (loadIPLabels id None))) = Some (u, ls)"
    by (simp only: start)
  from import_accounted [OF this] have "up_imported u + up_invalid u + up_omitted u = 3" by (simp add: example_rows_def)
  with u show ?thesis by (simp add: loadIPLabels_def)
qed

end
