(* ===== verification/Context_Addresses.thy ===== *)
theory Context_Addresses
  imports Report IP_Controller
begin

text \<open>
  The addresses the page offers for an IP context query (\<open>eligibleIPContextAddresses\<close> of
  \<open>frontend/app.js\<close>), read from a normalised report and the results that are selected.  Every
  address it offers is one the controller accepts.
\<close>

section \<open>The addresses of a report\<close>

definition responsive :: "compact_node \<Rightarrow> bool" where
  "responsive n \<longleftrightarrow> cn_kind n = js ''ip'' \<and> cn_hop_max n > 0 \<and> cn_observations n > 0 \<and>
     (cn_status n \<in> {js ''healthy'', js ''degraded''} \<or>
      (case cn_latency n of Some x \<Rightarrow> (case num_rat x of Some r \<Rightarrow> 0 \<le> r | None \<Rightarrow> False) | None \<Rightarrow> False))"

definition compact_addresses :: "nat list \<Rightarrow> compact_topology \<Rightarrow> jstr list" where
  "compact_addresses selected t =
     (let ids = concat (map cr_nodes (filter (\<lambda>r. cr_result r \<in> int ` set selected) (ct_routes t)))
      in List.map_filter (\<lambda>n. if cn_id n \<in> set ids \<and> responsive n then cn_address n else None) (ct_nodes t))"

text \<open>The attempts of a result: its status, error code and topology.\<close>

definition trace_sources :: "result \<Rightarrow> (jstr \<times> jstr \<times> trace_topology option) list" where
  "trace_sources r = (let detail = (\<lambda>k. Option.bind (rs_details r) (\<lambda>ds. map_of ds (js k))) in
     case detail ''attempts'' of
       Some (NAttempts as) \<Rightarrow> map (\<lambda>a. (ta_status a, ta_error a, ta_topology a)) as
     | _ \<Rightarrow> [(rs_status r, rs_error r, case detail ''topology'' of Some (NTopology t) \<Rightarrow> Some t | _ \<Rightarrow> None)])"

definition trace_status :: "trace_topology \<Rightarrow> jstr" where
  "trace_status t = (if \<not> tt_reached t then js ''unreachable''
     else if \<exists>n \<in> set (tt_nodes t). tn_status n \<in> {js ''unknown'', js ''degraded''} then js ''degraded'' else js ''healthy'')"

definition source_addresses :: "jstr \<times> jstr \<times> trace_topology option \<Rightarrow> jstr list" where
  "source_addresses a = (case a of (status, error', topology) \<Rightarrow> (case topology of None \<Rightarrow> []
     | Some t \<Rightarrow> if error' \<noteq> [] \<or> status \<noteq> trace_status t then []
         else map tn_address (filter (\<lambda>n. tn_hop n > 0 \<and> tn_status n \<in> {js ''healthy'', js ''degraded''}) (tt_nodes t))))"

definition result_addresses :: "nat list \<Rightarrow> nat \<times> result \<Rightarrow> jstr list" where
  "result_addresses selected e = (case e of (i, r) \<Rightarrow>
     if i \<notin> set selected \<or> rs_kind r \<noteq> js ''traceroute'' then [] else concat (map source_addresses (trace_sources r)))"

record address_catalog =
  ac_addresses :: "jstr list"
  ac_total :: nat
  ac_omitted :: nat

definition admitted :: "host6 \<Rightarrow> report \<Rightarrow> nat list \<Rightarrow> jstr list" where
  "admitted url6 rp selected = List.map_filter (canonicalPublicIP url6)
     (case rp_compact rp of Some t \<Rightarrow> compact_addresses selected t
      | None \<Rightarrow> concat (map (result_addresses selected) (enumerate 0 (rp_results rp))))"

definition eligibleIPContextAddresses :: "host6 \<Rightarrow> report \<Rightarrow> nat list \<Rightarrow> address_catalog" where
  "eligibleIPContextAddresses url6 rp selected = (let all' = sort (remdups (admitted url6 rp selected)) in
     \<lparr>ac_addresses = take 500 all', ac_total = length all', ac_omitted = length all' - 500\<rparr>)"

section \<open>Canonical addresses are canonical\<close>

text \<open>How \<open>URL\<close> prints an IPv6 host: lower-case words and colons, at most one pair of them, at most 39
  units, the same when parsed again.\<close>

definition prints_hosts :: "host6 \<Rightarrow> bool" where
  "prints_hosts url6 \<longleftrightarrow> (\<forall>t h. url6 t = Some h \<longrightarrow> url6 h = Some h \<and> length h \<le> 39 \<and> cColon \<in> set h \<and>
     length (split_pair cColon h) \<le> 2 \<and> (\<forall>c \<in> set h. lower_hex c \<or> c = cColon))"

definition dotted :: "int \<Rightarrow> jstr" where
  "dotted v = join [cDot] (map (\<lambda>shift. dec (nat (drop_bit shift v AND 255))) [24, 16, 8, 0])"

lemma dotted_bytes: "dotted v = join (js ''.'') (map dec (shift_out 8 4 v))"
  by (simp add: dotted_def shift_out_def js_def upt_rec eval_nat_numeral mask_eq_exp_minus_1)

lemma dotted_reads:
  assumes "0 \<le> v" "v < 2 ^ 32"
  shows "ipv4Bits (dotted v) = Some \<lparr>fam = V4, width = 32, bval = v\<rparr>"
  using ipv4Bits_join [of "shift_out 8 4 v"] shift_out_bound [of 8 4 v] shift_in_out [of v 8 4] assms
  by (simp add: dotted_bytes)

lemma dotted_plain: "cColon \<notin> set (dotted v)" "length (dotted v) \<le> 15"
proof -
  have b: "length (dec (nat (drop_bit k v AND 255))) \<le> 3" for k
  proof -
    have "drop_bit k v AND 255 = take_bit 8 (drop_bit k v)" by (simp add: take_bit_eq_mask mask_eq_exp_minus_1)
    then have "nat (drop_bit k v AND 255) < 10 ^ 3" by (simp add: nat_less_iff take_bit_int_less_exp [of 8, THEN less_trans])
    then show ?thesis using length_radix_le [of 10 3] by simp
  qed
  show "length (dotted v) \<le> 15" using b [of 24] b [of 16] b [of 8] b [of 0] by (simp add: dotted_def)
  show "cColon \<notin> set (dotted v)" using sep_notin_dec by (auto simp: dotted_def)
qed

lemma addressBits_bound:
  assumes "addressBits url6 a = Some b" "ip_width b = 32"
  shows "0 \<le> ip_value b" "ip_value b < 2 ^ 32"
proof -
  have "0 \<le> ip_value b \<and> ip_value b < 2 ^ 32"
  proof (cases "cColon \<in> set a")
    case False
    with assms obtain w where "ipv4Bits a = Some w" "ip_value b = bval w" by (auto simp: addressBits_def split: if_splits)
    then show ?thesis using ipv4Bits_wf [of a w] by (auto simp: wf_bits_def fwidth_def)
  next
    case True
    have m: "x AND 0xffffffff = take_bit 32 x" for x :: int by (simp add: take_bit_eq_mask mask_eq_exp_minus_1)
    have less: "take_bit 32 x < 4294967296" for x :: int using take_bit_int_less_exp [of 32 x] by simp
    from True assms show ?thesis by (auto simp: addressBits_def Let_def m less split: if_splits option.splits)
  qed
  then show "0 \<le> ip_value b" "ip_value b < 2 ^ 32" by auto
qed

lemma same_class: "addressBits url6 a = addressBits url6 b \<Longrightarrow> addressClass url6 a = addressClass url6 b"
  by (simp add: addressClass_def)

lemma canonical_accepted:
  assumes "prints_hosts url6" "canonicalPublicIP url6 a = Some b"
  shows "canonicalPublicIP url6 b = Some b \<and> contextIP url6 (JStr b) \<noteq> None"
proof -
  obtain bits where bits: "addressBits url6 a = Some bits" "addressClass url6 a = Public"
    "b = (if ip_width bits = 32 then dotted (ip_value bits) else b)" "ip_width bits \<noteq> 32 \<Longrightarrow> url6 a = Some b"
    using assms(2) by (auto simp: canonicalPublicIP_def dotted_def split: if_splits option.splits)
  show ?thesis
  proof (cases "ip_width bits = 32")
    case True
    then have b: "b = dotted (ip_value bits)" using bits(3) by simp
    note read = dotted_reads [OF addressBits_bound [OF bits(1) True], folded b]
    note plain = dotted_plain [of "ip_value bits", folded b]
    have same: "addressBits url6 b = Some bits" using read plain True by (simp add: addressBits_def)
    then have "canonicalPublicIP url6 b = Some b"
      using same_class [of url6 b a] bits(1,2) True b by (simp add: canonicalPublicIP_def dotted_def)
    moreover have "contextIP url6 (JStr b) \<noteq> None" using read plain by (simp add: option_elims)
    ultimately show ?thesis by blast
  next
    case False
    then have "url6 a = Some b" using bits(4) by simp
    with assms(1) have h: "url6 b = Some b" "length b \<le> 39" "cColon \<in> set b" "length (split_pair cColon b) \<le> 2"
      "\<forall>c \<in> set b. lower_hex c \<or> c = cColon" by (auto simp: prints_hosts_def)
    have hex: "\<forall>c \<in> set b. is_hex c \<or> c = cColon \<or> c = cDot"
      using h(5) by (auto simp: lower_hex_def is_hex_def)
    have colon: "cColon \<in> set a" using bits(1) False by (auto simp: addressBits_def split: if_splits)
    have same: "addressBits url6 b = Some bits"
      using bits(1) \<open>url6 a = Some b\<close> h hex colon by (simp add: addressBits_def split: if_splits)
    have words: "context_words b = host_words b" using h(4) by (simp add: context_words_def host_words_def Let_def)
    have "canonicalPublicIP url6 b = Some b"
      using same same_class [of url6 b a] bits(1,2) False h(1) by (simp add: canonicalPublicIP_def)
    moreover have "drop_bit 32 (shift_in 16 (host_words b)) \<noteq> 65535"
      using same False h hex by (auto simp: addressBits_def Let_def split: if_splits)
    then have "contextIP url6 (JStr b) \<noteq> None" using h words by (simp add: option_elims Let_def)
    ultimately show ?thesis by blast
  qed
qed

lemma offered_eligible:
  assumes "prints_hosts url6" "a \<in> set (ac_addresses (eligibleIPContextAddresses url6 rp selected))"
  shows "eligible url6 a"
proof -
  have "a \<in> set (admitted url6 rp selected)"
    using assms(2) by (auto simp: eligibleIPContextAddresses_def Let_def dest: in_set_takeD)
  then obtain x where "canonicalPublicIP url6 x = Some a" by (auto simp: admitted_def map_filter_def)
  from canonical_accepted [OF assms(1) this] show ?thesis by (simp add: eligible_def)
qed

lemma catalog_counts:
  "sorted (ac_addresses (eligibleIPContextAddresses url6 rp selected)) \<and> distinct (ac_addresses (eligibleIPContextAddresses url6 rp selected)) \<and>
   length (ac_addresses (eligibleIPContextAddresses url6 rp selected)) \<le> 500 \<and>
   ac_total (eligibleIPContextAddresses url6 rp selected) = length (ac_addresses (eligibleIPContextAddresses url6 rp selected)) +
     ac_omitted (eligibleIPContextAddresses url6 rp selected)"
  by (simp add: eligibleIPContextAddresses_def Let_def sorted_wrt_take)

text \<open>
  C29: every address the page offers for a query is one the controller takes: it is a canonical public
  address that passes the check of \<open>query\<close>.  The catalog is sorted, without repetitions, holds at most
  500 addresses and counts the others.  The platform prints IPv6 hosts in their canonical form.
\<close>

theorem offered_addresses_accepted:
  assumes "prints_hosts url6"
  shows "list_all (eligible url6) (ac_addresses (eligibleIPContextAddresses url6 rp selected)) \<and>
    sorted (ac_addresses (eligibleIPContextAddresses url6 rp selected)) \<and>
    distinct (ac_addresses (eligibleIPContextAddresses url6 rp selected)) \<and>
    length (ac_addresses (eligibleIPContextAddresses url6 rp selected)) \<le> 500 \<and>
    ac_total (eligibleIPContextAddresses url6 rp selected) = length (ac_addresses (eligibleIPContextAddresses url6 rp selected)) +
      ac_omitted (eligibleIPContextAddresses url6 rp selected)"
  using catalog_counts offered_eligible [OF assms] by (simp add: list_all_iff)

section \<open>An example\<close>

definition example_host6 :: host6 where
  "example_host6 t = (if t \<in> {js ''2600::1'', js ''2600:0::1''} then Some (js ''2600::1'') else None)"

definition example_hop :: trace_node where
  "example_hop = \<lparr>tn_id = js ''n'', tn_hop = 1, tn_address = js ''2600:0::1'', tn_latency = jint 1, tn_status = js ''healthy'', tn_public = True,
     tn_geo = None, tn_asn = None\<rparr>"

definition example_trace_result :: result where
  "example_trace_result = \<lparr>rs_kind = js ''traceroute'', rs_address = js ''h'', rs_status = js ''healthy'', rs_latency = 1, rs_started = [],
     rs_error = [], rs_message = [], rs_details = Some [(js ''attempts'', NAttempts [\<lparr>ta_attempt = 1, ta_status = js ''healthy'',
       ta_error = [], ta_message = [], ta_topology = Some \<lparr>tt_reached = True, tt_nodes = [example_hop], tt_links = []\<rparr>\<rparr>])]\<rparr>"

definition example_report :: report where
  "example_report = \<lparr>rp_id = [], rp_status = js ''healthy'', rp_started = [], rp_duration = 1,
     rp_summary = \<lparr>sm_total = 1, sm_passed = 1, sm_failed = 0\<rparr>, rp_results = [example_trace_result], rp_analysis = None,
     rp_compact = None, rp_geo = None\<rparr>"

lemma example_prints: "prints_hosts example_host6"
proof -
  have "example_host6 (js ''2600::1'') = Some (js ''2600::1'')" "length (js ''2600::1'') \<le> 39" "cColon \<in> set (js ''2600::1'')"
    "length (split_pair cColon (js ''2600::1'')) \<le> 2" "\<forall>c \<in> set (js ''2600::1''). lower_hex c \<or> c = cColon"
    by code_simp+
  then show ?thesis by (auto simp: prints_hosts_def example_host6_def split: if_splits)
qed

lemma example_offers: "ac_addresses (eligibleIPContextAddresses example_host6 example_report [0]) = [js ''2600::1'']"
  by code_simp

theorem offered_addresses_accepted_witness: "eligible example_host6 (js ''2600::1'')"
  using offered_addresses_accepted [OF example_prints, of example_report "[0]"] by (simp add: example_offers)

end
