(* ===== verification/Presentation_Contract.thy ===== *)
theory Presentation_Contract
  imports Report
begin

text \<open>
  What the page shows of an analysis (\<open>frontend/app.js\<close>): the registries of findings, evidence signals
  and coverage signals, the closed shapes an observed value must have to be shown, the facts of the
  evidence and of the coverage, \<open>validatePresentationContract\<close> and the exported \<open>humanReport\<close>.
  A throw is \<open>None\<close>.

  The registries are object literals, which inherit from \<open>Object.prototype\<close>: a read by the name of an
  inherited property yields a value of which every property the code reads is \<open>undefined\<close>
  (\<open>Inherited\<close>).  The text of such a value is the parameter \<open>native\<close>.
\<close>

section \<open>Registries\<close>

datatype 'a looked = Own 'a | Inherited | Missing

definition OBJECT_PROTOTYPE :: "jstr list" where
  "OBJECT_PROTOTYPE = map js [''constructor'', ''__defineGetter__'', ''__defineSetter__'', ''hasOwnProperty'',
     ''__lookupGetter__'', ''__lookupSetter__'', ''isPrototypeOf'', ''propertyIsEnumerable'', ''toString'', ''valueOf'',
     ''__proto__'', ''toLocaleString'']"

definition registry_read :: "(jstr \<times> 'a) list \<Rightarrow> jstr \<Rightarrow> 'a looked" where
  "registry_read registry k = (case map_of registry k of Some x \<Rightarrow> Own x
     | None \<Rightarrow> if k \<in> set OBJECT_PROTOTYPE then Inherited else Missing)"

text \<open>A registry of texts, read and printed in a template.\<close>

definition registry_text :: "(jstr \<Rightarrow> jstr) \<Rightarrow> (jstr \<times> jstr) list \<Rightarrow> jstr \<Rightarrow> jstr" where
  "registry_text native registry k = (case registry_read registry k of Own t \<Rightarrow> t | Inherited \<Rightarrow> native k
     | Missing \<Rightarrow> js ''undefined'')"

record finding_presentation =
  fp_key :: jstr
  fp_cause :: jstr
  fp_expectation :: jstr
  fp_limitation :: jstr
  fp_action :: jstr
  fp_signals :: "jstr list"
  fp_relationship :: jstr

definition finding_key :: "jstr \<Rightarrow> jstr" where
  "finding_key code = js ''finding.'' @ code"

definition findingPresentation ::
  "string \<Rightarrow> string \<Rightarrow> string \<Rightarrow> string \<Rightarrow> string \<Rightarrow> string list \<Rightarrow> finding_presentation" where
  "findingPresentation code cause expectation limitation action signals =
     \<lparr>fp_key = finding_key (js code), fp_cause = js cause, fp_expectation = js expectation, fp_limitation = js limitation,
       fp_action = js action, fp_signals = map js signals, fp_relationship = js ''action.'' @ js code\<rparr>"

definition FINDING_PRESENTATION_REGISTRY :: "(jstr \<times> finding_presentation) list" where
  "FINDING_PRESENTATION_REGISTRY = map (\<lambda>entry. (fp_key entry, entry)) [
     findingPresentation ''checker_capacity_unavailable''
       ''Checker execution capacity was unavailable, so no service observation was established.''
       ''A bounded checker execution is admitted and completes.''
       ''This finding establishes an execution-capacity condition, not endpoint health.''
       ''Retry after bounded checker capacity becomes available.''
       [''error_code''],
     findingPresentation ''checker_panic''
       ''The checker stopped unexpectedly before service behavior was established.''
       ''The bounded checker completes and produces an observation.''
       ''This finding establishes a checker runtime failure, not endpoint health.''
       ''Repeat the bounded check and escalate recurring runtime failures.''
       [''error_code''],
     findingPresentation ''dns_resolution_failed''
       ''Name resolution did not produce a successful observation.''
       ''The configured name resolves to at least one intended address.''
       ''This finding covers DNS resolution only; downstream connectivity was not established.''
       ''Compare the configured resolver with an approved known-good resolver.''
       [''error_code''],
     findingPresentation ''endpoint_connect_failed''
       ''The endpoint connection did not complete.''
       ''The intended endpoint accepts a connection from this observation point.''
       ''This finding covers connection establishment only; application behavior was not tested.''
       ''Verify the listener and access policy, then repeat from the same observation point.''
       [''error_code''],
     findingPresentation ''execution_cancelled''
       ''The check ended after cancellation.''
       ''The check remains active until a bounded observation completes.''
       ''Cancellation does not establish service health or failure.''
       ''Repeat the check when it can remain active through completion.''
       [''error_code'', ''traceroute.attempts_cancelled''],
     findingPresentation ''execution_timeout''
       ''The check did not complete before its bounded deadline.''
       ''The check completes before the configured deadline.''
       ''A timeout does not identify whether the endpoint, path, or checker caused the delay.''
       ''Repeat once with the same bounded timeout and verify endpoint availability independently.''
       [''error_code'', ''traceroute.attempts_timed_out''],
     findingPresentation ''http_unexpected_status''
       ''The observed HTTP status did not match the configured status expectation.''
       ''The endpoint returns the configured HTTP status.''
       ''Only the bounded HTTP status observation was compared; end-to-end application health was not established.''
       ''Verify the route, health endpoint, and configured status expectation.''
       [''http.status_code'', ''error_code''],
     findingPresentation ''invalid_target''
       ''The target was rejected before a network observation was possible.''
       ''The target uses accepted syntax, scheme, hostname, and port fields.''
       ''No network or service-health conclusion can be drawn from rejected input.''
       ''Correct the target fields and run the bounded check again.''
       [''error_code''],
     findingPresentation ''service_greeting_unverified''
       ''The expected server-first greeting was not verified after transport connection.''
       ''The intended service returns its expected bounded server-first greeting without client input.''
       ''Command, authentication, STARTTLS, mailbox, and end-to-end service behavior were not tested.''
       ''Verify the intended listener and server-first greeting, then repeat the check.''
       [''error_code''],
     findingPresentation ''target_policy_blocked''
       ''Deployment policy blocked the target before a connection was attempted.''
       ''The target is permitted by the selected deployment policy.''
       ''No endpoint-health conclusion can be drawn because policy prevented network observation.''
       ''Use an approved target or an explicitly authorized trusted-local deployment.''
       [''error_code''],
     findingPresentation ''tls_certificate_expired''
       ''The observed TLS certificate was expired at verification time.''
       ''The endpoint presents a certificate valid at verification time.''
       ''Certificate validity does not by itself establish full application or service health.''
       ''Renew and deploy the intended certificate chain, then repeat verification.''
       [''error_code'', ''tls.certificate_expires_at''],
     findingPresentation ''tls_certificate_expiring''
       ''The observed TLS certificate expires within the bounded renewal window.''
       ''The endpoint presents a currently valid certificate with adequate renewal margin.''
       ''The renewal-window observation does not verify that renewal or deployment will succeed.''
       ''Confirm the certificate renewal schedule and deployed chain.''
       [''tls.certificate_expires_at''],
     findingPresentation ''tls_certificate_not_yet_valid''
       ''The observed TLS certificate was not yet valid at verification time.''
       ''The endpoint presents a certificate valid at verification time.''
       ''The observation does not distinguish deployment error from clock error.''
       ''Verify certificate activation, deployment, and system clocks.''
       [''error_code''],
     findingPresentation ''tls_downgrade''
       ''Verified TLS was not preserved for the HTTPS observation.''
       ''Every redirect and final response preserves verified TLS.''
       ''The observation is limited to the bounded redirect and response path.''
       ''Inspect redirects and the final endpoint for verified TLS.''
       [''error_code''],
     findingPresentation ''tls_handshake_failed''
       ''The transport connected but the TLS handshake did not complete.''
       ''The TLS handshake completes with the intended endpoint.''
       ''Application behavior was not tested because TLS establishment failed.''
       ''Verify certificate chain, server name, protocol versions, and cipher compatibility.''
       [''error_code''],
     findingPresentation ''tls_hostname_mismatch''
       ''The TLS certificate did not verify for the requested server name.''
       ''Certificate verification succeeds for the requested server name.''
       ''This identity failure does not establish other endpoint behavior.''
       ''Correct certificate identity or endpoint routing, then repeat verification.''
       [''error_code''],
     findingPresentation ''tls_untrusted''
       ''The TLS certificate chain did not verify to an approved trust anchor.''
       ''The endpoint chain verifies to an approved trust anchor.''
       ''This trust-chain result does not establish full application behavior.''
       ''Deploy the intended complete chain and verify its trust anchor.''
       [''error_code''],
     findingPresentation ''traceroute_execution_failed''
       ''One or more traceroute command attempts did not produce a completed route observation.''
       ''Every bounded command attempt completes with parseable route evidence.''
       ''Failed command attempts provide no route or destination-health evidence.''
       ''Verify traceroute availability and permissions, then repeat the bounded trace.''
       [''traceroute.attempts_execution_failed'', ''traceroute.execution_failures''],
     findingPresentation ''traceroute_partial_reachability''
       ''Destination reachability varied across completed traceroute attempts.''
       ''Completed attempts show consistent reachability or a reproducible divergence.''
       ''Traceroute reachability is path evidence, not end-to-end application health.''
       ''Compare reached and unreached routes for the first stable divergence.''
       [''traceroute.attempts_reached''],
     findingPresentation ''traceroute_path_degraded''
       ''A completed route contained a producer-classified degraded segment.''
       ''Repeated completed routes establish whether the same segment remains degraded.''
       ''A degraded route segment does not by itself identify root cause or application impact.''
       ''Repeat from the same and another approved observation point.''
       [''traceroute.path_status''],
     findingPresentation ''traceroute_path_unstable''
       ''Successful completed traceroute attempts contained more than one path sequence.''
       ''The path stabilizes or the same divergence is reproduced.''
       ''Path variation alone does not establish packet loss or application failure.''
       ''Compare the first divergent hop across repeated successful routes.''
       [''traceroute.path_signatures''],
     findingPresentation ''traceroute_unavailable''
       ''Traceroute capability was unavailable, so no route observation was established.''
       ''A functional traceroute capability is available before diagnostics begin.''
       ''No route or destination-health conclusion can be drawn without a traceroute observation.''
       ''Restore the supported traceroute capability, then repeat the bounded check.''
       [''error_code''],
     findingPresentation ''traceroute_unreachable''
       ''No completed traceroute attempt observed the destination as reached.''
       ''At least one completed trace reaches the destination or establishes a stable last responsive hop.''
       ''Traceroute non-reachability does not prove that every application protocol is unreachable.''
       ''Repeat from the same observation point and compare the last responsive hop.''
       [''traceroute.attempts_reached'']
     ]"

definition SAFE_ERROR_CODES :: "jstr list" where
  "SAFE_ERROR_CODES = map js [
     ''cancelled'', ''checker_capacity_unavailable'', ''checker_panic'', ''connection_failed'',
     ''invalid_address'', ''invalid_url'', ''network_policy_blocked'', ''service_greeting_unverified'',
     ''timeout'', ''tls_certificate_expired'', ''traceroute_unavailable'', ''tls_certificate_not_yet_valid'',
     ''tls_downgrade'', ''tls_handshake_failed'', ''tls_hostname_mismatch'', ''tls_untrusted'',
     ''unexpected_status'']"

datatype shape = Nothing_shown | Closed_error_code | Http_status | Number_of_attempts | Completed_fraction
  | Execution_failure_counts | Path_count | Utc_timestamp

record evidence_signal =
  es_label :: jstr
  es_category :: jstr
  es_observed :: shape
  es_expected :: shape

definition evidenceSignal :: "string \<Rightarrow> string \<Rightarrow> shape \<Rightarrow> shape \<Rightarrow> evidence_signal" where
  "evidenceSignal label category observed expected =
     \<lparr>es_label = js label, es_category = js category, es_observed = observed, es_expected = expected\<rparr>"

definition EVIDENCE_SIGNAL_PRESENTATION_REGISTRY :: "(jstr \<times> evidence_signal) list" where
  "EVIDENCE_SIGNAL_PRESENTATION_REGISTRY = [
     (js ''error_code'', evidenceSignal ''Result error code'' ''result'' Closed_error_code Nothing_shown),
     (js ''http.status_code'', evidenceSignal ''HTTP status comparison'' ''http'' Http_status Http_status),
     (js ''tls.certificate_expires_at'', evidenceSignal ''Certificate expiry timestamp'' ''tls'' Utc_timestamp Nothing_shown),
     (js ''traceroute.attempts_cancelled'', evidenceSignal ''Cancelled traceroute attempts'' ''traceroute'' Number_of_attempts Number_of_attempts),
     (js ''traceroute.attempts_execution_failed'', evidenceSignal ''Failed traceroute command attempts'' ''traceroute'' Number_of_attempts Number_of_attempts),
     (js ''traceroute.attempts_reached'', evidenceSignal ''Completed traceroute reachability'' ''traceroute'' Completed_fraction Completed_fraction),
     (js ''traceroute.attempts_timed_out'', evidenceSignal ''Timed-out traceroute attempts'' ''traceroute'' Number_of_attempts Number_of_attempts),
     (js ''traceroute.execution_failures'', evidenceSignal ''Traceroute execution failures'' ''traceroute'' Execution_failure_counts Number_of_attempts),
     (js ''traceroute.path_signatures'', evidenceSignal ''Successful completed path signatures'' ''traceroute'' Path_count Nothing_shown),
     (js ''traceroute.path_status'', evidenceSignal ''Degraded completed path evidence'' ''traceroute'' Path_count Nothing_shown)
     ]"

record coverage_signal =
  cs_label :: jstr
  cs_category :: jstr
  cs_plural :: bool

definition coverageSignal :: "string \<Rightarrow> string \<Rightarrow> bool \<Rightarrow> coverage_signal" where
  "coverageSignal label category plural = \<lparr>cs_label = js label, cs_category = js category, cs_plural = plural\<rparr>"

definition COVERAGE_SIGNAL_PRESENTATION_REGISTRY :: "(jstr \<times> coverage_signal) list" where
  "COVERAGE_SIGNAL_PRESENTATION_REGISTRY = [
     (js ''certificate_expires_at'', coverageSignal ''Certificate expiry timestamp'' ''tls'' False),
     (js ''details'', coverageSignal ''Checker details'' ''result'' True),
     (js ''dns_answers'', coverageSignal ''DNS answer facts'' ''dns'' True),
     (js ''endpoint'', coverageSignal ''Connected endpoint facts'' ''connectivity'' True),
     (js ''error_code'', coverageSignal ''Result error code'' ''result'' False),
     (js ''geoip'', coverageSignal ''GeoIP result facts'' ''geoip'' True),
     (js ''geoip_enrichment'', coverageSignal ''GeoIP enrichment facts'' ''geoip'' True),
     (js ''http_status'', coverageSignal ''HTTP status facts'' ''http'' True),
     (js ''kind'', coverageSignal ''Result kind'' ''result'' False),
     (js ''response_body'', coverageSignal ''Response body facts'' ''http'' True),
     (js ''result'', coverageSignal ''Result observation'' ''result'' False),
     (js ''service_verification_details'', coverageSignal ''Service verification details'' ''service'' True),
     (js ''service_verification_scope'', coverageSignal ''Service verification scope'' ''service'' False),
     (js ''status'', coverageSignal ''Result status'' ''result'' False),
     (js ''tls'', coverageSignal ''TLS handshake facts'' ''tls'' True),
     (js ''tls_certificate'', coverageSignal ''TLS certificate facts'' ''tls'' True),
     (js ''tls_failure_details'', coverageSignal ''TLS failure details'' ''tls'' True),
     (js ''trace_attempts'', coverageSignal ''Traceroute attempt counters'' ''traceroute'' True),
     (js ''trace_error'', coverageSignal ''Traceroute error facts'' ''traceroute'' True),
     (js ''trace_paths'', coverageSignal ''Completed traceroute path facts'' ''traceroute'' True),
     (js ''trace_topology'', coverageSignal ''Traceroute topology facts'' ''traceroute'' True)
     ]"

definition COVERAGE_CODE_PRESENTATION_REGISTRY :: "(jstr \<times> jstr) list" where
  "COVERAGE_CODE_PRESENTATION_REGISTRY = [
     (js ''missing_details'', js ''Required checker details were not observed.''),
     (js ''malformed_details'', js ''Observed checker details did not satisfy the closed local contract.''),
     (js ''unsupported_details'', js ''Observed details are outside the supported analysis scope.'')
     ]"

definition DIRECTNESS_LABELS :: "(jstr \<times> jstr) list" where
  "DIRECTNESS_LABELS = [
     (js ''direct'', js ''Direct result evidence.''),
     (js ''corroborated'', js ''Corroborated evidence from multiple bounded facts.''),
     (js ''limited'', js ''Limited evidence; independent verification is required.'')
     ]"

definition SERVICE_GREETING_KINDS :: "jstr list" where
  "SERVICE_GREETING_KINDS = map js [''imap'', ''imaps'', ''pop3'', ''pop3s'', ''smtp'', ''smtps'', ''ssh'', ''submission'']"

definition SERVER_GREETING_SCOPE :: jstr where
  "SERVER_GREETING_SCOPE =
     js ''Expected server-first greeting observed; command, authentication, STARTTLS, mailbox, and end-to-end service behavior were not tested.''"

definition OVERALL_STATUS_TEXT :: "(jstr \<times> jstr) list" where
  "OVERALL_STATUS_TEXT = [
     (js ''healthy'', js ''All configured checks completed within their observed scope; no broader service-health claim is made.''),
     (js ''degraded'', js ''At least one bounded observation was degraded; no broader health conclusion was made.''),
     (js ''unreachable'', js ''At least one bounded observation was unreachable; no broader health conclusion was made.'')
     ]"

definition OVERALL_VERDICT_TEXT :: "(jstr \<times> jstr) list" where
  "OVERALL_VERDICT_TEXT = [
     (js ''healthy'', js ''No finding requiring attention was derived from the observed checks; this does not establish broader service health.''),
     (js ''attention'', js ''One or more bounded observations require attention.''),
     (js ''inconclusive'', js ''The bounded observations were insufficient for a conclusion.'')
     ]"

section \<open>Values of a closed shape\<close>

text \<open>A regular expression of literals and groups \<open>(\d{1,2})\<close>; a group is never followed by a literal that
  starts with a digit, so that matching it greedily is matching it.\<close>

datatype piece = Lit string | Digits

definition strip_text :: "jstr \<Rightarrow> jstr \<Rightarrow> jstr option" where
  "strip_text p s = (if take (length p) s = p then Some (drop (length p) s) else None)"

fun match_pieces :: "piece list \<Rightarrow> jstr \<Rightarrow> jstr list option" where
  "match_pieces [] s = (if s = [] then Some [] else None)"
| "match_pieces (Lit t # ps) s = Option.bind (strip_text (js t) s) (match_pieces ps)"
| "match_pieces (Digits # ps) s = (let ds = takeWhile is_digit (take 2 s) in
     if ds = [] then None else map_option (Cons ds) (match_pieces ps (drop (length ds) s)))"

abbreviation whole :: "jstr \<Rightarrow> nat" where
  "whole t \<equiv> digits_val 10 t"

definition http_status :: "jstr \<Rightarrow> bool" where
  "http_status t \<longleftrightarrow> length t = 3 \<and> (\<forall>c \<in> set t. is_digit c) \<and> 49 \<le> hd t \<and> hd t \<le> 53"

definition attempt_count :: "jstr \<Rightarrow> bool" where
  "attempt_count t \<longleftrightarrow> t = js ''10'' \<or> length t = 1 \<and> is_digit (hd t)"

definition completed_fraction :: "jstr \<Rightarrow> (jstr \<times> jstr) option" where
  "completed_fraction t = (case match_pieces [Digits, Lit ''/'', Digits, Lit '' completed attempts reached''] t of
     Some [a, b] \<Rightarrow> if whole a \<le> whole b \<and> whole b \<le> 10 then Some (a, b) else None
   | _ \<Rightarrow> None)"

definition execution_failure_counts :: "jstr \<Rightarrow> nat list option" where
  "execution_failure_counts t = (case match_pieces [Digits, Lit '' execution failures: '', Digits, Lit '' timed out, '', Digits,
       Lit '' cancelled, '', Digits, Lit '' command errors''] t of
     Some ms \<Rightarrow> (let values = map whole ms in
       if (\<forall>n \<in> set values. n \<le> 10) \<and> values ! 0 = values ! 1 + values ! 2 + values ! 3 then Some values else None)
   | None \<Rightarrow> None)"

definition path_patterns :: "piece list list" where
  "path_patterns = [
     [Lit ''degraded segment observed among '', Digits, Lit '' completed attempt''],
     [Lit ''degraded segment observed among '', Digits, Lit '' completed attempts''],
     [Lit ''multiple successful completed path signatures among '', Digits, Lit '' reached completed attempts'']]"

definition path_count :: "jstr \<Rightarrow> nat option" where
  "path_count t = (case List.map_filter (\<lambda>ps. match_pieces ps t) path_patterns of
     [n] # _ \<Rightarrow> if whole n \<le> 10 then Some (whole n) else None
   | _ \<Rightarrow> None)"

text \<open>\<open>new Date(text).toISOString()\<close> is the text with milliseconds exactly when the text names a date.\<close>

definition utc_timestamp :: "jstr \<Rightarrow> bool" where
  "utc_timestamp t = (case match_stamp t of None \<Rightarrow> False | Some s \<Rightarrow> st_fraction s = None \<and> valid_civil s)"

datatype perspective = Expected | Observed

definition perspective_text :: "perspective \<Rightarrow> jstr" where
  "perspective_text p = (case p of Expected \<Rightarrow> js ''Expected'' | Observed \<Rightarrow> js ''Observed'')"

definition boundedEvidenceValue :: "jstr \<Rightarrow> shape \<Rightarrow> perspective \<Rightarrow> jstr" where
  "boundedEvidenceValue t s p = (let start = perspective_text p in case s of
     Nothing_shown \<Rightarrow> []
   | Closed_error_code \<Rightarrow> if t \<in> set SAFE_ERROR_CODES then start @ js '' code: '' @ t @ js ''.'' else []
   | Http_status \<Rightarrow> if http_status t then start @ js '' HTTP status: '' @ t @ js ''.'' else []
   | Number_of_attempts \<Rightarrow> if attempt_count t then start @ js '' count: '' @ t @ js ''.'' else []
   | Completed_fraction \<Rightarrow> (case completed_fraction t of None \<Rightarrow> []
       | Some (a, b) \<Rightarrow> start @ js '' completed reachability: '' @ a @ js '' of '' @ b @ js '' attempts.'')
   | Execution_failure_counts \<Rightarrow> (case execution_failure_counts t of None \<Rightarrow> []
       | Some ns \<Rightarrow> start @ js '' execution failures: total '' @ dec (ns ! 0) @ js '', timed out '' @ dec (ns ! 1) @
           js '', cancelled '' @ dec (ns ! 2) @ js '', command errors '' @ dec (ns ! 3) @ js ''.'')
   | Path_count \<Rightarrow> (case path_count t of None \<Rightarrow> []
       | Some n \<Rightarrow> start @ js '' completed path evidence count: '' @ dec n @ js ''.'')
   | Utc_timestamp \<Rightarrow> if utc_timestamp t then start @ js '' UTC timestamp: '' @ t @ js ''.'' else [])"

section \<open>Facts of the evidence\<close>

text \<open>\<open>new Map(analysis.evidence.map(item => [item.id, item]))\<close>: the last item of an id stays.\<close>

definition evidenceByID :: "evidence list \<Rightarrow> jstr \<Rightarrow> evidence option" where
  "evidenceByID items = map_of (rev (map (\<lambda>item. (e_id item, item)) items))"

definition signal_facts :: "evidence_signal \<Rightarrow> evidence \<Rightarrow> jstr list" where
  "signal_facts s item = (let observed = boundedEvidenceValue (e_observed item) (es_observed s) Observed;
       expected = boundedEvidenceValue (e_expected item) (es_expected s) Expected in
     if observed = [] then [] else [es_label s @ js ''. '' @ observed @ (if expected = [] then [] else js '' '' @ expected)])"

definition attempt_facts :: "evidence \<Rightarrow> jstr list" where
  "attempt_facts item = (case e_attempt item of None \<Rightarrow> []
     | Some a \<Rightarrow> if 1 \<le> a \<and> a \<le> 10 then [js ''Bounded attempt: '' @ dec (nat a) @ js ''.''] else [])"

definition item_facts :: "(jstr \<Rightarrow> evidence option) \<Rightarrow> finding_presentation \<Rightarrow> jstr \<Rightarrow> jstr list option" where
  "item_facts items p i = do {
     item \<leftarrow> items i;
     guard (registry_read EVIDENCE_SIGNAL_PRESENTATION_REGISTRY (e_signal item) \<noteq> Missing);
     guard (e_signal item \<in> set (fp_signals p));
     Some ((case registry_read EVIDENCE_SIGNAL_PRESENTATION_REGISTRY (e_signal item) of Own s \<Rightarrow> signal_facts s item | _ \<Rightarrow> []) @
       attempt_facts item) }"

definition safeEvidenceFacts :: "finding \<Rightarrow> (jstr \<Rightarrow> evidence option) \<Rightarrow> finding_presentation \<Rightarrow> jstr list option" where
  "safeEvidenceFacts f items p = map_option (\<lambda>fs. take 64 (concat fs)) (traverse (item_facts items p) (f_evidence f))"

section \<open>Facts of the coverage\<close>

definition path_name :: "jstr \<Rightarrow> bool" where
  "path_name t \<longleftrightarrow> t \<noteq> [] \<and> (\<forall>c \<in> set t. 97 \<le> c \<and> c \<le> 122 \<or> c = 95)"

definition path_index :: "jstr \<Rightarrow> bool" where
  "path_index t \<longleftrightarrow> length t = 1 \<and> is_digit (hd t) \<or> length t = 2 \<and> hd t = 49 \<and> is_digit (last t)"

text \<open>The groups of the regular expression, as the signal they choose.\<close>

definition path_signal :: "jstr \<Rightarrow> jstr option" where
  "path_signal rest = (if rest = [] then Some (js ''result'')
     else if rest = js ''.details'' then Some (js ''details'')
     else case strip_text (js ''.details.'') rest of
       Some name \<Rightarrow> if path_name name then Some name else None
     | None \<Rightarrow> (case strip_text (js ''.'') rest of
         Some name \<Rightarrow> if path_name name then Some name else None
       | None \<Rightarrow> None))"

definition coveragePath :: "jstr \<Rightarrow> (nat \<times> jstr \<times> coverage_signal looked) option" where
  "coveragePath t = do {
     rest \<leftarrow> strip_text (js ''results['') t;
     (let index = takeWhile (\<lambda>c. c \<noteq> cRBrack) rest in do {
        guard (path_index index);
        after \<leftarrow> strip_text [cRBrack] (drop (length index) rest);
        signal \<leftarrow> path_signal after;
        (let signal = (if signal = js ''verification_scope'' then js ''service_verification_scope'' else signal);
             p = registry_read COVERAGE_SIGNAL_PRESENTATION_REGISTRY signal in
          do { guard (p \<noteq> Missing); Some (whole index, signal, p) }) }) }"

definition label_text :: "coverage_signal looked \<Rightarrow> jstr" where
  "label_text p = (case p of Own s \<Rightarrow> cs_label s | _ \<Rightarrow> js ''undefined'')"

definition category_text :: "coverage_signal looked \<Rightarrow> jstr" where
  "category_text p = (case p of Own s \<Rightarrow> cs_category s | _ \<Rightarrow> js ''undefined'')"

definition verb :: "coverage_signal looked \<Rightarrow> jstr" where
  "verb p = (case p of Own s \<Rightarrow> if cs_plural s then js ''were'' else js ''was'' | _ \<Rightarrow> js ''was'')"

definition coveragePathFact :: "jstr \<Rightarrow> bool \<Rightarrow> jstr option" where
  "coveragePathFact t availability = (case coveragePath t of None \<Rightarrow> None
     | Some (index, signal, p) \<Rightarrow> Some (label_text p @ js '' '' @ verb p @ js '' '' @
         (if availability then js ''available'' else js ''not available'') @ js '' for result '' @ dec (index + 1) @ js ''.''))"

definition hasGreetingScope :: "result \<Rightarrow> bool" where
  "hasGreetingScope r \<longleftrightarrow> rs_kind r \<in> set SERVICE_GREETING_KINDS \<and> rs_status r = js ''healthy'' \<and>
     (case rs_details r of None \<Rightarrow> False
      | Some ds \<Rightarrow> map_of ds (js ''verification_scope'') = Some (NText (js ''server_greeting'')))"

definition coverageIssueFact :: "(jstr \<Rightarrow> jstr) \<Rightarrow> coverage_issue \<Rightarrow> result list \<Rightarrow> jstr option" where
  "coverageIssueFact native issue rs = (let p = registry_read COVERAGE_SIGNAL_PRESENTATION_REGISTRY (ci_signal issue) in
     if p = Missing then None
     else if ci_signal issue = js ''service_verification_scope'' \<and> ci_code issue = js ''unsupported_details'' \<and>
       (case at_index rs (ci_result issue) of None \<Rightarrow> False | Some r \<Rightarrow> hasGreetingScope r \<and> rs_kind r = ci_kind issue)
     then Some SERVER_GREETING_SCOPE
     else if registry_read COVERAGE_CODE_PRESENTATION_REGISTRY (ci_code issue) = Missing then None
     else Some (label_text p @ js '' ('' @ category_text p @ js ''). '' @
       registry_text native COVERAGE_CODE_PRESENTATION_REGISTRY (ci_code issue)))"

definition int_text :: "int \<Rightarrow> jstr" where
  "int_text i = (if i < 0 then cMinus # dec (nat (- i)) else dec (nat i))"

definition enrichment_failure_fact :: "enrichment_failure \<Rightarrow> jstr" where
  "enrichment_failure_fact f = js ''GeoIP '' @ ef_kind f @ js '' failures: '' @ int_text (ef_count f) @
     js ''; retry category: '' @ (if ef_retryable f then js ''retryable'' else js ''not retryable'') @ js ''.''"

definition enrichment_facts :: "enrichment \<Rightarrow> jstr list option" where
  "enrichment_facts e = do {
     guard (registry_read COVERAGE_SIGNAL_PRESENTATION_REGISTRY (js ''geoip_enrichment'') \<noteq> Missing);
     Some ([js ''GeoIP enrichment source category: '' @ en_source e @ js ''.'',
       js ''GeoIP cache hits: '' @ int_text (en_cache_hits e) @ js ''.'',
       js ''GeoIP upstream fetches: '' @ int_text (en_upstream e) @ js ''.'',
       js ''GeoIP maximum age milliseconds: '' @ int_text (en_max_age e) @ js ''.''] @
       map enrichment_failure_fact (en_failures e)) }"

definition coverageFacts :: "(jstr \<Rightarrow> jstr) \<Rightarrow> analysis \<Rightarrow> result list \<Rightarrow> jstr list option" where
  "coverageFacts native a rs = do {
     there \<leftarrow> traverse (\<lambda>t. coveragePathFact t True) (an_available a);
     gone \<leftarrow> traverse (\<lambda>t. coveragePathFact t False) (an_missing a);
     issues \<leftarrow> traverse (\<lambda>i. coverageIssueFact native i rs) (an_provider_failures a @ an_limitations a);
     enriched \<leftarrow> traverse enrichment_facts (an_enrichment a);
     Some (take 512 (there @ gone @ issues @ concat enriched)) }"

section \<open>The contract\<close>

definition finding_presentable :: "evidence list \<Rightarrow> finding \<Rightarrow> bool" where
  "finding_presentable items f = (case registry_read FINDING_PRESENTATION_REGISTRY (finding_key (f_code f)) of
     Missing \<Rightarrow> False
   | Inherited \<Rightarrow> f_evidence f = []
   | Own p \<Rightarrow> (\<forall>i \<in> set (f_evidence f). case List.find (\<lambda>e. e_id e = i) items of None \<Rightarrow> False
       | Some item \<Rightarrow> registry_read EVIDENCE_SIGNAL_PRESENTATION_REGISTRY (e_signal item) \<noteq> Missing \<and>
           e_signal item \<in> set (fp_signals p)))"

definition validatePresentationContract :: "analysis option \<Rightarrow> unit option" where
  "validatePresentationContract analysis = (case analysis of None \<Rightarrow> Some () | Some a \<Rightarrow> do {
     guard (\<forall>f \<in> set (an_findings a). finding_presentable (an_evidence a) f);
     guard (\<forall>e \<in> set (an_evidence a). registry_read EVIDENCE_SIGNAL_PRESENTATION_REGISTRY (e_signal e) \<noteq> Missing);
     guard (\<forall>t \<in> set (an_available a @ an_missing a). coveragePath t \<noteq> None);
     guard (\<forall>i \<in> set (an_provider_failures a @ an_limitations a).
       registry_read COVERAGE_SIGNAL_PRESENTATION_REGISTRY (ci_signal i) \<noteq> Missing \<and>
       registry_read COVERAGE_CODE_PRESENTATION_REGISTRY (ci_code i) \<noteq> Missing) })"

section \<open>The exported report\<close>

text \<open>A key that starts with \<open>finding.\<close> is never the name of an inherited property.
  \<open>lines.join('\n')\<close> prints an \<open>undefined\<close> line as the empty text.\<close>

definition directness :: "(jstr \<Rightarrow> jstr) \<Rightarrow> jstr \<Rightarrow> jstr" where
  "directness native k = (case registry_read DIRECTNESS_LABELS k of Own t \<Rightarrow> t | Inherited \<Rightarrow> native k | Missing \<Rightarrow> [])"

definition semantic_lines :: "finding_presentation \<Rightarrow> (string \<times> jstr) list \<Rightarrow> jstr list" where
  "semantic_lines p values = concat (map (\<lambda>(k, v). [js ''### '' @ js k @ js '' ['' @ fp_key p @ js '']'', v, []]) values)"

definition finding_lines :: "(jstr \<Rightarrow> jstr) \<Rightarrow> (jstr \<Rightarrow> evidence option) \<Rightarrow> finding \<Rightarrow> jstr list option" where
  "finding_lines native items f = (case registry_read FINDING_PRESENTATION_REGISTRY (finding_key (f_code f)) of
     Own p \<Rightarrow> do {
       facts \<leftarrow> safeEvidenceFacts f items p;
       Some (semantic_lines p [
         (''cause'', fp_cause p),
         (''supporting_evidence'', if facts = [] then js ''No allowlisted bounded evidence value was available for export.''
            else join (js '' '') facts),
         (''expectation'', fp_expectation p),
         (''evidence_directness'', directness native (f_confidence f)),
         (''coverage_limitation'', fp_limitation p),
         (''next_action'', fp_action p)]) }
   | _ \<Rightarrow> None)"

definition report_head :: "(jstr \<Rightarrow> jstr) \<Rightarrow> report \<Rightarrow> jstr list" where
  "report_head native r = [js ''# CheckNetwork bounded report'', [],
     js ''Report status: '' @ registry_text native OVERALL_STATUS_TEXT (rp_status r),
     js ''Analysis verdict: '' @ registry_text native OVERALL_VERDICT_TEXT
       (case rp_analysis r of Some a \<Rightarrow> an_verdict a | None \<Rightarrow> js ''inconclusive''),
     js ''Started (UTC): '' @ rp_started r,
     js ''Duration (ms): '' @ int_text (rp_duration r),
     js ''Checks: '' @ int_text (sm_total (rp_summary r)), []]"

definition analysis_lines :: "(jstr \<Rightarrow> jstr) \<Rightarrow> report \<Rightarrow> analysis \<Rightarrow> jstr list option" where
  "analysis_lines native r a = do {
     found \<leftarrow> traverse (finding_lines native (evidenceByID (an_evidence a))) (an_findings a);
     facts \<leftarrow> coverageFacts native a (rp_results r);
     Some ([js ''## observed_check_scopes''] @
       map (\<lambda>_. js ''- '' @ SERVER_GREETING_SCOPE) (filter hasGreetingScope (rp_results r)) @
       [[], js ''## findings''] @ concat found @
       (if an_findings a = [] then
          [js ''No locally presentable finding requiring attention was derived from the observed checks.'', []] else []) @
       [js ''## coverage_facts''] @
       (if facts = [] then [js ''- No allowlisted bounded coverage fact was available.''] else map (\<lambda>t. js ''- '' @ t) facts)) }"

definition humanReport :: "(jstr \<Rightarrow> jstr) \<Rightarrow> report \<Rightarrow> jstr option" where
  "humanReport native r = (case rp_analysis r of
     None \<Rightarrow> Some (join [10] (report_head native r @ [js ''Automated analysis: unavailable for this bounded report.'']))
   | Some a \<Rightarrow> map_option (\<lambda>ls. join [10] (report_head native r @ ls)) (analysis_lines native r a))"

end
