(* ===== verification/Contract_Facts.thy ===== *)
theory Contract_Facts
  imports Presentation_Contract
begin

text \<open>
  Once \<open>validatePresentationContract\<close> accepts the analysis of a normalised report, nothing the page
  shows or exports of it can throw, and every fact is a line of printable ASCII: no text of the server
  reaches the page unless it has one of the closed shapes.
\<close>

section \<open>Printable texts\<close>

definition plain :: "jstr \<Rightarrow> bool" where
  "plain t \<longleftrightarrow> (\<forall>c \<in> set t. 32 \<le> c \<and> c \<le> 126)"

lemma plain_simps [simp]: "plain []" "plain (c # t) \<longleftrightarrow> 32 \<le> c \<and> c \<le> 126 \<and> plain t" "plain (s @ t) \<longleftrightarrow> plain s \<and> plain t"
  by (auto simp: plain_def)

lemma plain_js: "plain (js s) \<longleftrightarrow> list_all (\<lambda>c. 32 \<le> (of_char c :: nat) \<and> of_char c \<le> (126 :: nat)) s"
  by (auto simp: plain_def js_def list_all_iff word_le_nat_alt)

lemma plain_digits: "\<forall>c \<in> set t. is_digit c \<Longrightarrow> plain t"
  by (auto simp: plain_def is_digit_def word_le_nat_alt)

lemma printable_dec [simp]: "plain (dec n)"
  by (rule plain_digits) (rule dec_is_digit)

lemma plain_int_text [simp]: "plain (int_text i)"
  by (simp add: int_text_def)

lemma registry_own: "registry_read r k = Own x \<Longrightarrow> (k, x) \<in> set r"
  by (auto simp: registry_read_def map_of_SomeD split: option.splits if_splits)

lemma evidence_labels_plain: "(k, s) \<in> set EVIDENCE_SIGNAL_PRESENTATION_REGISTRY \<Longrightarrow> plain (es_label s)"
  by (auto simp: EVIDENCE_SIGNAL_PRESENTATION_REGISTRY_def evidenceSignal_def plain_js)

lemma coverage_labels_plain:
  "(k, s) \<in> set COVERAGE_SIGNAL_PRESENTATION_REGISTRY \<Longrightarrow> plain (cs_label s) \<and> plain (cs_category s)"
  by (auto simp: COVERAGE_SIGNAL_PRESENTATION_REGISTRY_def coverageSignal_def plain_js)

lemma coverage_codes_plain: "(k, t) \<in> set COVERAGE_CODE_PRESENTATION_REGISTRY \<Longrightarrow> plain t"
  by (auto simp: COVERAGE_CODE_PRESENTATION_REGISTRY_def plain_js)

lemma looked_plain [simp]:
  "plain (label_text (registry_read COVERAGE_SIGNAL_PRESENTATION_REGISTRY k))"
  "plain (category_text (registry_read COVERAGE_SIGNAL_PRESENTATION_REGISTRY k))"
  "plain (verb p)"
  by (auto simp: label_text_def category_text_def verb_def plain_js dest!: registry_own coverage_labels_plain split: looked.splits)

section \<open>Values of a closed shape are printable\<close>

lemma match_pieces_digits: "match_pieces ps t = Some ms \<Longrightarrow> \<forall>m \<in> set ms. \<forall>c \<in> set m. is_digit c"
  by (induction ps t arbitrary: ms rule: match_pieces.induct)
    (auto simp: option_elims Let_def split: if_splits dest: set_takeWhileD)

lemma fraction_plain:
  assumes "completed_fraction t = Some (a, b)"
  shows "plain a \<and> plain b"
proof -
  have "match_pieces [Digits, Lit ''/'', Digits, Lit '' completed attempts reached''] t = Some [a, b]"
    using assms by (simp add: completed_fraction_def split: option.splits list.splits if_splits)
  then show ?thesis using match_pieces_digits plain_digits by (metis list.set_intros(1,2))
qed

lemma timestamp_plain:
  assumes "utc_timestamp t"
  shows "plain t"
proof -
  obtain s where s: "match_stamp t = Some s" "st_fraction s = None" using assms by (auto simp: utc_timestamp_def split: option.splits)
  then have t: "digits_at t [0, 1, 2, 3, 5, 6, 8, 9, 11, 12, 14, 15, 17, 18]" "t ! 4 = cMinus" "t ! 7 = cMinus" "t ! 10 = cT"
      "t ! 13 = cColon" "t ! 16 = cColon" "stamp_tail (drop 19 t) = Some None" "20 \<le> length t"
    by (auto simp: match_stamp_def Let_def split: if_splits option.splits)
  from t(7) have z: "drop 19 t = [cZ]" by (auto simp: stamp_tail_def split: if_splits)
  have "32 \<le> t ! i \<and> t ! i \<le> 126" if "i < 19" for i
  proof -
    have "i \<in> set [0, 1, 2, 3, 5, 6, 8, 9, 11, 12, 14, 15, 17, 18] \<or> i = 4 \<or> i = 7 \<or> i = 10 \<or> i = 13 \<or> i = 16"
      using that by simp arith
    then consider "is_digit (t ! i)" | "i = 4" | "i = 7" | "i = 10" | "i = 13" | "i = 16"
      using t(1) unfolding digits_at_def by blast
    then show ?thesis using t(2-6) by cases (auto simp: is_digit_def word_le_nat_alt)
  qed
  then have "plain (take 19 t)" by (auto simp: plain_def in_set_conv_nth)
  moreover have "t = take 19 t @ [cZ]" by (simp flip: z)
  ultimately show ?thesis using plain_simps(3) [of "take 19 t" "[cZ]"] by simp
qed

lemma safe_codes_plain: "t \<in> set SAFE_ERROR_CODES \<Longrightarrow> plain t"
  by (auto simp: SAFE_ERROR_CODES_def plain_js)

lemma attempt_count_plain: "attempt_count t \<Longrightarrow> plain t"
  using plain_digits [of t] by (auto simp: attempt_count_def plain_js length_Suc_conv)

text \<open>Whatever the value is, what is shown of it is printable.\<close>

lemma bounded_value_plain: "plain (boundedEvidenceValue t s p)"
proof -
  have start: "plain (perspective_text p)" by (cases p) (simp_all add: perspective_text_def plain_js)
  have http: "http_status t \<Longrightarrow> plain t" by (simp add: http_status_def plain_digits)
  show ?thesis
    by (cases s) (auto simp: boundedEvidenceValue_def start plain_js safe_codes_plain attempt_count_plain timestamp_plain http
        dest: fraction_plain split: option.splits)
qed

section \<open>Facts\<close>

lemma signal_facts_plain:
  "registry_read EVIDENCE_SIGNAL_PRESENTATION_REGISTRY k = Own s \<Longrightarrow> \<forall>t \<in> set (signal_facts s item). plain t"
  by (auto simp: signal_facts_def Let_def plain_js bounded_value_plain evidence_labels_plain dest!: registry_own)

lemma item_facts_plain:
  assumes "item_facts items p i = Some fs"
  shows "\<forall>t \<in> set fs. plain t"
proof -
  obtain item where fs: "fs = (case registry_read EVIDENCE_SIGNAL_PRESENTATION_REGISTRY (e_signal item) of
      Own s \<Rightarrow> signal_facts s item | _ \<Rightarrow> []) @ attempt_facts item"
    using assms by (auto simp: item_facts_def option_elims)
  have "\<forall>t \<in> set (attempt_facts item). plain t" by (auto simp: attempt_facts_def plain_js split: option.splits if_splits)
  then show ?thesis unfolding fs
    by (cases "registry_read EVIDENCE_SIGNAL_PRESENTATION_REGISTRY (e_signal item)") (auto dest: signal_facts_plain)
qed

lemma safe_facts_plain:
  assumes "safeEvidenceFacts f items p = Some fs"
  shows "length fs \<le> 64 \<and> (\<forall>t \<in> set fs. plain t)"
proof -
  obtain xs where xs: "traverse (item_facts items p) (f_evidence f) = Some xs" "fs = take 64 (concat xs)"
    using assms by (auto simp: safeEvidenceFacts_def)
  have "\<forall>x \<in> set xs. \<forall>t \<in> set x. plain t" by (rule traverse_all [OF xs(1)]) (rule item_facts_plain)
  then show ?thesis using xs(2) by (auto dest!: in_set_takeD)
qed

lemma path_fact_plain: "coveragePathFact t availability = Some x \<Longrightarrow> plain x"
  by (auto simp: coveragePathFact_def coveragePath_def option_elims Let_def plain_js split: option.splits if_splits)

lemma code_registered:
  "k \<in> set COVERAGE_CODES \<Longrightarrow> \<exists>t. registry_read COVERAGE_CODE_PRESENTATION_REGISTRY k = Own t"
  by (auto simp: COVERAGE_CODES_def registry_read_def COVERAGE_CODE_PRESENTATION_REGISTRY_def)

lemma issue_fact_plain:
  assumes "ci_code issue \<in> set COVERAGE_CODES" "coverageIssueFact native issue rs = Some x"
  shows "plain x"
proof -
  obtain t where t: "registry_read COVERAGE_CODE_PRESENTATION_REGISTRY (ci_code issue) = Own t"
    using code_registered [OF assms(1)] by blast
  then have "plain (registry_text native COVERAGE_CODE_PRESENTATION_REGISTRY (ci_code issue))"
    using coverage_codes_plain [OF registry_own [OF t]] by (simp add: registry_text_def)
  moreover have "plain SERVER_GREETING_SCOPE" by (simp add: SERVER_GREETING_SCOPE_def plain_js)
  ultimately show ?thesis using assms(2)
    by (auto simp: coverageIssueFact_def Let_def plain_js split: if_splits)
qed

definition closed_enrichment :: "enrichment \<Rightarrow> bool" where
  "closed_enrichment e \<longleftrightarrow> en_source e \<in> set ENRICHMENT_SOURCES \<and>
     (\<forall>f \<in> set (en_failures e). ef_kind f \<in> set (map fst ENRICHMENT_FAILURE_RETRYABLE))"

lemma enrichment_sources_plain: "k \<in> set ENRICHMENT_SOURCES \<Longrightarrow> plain k"
  by (auto simp: ENRICHMENT_SOURCES_def plain_js)

lemma enrichment_kinds_plain: "k \<in> set (map fst ENRICHMENT_FAILURE_RETRYABLE) \<Longrightarrow> plain k"
  unfolding ENRICHMENT_FAILURE_RETRYABLE_def by (auto simp: plain_js)

lemma enrichment_failure_plain:
  "ef_kind f \<in> set (map fst ENRICHMENT_FAILURE_RETRYABLE) \<Longrightarrow> plain (enrichment_failure_fact f)"
  using enrichment_kinds_plain [of "ef_kind f"] by (simp add: enrichment_failure_fact_def plain_js)

lemma enrichment_facts_plain:
  assumes "closed_enrichment e" "enrichment_facts e = Some fs"
  shows "\<forall>t \<in> set fs. plain t"
proof -
  have "plain (en_source e)" using assms(1) enrichment_sources_plain by (simp add: closed_enrichment_def)
  moreover have "\<forall>t \<in> set (map enrichment_failure_fact (en_failures e)). plain t"
    using assms(1) enrichment_failure_plain by (simp add: closed_enrichment_def)
  moreover have "plain (js ''GeoIP enrichment source category: '')" "plain (js ''GeoIP cache hits: '')"
    "plain (js ''GeoIP upstream fetches: '')" "plain (js ''GeoIP maximum age milliseconds: '')" "plain (js ''.'')"
    by (simp_all add: plain_js)
  ultimately show ?thesis using assms(2) by (auto simp: enrichment_facts_def option_elims)
qed

section \<open>What a normalised analysis guarantees\<close>

lemma array_of_all:
  "array_of limit f v = Some ys \<Longrightarrow> (\<And>w y. f w = Some y \<Longrightarrow> P y) \<Longrightarrow> \<forall>y \<in> set ys. P y"
  by (auto simp: array_of_def option_elims dest: traverse_set)

lemma enrichment_failures_closed:
  "enrichment_failures n previous vs = Some fs \<Longrightarrow> \<forall>f \<in> set fs. ef_kind f \<in> set (map fst ENRICHMENT_FAILURE_RETRYABLE)"
  by (induction n previous vs arbitrary: fs rule: enrichment_failures.induct)
    (auto simp only: enrichment_failures.simps option_elims option.inject list.set ball_simps enrichment_failure.simps)

lemma enrichment_entry_closed: "normalize_enrichment_entry v = Some e \<Longrightarrow> closed_enrichment e"
  by (auto simp: normalize_enrichment_entry_def Let_def option_elims closed_enrichment_def simp del: set_map
      dest!: enrichment_failures_closed)

lemma enrichment_closed: "normalizeEnrichment v = Some es \<Longrightarrow> \<forall>e \<in> set es. closed_enrichment e"
  by (auto simp: normalizeEnrichment_def option_elims dest!: traverse_set enrichment_entry_closed)

lemma issue_closed: "normalizeCoverageIssue v = Some i \<Longrightarrow> ci_code i \<in> set COVERAGE_CODES"
  by (auto simp: normalizeCoverageIssue_def option_elims)

lemma finding_closed: "normalize_finding v = Some f \<Longrightarrow> f_code f \<in> set FINDING_CODES"
  unfolding normalize_finding_def by (auto simp: option_elims)

lemma analysis_parts:
  assumes "normalizeAnalysis v = Some a"
  obtains fv ev nv pv lv where "array_of MAX_FINDINGS normalize_finding fv = Some (an_findings a)"
    "distinct (map e_id (an_evidence a))"
    "an_enrichment a = [] \<or> normalizeEnrichment nv = Some (an_enrichment a)"
    "array_of MAX_COVERAGE normalizeCoverageIssue pv = Some (an_provider_failures a)"
    "array_of MAX_COVERAGE normalizeCoverageIssue lv = Some (an_limitations a)"
  using assms unfolding normalizeAnalysis_def option_elims guard_Some unique_ids_def no_duplicates_test
  by - (elim exE conjE, simp only: option.inject, hypsubst, simp only: analysis.select_convs, metis option.inject)

lemma analysis_closed:
  assumes "normalizeAnalysis v = Some a"
  shows "distinct (map e_id (an_evidence a))" "\<forall>f \<in> set (an_findings a). f_code f \<in> set FINDING_CODES"
    "\<forall>i \<in> set (an_provider_failures a @ an_limitations a). ci_code i \<in> set COVERAGE_CODES"
    "\<forall>e \<in> set (an_enrichment a). closed_enrichment e"
proof -
  obtain fv ev nv pv lv where p: "array_of MAX_FINDINGS normalize_finding fv = Some (an_findings a)"
    "distinct (map e_id (an_evidence a))"
    "an_enrichment a = [] \<or> normalizeEnrichment nv = Some (an_enrichment a)"
    "array_of MAX_COVERAGE normalizeCoverageIssue pv = Some (an_provider_failures a)"
    "array_of MAX_COVERAGE normalizeCoverageIssue lv = Some (an_limitations a)" using assms by (rule analysis_parts)
  show "distinct (map e_id (an_evidence a))" by (rule p(2))
  show "\<forall>f \<in> set (an_findings a). f_code f \<in> set FINDING_CODES" by (rule array_of_all [OF p(1)]) (rule finding_closed)
  show "\<forall>i \<in> set (an_provider_failures a @ an_limitations a). ci_code i \<in> set COVERAGE_CODES"
    using array_of_all [OF p(4), of "\<lambda>i. ci_code i \<in> set COVERAGE_CODES"] array_of_all [OF p(5), of "\<lambda>i. ci_code i \<in> set COVERAGE_CODES"]
    by (simp add: ball_Un issue_closed)
  show "\<forall>e \<in> set (an_enrichment a). closed_enrichment e" using p(3) enrichment_closed by auto
qed

section \<open>Nothing throws after the validation\<close>

lemma traverse_returns: "\<forall>x \<in> set xs. f x \<noteq> None \<Longrightarrow> \<exists>ys. traverse f xs = Some ys"
  by (induction xs) auto

lemma finding_keys: "map fst FINDING_PRESENTATION_REGISTRY = map finding_key (map js [
    ''checker_capacity_unavailable'', ''checker_panic'', ''dns_resolution_failed'', ''endpoint_connect_failed'',
    ''execution_cancelled'', ''execution_timeout'', ''http_unexpected_status'', ''invalid_target'',
    ''service_greeting_unverified'', ''target_policy_blocked'', ''tls_certificate_expired'', ''tls_certificate_expiring'',
    ''tls_certificate_not_yet_valid'', ''tls_downgrade'', ''tls_handshake_failed'', ''tls_hostname_mismatch'',
    ''tls_untrusted'', ''traceroute_execution_failed'', ''traceroute_partial_reachability'', ''traceroute_path_degraded'',
    ''traceroute_path_unstable'', ''traceroute_unavailable'', ''traceroute_unreachable''])"
  by (simp add: FINDING_PRESENTATION_REGISTRY_def findingPresentation_def)

text \<open>Every finding code of the schema has a presentation.\<close>

lemma code_presentable:
  assumes "c \<in> set FINDING_CODES"
  shows "\<exists>p. registry_read FINDING_PRESENTATION_REGISTRY (finding_key c) = Own p"
proof -
  have "finding_key c \<in> set (map fst FINDING_PRESENTATION_REGISTRY)"
    unfolding finding_keys using assms unfolding FINDING_CODES_def by (auto simp: finding_key_def)
  then show ?thesis
    by (cases "map_of FINDING_PRESENTATION_REGISTRY (finding_key c)") (simp_all add: registry_read_def map_of_eq_None_iff)
qed

lemma found_by_id:
  assumes "distinct (map e_id items)" "List.find (\<lambda>e. e_id e = i) items = Some item"
  shows "evidenceByID items i = Some item"
proof -
  have "item \<in> set items" "e_id item = i" using assms(2) by (auto simp: find_Some_iff)
  then have "(i, item) \<in> set (rev (map (\<lambda>item. (e_id item, item)) items))" by auto
  moreover have "distinct (map fst (rev (map (\<lambda>item. (e_id item, item)) items)))"
    using assms(1) by (simp add: comp_def flip: rev_map)
  ultimately show ?thesis by (simp add: evidenceByID_def)
qed

lemma presentable_facts:
  assumes "distinct (map e_id items)" "finding_presentable items f"
    "registry_read FINDING_PRESENTATION_REGISTRY (finding_key (f_code f)) = Own p"
  shows "\<exists>fs. safeEvidenceFacts f (evidenceByID items) p = Some fs"
proof -
  have "item_facts (evidenceByID items) p i \<noteq> None" if i: "i \<in> set (f_evidence f)" for i
  proof -
    have c: "case List.find (\<lambda>e. e_id e = i) items of None \<Rightarrow> False
        | Some item \<Rightarrow> registry_read EVIDENCE_SIGNAL_PRESENTATION_REGISTRY (e_signal item) \<noteq> Missing \<and>
            e_signal item \<in> set (fp_signals p)"
      using assms(2) i unfolding finding_presentable_def assms(3) looked.case by blast
    show ?thesis
    proof (cases "List.find (\<lambda>e. e_id e = i) items")
      case (Some item)
      then show ?thesis using c found_by_id [OF assms(1) Some] by (simp add: item_facts_def)
    qed (use c in simp)
  qed
  then obtain fs where "traverse (item_facts (evidenceByID items) p) (f_evidence f) = Some fs"
    using traverse_returns [of "f_evidence f" "item_facts (evidenceByID items) p"] by auto
  then show ?thesis by (simp add: safeEvidenceFacts_def)
qed

lemma coverage_returns:
  assumes "validatePresentationContract (Some a) = Some ()"
  shows "\<exists>fs. coverageFacts native a rs = Some fs"
proof -
  have v: "\<forall>t \<in> set (an_available a @ an_missing a). coveragePath t \<noteq> None"
    "\<forall>i \<in> set (an_provider_failures a @ an_limitations a).
       registry_read COVERAGE_SIGNAL_PRESENTATION_REGISTRY (ci_signal i) \<noteq> Missing \<and>
       registry_read COVERAGE_CODE_PRESENTATION_REGISTRY (ci_code i) \<noteq> Missing"
    using assms unfolding validatePresentationContract_def option_elims option.case guard_Some by blast+
  have "coveragePathFact t b \<noteq> None" if "t \<in> set (an_available a @ an_missing a)" for t b
    using v(1) that by (auto simp: coveragePathFact_def split: option.splits)
  then obtain xs ys where "traverse (\<lambda>t. coveragePathFact t True) (an_available a) = Some xs"
    "traverse (\<lambda>t. coveragePathFact t False) (an_missing a) = Some ys"
    using traverse_returns [of "an_available a" "\<lambda>t. coveragePathFact t True"]
      traverse_returns [of "an_missing a" "\<lambda>t. coveragePathFact t False"] by auto
  moreover have "coverageIssueFact native i rs \<noteq> None" if "i \<in> set (an_provider_failures a @ an_limitations a)" for i
    using v(2) that by (auto simp: coverageIssueFact_def Let_def)
  then obtain zs where "traverse (\<lambda>i. coverageIssueFact native i rs) (an_provider_failures a @ an_limitations a) = Some zs"
    using traverse_returns [of "an_provider_failures a @ an_limitations a" "\<lambda>i. coverageIssueFact native i rs"] by auto
  moreover have "registry_read COVERAGE_SIGNAL_PRESENTATION_REGISTRY (js ''geoip_enrichment'') \<noteq> Missing"
    by (simp add: registry_read_def COVERAGE_SIGNAL_PRESENTATION_REGISTRY_def)
  then obtain es where "traverse enrichment_facts (an_enrichment a) = Some es"
    using traverse_returns [of "an_enrichment a" enrichment_facts] by (auto simp: enrichment_facts_def)
  ultimately show ?thesis by (simp add: coverageFacts_def)
qed

lemma coverage_plain:
  assumes "normalizeAnalysis v = Some a" "coverageFacts native a rs = Some fs"
  shows "length fs \<le> 512 \<and> (\<forall>t \<in> set fs. plain t)"
proof -
  obtain xs ys zs es where p: "traverse (\<lambda>t. coveragePathFact t True) (an_available a) = Some xs"
    "traverse (\<lambda>t. coveragePathFact t False) (an_missing a) = Some ys"
    "traverse (\<lambda>i. coverageIssueFact native i rs) (an_provider_failures a @ an_limitations a) = Some zs"
    "traverse enrichment_facts (an_enrichment a) = Some es" "fs = take 512 (xs @ ys @ zs @ concat es)"
    using assms(2) by (auto simp: coverageFacts_def option_elims)
  have "\<forall>t \<in> set xs. plain t" "\<forall>t \<in> set ys. plain t"
    by (rule traverse_all [OF p(1)], rule path_fact_plain, assumption) (rule traverse_all [OF p(2)], rule path_fact_plain, assumption)
  moreover have "\<forall>t \<in> set zs. plain t"
    by (rule traverse_all [OF p(3)], rule issue_fact_plain) (use analysis_closed(3) [OF assms(1)] in auto)
  moreover have "\<forall>e \<in> set es. \<forall>t \<in> set e. plain t"
    by (rule traverse_all [OF p(4)], rule enrichment_facts_plain) (use analysis_closed(4) [OF assms(1)] in auto)
  ultimately have "\<forall>t \<in> set (xs @ ys @ zs @ concat es). plain t" by auto
  then show ?thesis using p(5) by (auto dest!: in_set_takeD)
qed

lemma finding_shown:
  assumes "normalizeAnalysis v = Some a" "validatePresentationContract (Some a) = Some ()" "f \<in> set (an_findings a)"
  obtains p fs where "registry_read FINDING_PRESENTATION_REGISTRY (finding_key (f_code f)) = Own p"
    "safeEvidenceFacts f (evidenceByID (an_evidence a)) p = Some fs" "length fs \<le> 64" "\<forall>t \<in> set fs. plain t"
proof -
  have "f_code f \<in> set FINDING_CODES" using analysis_closed(2) [OF assms(1)] assms(3) by blast
  then obtain p where p: "registry_read FINDING_PRESENTATION_REGISTRY (finding_key (f_code f)) = Own p"
    using code_presentable by blast
  have "finding_presentable (an_evidence a) f"
    using assms(2,3) unfolding validatePresentationContract_def option_elims option.case guard_Some by blast
  then obtain fs where "safeEvidenceFacts f (evidenceByID (an_evidence a)) p = Some fs"
    using presentable_facts [OF analysis_closed(1) [OF assms(1)] _ p] by blast
  then show ?thesis using that [OF p] safe_facts_plain by blast
qed

lemma report_exported:
  assumes "normalizeAnalysis v = Some a" "validatePresentationContract (Some a) = Some ()" "rp_analysis r = Some a"
  shows "humanReport native r \<noteq> None"
proof -
  have "finding_lines native (evidenceByID (an_evidence a)) f \<noteq> None" if f: "f \<in> set (an_findings a)" for f
    by (rule finding_shown [OF assms(1,2) f]) (simp add: finding_lines_def)
  then obtain found where "traverse (finding_lines native (evidenceByID (an_evidence a))) (an_findings a) = Some found"
    using traverse_returns [of "an_findings a" "finding_lines native (evidenceByID (an_evidence a))"] by auto
  moreover obtain fs where "coverageFacts native a (rp_results r) = Some fs" using coverage_returns [OF assms(2)] by blast
  ultimately show ?thesis by (simp add: humanReport_def analysis_lines_def assms(3))
qed

text \<open>
  C28: when the presentation contract of a normalised analysis is accepted, neither the page nor the export throws: every
  finding has its presentation and at most 64 facts, the coverage has at most 512, every fact is one line of printable
  ASCII whatever the server sent, and the exported report exists.
\<close>
theorem accepted_analysis_shows:
  assumes "normalizeAnalysis v = Some a" "validatePresentationContract (Some a) = Some ()"
  shows "(\<forall>f \<in> set (an_findings a). \<exists>p fs. registry_read FINDING_PRESENTATION_REGISTRY (finding_key (f_code f)) = Own p \<and>
      safeEvidenceFacts f (evidenceByID (an_evidence a)) p = Some fs \<and> length fs \<le> 64 \<and> (\<forall>t \<in> set fs. plain t)) \<and>
    (\<exists>fs. coverageFacts native a rs = Some fs \<and> length fs \<le> 512 \<and> (\<forall>t \<in> set fs. plain t)) \<and>
    (\<forall>r. rp_analysis r = Some a \<longrightarrow> humanReport native r \<noteq> None)"
  using finding_shown [OF assms] coverage_returns [OF assms(2)] coverage_plain [OF assms(1)] report_exported [OF assms] by metis

section \<open>An example\<close>

definition example_finding_value :: jval where
  "example_finding_value = obj [(''id'', str ''f''), (''code'', str ''checker_panic''), (''severity'', str ''warning''),
     (''category'', str ''execution''), (''title'', str ''t''), (''summary'', str ''s''), (''confidence'', str ''direct''),
     (''evidence_ids'', arr [str ''e'']), (''action_ids'', arr [])]"

definition example_evidence_value :: jval where
  "example_evidence_value = obj [(''id'', str ''e''), (''result_index'', num 0), (''kind'', str ''traceroute''),
     (''address'', str ''h''), (''signal'', str ''error_code''), (''observed'', str ''checker_panic''),
     (''provenance'', str ''details'')]"

definition example_coverage_value :: jval where
  "example_coverage_value = obj [(''available'', arr [str ''results[0].details'']), (''missing'', arr [str ''results[0].constructor'']),
     (''provider_failures'', arr []), (''limitations'', arr [])]"

definition example_analysis_value :: jval where
  "example_analysis_value = obj [(''verdict'', str ''attention''), (''findings'', arr [example_finding_value]),
     (''evidence'', arr [example_evidence_value]), (''actions'', arr []), (''coverage'', example_coverage_value)]"

definition example_analysis :: analysis where
  "example_analysis = \<lparr>an_verdict = js ''attention'',
     an_findings = [\<lparr>f_id = js ''f'', f_code = js ''checker_panic'', f_severity = js ''warning'', f_category = js ''execution'',
       f_title = js ''Checker execution failed'',
       f_summary = js ''The checker stopped unexpectedly, so service health was not established.'', f_confidence = js ''direct'', f_evidence = [js ''e''], f_actions = []\<rparr>],
     an_evidence = [\<lparr>e_id = js ''e'', e_result = 0, e_kind = js ''traceroute'', e_address = js ''h'',
       e_signal = js ''error_code'', e_observed = js ''checker_panic'', e_expected = [],
       e_provenance = js ''details'', e_attempt = None\<rparr>],
     an_actions = [], an_available = [js ''results[0].details''], an_missing = [js ''results[0].constructor''], an_enrichment = [],
     an_provider_failures = [], an_limitations = []\<rparr>"

text \<open>The name of an inherited property passes the contract, and the page shows its missing label.\<close>

lemma inherited_signal_shown:
  "coveragePathFact (js ''results[0].constructor'') False = Some (js ''undefined was not available for result 1.'')"
  by code_simp

lemma example_paths: "coveragePath (js ''results[0].details'') \<noteq> None" "coveragePath (js ''results[0].constructor'') \<noteq> None"
  by code_simp+

text \<open>The second entry of the registry.\<close>

lemma fp_findingPresentation [simp]:
  "fp_key (findingPresentation code cause expectation limitation action signals) = finding_key (js code)"
  "fp_signals (findingPresentation code cause expectation limitation action signals) = map js signals"
  by (simp_all add: findingPresentation_def)

lemma registry_next: "map_of (map (\<lambda>e. (fp_key e, e)) (x # xs)) k = Some p \<Longrightarrow> fp_key x \<noteq> k \<Longrightarrow>
    map_of (map (\<lambda>e. (fp_key e, e)) xs) k = Some p"
  by simp

lemma registry_here: "map_of (map (\<lambda>e. (fp_key e, e)) (x # xs)) k = Some p \<Longrightarrow> fp_key x = k \<Longrightarrow> x = p"
  by simp

lemma panic_signals:
  "map_of FINDING_PRESENTATION_REGISTRY (finding_key (js ''checker_panic'')) = Some p \<Longrightarrow> fp_signals p = map js [''error_code'']"
  unfolding FINDING_PRESENTATION_REGISTRY_def
  apply (drule registry_next)
   apply (simp only: fp_findingPresentation finding_key_def)
   apply simp
  apply (drule registry_here)
   apply (rule fp_findingPresentation)
  apply (drule sym)
  apply (erule ssubst)
  apply (rule fp_findingPresentation)
  done

lemma panic_presentation:
  assumes "registry_read FINDING_PRESENTATION_REGISTRY (finding_key (js ''checker_panic'')) = Own p"
  shows "js ''error_code'' \<in> set (fp_signals p)"
proof -
  have "map_of FINDING_PRESENTATION_REGISTRY (finding_key (js ''checker_panic'')) = Some p"
    using assms by (simp add: registry_read_def split: option.splits if_splits)
  then show ?thesis using panic_signals by simp
qed

lemma example_contract: "validatePresentationContract (Some example_analysis) = Some ()"
proof -
  have e: "registry_read EVIDENCE_SIGNAL_PRESENTATION_REGISTRY (js ''error_code'') \<noteq> Missing"
    by (simp add: registry_read_def EVIDENCE_SIGNAL_PRESENTATION_REGISTRY_def)
  have "finding_presentable (an_evidence example_analysis) (hd (an_findings example_analysis))"
    using code_presentable [of "js ''checker_panic''"] panic_presentation e
    by (auto simp: finding_presentable_def example_analysis_def FINDING_CODES_def)
  then show ?thesis using e example_paths
    by (simp add: validatePresentationContract_def) (simp add: example_analysis_def)
qed

lemmas example_evaluation = str_def STRING_LIMIT_def

lemma example_finding_read: "normalize_finding example_finding_value = Some (hd (an_findings example_analysis))"
  by (simp add: normalize_finding_def example_finding_value_def example_evaluation FINDING_CODES_def SEVERITIES_def CATEGORIES_def
      FINDING_PRESENTATIONS_def CONFIDENCES_def normalizeStringArray_def MAX_EVIDENCE_def example_analysis_def)

lemma example_evidence_read: "normalize_evidence example_evidence_value = Some (hd (an_evidence example_analysis))"
  by (simp add: normalize_evidence_def example_evidence_value_def example_evaluation num_def KINDS_def PROVENANCES_def
      MAX_RESULTS_def MAX_SAFE_def jint_def v_optionalText_def example_analysis_def)

lemma example_normalised: "normalizeAnalysis example_analysis_value = Some example_analysis"
proof -
  have "array_of MAX_FINDINGS normalize_finding (arr [example_finding_value]) = Some (an_findings example_analysis)"
    by (simp add: array_of_def MAX_FINDINGS_def example_finding_read) (simp add: example_analysis_def)
  moreover have "array_of MAX_EVIDENCE normalize_evidence (arr [example_evidence_value]) = Some (an_evidence example_analysis)"
    by (simp add: array_of_def MAX_EVIDENCE_def example_evidence_read) (simp add: example_analysis_def)
  ultimately show ?thesis
    by (simp add: normalizeAnalysis_def example_analysis_value_def example_coverage_value_def example_evaluation VERDICTS_def
        normalizeStringArray_def MAX_COVERAGE_def array_of_def [of _ normalize_action] array_of_def [of _ normalizeCoverageIssue])
      (simp add: example_analysis_def unique_ids_def set_of_list_def add_new_def)
qed

theorem accepted_analysis_shows_witness:
  "(\<exists>fs. coverageFacts (\<lambda>k. k) example_analysis [] = Some fs \<and> length fs \<le> 512 \<and> (\<forall>t \<in> set fs. plain t)) \<and>
   (\<exists>p fs. safeEvidenceFacts (hd (an_findings example_analysis)) (evidenceByID (an_evidence example_analysis)) p = Some fs)"
proof -
  have "hd (an_findings example_analysis) \<in> set (an_findings example_analysis)" by (simp add: example_analysis_def)
  then show ?thesis
    using accepted_analysis_shows [OF example_normalised example_contract, where native = "\<lambda>k. k" and rs = "[]"] by blast
qed

end
