(* ===== verification/Page_Requests.thy ===== *)
theory Page_Requests
  imports Presentation_Contract IP_Controller
begin

text \<open>
  The requests of the page (\<open>createApp\<close> of \<open>frontend/app.js\<close>): what is typed, the start of a request,
  its timer, its settling, cancellation, the change of a credential, and the end of the page, over the
  two lanes.  A request object is shared by the coroutine that made it and by the handlers, so it lives
  in a store under its owner id; the coroutines that have not returned are the pending owners.

  An operation is one synchronous segment.  The coroutine of \<open>start\<close> is cut at the call of \<open>fetch\<close>: what
  \<open>fetch\<close>, the reading and parsing of the body and the redaction of the credential amount to is the
  outcome of its second segment, as is what \<open>presentReport\<close> or \<open>topologyModelFromReport\<close> throws.  What
  the code reads of the clock and of \<open>sessionStorage\<close> are arguments.  \<open>abort\<close>, \<open>clearTimeout\<close> and the
  updates of the document do not throw.
\<close>

section \<open>The page\<close>

datatype abort_cause = ByTimeout | ByUser | ByNavigation | ByReplacement | ByInputChange | ByUnload | ByDestroy

record page_request =
  q_purpose :: purpose
  q_signature :: jstr
  q_base :: jstr
  q_reason :: "abort_cause option"
  q_aborted :: bool
  q_timer :: bool

record page =
  g_alive :: bool
  g_lane :: "purpose \<Rightarrow> report option lane"
  g_active :: "purpose \<Rightarrow> jstr option"
  g_base :: "purpose \<Rightarrow> jstr option"
  g_revision :: "jstr \<Rightarrow> nat"
  g_indeterminate :: "jstr list"
  g_sequence :: nat
  g_form :: "purpose \<Rightarrow> jval"
  g_report :: "purpose \<Rightarrow> report option"
  g_requests :: "jstr \<Rightarrow> page_request option"
  g_pending :: "jstr list"
  g_sent :: "(jstr \<times> jstr) list"

definition new_page :: "(purpose \<Rightarrow> jval) \<Rightarrow> page" where
  "new_page forms = \<lparr>g_alive = True, g_lane = createRequestLane, g_active = (\<lambda>_. None), g_base = (\<lambda>_. None),
     g_revision = (\<lambda>_. 0), g_indeterminate = [], g_sequence = 0, g_form = forms, g_report = (\<lambda>_. None),
     g_requests = (\<lambda>_. None), g_pending = [], g_sent = []\<rparr>"

section \<open>Inputs\<close>

text \<open>The argument of \<open>canonicalDiagnosticsInput\<close> or \<open>canonicalTopologyInput\<close> is what is typed.\<close>

definition no_addresses :: "jval \<Rightarrow> bool" where
  "no_addresses v = (case prop_of v ''addresses'' of JArr i plain ds \<Rightarrow> ds = [] | _ \<Rightarrow> False)"

definition readInput :: "url_parser \<Rightarrow> purpose \<Rightarrow> page \<Rightarrow> canonical_input option" where
  "readInput purl p g = (if p = Topology \<and> no_addresses (g_form g p) then None else submitted_input purl p (g_form g p))"

fun input_base :: "canonical_input \<Rightarrow> jstr" where
  "input_base (DiagnosticsInput i) = di_base i"
| "input_base (TopologyInput i) = ti_base i"

fun input_auth :: "canonical_input \<Rightarrow> bool" where
  "input_auth (DiagnosticsInput i) = di_auth i"
| "input_auth (TopologyInput i) = ti_auth i"

definition input_signature :: "url_parser \<Rightarrow> purpose \<Rightarrow> canonical_input \<Rightarrow> page \<Rightarrow> jstr option" where
  "input_signature purl p c g = inputSignature purl p (input_value c) (num (int (g_revision g (input_base c))))"

fun request_payload :: "canonical_input \<Rightarrow> jval" where
  "request_payload (DiagnosticsInput i) = obj [(''targets'', arr (map (\<lambda>t. obj ([(''kind'', JStr (d_kind t)),
       (''address'', JStr (d_address t))] @ (if d_expected t \<noteq> 0 then [(''expected_status'', num (d_expected t))] else [])))
       (di_targets i))), (''timeout_ms'', num (di_timeout i))]"
| "request_payload (TopologyInput i) = obj [(''targets'', arr (map (\<lambda>a. obj [(''kind'', str ''traceroute''),
       (''address'', JStr a), (''attempts'', num (ti_attempts i))]) (ti_addresses i))),
     (''timeout_ms'', num (ti_timeout i)), (''topology_mode'', str ''compact'')]"

definition purpose_name :: "purpose \<Rightarrow> jstr" where
  "purpose_name p = (case p of Diagnostics \<Rightarrow> js ''diagnostics'' | Topology \<Rightarrow> js ''topology'')"

definition owner_id :: "purpose \<Rightarrow> nat \<Rightarrow> jstr" where
  "owner_id p n = purpose_name p @ cColon # dec n"

section \<open>Lane events\<close>

definition page_event :: "string \<Rightarrow> jstr option \<Rightarrow> jstr \<Rightarrow> report option request_event" where
  "page_event t w sig = \<lparr>e_type = js t, e_owner = w, e_inputSignature = Some sig, e_signature = None, e_time = JUndef,
     e_report = None, e_error = (Falsy, Falsy), e_reason = None, e_now = NaN\<rparr>"

definition to_lane :: "purpose \<Rightarrow> report option request_event \<Rightarrow> page \<Rightarrow> page" where
  "to_lane p e g = g\<lparr>g_lane := (g_lane g)(p := lane_step e (g_lane g p))\<rparr>"

definition page_owns :: "purpose \<Rightarrow> jstr \<Rightarrow> page \<Rightarrow> bool" where
  "page_owns p w g = (case g_requests g w of None \<Rightarrow> False | Some q \<Rightarrow> ownsRequest (g_lane g p) (Some w) (q_signature q))"

definition update_request :: "jstr \<Rightarrow> (page_request \<Rightarrow> page_request) \<Rightarrow> page \<Rightarrow> page" where
  "update_request w f g = g\<lparr>g_requests := (g_requests g)(w := map_option f (g_requests g w))\<rparr>"

definition stop_request :: "abort_cause \<Rightarrow> page_request \<Rightarrow> page_request" where
  "stop_request cause q = q\<lparr>q_reason := Some cause, q_aborted := True, q_timer := False\<rparr>"

definition set_active :: "purpose \<Rightarrow> jstr option \<Rightarrow> page \<Rightarrow> page" where
  "set_active p w g = g\<lparr>g_active := (g_active g)(p := w)\<rparr>"

definition stop_active :: "abort_cause \<Rightarrow> purpose \<Rightarrow> page \<Rightarrow> page" where
  "stop_active cause p g = (case g_active g p of None \<Rightarrow> g | Some w \<Rightarrow> update_request w (stop_request cause) g)"

text \<open>What \<open>clearPurpose\<close> forgets; the rest of it is the document.\<close>

definition clearPurpose :: "purpose \<Rightarrow> page \<Rightarrow> page" where
  "clearPurpose p g = g\<lparr>g_report := (g_report g)(p := None)\<rparr>"

section \<open>Invalidation\<close>

definition current_signature :: "url_parser \<Rightarrow> purpose \<Rightarrow> page \<Rightarrow> jstr" where
  "current_signature purl p g = (case readInput purl p g of None \<Rightarrow> []
     | Some c \<Rightarrow> (case input_signature purl p c g of None \<Rightarrow> [] | Some s \<Rightarrow> s))"

definition forget_input :: "jstr \<Rightarrow> purpose \<Rightarrow> page \<Rightarrow> page" where
  "forget_input sig p g = to_lane p (page_event ''INPUT_CHANGED'' None sig) g"

definition invalidate :: "url_parser \<Rightarrow> purpose \<Rightarrow> page \<Rightarrow> page" where
  "invalidate purl p g = (if \<not> g_alive g then g else
     let g = clearPurpose p (set_active p None (stop_active ByInputChange p g));
         g = forget_input (current_signature purl p g) p g in g\<lparr>g_base := (g_base g)(p := None)\<rparr>)"

definition owns_base :: "url_parser \<Rightarrow> jstr \<Rightarrow> purpose \<Rightarrow> page \<Rightarrow> bool" where
  "owns_base purl b p g = (case Option.bind (g_active g p) (g_requests g) of
     Some q \<Rightarrow> q_base q = b
   | None \<Rightarrow> (case g_base g p of Some b' \<Rightarrow> b' = b
     | None \<Rightarrow> (case readInput purl p g of None \<Rightarrow> False | Some c \<Rightarrow> input_base c = b)))"

definition invalidateCredentialBase :: "url_parser \<Rightarrow> jstr \<Rightarrow> page \<Rightarrow> page" where
  "invalidateCredentialBase purl b g = fold (\<lambda>p g. if owns_base purl b p g then invalidate purl p g else g)
     [Diagnostics, Topology] g"

section \<open>The end of a request\<close>

type_synonym rejection = "thrown \<times> thrown"

definition CREDENTIAL_RECONCILIATION_MESSAGE :: jstr where
  "CREDENTIAL_RECONCILIATION_MESSAGE = [67, 114, 101, 100, 101, 110, 116, 105, 97, 108, 32, 49345, 53468, 47484, 32, 54869, 51064, 54624,
     32, 49688, 32, 50630, 49845, 45768, 45796, 46, 32, 51064, 51613, 32, 50836, 52397, 32, 51204,
     50640, 32, 99, 114, 101, 100, 101, 110, 116, 105, 97, 108, 51012, 32, 45796, 49884, 32, 51201,
     50857, 54616, 44144, 45208, 32, 49325, 51228, 54644, 32, 51452, 49464, 50836, 46]"

definition INSECURE_AUTH_MESSAGE :: jstr where
  "INSECURE_AUTH_MESSAGE = [66, 101, 97, 114, 101, 114, 32, 99, 114, 101, 100, 101, 110, 116, 105, 97, 108, 51008, 32, 72, 84,
     84, 80, 83, 32, 65, 80, 73, 50640, 47564, 32, 51204, 49569, 54624, 32, 49688, 32, 51080, 49845,
     45768, 45796, 46]"

definition typed_rejection :: "string \<Rightarrow> string \<Rightarrow> jstr \<Rightarrow> rejection" where
  "typed_rejection kind code message = (Thrown False [(''kind'', str kind), (''code'', str code), (''message'', JStr message),
     (''retryable'', JBool False)], Falsy)"

definition timeout_rejection :: rejection where
  "timeout_rejection = (Thrown False [(''name'', str ''AbortError''), (''reason'', str ''timeout'')], Falsy)"

definition presentation_rejection :: rejection where
  "presentation_rejection = typed_rejection ''invalid-response'' ''unsupported_presentation_contract''
     (js ''This report cannot be presented safely because its presentation contract is unsupported.'')"

text \<open>The \<open>catch\<close> of \<open>start\<close>.\<close>

definition catch_rejection :: "jstr \<Rightarrow> page_request \<Rightarrow> rejection \<Rightarrow> page \<Rightarrow> page" where
  "catch_rejection w q e g = (let p = q_purpose q; e = (if q_reason q = Some ByTimeout then timeout_rejection else e) in
     if \<not> g_alive g \<or> \<not> page_owns p w g then g
     else if reads (fst e) ''name'' = str ''AbortError'' \<and>
       q_reason q \<in> {Some ByUser, Some ByNavigation, Some ByReplacement, Some ByInputChange} then g
     else clearPurpose p (to_lane p (page_event ''REQUEST_FAILED'' (Some w) (q_signature q)\<lparr>e_error := e\<rparr>) g))"

text \<open>Its \<open>finally\<close>, and the return of the coroutine.\<close>

definition finish_request :: "jstr \<Rightarrow> page_request \<Rightarrow> page \<Rightarrow> page" where
  "finish_request w q g = (let p = q_purpose q;
     g = (if g_alive g \<and> g_active g p = Some w then
         to_lane p (page_event ''REQUEST_FINALIZED'' (Some w) (q_signature q))
           (set_active p None (update_request w (\<lambda>q. q\<lparr>q_timer := False\<rparr>) g)) else g)
     in g\<lparr>g_pending := removeAll w (g_pending g)\<rparr>)"

definition reject_request :: "jstr \<Rightarrow> rejection \<Rightarrow> page \<Rightarrow> page" where
  "reject_request w e g = (case g_requests g w of None \<Rightarrow> g | Some q \<Rightarrow> finish_request w q (catch_rejection w q e g))"

section \<open>The start of a request\<close>

record start_reading =
  sd_started :: int
  sd_now :: int
  sd_token :: jstr

definition insecure_base :: "url \<Rightarrow> bool" where
  "insecure_base u \<longleftrightarrow> protocol u \<noteq> js ''https:'' \<and>
     hostname_of (host u) \<notin> {js ''localhost'', js ''127.0.0.1'', js ''[::1]'', js ''::1''}"

definition send_request :: "url_parser \<Rightarrow> jstr \<Rightarrow> canonical_input \<Rightarrow> int \<Rightarrow> start_reading \<Rightarrow> page \<Rightarrow> page" where
  "send_request purl w c limit rd g = (let base = input_base c;
       remaining = max 0 (limit - max 0 (sd_now rd - sd_started rd)) in
     if input_auth c \<and> base \<in> set (g_indeterminate g) then
       reject_request w (typed_rejection ''http'' ''credential_indeterminate'' CREDENTIAL_RECONCILIATION_MESSAGE) g
     else if remaining = 0 then
       reject_request w timeout_rejection (update_request w (\<lambda>q. q\<lparr>q_reason := Some ByTimeout, q_aborted := True\<rparr>) g)
     else let g = update_request w (\<lambda>q. q\<lparr>q_timer := True\<rparr>) g; bearer = (if input_auth c then sd_token rd else []) in
       if bearer = [] then g\<lparr>g_sent := (base, []) # g_sent g\<rparr>
       else (case purl base of
         None \<Rightarrow> reject_request w (Thrown True [], Falsy) g
       | Some u \<Rightarrow> if insecure_base u then reject_request w (typed_rejection ''http'' ''insecure_auth'' INSECURE_AUTH_MESSAGE) g
           else g\<lparr>g_sent := (base, bearer) # g_sent g\<rparr>))"

definition start_request :: "url_parser \<Rightarrow> purpose \<Rightarrow> canonical_input \<Rightarrow> jstr \<Rightarrow> int \<Rightarrow> start_reading \<Rightarrow> page \<Rightarrow> page" where
  "start_request purl p c sig limit rd g = (let w = owner_id p (g_sequence g);
       q = \<lparr>q_purpose = p, q_signature = sig, q_base = input_base c, q_reason = None, q_aborted = False, q_timer = False\<rparr>;
       g = set_active p (Some w) g\<lparr>g_requests := (g_requests g)(w := Some q), g_base := (g_base g)(p := Some (input_base c))\<rparr> in
     (case transitionRequest (g_lane g p)
         (page_event ''REQUEST_STARTED'' (Some w) sig\<lparr>e_time := num (sd_started rd)\<rparr>) of
        Inl _ \<Rightarrow> g
      | Inr l \<Rightarrow> send_request purl w c limit rd (g\<lparr>g_lane := (g_lane g)(p := l), g_pending := w # g_pending g\<rparr>)))"

definition start :: "url_parser \<Rightarrow> purpose \<Rightarrow> start_reading \<Rightarrow> page \<Rightarrow> page" where
  "start purl p rd g = (if \<not> g_alive g then g else
     let g = clearPurpose p (stop_active ByReplacement p g) in
     case readInput purl p g of
       None \<Rightarrow> forget_input [] p g
     | Some c \<Rightarrow> (case input_signature purl p c g of None \<Rightarrow> g
       | Some sig \<Rightarrow> (let g = g\<lparr>g_sequence := g_sequence g + 1\<rparr> in
          case clientTimeoutMS (request_payload c) of None \<Rightarrow> g
          | Some limit \<Rightarrow> start_request purl p c sig limit rd g)))"

section \<open>The answer, the timer and the cancellation\<close>

text \<open>What the first segment waits for: a rejection, or a report, what its presentation throws, if
  anything, and the time of its completion.\<close>

datatype outcome = RejectedWith rejection | AnsweredWith report "rejection option" int

definition answer_request :: "jstr \<Rightarrow> report \<Rightarrow> rejection option \<Rightarrow> int \<Rightarrow> page \<Rightarrow> page" where
  "answer_request w r presented completed g = (case g_requests g w of None \<Rightarrow> g | Some q \<Rightarrow> (let p = q_purpose q in
     if \<not> g_alive g \<or> \<not> page_owns p w g then finish_request w q g
     else if p = Diagnostics \<and> validatePresentationContract (rp_analysis r) = None then reject_request w presentation_rejection g
     else (case presented of Some e \<Rightarrow> reject_request w e g
       | None \<Rightarrow> (case transitionRequest (g_lane g p)
             (page_event ''REQUEST_SUCCEEDED'' (Some w) (q_signature q)\<lparr>e_report := Some r, e_time := num completed\<rparr>) of
           Inl _ \<Rightarrow> reject_request w (Thrown True [], Falsy) g
         | Inr l \<Rightarrow> finish_request w q (g\<lparr>g_lane := (g_lane g)(p := l), g_report := (g_report g)(p := Some r)\<rparr>)))))"

definition settle_request :: "jstr \<Rightarrow> outcome \<Rightarrow> page \<Rightarrow> page" where
  "settle_request w o' g = (if w \<notin> set (g_pending g) then g else
     case o' of RejectedWith e \<Rightarrow> reject_request w e g | AnsweredWith r presented completed \<Rightarrow> answer_request w r presented completed g)"

definition request_timeout :: "jstr \<Rightarrow> page \<Rightarrow> page" where
  "request_timeout w g = (case g_requests g w of None \<Rightarrow> g | Some q \<Rightarrow>
     if \<not> q_timer q then g
     else if g_active g (q_purpose q) = Some w
       then update_request w (\<lambda>q. q\<lparr>q_reason := Some ByTimeout, q_aborted := True, q_timer := False\<rparr>) g
     else update_request w (\<lambda>q. q\<lparr>q_timer := False\<rparr>) g)"

text \<open>\<open>cancel(purpose, reason)\<close> with the reason \<open>user\<close> or \<open>navigation\<close>.\<close>

definition cancel_request :: "purpose \<Rightarrow> bool \<Rightarrow> page \<Rightarrow> page" where
  "cancel_request p navigation g = (if \<not> g_alive g then g else case g_active g p of None \<Rightarrow> g | Some w \<Rightarrow>
     let g = stop_active (if navigation then ByNavigation else ByUser) p g in
     if \<not> page_owns p w g then g
     else let sig = (case g_requests g w of None \<Rightarrow> [] | Some q \<Rightarrow> q_signature q);
         g = to_lane p (page_event ''REQUEST_CANCELLED'' (Some w) sig
           \<lparr>e_reason := Some (if navigation then js ''navigation'' else js ''user'')\<rparr>) g in
       clearPurpose p (to_lane p (page_event ''REQUEST_FINALIZED'' (Some w) sig) (set_active p None g)))"

section \<open>Credentials and the end of the page\<close>

text \<open>What \<open>sessionStorage\<close> does: the items it reads before the change, after it and after the roll-back
  (no item is \<open>Some None\<close>, a throw \<open>None\<close>), and whether the change and the roll-back return.\<close>

record storage_reading =
  sr_before :: "jstr option option"
  sr_changed :: bool
  sr_after :: "jstr option option"
  sr_restored :: bool
  sr_finally :: "jstr option option"

datatype credential_effect = Unchanged | Applied | Indeterminate

definition credential_change :: "bool \<Rightarrow> jstr \<Rightarrow> storage_reading \<Rightarrow> credential_effect" where
  "credential_change clear bearer s =
     (if \<not> clear \<and> bearer = [] then Unchanged
      else if sr_before s = None \<or> \<not> sr_changed s then Unchanged
      else if sr_after s = Some (if clear then None else Some bearer) then Applied
      else if sr_restored s \<and> sr_finally s = sr_before s then Unchanged
      else Indeterminate)"

definition applyCredential :: "url_parser \<Rightarrow> jstr \<Rightarrow> bool \<Rightarrow> jstr \<Rightarrow> storage_reading \<Rightarrow> page \<Rightarrow> page" where
  "applyCredential purl b clear bearer s g =
     (let g' = g\<lparr>g_revision := (g_revision g)(b := g_revision g b + 1)\<rparr> in
      case credential_change clear bearer s of
        Unchanged \<Rightarrow> g
      | Applied \<Rightarrow> invalidateCredentialBase purl b (g'\<lparr>g_indeterminate := removeAll b (g_indeterminate g)\<rparr>)
      | Indeterminate \<Rightarrow> invalidateCredentialBase purl b (g'\<lparr>g_indeterminate := add_new b (g_indeterminate g)\<rparr>))"

definition unload :: "page \<Rightarrow> page" where
  "unload g = (if \<not> g_alive g then g else
     fold (\<lambda>p g. set_active p None (stop_active ByUnload p g)) [Diagnostics, Topology] g)"

definition destroy_page :: "page \<Rightarrow> page" where
  "destroy_page g = (if \<not> g_alive g then g else
     (fold (\<lambda>p g. set_active p None (stop_active ByDestroy p g)) [Diagnostics, Topology] (g\<lparr>g_alive := False\<rparr>))
       \<lparr>g_report := (\<lambda>_. None)\<rparr>)"

section \<open>Operations\<close>

text \<open>Typing changes what some purposes read and invalidates each of them.\<close>

datatype page_operation = TypeInto "(purpose \<times> jval) list" | Submit purpose start_reading | Settle jstr outcome
  | FireTimer jstr | CancelRequest purpose bool | ChangeCredential jstr bool jstr storage_reading | UnloadPage | DestroyPage

definition type_into :: "url_parser \<Rightarrow> (purpose \<times> jval) list \<Rightarrow> page \<Rightarrow> page" where
  "type_into purl changes g = fold (\<lambda>(p, v) g. invalidate purl p g) changes
     (g\<lparr>g_form := fold (\<lambda>(p, v) f. f(p := v)) changes (g_form g)\<rparr>)"

fun page_step :: "url_parser \<Rightarrow> page_operation \<Rightarrow> page \<Rightarrow> page" where
  "page_step purl (TypeInto changes) g = type_into purl changes g"
| "page_step purl (Submit p rd) g = start purl p rd g"
| "page_step purl (Settle w o') g = settle_request w o' g"
| "page_step purl (FireTimer w) g = request_timeout w g"
| "page_step purl (CancelRequest p navigation) g = cancel_request p navigation g"
| "page_step purl (ChangeCredential b clear bearer s) g = applyCredential purl b clear bearer s g"
| "page_step purl UnloadPage g = unload g"
| "page_step purl DestroyPage g = destroy_page g"

text \<open>\<open>Date.now()\<close> is a safe natural number, and no page changes a credential as often as there are safe
  numbers.\<close>

fun possible :: "page \<Rightarrow> page_operation \<Rightarrow> bool" where
  "possible g (Submit p rd) \<longleftrightarrow> 0 \<le> sd_started rd \<and> sd_started rd \<le> MAX_SAFE"
| "possible g (ChangeCredential b clear bearer s) \<longleftrightarrow> int (g_revision g b) < MAX_SAFE"
| "possible g _ \<longleftrightarrow> True"

inductive page_reaches :: "url_parser \<Rightarrow> page \<Rightarrow> bool" for purl where
  opened: "page_reaches purl (new_page forms)"
| stepped: "page_reaches purl g \<Longrightarrow> possible g a \<Longrightarrow> page_reaches purl (page_step purl a g)"

end
