(* ===== verification/Page_Facts.thy ===== *)
theory Page_Facts
  imports Page_Requests
begin

text \<open>
  The page over every sequence of operations: a ready lane shows the answer to what is typed now, with the
  credential as it is now; a loading lane has a pending request whose settling, however it settles, ends
  the loading; a credential is only sent over a secure base.
\<close>

section \<open>Reading a page\<close>

lemmas page_defs = to_lane_def update_request_def set_active_def clearPurpose_def forget_input_def stop_active_def

definition current :: "url_parser \<Rightarrow> page \<Rightarrow> purpose \<Rightarrow> jstr \<Rightarrow> jstr \<Rightarrow> bool" where
  "current purl g p sig b \<longleftrightarrow> (\<exists>c. readInput purl p g = Some c \<and> input_base c = b \<and> input_signature purl p c g = Some sig)"

lemma current_frame:
  "g_form g' p = g_form g p \<Longrightarrow> g_revision g' b = g_revision g b \<Longrightarrow> current purl g' p sig b = current purl g p sig b"
  by (auto simp: current_def readInput_def input_signature_def)

abbreviation phase_of :: "page \<Rightarrow> purpose \<Rightarrow> phase" where
  "phase_of g p \<equiv> l_phase (g_lane g p)"

text \<open>A report is shown exactly by a ready lane, and then it answers the current input.\<close>

definition shows_current :: "url_parser \<Rightarrow> page \<Rightarrow> purpose \<Rightarrow> bool" where
  "shows_current purl g p \<longleftrightarrow> (if phase_of g p = phase.Ready
     then g_active g p = None \<and> (\<exists>r b. l_result (g_lane g p) = Some r \<and> r_report r \<noteq> None \<and> g_report g p = r_report r \<and>
       g_base g p = Some b \<and> current purl g p (r_signature r) b)
     else g_report g p = None)"

definition armed :: "page \<Rightarrow> purpose \<Rightarrow> jstr \<Rightarrow> page_request \<Rightarrow> bool" where
  "armed g p w q \<longleftrightarrow> g_active g p = Some w \<and> (q_reason q = None \<and> q_timer q \<or> q_reason q = Some ByTimeout \<and> q_aborted q) \<or>
     g_active g p = None \<and> q_reason q = Some ByUnload"

definition holds :: "page \<Rightarrow> purpose \<Rightarrow> jstr \<Rightarrow> page_request \<Rightarrow> bool" where
  "holds g p w q \<longleftrightarrow> g_requests g w = Some q \<and> q_purpose q = p \<and> ownsRequest (g_lane g p) (Some w) (q_signature q)"

text \<open>A loading lane waits for a pending request of the current input.\<close>

definition waits :: "url_parser \<Rightarrow> page \<Rightarrow> purpose \<Rightarrow> bool" where
  "waits purl g p \<longleftrightarrow> (phase_of g p = phase.Loading \<longrightarrow> (\<exists>w q. holds g p w q \<and> w \<in> set (g_pending g) \<and> armed g p w q \<and>
     g_base g p = Some (q_base q) \<and> current purl g p (q_signature q) (q_base q)))"

definition lane_true :: "url_parser \<Rightarrow> purpose \<Rightarrow> page \<Rightarrow> bool" where
  "lane_true purl p g \<longleftrightarrow> shows_current purl g p \<and> waits purl g p"

text \<open>What does not depend on the lanes: where the active requests are, and how owners are owners_numbered.\<close>

definition tracked :: "page \<Rightarrow> bool" where
  "tracked g \<longleftrightarrow> (\<forall>p w. g_active g p = Some w \<longrightarrow> (\<exists>q. g_requests g w = Some q \<and> q_purpose q = p))"

definition owners_numbered :: "page \<Rightarrow> bool" where
  "owners_numbered g \<longleftrightarrow> (\<forall>w q. g_requests g w = Some q \<longrightarrow> (\<exists>n \<le> g_sequence g. w = owner_id (q_purpose q) n))"

definition stored :: "page \<Rightarrow> bool" where
  "stored g \<longleftrightarrow> tracked g \<and> owners_numbered g \<and> (\<forall>w \<in> set (g_pending g). g_requests g w \<noteq> None) \<and>
     (\<forall>b. int (g_revision g b) \<le> MAX_SAFE)"

section \<open>Operations on one purpose keep the other\<close>

definition untouched :: "purpose \<Rightarrow> page \<Rightarrow> page \<Rightarrow> bool" where
  "untouched p g g' \<longleftrightarrow> g_lane g' p = g_lane g p \<and> g_active g' p = g_active g p \<and> g_base g' p = g_base g p \<and>
     g_form g' p = g_form g p \<and> g_report g' p = g_report g p \<and> g_revision g' = g_revision g \<and>
     (\<forall>w q. g_requests g w = Some q \<longrightarrow> q_purpose q = p \<longrightarrow>
       g_requests g' w = Some q \<and> (w \<in> set (g_pending g) \<longrightarrow> w \<in> set (g_pending g')))"

lemma untouched_refl [simp]: "untouched p g g"
  by (simp add: untouched_def)

lemma untouched_trans: "untouched p g g' \<Longrightarrow> untouched p g' g'' \<Longrightarrow> untouched p g g''"
  unfolding untouched_def by metis

lemma untouched_true:
  assumes "untouched p g g'" "lane_true purl p g"
  shows "lane_true purl p g'"
proof -
  have c: "current purl g' p s b = current purl g p s b" for s b
    using assms(1) by (intro current_frame) (simp_all add: untouched_def)
  have "shows_current purl g' p" using assms c by (auto simp: lane_true_def shows_current_def untouched_def split: if_splits)
  moreover have "waits purl g' p"
    unfolding waits_def
  proof
    assume "phase_of g' p = phase.Loading"
    then obtain w q where "holds g p w q" "w \<in> set (g_pending g)" "armed g p w q" "g_base g p = Some (q_base q)"
      "current purl g p (q_signature q) (q_base q)"
      using assms by (auto simp: lane_true_def waits_def untouched_def)
    then show "\<exists>w q. holds g' p w q \<and> w \<in> set (g_pending g') \<and> armed g' p w q \<and> g_base g' p = Some (q_base q) \<and>
        current purl g' p (q_signature q) (q_base q)"
      using assms(1) c by (intro exI [of _ w] exI [of _ q]) (simp add: holds_def armed_def untouched_def)
  qed
  ultimately show ?thesis by (simp add: lane_true_def)
qed

lemma stop_active_frame [simp]:
  "g_lane (stop_active c p g) = g_lane g" "g_active (stop_active c p g) = g_active g" "g_base (stop_active c p g) = g_base g"
  "g_form (stop_active c p g) = g_form g" "g_report (stop_active c p g) = g_report g"
  "g_revision (stop_active c p g) = g_revision g" "g_pending (stop_active c p g) = g_pending g"
  "g_sequence (stop_active c p g) = g_sequence g" "g_alive (stop_active c p g) = g_alive g"
  "g_indeterminate (stop_active c p g) = g_indeterminate g" "g_sent (stop_active c p g) = g_sent g"
  by (simp_all add: stop_active_def update_request_def split: option.splits)

lemma stopped_request:
  "g_requests (stop_active c p g) w = (if g_active g p = Some w then map_option (stop_request c) (g_requests g w) else g_requests g w)"
  by (simp add: stop_active_def update_request_def split: option.splits)

lemma stop_request_keeps [simp]:
  "q_purpose (stop_request c q) = q_purpose q" "q_signature (stop_request c q) = q_signature q" "q_base (stop_request c q) = q_base q"
  "q_reason (stop_request c q) = Some c"
  by (simp_all add: stop_request_def)

lemma active_request: "stored g \<Longrightarrow> g_active g p = Some w \<Longrightarrow> \<exists>q. g_requests g w = Some q \<and> q_purpose q = p"
  by (simp add: stored_def tracked_def)

lemma stop_untouched:
  assumes "stored g" "p \<noteq> p'"
  shows "untouched p (stop_active c p' g) g'' \<longleftrightarrow> untouched p g g''" "untouched p g (stop_active c p' g)"
proof -
  have "g_requests (stop_active c p' g) w = Some q \<longleftrightarrow> g_requests g w = Some q" if "q_purpose q = p" for w q
    using that assms(2) active_request [OF assms(1), of p' w] by (cases "g_active g p' = Some w") (auto simp: stopped_request)
  then show "untouched p (stop_active c p' g) g'' \<longleftrightarrow> untouched p g g''" "untouched p g (stop_active c p' g)"
    by (auto simp: untouched_def)
qed

lemma stored_stop:
  assumes "stored g"
  shows "stored (stop_active c p g)"
proof -
  have "\<exists>q. g_requests (stop_active c p g) w = Some q \<and> q_purpose q = p'" if "g_active g p' = Some w" for p' w
    using active_request [OF assms that] by (auto simp: stopped_request)
  moreover have "\<exists>n \<le> g_sequence g. w = owner_id (q_purpose q) n" if "g_requests (stop_active c p g) w = Some q" for w q
    using assms that unfolding stored_def owners_numbered_def stopped_request by (auto split: if_splits)
  moreover have "g_requests (stop_active c p g) w \<noteq> None" if "w \<in> set (g_pending g)" for w
    using assms that unfolding stored_def stopped_request by (auto split: if_splits)
  ultimately show ?thesis using assms by (simp add: stored_def tracked_def owners_numbered_def)
qed

lemma untouched_parts [simp]:
  "p \<noteq> p' \<Longrightarrow> untouched p g (to_lane p' e g') = untouched p g g'"
  "p \<noteq> p' \<Longrightarrow> untouched p g (set_active p' w g') = untouched p g g'"
  "p \<noteq> p' \<Longrightarrow> untouched p g (clearPurpose p' g') = untouched p g g'"
  "p \<noteq> p' \<Longrightarrow> untouched p g (g'\<lparr>g_base := (g_base g')(p' := b)\<rparr>) = untouched p g g'"
  "untouched p g (g'\<lparr>g_sent := ss\<rparr>) = untouched p g g'" "untouched p g (g'\<lparr>g_sequence := n\<rparr>) = untouched p g g'"
  by (simp_all add: untouched_def page_defs)

lemma stored_parts [simp]:
  "stored (to_lane p e g) = stored g" "stored (clearPurpose p g) = stored g" "stored (g\<lparr>g_base := bs\<rparr>) = stored g"
  "stored (g\<lparr>g_sent := ss\<rparr>) = stored g" "stored (g\<lparr>g_lane := ls\<rparr>) = stored g" "stored (g\<lparr>g_report := rs\<rparr>) = stored g"
  "stored (g\<lparr>g_form := fs\<rparr>) = stored g" "stored (g\<lparr>g_alive := a\<rparr>) = stored g" "stored (g\<lparr>g_indeterminate := xs\<rparr>) = stored g"
  "stored g \<Longrightarrow> stored (set_active p None g)"
  by (auto simp: stored_def tracked_def owners_numbered_def page_defs)

lemma classify_events [simp]:
  "classify (js ''INPUT_CHANGED'') = InputChange_ev" "classify (js ''REQUEST_STARTED'') = Start_ev"
  "classify (js ''REQUEST_FINALIZED'') = Finalize_ev" "classify (js ''REQUEST_SUCCEEDED'') = Success_ev"
  "classify (js ''REQUEST_FAILED'') = Failure_ev" "classify (js ''REQUEST_CANCELLED'') = Cancel_ev"
  by code_simp+

lemma page_event_parts [simp]:
  "e_type (page_event t w sig) = js t" "e_owner (page_event t w sig) = w" "given_signature (page_event t w sig) = sig"
  "e_inputSignature (page_event t w sig) = Some sig" "e_reason (page_event t w sig) = None"
  by (simp_all add: page_event_def given_signature_def)

lemma given_signature_updates [simp]:
  "given_signature (e\<lparr>e_error := x\<rparr>) = given_signature e" "given_signature (e\<lparr>e_reason := r\<rparr>) = given_signature e"
  "given_signature (e\<lparr>e_time := t\<rparr>) = given_signature e" "given_signature (e\<lparr>e_report := y\<rparr>) = given_signature e"
  by (simp_all add: given_signature_def split: option.splits)

section \<open>Invalidation\<close>

lemma idle_true: "phase_of g p \<notin> {phase.Ready, phase.Loading} \<Longrightarrow> g_report g p = None \<Longrightarrow> lane_true purl p g"
  by (simp add: lane_true_def shows_current_def waits_def)

lemma forgotten_lane: "phase_of (forget_input sig p g) p = phase.Idle"
  by (simp add: forget_input_def to_lane_def lane_step_def transitionRequest_def)

lemma forget_frame [simp]:
  "g_report (forget_input sig p g) = g_report g" "g_alive (forget_input sig p g) = g_alive g"
  "stored (forget_input sig p g) = stored g" "p' \<noteq> p \<Longrightarrow> untouched p' h (forget_input sig p g) = untouched p' h g"
  by (simp_all add: forget_input_def) (simp_all add: to_lane_def)

lemma clear_frame [simp]: "g_report (clearPurpose p g) p = None" "g_alive (clearPurpose p g) = g_alive g"
  "g_alive (set_active p w g) = g_alive g"
  by (simp_all add: page_defs)

lemma invalidate_alive [simp]: "g_alive (invalidate purl p g) = g_alive g"
  by (simp add: invalidate_def Let_def)

lemma invalidate_stored: "stored g \<Longrightarrow> stored (invalidate purl p g)"
  by (simp add: invalidate_def Let_def stored_stop)

lemma invalidate_untouched: "stored g \<Longrightarrow> p \<noteq> p' \<Longrightarrow> untouched p g (invalidate purl p' g)"
  by (simp add: invalidate_def Let_def stop_untouched)

lemma invalidate_true: "g_alive g \<Longrightarrow> lane_true purl p (invalidate purl p g)"
  by (rule idle_true) (simp_all add: invalidate_def Let_def forgotten_lane)

section \<open>A request can always be started\<close>

lemma owner_id_inject: "owner_id p m = owner_id p' n \<Longrightarrow> p = p' \<and> m = n"
  by (cases p; cases p') (auto simp: owner_id_def purpose_name_def js_def dec_inject)

lemma owner_id_nonempty [simp]: "owner_id p n \<noteq> []"
  by (simp add: owner_id_def)

lemma fresh_owner: "stored g \<Longrightarrow> g_sequence g < n \<Longrightarrow> g_requests g (owner_id p n) = None"
  by (cases "g_requests g (owner_id p n)") (auto simp: stored_def owners_numbered_def dest!: owner_id_inject spec)

lemma signature_exists:
  assumes "url_laws purl" "stored g" "readInput purl p g = Some c"
  shows "\<exists>s. input_signature purl p c g = Some s \<and> s \<noteq> []"
proof -
  have "submitted_input purl p (g_form g p) = Some c" using assms(3) by (simp add: readInput_def split: if_splits)
  then have "submitted_input purl p (input_value c) = Some c" using submitted_again [OF assms(1)] by blast
  moreover have "auth_revision (num (int (g_revision g b))) = Some (int (g_revision g b))" for b
    using assms(2) by (simp add: auth_revision_def numericInteger_def num_def js_Number_def stored_def)
  ultimately show ?thesis
    by (cases c) (simp_all add: input_signature_def inputSignature_def signature_text_def)
qed

lemma waits_bounded:
  "\<forall>t \<in> set targets. attempts_of t \<noteq> None \<Longrightarrow> longest_wait most targets l \<noteq> None"
proof (induction targets arbitrary: l)
  case (Cons t ts)
  obtain a where "attempts_of t = Some a" using Cons.prems by auto
  with Cons show ?case by simp
qed simp

lemma prop_of_obj [simp]: "prop_of (obj kvs) k = (case map_of kvs k of Some v \<Rightarrow> v | None \<Rightarrow> JUndef)"
  using get_props_of [of kvs k] by (simp add: prop_of_def obj_def props_of_def)

lemma first_targets_obj: "first_targets (obj ((''targets'', arr vs) # kvs)) = take 20 vs"
  by (simp add: first_targets_def arr_def comp_def)

lemma attempts_total: "coalesce (prop_of t ''attempts'') (num 5) = num i \<Longrightarrow> \<exists>a. attempts_of t = Some a"
  by (simp add: attempts_of_def js_Number_def num_def)

lemma timeout_numeric: "0 \<le> t \<Longrightarrow> t \<le> 30000 \<Longrightarrow> numericInteger 0 MAX_SAFE (Some 5000) (num t) = Some t"
  by (simp add: numericInteger_def num_def js_Number_def MAX_SAFE_def)

lemma coalesce_num [simp]: "coalesce (num i) x = num i"
  by (simp add: coalesce_def num_def)

lemma timeout_defined:
  assumes "\<forall>t \<in> set (first_targets payload). attempts_of t \<noteq> None" "prop_of payload ''timeout_ms'' = num ms" "0 \<le> ms" "ms \<le> 30000"
  shows "\<exists>t. clientTimeoutMS payload = Some t"
proof -
  let ?m = "min 30000 (max 100 ms)"
  obtain l where "longest_wait ?m (first_targets payload) ?m = Some l" using waits_bounded [OF assms(1), of ?m ?m] by auto
  then show ?thesis using timeout_numeric [OF assms(3,4)] by (simp add: clientTimeoutMS_def assms(2) Let_def)
qed

lemma timeout_exists:
  assumes "canonical_ok c"
  shows "\<exists>t. clientTimeoutMS (request_payload c) = Some t"
proof (cases c)
  case (DiagnosticsInput i)
  have "\<forall>t \<in> set (first_targets (request_payload c)). attempts_of t \<noteq> None"
    unfolding DiagnosticsInput request_payload.simps first_targets_obj
    by (auto dest!: in_set_takeD intro!: attempts_total [of _ 5] simp: coalesce_def)
  then show ?thesis using assms
    by (intro timeout_defined [where ms = "di_timeout i"]) (simp_all add: DiagnosticsInput canonical_ok_def)
next
  case (TopologyInput i)
  have "\<forall>t \<in> set (first_targets (request_payload c)). attempts_of t \<noteq> None"
    unfolding TopologyInput request_payload.simps first_targets_obj
    by (auto dest!: in_set_takeD intro!: attempts_total [of _ "ti_attempts i"] simp: coalesce_def num_def)
  then show ?thesis using assms
    by (intro timeout_defined [where ms = "ti_timeout i"]) (simp_all add: TopologyInput canonical_ok_def)
qed

section \<open>The end of a request\<close>

lemma page_owns_request: "g_requests g w = Some q \<Longrightarrow> page_owns p w g \<longleftrightarrow> ownsRequest (g_lane g p) (Some w) (q_signature q)"
  by (simp add: page_owns_def)

lemma failed_lane: "ownsRequest s (Some w) sig \<Longrightarrow>
    lane_step (page_event ''REQUEST_FAILED'' (Some w) sig\<lparr>e_error := e\<rparr>) s =
    s\<lparr>l_phase := phase.Failed, l_result := None, l_error := Some (normalizeRequestError (fst e) (snd e)), l_cancellation := None\<rparr>"
  by (simp add: lane_step_def transitionRequest_def settle_def)

lemma finalized_lane [simp]:
  "l_phase (lane_step (page_event ''REQUEST_FINALIZED'' w sig) s) = l_phase s"
  "l_result (lane_step (page_event ''REQUEST_FINALIZED'' w sig) s) = l_result s"
  "l_error (lane_step (page_event ''REQUEST_FINALIZED'' w sig) s) = l_error s"
  by (auto simp: lane_step_def transitionRequest_def split: option.splits sum.splits)

lemma update_request_frame [simp]:
  "g_lane (update_request w f g) = g_lane g" "g_active (update_request w f g) = g_active g" "g_base (update_request w f g) = g_base g"
  "g_form (update_request w f g) = g_form g" "g_report (update_request w f g) = g_report g" "g_alive (update_request w f g) = g_alive g"
  "g_revision (update_request w f g) = g_revision g" "g_pending (update_request w f g) = g_pending g"
  "g_requests (update_request w f g) v = (if v = w then map_option f (g_requests g w) else g_requests g v)"
  "g_sequence (update_request w f g) = g_sequence g" "g_indeterminate (update_request w f g) = g_indeterminate g"
  by (simp_all add: update_request_def)

lemma update_untouched: "g_requests g w = Some q \<Longrightarrow> q_purpose q \<noteq> p \<Longrightarrow> untouched p g (update_request w f g)"
  by (auto simp: untouched_def)

lemma update_stored:
  assumes "stored g" "\<And>q. q_purpose (f q) = q_purpose q"
  shows "stored (update_request w f g)"
proof -
  have "\<exists>q. g_requests (update_request w f g) w' = Some q \<and> q_purpose q = p'" if "g_active g p' = Some w'" for p' w'
    using active_request [OF assms(1) that] assms(2) by auto
  moreover have "\<exists>n \<le> g_sequence g. w' = owner_id (q_purpose q) n" if "g_requests (update_request w f g) w' = Some q" for w' q
    using assms that unfolding stored_def owners_numbered_def by (auto split: if_splits)
  moreover have "g_requests (update_request w f g) w' \<noteq> None" if "w' \<in> set (g_pending g)" for w'
    using assms that unfolding stored_def by auto
  ultimately show ?thesis using assms(1) by (simp add: stored_def tracked_def owners_numbered_def)
qed

lemma pending_removed [simp]: "stored g \<Longrightarrow> stored (g\<lparr>g_pending := removeAll w (g_pending g)\<rparr>)"
  by (simp add: stored_def tracked_def owners_numbered_def)

lemma finish_stored: "stored g \<Longrightarrow> stored (finish_request w q g)"
  by (simp add: finish_request_def Let_def update_stored)

lemma finish_alive [simp]: "g_alive (finish_request w q g) = g_alive g"
  by (simp add: finish_request_def Let_def to_lane_def)

lemma catch_alive [simp]: "g_alive (catch_rejection w q e g) = g_alive g"
  by (simp add: catch_rejection_def Let_def clearPurpose_def to_lane_def)

lemma catch_stored: "stored g \<Longrightarrow> stored (catch_rejection w q e g)"
  by (simp add: catch_rejection_def Let_def)

lemma catch_requests [simp]: "g_requests (catch_rejection w q e g) = g_requests g"
  by (simp add: catch_rejection_def Let_def clearPurpose_def to_lane_def)

lemma catch_untouched: "q_purpose q \<noteq> p \<Longrightarrow> untouched p g (catch_rejection w q e g)"
  by (simp add: catch_rejection_def Let_def)

lemma pending_untouched:
  "g_requests g w = Some q \<Longrightarrow> q_purpose q \<noteq> p \<Longrightarrow> untouched p g (g\<lparr>g_pending := removeAll w (g_pending g)\<rparr>)"
  by (auto simp: untouched_def)

lemma finish_untouched:
  assumes "g_requests g w = Some q" "q_purpose q \<noteq> p"
  shows "untouched p g (finish_request w q g)"
proof -
  let ?h = "if g_alive g \<and> g_active g (q_purpose q) = Some w then
      to_lane (q_purpose q) (page_event ''REQUEST_FINALIZED'' (Some w) (q_signature q))
        (set_active (q_purpose q) None (update_request w (\<lambda>q. q\<lparr>q_timer := False\<rparr>) g)) else g"
  have "untouched p g ?h" using update_untouched [OF assms] assms(2) by simp
  moreover have "\<exists>q'. g_requests ?h w = Some q' \<and> q_purpose q' \<noteq> p"
    using assms by (cases "g_alive g \<and> g_active g (q_purpose q) = Some w") (simp_all add: to_lane_def set_active_def)
  then obtain q' where "g_requests ?h w = Some q'" "q_purpose q' \<noteq> p" by blast
  then have "untouched p ?h (?h\<lparr>g_pending := removeAll w (g_pending ?h)\<rparr>)" by (rule pending_untouched)
  ultimately show ?thesis unfolding finish_request_def Let_def by (rule untouched_trans)
qed

lemma finish_phase [simp]:
  "phase_of (finish_request w q g) p = phase_of g p" "l_error (g_lane (finish_request w q g) p) = l_error (g_lane g p)"
  "l_result (g_lane (finish_request w q g) p) = l_result (g_lane g p)" "g_report (finish_request w q g) = g_report g"
  by (simp_all add: finish_request_def Let_def to_lane_def set_active_def)

lemma reject_untouched:
  assumes "g_requests g w = Some q" "q_purpose q \<noteq> p"
  shows "untouched p g (reject_request w e g)"
  using untouched_trans [OF catch_untouched [OF assms(2)] finish_untouched [of _ w q p]] assms by (simp add: reject_request_def)

lemma reject_stored: "stored g \<Longrightarrow> stored (reject_request w e g)"
  by (simp add: reject_request_def finish_stored catch_stored split: option.splits)

definition sound_reason :: "page_request \<Rightarrow> bool" where
  "sound_reason q \<longleftrightarrow> q_reason q \<notin> {Some ByUser, Some ByNavigation, Some ByReplacement, Some ByInputChange}"

text \<open>The rejection of the request that holds a lane fails the lane.\<close>

lemma reject_holder:
  assumes "g_alive g" "holds g p w q" "sound_reason q"
  shows "phase_of (reject_request w e g) p = phase.Failed" "g_report (reject_request w e g) p = None"
    "q_reason q = Some ByTimeout \<Longrightarrow>
      l_error (g_lane (reject_request w e g) p) = Some (normalizeRequestError (fst timeout_rejection) (snd timeout_rejection))"
proof -
  have h: "g_requests g w = Some q" "q_purpose q = p" "ownsRequest (g_lane g p) (Some w) (q_signature q)"
    using assms(2) by (simp_all add: holds_def)
  have c: "catch_rejection w q e g = clearPurpose p (to_lane p (page_event ''REQUEST_FAILED'' (Some w) (q_signature q)
      \<lparr>e_error := if q_reason q = Some ByTimeout then timeout_rejection else e\<rparr>) g)"
    using assms(1,3) h by (simp add: catch_rejection_def Let_def page_owns_request sound_reason_def)
  show "phase_of (reject_request w e g) p = phase.Failed" "g_report (reject_request w e g) p = None"
    "q_reason q = Some ByTimeout \<Longrightarrow>
      l_error (g_lane (reject_request w e g) p) = Some (normalizeRequestError (fst timeout_rejection) (snd timeout_rejection))"
    using h failed_lane [OF h(3)] by (simp_all add: reject_request_def c) (simp_all add: clearPurpose_def to_lane_def)
qed

section \<open>Settling\<close>

lemma holds_unique: "holds g p w q \<Longrightarrow> holds g p w' q' \<Longrightarrow> w = w' \<and> q = q'"
  by (auto simp: holds_def ownsRequest_def split: option.splits)

lemma armed_sound: "armed g p w q \<Longrightarrow> sound_reason q"
  by (auto simp: armed_def sound_reason_def)

lemma holder_waits:
  assumes "lane_true purl p g" "holds g p w q"
  shows "w \<in> set (g_pending g)" "armed g p w q" "g_base g p = Some (q_base q)" "current purl g p (q_signature q) (q_base q)"
proof -
  have "phase_of g p = phase.Loading" using assms(2) by (simp add: holds_def ownsRequest_def)
  then obtain w' q' where *: "holds g p w' q'" "w' \<in> set (g_pending g)" "armed g p w' q'" "g_base g p = Some (q_base q')"
    "current purl g p (q_signature q') (q_base q')" using assms(1) by (auto simp: lane_true_def waits_def)
  from holds_unique [OF assms(2) *(1)] * show "w \<in> set (g_pending g)" "armed g p w q" "g_base g p = Some (q_base q)"
    "current purl g p (q_signature q) (q_base q)" by simp_all
qed

lemma finish_parts:
  "g_base (finish_request w q g) = g_base g" "g_form (finish_request w q g) = g_form g" "g_revision (finish_request w q g) = g_revision g"
  "g_active (finish_request w q g) p = (if g_alive g \<and> p = q_purpose q \<and> g_active g p = Some w then None else g_active g p)"
  by (auto simp: finish_request_def Let_def to_lane_def set_active_def)

lemma finish_other:
  "g_active g (q_purpose q) \<noteq> Some w \<Longrightarrow> finish_request w q g = g\<lparr>g_pending := removeAll w (g_pending g)\<rparr>"
  by (simp add: finish_request_def Let_def)

lemma finish_true:
  assumes "lane_true purl p g" "g_requests g w = Some q" "q_purpose q = p" "\<not> ownsRequest (g_lane g p) (Some w) (q_signature q)"
  shows "lane_true purl p (finish_request w q g)"
proof -
  have c: "current purl (finish_request w q g) p s b = current purl g p s b" for s b
    by (rule current_frame) (simp_all add: finish_parts)
  have "shows_current purl (finish_request w q g) p"
    using assms(1) c by (auto simp: lane_true_def shows_current_def finish_parts split: if_splits)
  moreover have "waits purl (finish_request w q g) p"
    unfolding waits_def
  proof
    assume "phase_of (finish_request w q g) p = phase.Loading"
    then obtain w' q' where *: "holds g p w' q'" "w' \<in> set (g_pending g)" "armed g p w' q'" "g_base g p = Some (q_base q')"
      "current purl g p (q_signature q') (q_base q')" using assms(1) by (auto simp: lane_true_def waits_def)
    have w: "w' \<noteq> w" using *(1) assms(2-4) by (auto simp: holds_def)
    then have "g_active g p \<noteq> Some w" using *(3) by (auto simp: armed_def)
    then have f: "finish_request w q g = g\<lparr>g_pending := removeAll w (g_pending g)\<rparr>" using assms(3) by (simp add: finish_other)
    show "\<exists>w' q'. holds (finish_request w q g) p w' q' \<and> w' \<in> set (g_pending (finish_request w q g)) \<and>
        armed (finish_request w q g) p w' q' \<and> g_base (finish_request w q g) p = Some (q_base q') \<and>
        current purl (finish_request w q g) p (q_signature q') (q_base q')"
      using * w c unfolding f by (intro exI [of _ w'] exI [of _ q']) (simp add: holds_def armed_def)
  qed
  ultimately show ?thesis by (simp add: lane_true_def)
qed

lemma reject_other:
  "g_requests g w = Some q \<Longrightarrow> \<not> ownsRequest (g_lane g (q_purpose q)) (Some w) (q_signature q) \<Longrightarrow>
   reject_request w e g = finish_request w q g"
  by (simp add: reject_request_def catch_rejection_def Let_def page_owns_request)

lemma reject_true:
  assumes "g_alive g" "lane_true purl p g" "g_requests g w = Some q" "q_purpose q = p"
  shows "lane_true purl p (reject_request w e g)"
proof (cases "ownsRequest (g_lane g p) (Some w) (q_signature q)")
  case True
  then have h: "holds g p w q" using assms by (simp add: holds_def)
  note r = reject_holder [OF assms(1) h armed_sound [OF holder_waits(2) [OF assms(2) h]], of e]
  show ?thesis by (rule idle_true) (simp_all add: r)
next
  case False
  then show ?thesis using assms by (simp add: reject_other finish_true)
qed

lemma success_lane:
  assumes "ownsRequest s (Some w) sig"
    "transitionRequest s (page_event ''REQUEST_SUCCEEDED'' (Some w) sig\<lparr>e_report := r, e_time := t\<rparr>) = Inr l"
  shows "\<exists>u. l = s\<lparr>l_phase := phase.Ready, l_result := Some \<lparr>r_owner = w, r_signature = sig, r_report = r, r_completedAt = u\<rparr>,
    l_error := None, l_cancellation := None\<rparr>"
  using assms by (auto simp: transitionRequest_def settle_def split: option.splits)

lemma success_true:
  assumes "g_alive g" "lane_true purl p g" "holds g p w q"
    "transitionRequest (g_lane g p) (page_event ''REQUEST_SUCCEEDED'' (Some w) (q_signature q)\<lparr>e_report := Some r, e_time := t\<rparr>) = Inr l"
  shows "lane_true purl p (finish_request w q (g\<lparr>g_lane := (g_lane g)(p := l), g_report := (g_report g)(p := Some r)\<rparr>))"
proof -
  let ?h = "g\<lparr>g_lane := (g_lane g)(p := l), g_report := (g_report g)(p := Some r)\<rparr>" and ?g = "\<lambda>h. finish_request w q h"
  have q: "q_purpose q = p" "ownsRequest (g_lane g p) (Some w) (q_signature q)" using assms(3) by (simp_all add: holds_def)
  obtain u where l: "l_phase l = phase.Ready" "l_result l = Some \<lparr>r_owner = w, r_signature = q_signature q, r_report = Some r, r_completedAt = u\<rparr>"
    using success_lane [OF q(2) assms(4)] by auto
  have c: "current purl (?g ?h) p s b = current purl g p s b" for s b
    by (rule current_frame) (simp_all add: finish_parts)
  have "g_active (?g ?h) p = None"
    using holder_waits(2) [OF assms(2,3)] assms(1) q(1) by (auto simp: finish_parts armed_def)
  then show ?thesis
    using l holder_waits(3,4) [OF assms(2,3)] c by (simp add: lane_true_def shows_current_def waits_def finish_parts)
qed

lemma answer_cases:
  assumes "g_requests g w = Some q" "q_purpose q = p" "g_alive g" "ownsRequest (g_lane g p) (Some w) (q_signature q)"
  obtains e where "answer_request w r presented completed g = reject_request w e g"
  | l where "transitionRequest (g_lane g p)
        (page_event ''REQUEST_SUCCEEDED'' (Some w) (q_signature q)\<lparr>e_report := Some r, e_time := num completed\<rparr>) = Inr l"
      "answer_request w r presented completed g =
        finish_request w q (g\<lparr>g_lane := (g_lane g)(p := l), g_report := (g_report g)(p := Some r)\<rparr>)"
proof (cases "p = Diagnostics \<and> validatePresentationContract (rp_analysis r) = None")
  case True
  then have "answer_request w r presented completed g = reject_request w presentation_rejection g"
    using assms by (simp add: answer_request_def Let_def page_owns_request)
  then show ?thesis by (rule that(1))
next
  case ok: False
  let ?t = "transitionRequest (g_lane g p)
      (page_event ''REQUEST_SUCCEEDED'' (Some w) (q_signature q)\<lparr>e_report := Some r, e_time := num completed\<rparr>)"
  have a: "answer_request w r presented completed g = (case presented of Some e \<Rightarrow> reject_request w e g
       | None \<Rightarrow> (case ?t of Inl _ \<Rightarrow> reject_request w (Thrown True [], Falsy) g
         | Inr l \<Rightarrow> finish_request w q (g\<lparr>g_lane := (g_lane g)(p := l), g_report := (g_report g)(p := Some r)\<rparr>)))"
    using ok assms by (simp only: answer_request_def Let_def page_owns_request option.case if_False simp_thms)
  show ?thesis
  proof (cases presented)
    case None
    then show ?thesis using that a by (cases ?t) simp_all
  qed (use that(1) a in simp)
qed

lemma answer_true:
  assumes "g_alive g" "lane_true purl p g" "g_requests g w = Some q" "q_purpose q = p"
  shows "lane_true purl p (answer_request w r presented completed g)"
proof (cases "ownsRequest (g_lane g p) (Some w) (q_signature q)")
  case True
  then have h: "holds g p w q" using assms by (simp add: holds_def)
  show ?thesis
    by (rule answer_cases [OF assms(3,4,1) True, of r presented completed])
      (simp_all add: reject_true [OF assms] success_true [OF assms(1,2) h])
next
  case False
  then show ?thesis using assms by (simp add: answer_request_def Let_def page_owns_request finish_true)
qed

lemma lane_untouched:
  "p \<noteq> p' \<Longrightarrow> untouched p g (g\<lparr>g_lane := (g_lane g)(p' := l), g_report := (g_report g)(p' := r)\<rparr>)"
  by (simp add: untouched_def)

lemma answer_untouched:
  assumes "g_requests g w = Some q" "q_purpose q \<noteq> p"
  shows "untouched p g (answer_request w r presented completed g)"
proof (cases "g_alive g \<and> ownsRequest (g_lane g (q_purpose q)) (Some w) (q_signature q)")
  case True
  then show ?thesis
  proof (rule_tac answer_cases [OF assms(1) refl, of r presented completed])
    fix l
    assume "answer_request w r presented completed g =
        finish_request w q (g\<lparr>g_lane := (g_lane g)(q_purpose q := l), g_report := (g_report g)(q_purpose q := Some r)\<rparr>)"
    moreover have "untouched p (g\<lparr>g_lane := (g_lane g)(q_purpose q := l), g_report := (g_report g)(q_purpose q := Some r)\<rparr>)
        (finish_request w q (g\<lparr>g_lane := (g_lane g)(q_purpose q := l), g_report := (g_report g)(q_purpose q := Some r)\<rparr>))"
      using assms by (intro finish_untouched) simp_all
    ultimately show ?thesis using untouched_trans [OF lane_untouched] assms(2) by metis
  qed (use assms reject_untouched in auto)
next
  case False
  then have "answer_request w r presented completed g = finish_request w q g"
    using assms(1) by (auto simp: answer_request_def Let_def page_owns_request)
  then show ?thesis using finish_untouched [OF assms] by simp
qed

lemma answer_stored: "stored g \<Longrightarrow> stored (answer_request w r presented completed g)"
  by (auto simp: answer_request_def Let_def finish_stored reject_stored split: option.splits sum.splits)

section \<open>Starting\<close>

lemma event_time_clock:
  assumes "0 \<le> t" "t \<le> MAX_SAFE"
  shows "event_time (e\<lparr>e_time := num t\<rparr>) = Some (jint t)"
proof -
  have "(of_int t :: rat) \<le> 9007199254740991" using assms(2) by (simp add: MAX_SAFE_def)
  also have "\<dots> \<le> MAX_VALUE" by (simp add: MAX_VALUE_def)
  finally show ?thesis using assms(1) by (simp add: event_time_def coalesce_def num_def jint_def)
qed

lemma started_lane:
  assumes "w \<noteq> []" "sig \<noteq> []" "0 \<le> t" "t \<le> MAX_SAFE"
  shows "transitionRequest s (page_event ''REQUEST_STARTED'' (Some w) sig\<lparr>e_time := num t\<rparr>) = Inr (s\<lparr>l_phase := phase.Loading,
    l_signature := sig, l_active := Some \<lparr>a_owner = w, a_signature = sig, a_startedAt = jint t\<rparr>, l_result := None, l_error := None,
    l_cancellation := None\<rparr>)"
  using assms event_time_clock [OF assms(3,4), of "page_event ''REQUEST_STARTED'' (Some w) sig"]
  by (simp add: transitionRequest_def Let_def)

text \<open>What holds between the transition of the lane and the call of \<open>fetch\<close>.\<close>

definition launched :: "url_parser \<Rightarrow> page \<Rightarrow> purpose \<Rightarrow> jstr \<Rightarrow> page_request \<Rightarrow> bool" where
  "launched purl g p w q \<longleftrightarrow> g_alive g \<and> holds g p w q \<and> q_reason q = None \<and> g_active g p = Some w \<and> w \<in> set (g_pending g) \<and>
     g_base g p = Some (q_base q) \<and> current purl g p (q_signature q) (q_base q) \<and> g_report g p = None"

lemma holds_update: "holds g p w q \<Longrightarrow> q_purpose (f q) = q_purpose q \<Longrightarrow> q_signature (f q) = q_signature q \<Longrightarrow>
    holds (update_request w f g) p w (f q)"
  by (simp add: holds_def)

lemma rejected_true:
  assumes "g_alive g" "holds g p w q" "sound_reason q"
  shows "lane_true purl p (reject_request w e g)"
  using reject_holder [OF assms] by (intro idle_true) simp_all

definition expired :: "jstr \<Rightarrow> page \<Rightarrow> page" where
  "expired w g = update_request w (\<lambda>q. q\<lparr>q_reason := Some ByTimeout, q_aborted := True\<rparr>) g"

definition timed_request :: "jstr \<Rightarrow> page \<Rightarrow> page" where
  "timed_request w g = update_request w (\<lambda>q. q\<lparr>q_timer := True\<rparr>) g"

definition unsent :: "canonical_input \<Rightarrow> page \<Rightarrow> bool" where
  "unsent c g \<longleftrightarrow> input_auth c \<and> input_base c \<in> set (g_indeterminate g)"

definition used_bearer :: "canonical_input \<Rightarrow> start_reading \<Rightarrow> jstr" where
  "used_bearer c rd = (if input_auth c then sd_token rd else [])"

lemma send_unfolded: "send_request purl w c limit rd g =
    (if unsent c g then reject_request w (typed_rejection ''http'' ''credential_indeterminate'' CREDENTIAL_RECONCILIATION_MESSAGE) g
     else if max 0 (limit - max 0 (sd_now rd - sd_started rd)) = 0 then reject_request w timeout_rejection (expired w g)
     else if used_bearer c rd = [] then timed_request w g\<lparr>g_sent := (input_base c, []) # g_sent (timed_request w g)\<rparr>
     else (case purl (input_base c) of None \<Rightarrow> reject_request w (Thrown True [], Falsy) (timed_request w g)
       | Some u \<Rightarrow> if insecure_base u
           then reject_request w (typed_rejection ''http'' ''insecure_auth'' INSECURE_AUTH_MESSAGE) (timed_request w g)
           else timed_request w g\<lparr>g_sent := (input_base c, used_bearer c rd) # g_sent (timed_request w g)\<rparr>))"
  by (simp only: send_request_def Let_def expired_def timed_request_def unsent_def used_bearer_def)

lemma send_cases:
  obtains e where "send_request purl w c limit rd g = reject_request w e g"
  | e where "send_request purl w c limit rd g = reject_request w e (expired w g)"
  | e where "send_request purl w c limit rd g = reject_request w e (timed_request w g)"
  | "send_request purl w c limit rd g =
        timed_request w g\<lparr>g_sent := (input_base c, used_bearer c rd) # g_sent (timed_request w g)\<rparr>" "\<not> unsent c g"
      "used_bearer c rd \<noteq> [] \<longrightarrow> (\<exists>u. purl (input_base c) = Some u \<and> \<not> insecure_base u)"
proof -
  note s = send_unfolded [of purl w c limit rd g]
  consider "unsent c g" | "\<not> unsent c g" "max 0 (limit - max 0 (sd_now rd - sd_started rd)) = 0"
    | "\<not> unsent c g" "max 0 (limit - max 0 (sd_now rd - sd_started rd)) \<noteq> 0" by blast
  then show thesis
  proof cases
    case 1 with s that(1) show thesis by simp
  next
    case 2 with s that(2) show thesis by simp
  next
    case 3
    note s3 = s [unfolded if_not_P [OF 3(1)] if_not_P [OF 3(2)]]
    show thesis
    proof (cases "used_bearer c rd = []")
      case True
      with s3 3(1) that(4) show thesis by simp
    next
      case False
      note s4 = s3 [unfolded if_not_P [OF False]]
      show thesis
      proof (cases "purl (input_base c)")
        case None
        with s4 that(3) show thesis by simp
      next
        case (Some u)
        with s4 3(1) that(3,4) show thesis by (cases "insecure_base u") simp_all
      qed
    qed
  qed
qed

lemma send_true:
  assumes "launched purl g p w q"
  shows "lane_true purl p (send_request purl w c limit rd g)"
proof -
  have h: "g_alive g" "holds g p w q" "sound_reason q" using assms by (simp_all add: launched_def sound_reason_def)
  have t: "holds (timed_request w g) p w (q\<lparr>q_timer := True\<rparr>)" "sound_reason (q\<lparr>q_timer := True\<rparr>)" "g_alive (timed_request w g)"
    "holds (expired w g) p w (q\<lparr>q_reason := Some ByTimeout, q_aborted := True\<rparr>)" "g_alive (expired w g)"
    "sound_reason (q\<lparr>q_reason := Some ByTimeout, q_aborted := True\<rparr>)"
    using h holds_update [OF h(2), of "\<lambda>q. q\<lparr>q_timer := True\<rparr>"]
      holds_update [OF h(2), of "\<lambda>q. q\<lparr>q_reason := Some ByTimeout, q_aborted := True\<rparr>"]
    by (simp_all add: timed_request_def expired_def sound_reason_def)
  have sent: "lane_true purl p (timed_request w g\<lparr>g_sent := ss\<rparr>)" for ss
  proof -
    have c: "current purl (timed_request w g\<lparr>g_sent := ss\<rparr>) p s b = current purl g p s b" for s b
      by (rule current_frame) (simp_all add: timed_request_def)
    have "phase_of g p = phase.Loading" using h(2) by (simp add: holds_def ownsRequest_def)
    moreover have "\<exists>w' q'. holds (timed_request w g\<lparr>g_sent := ss\<rparr>) p w' q' \<and> w' \<in> set (g_pending g) \<and>
        armed (timed_request w g\<lparr>g_sent := ss\<rparr>) p w' q' \<and> g_base g p = Some (q_base q') \<and> current purl g p (q_signature q') (q_base q')"
      using assms t(1) by (intro exI [of _ w] exI [of _ "q\<lparr>q_timer := True\<rparr>"])
        (simp add: launched_def armed_def holds_def timed_request_def)
    ultimately show ?thesis using assms
      by (simp add: lane_true_def shows_current_def waits_def c launched_def) (simp add: timed_request_def)
  qed
  show ?thesis
    by (rule send_cases [of purl w c limit rd g])
      (simp_all add: sent rejected_true [OF h] rejected_true [OF t(3,1,2)] rejected_true [OF t(5,4,6)])
qed

lemma sent_untouched [simp]: "untouched p g (h\<lparr>g_sent := ss\<rparr>) = untouched p g h"
  by (simp add: untouched_def)

lemma timed_parts [simp]:
  "g_requests g w = Some q \<Longrightarrow> q_purpose q \<noteq> p \<Longrightarrow> untouched p g (timed_request w g)"
  "g_requests g w = Some q \<Longrightarrow> q_purpose q \<noteq> p \<Longrightarrow> untouched p g (expired w g)"
  "stored g \<Longrightarrow> stored (timed_request w g)" "stored g \<Longrightarrow> stored (expired w g)"
  by (simp_all add: timed_request_def expired_def update_untouched update_stored)

lemma rejected_untouched:
  assumes "untouched p g h" "g_requests h w = Some q" "q_purpose q \<noteq> p"
  shows "untouched p g (reject_request w e h)"
  using untouched_trans [OF assms(1) reject_untouched [OF assms(2,3)]] .

lemma send_untouched:
  assumes "g_requests g w = Some q" "q_purpose q \<noteq> p"
  shows "untouched p g (send_request purl w c limit rd g)"
proof -
  have r: "\<exists>q'. g_requests (expired w g) w = Some q' \<and> q_purpose q' \<noteq> p" "\<exists>q'. g_requests (timed_request w g) w = Some q' \<and> q_purpose q' \<noteq> p"
    using assms by (simp_all add: expired_def timed_request_def)
  have u: "untouched p g (reject_request w e g)" "untouched p g (reject_request w e (expired w g))"
    "untouched p g (reject_request w e (timed_request w g))" for e
    by (rule rejected_untouched [OF untouched_refl assms]) (use r rejected_untouched timed_parts(1,2) [OF assms] in blast)+
  show ?thesis by (rule send_cases [of purl w c limit rd g]) (simp_all add: u timed_parts(1) [OF assms])
qed

lemma send_stored: "stored g \<Longrightarrow> stored (send_request purl w c limit rd g)"
  by (rule send_cases [of purl w c limit rd g]) (simp_all add: reject_stored)

definition launch :: "purpose \<Rightarrow> jstr \<Rightarrow> page_request \<Rightarrow> report option lane \<Rightarrow> page \<Rightarrow> page" where
  "launch p w q l g = set_active p (Some w) g\<lparr>g_requests := (g_requests g)(w := Some q), g_base := (g_base g)(p := Some (q_base q)),
     g_lane := (g_lane g)(p := l), g_pending := w # g_pending g\<rparr>"

lemma launch_untouched: "g_requests g w = None \<Longrightarrow> p' \<noteq> p \<Longrightarrow> untouched p' g (launch p w q l g)"
  by (auto simp: untouched_def launch_def set_active_def)

lemma launch_stored:
  assumes "stored g" "g_requests g w = None" "q_purpose q = p" "w = owner_id p (g_sequence g)"
  shows "stored (launch p w q l g)"
proof -
  have "\<exists>q'. g_requests (launch p w q l g) w' = Some q' \<and> q_purpose q' = p'" if "g_active (launch p w q l g) p' = Some w'" for p' w'
    using that assms(2,3) active_request [OF assms(1), of p' w'] by (auto simp: launch_def set_active_def split: if_splits)
  moreover have "\<exists>n \<le> g_sequence g. w' = owner_id (q_purpose q') n" if "g_requests (launch p w q l g) w' = Some q'" for w' q'
    using assms that unfolding stored_def owners_numbered_def by (auto simp: launch_def set_active_def split: if_splits)
  moreover have "g_requests (launch p w q l g) w' \<noteq> None" if "w' \<in> set (g_pending (launch p w q l g))" for w'
    using assms that unfolding stored_def by (auto simp: launch_def set_active_def)
  ultimately show ?thesis using assms(1)
    by (simp add: stored_def tracked_def owners_numbered_def) (simp add: launch_def set_active_def)
qed

lemma start_request_launches:
  assumes "sig \<noteq> []" "0 \<le> sd_started rd" "sd_started rd \<le> MAX_SAFE"
  shows "\<exists>l q. start_request purl p c sig limit rd g =
      send_request purl (owner_id p (g_sequence g)) c limit rd (launch p (owner_id p (g_sequence g)) q l g) \<and>
    q_purpose q = p \<and> q_signature q = sig \<and> q_base q = input_base c \<and> q_reason q = None \<and> l_phase l = phase.Loading \<and>
    ownsRequest l (Some (owner_id p (g_sequence g))) sig"
proof -
  let ?w = "owner_id p (g_sequence g)"
  let ?q = "\<lparr>q_purpose = p, q_signature = sig, q_base = input_base c, q_reason = None, q_aborted = False, q_timer = False\<rparr>"
  let ?l = "g_lane g p\<lparr>l_phase := phase.Loading, l_signature := sig, l_active := Some \<lparr>a_owner = ?w, a_signature = sig,
    a_startedAt = jint (sd_started rd)\<rparr>, l_result := None, l_error := None, l_cancellation := None\<rparr>"
  have "start_request purl p c sig limit rd g = send_request purl ?w c limit rd (launch p ?w ?q ?l g)"
    using started_lane [OF owner_id_nonempty assms, of "g_lane g p" p "g_sequence g"]
    by (simp add: start_request_def Let_def launch_def set_active_def)
  then show ?thesis by (intro exI [of _ ?l] exI [of _ ?q]) (simp add: ownsRequest_def)
qed

lemma start_request_true:
  assumes "g_alive g" "stored g" "g_report g p = None" "g_requests g (owner_id p (g_sequence g)) = None"
    "readInput purl p g = Some c" "input_signature purl p c g = Some sig" "sig \<noteq> []" "0 \<le> sd_started rd" "sd_started rd \<le> MAX_SAFE"
  shows "lane_true purl p (start_request purl p c sig limit rd g) \<and> stored (start_request purl p c sig limit rd g) \<and>
    (\<forall>p'. p' \<noteq> p \<longrightarrow> untouched p' g (start_request purl p c sig limit rd g))"
proof -
  let ?w = "owner_id p (g_sequence g)"
  obtain l q where s: "start_request purl p c sig limit rd g = send_request purl ?w c limit rd (launch p ?w q l g)"
    and q: "q_purpose q = p" "q_signature q = sig" "q_base q = input_base c" "q_reason q = None" "ownsRequest l (Some ?w) sig"
    using start_request_launches [OF assms(7-9)] by blast
  let ?h = "launch p ?w q l g"
  have "current purl ?h p sig (input_base c) = current purl g p sig (input_base c)"
    by (rule current_frame) (simp_all add: launch_def set_active_def)
  then have "launched purl ?h p ?w q" using assms(1,3,5,6) q
    by (simp add: launched_def current_def) (simp add: launch_def holds_def set_active_def)
  then have "lane_true purl p (send_request purl ?w c limit rd ?h)" by (rule send_true)
  moreover have "stored (send_request purl ?w c limit rd ?h)"
    using launch_stored [OF assms(2,4) q(1) refl] by (rule send_stored)
  moreover have "untouched p' g (send_request purl ?w c limit rd ?h)" if "p' \<noteq> p" for p'
    using untouched_trans [OF launch_untouched [OF assms(4) that] send_untouched [of ?h ?w q p']] q(1) that
    by (simp add: launch_def)
  ultimately show ?thesis unfolding s by blast
qed

section \<open>Every operation keeps the page true\<close>

definition page_ok :: "url_parser \<Rightarrow> page \<Rightarrow> bool" where
  "page_ok purl g \<longleftrightarrow> stored g \<and> (g_alive g \<longrightarrow> (\<forall>p. lane_true purl p g))"

lemma stored_sequence: "stored g \<Longrightarrow> stored (g\<lparr>g_sequence := g_sequence g + 1\<rparr>)"
  by (simp add: stored_def tracked_def owners_numbered_def) (meson le_SucI)

lemma page_ok_other:
  assumes "page_ok purl g" "g_alive g" "stored g'" "lane_true purl p g'" "\<And>p'. p' \<noteq> p \<Longrightarrow> untouched p' g g'"
  shows "page_ok purl g'"
  using assms untouched_true unfolding page_ok_def by metis

lemma readInput_form: "g_form g' p = g_form g p \<Longrightarrow> readInput purl p g' = readInput purl p g"
  by (simp only: readInput_def)

text \<open>The page when the owner of a new request is named.\<close>

definition prepared :: "purpose \<Rightarrow> page \<Rightarrow> page" where
  "prepared p g = (let g = clearPurpose p (stop_active ByReplacement p g) in g\<lparr>g_sequence := g_sequence g + 1\<rparr>)"

lemma prepared_frame [simp]:
  "g_form (prepared p g) = g_form g" "g_alive (prepared p g) = g_alive g" "g_sequence (prepared p g) = g_sequence g + 1"
  "g_report (prepared p g) p = None" "g_sent (prepared p g) = g_sent g" "g_indeterminate (prepared p g) = g_indeterminate g"
  "g_revision (prepared p g) = g_revision g"
  by (simp_all add: prepared_def Let_def clearPurpose_def)

lemma prepared_ok:
  assumes "stored g"
  shows "stored (prepared p g)" "p' \<noteq> p \<Longrightarrow> untouched p' g (prepared p g)"
    "g_requests (prepared p g) (owner_id p (g_sequence g + 1)) = None"
proof -
  have st: "stored (clearPurpose p (stop_active ByReplacement p g))" using assms by (simp add: stored_stop)
  then show "stored (prepared p g)" using stored_sequence [OF st] by (simp add: prepared_def Let_def)
  show "p' \<noteq> p \<Longrightarrow> untouched p' g (prepared p g)" using assms by (simp add: prepared_def Let_def stop_untouched)
  show "g_requests (prepared p g) (owner_id p (g_sequence g + 1)) = None"
    using fresh_owner [OF st, of "g_sequence g + 1" p] by (simp add: prepared_def Let_def clearPurpose_def)
qed

lemma start_accepts:
  assumes "url_laws purl" "stored g" "g_alive g" "readInput purl p g = Some c"
  obtains sig limit where "input_signature purl p c g = Some sig" "sig \<noteq> []" "clientTimeoutMS (request_payload c) = Some limit"
    "start purl p rd g = start_request purl p c sig limit rd (prepared p g)"
proof -
  let ?g = "clearPurpose p (stop_active ByReplacement p g)"
  have "submitted_input purl p (g_form g p) = Some c" using assms(4) by (simp add: readInput_def split: if_splits)
  then obtain limit where limit: "clientTimeoutMS (request_payload c) = Some limit"
    using timeout_exists canonical_input_ok by blast
  obtain sig where sig: "input_signature purl p c g = Some sig" "sig \<noteq> []"
    using signature_exists [OF assms(1,2,4)] by blast
  have "readInput purl p ?g = Some c" using readInput_form [of ?g p g purl] assms(4) by (simp add: clearPurpose_def)
  moreover have "input_signature purl p c ?g = Some sig" using sig(1) by (simp add: input_signature_def clearPurpose_def)
  ultimately have "start purl p rd g = start_request purl p c sig limit rd (prepared p g)"
    using assms(3) limit by (simp add: start_def Let_def prepared_def)
  with sig limit show thesis by (rule that)
qed

lemma page_start_ok:
  assumes "url_laws purl" "page_ok purl g" "0 \<le> sd_started rd" "sd_started rd \<le> MAX_SAFE"
  shows "page_ok purl (start purl p rd g)"
proof (cases "g_alive g")
  case alive: True
  have st: "stored g" using assms(2) by (simp add: page_ok_def)
  show ?thesis
  proof (cases "readInput purl p g")
    case None
    let ?g = "clearPurpose p (stop_active ByReplacement p g)"
    have "readInput purl p ?g = None" using readInput_form [of ?g p g purl] None by (simp add: clearPurpose_def)
    then have "start purl p rd g = forget_input [] p ?g" using alive by (simp add: start_def Let_def)
    moreover have "lane_true purl p (forget_input [] p ?g)" by (intro idle_true) (simp_all add: forgotten_lane)
    ultimately show ?thesis using st stored_stop [OF st]
      by (intro page_ok_other [OF assms(2) alive, of _ p]) (simp_all add: stop_untouched)
  next
    case (Some c)
    obtain sig limit where s: "input_signature purl p c g = Some sig" "sig \<noteq> []"
      "start purl p rd g = start_request purl p c sig limit rd (prepared p g)" using start_accepts [OF assms(1) st alive Some] .
    let ?g = "start_request purl p c sig limit rd (prepared p g)"
    have "lane_true purl p ?g \<and> stored ?g \<and> (\<forall>p'. p' \<noteq> p \<longrightarrow> untouched p' (prepared p g) ?g)"
    proof (rule start_request_true)
      show "readInput purl p (prepared p g) = Some c" using readInput_form [of "prepared p g" p g purl] Some by simp
      show "input_signature purl p c (prepared p g) = Some sig" using s(1) by (simp add: input_signature_def)
    qed (use prepared_ok [OF st] s(2) alive assms in simp_all)
    then have r: "lane_true purl p ?g" "stored ?g" "\<And>p'. p' \<noteq> p \<Longrightarrow> untouched p' (prepared p g) ?g" by blast+
    have "untouched p' g ?g" if "p' \<noteq> p" for p'
      using untouched_trans [OF prepared_ok(2) [OF st that] r(3) [OF that]] .
    then show ?thesis unfolding s(3) by (rule page_ok_other [OF assms(2) alive r(2,1)])
  qed
qed (use assms in \<open>simp add: start_def\<close>)

lemma page_settle_ok:
  assumes "page_ok purl g"
  shows "page_ok purl (settle_request w o' g)"
proof (cases "g_requests g w")
  case None
  then show ?thesis using assms
    by (cases o') (simp_all add: settle_request_def reject_request_def answer_request_def)
next
  case (Some q)
  have st: "stored g" using assms by (simp add: page_ok_def)
  show ?thesis
  proof (cases "g_alive g")
    case True
    then have l: "lane_true purl (q_purpose q) g" using assms by (simp add: page_ok_def)
    show ?thesis
      using assms True reject_true [OF True l Some refl] answer_true [OF True l Some refl] reject_untouched [OF Some]
        answer_untouched [OF Some] reject_stored [OF st] answer_stored [OF st]
      by (cases o') (auto simp: settle_request_def intro!: page_ok_other [OF assms True, of _ "q_purpose q"])
  next
    case False
    have "\<not> g_alive (settle_request w o' g)"
      using False Some by (cases o') (simp_all add: settle_request_def reject_request_def answer_request_def Let_def)
    then show ?thesis using reject_stored [OF st] answer_stored [OF st] st
      by (cases o') (simp_all add: page_ok_def settle_request_def)
  qed
qed

lemma invalidations:
  assumes "stored g"
  shows "stored (fold (\<lambda>(p, v) g. invalidate purl p g) changes g) \<and>
    g_alive (fold (\<lambda>(p, v) g. invalidate purl p g) changes g) = g_alive g \<and>
    (\<forall>p. g_alive g \<longrightarrow> p \<in> fst ` set changes \<or> lane_true purl p g \<longrightarrow>
      lane_true purl p (fold (\<lambda>(p, v) g. invalidate purl p g) changes g))"
  using assms
proof (induction changes arbitrary: g)
  case (Cons x xs)
  obtain p v where x: "x = (p, v)" by (cases x)
  have "lane_true purl p' (invalidate purl p g)" if "g_alive g" "p' = p \<or> lane_true purl p' g" for p'
    using that invalidate_true [of g purl p] untouched_true [OF invalidate_untouched [OF Cons.prems]] by (cases "p' = p") auto
  then show ?case using Cons.IH [OF invalidate_stored [OF Cons.prems]] by (auto simp: x)
qed simp

lemma forms_kept: "p \<notin> fst ` set changes \<Longrightarrow> fold (\<lambda>(p, v) f. f(p := v)) changes f p = f p"
  by (induction changes arbitrary: f) auto

lemma type_ok:
  assumes "page_ok purl g"
  shows "page_ok purl (type_into purl changes g)"
proof -
  let ?h = "g\<lparr>g_form := fold (\<lambda>(p, v) f. f(p := v)) changes (g_form g)\<rparr>"
  have "lane_true purl p ?h" if "g_alive g" "p \<notin> fst ` set changes" for p
  proof (rule untouched_true)
    show "untouched p g ?h" using forms_kept [OF that(2)] by (simp add: untouched_def)
    show "lane_true purl p g" using assms that(1) by (simp add: page_ok_def)
  qed
  then show ?thesis using assms invalidations [of ?h purl changes] unfolding type_into_def page_ok_def by auto
qed

lemma waiting:
  assumes "lane_true purl p g" "phase_of g p = phase.Loading"
  obtains w q where "holds g p w q" "w \<in> set (g_pending g)" "armed g p w q" "g_base g p = Some (q_base q)"
    "current purl g p (q_signature q) (q_base q)"
  using assms by (auto simp: lane_true_def waits_def)

text \<open>A new revision of a base that a purpose does not use is no change for it.\<close>

lemma revision_true:
  assumes "lane_true purl p g" "\<not> owns_base purl b p g"
  shows "lane_true purl p (g\<lparr>g_revision := (g_revision g)(b := n), g_indeterminate := xs\<rparr>)"
proof -
  let ?h = "g\<lparr>g_revision := (g_revision g)(b := n), g_indeterminate := xs\<rparr>"
  have c: "current purl ?h p s b' = current purl g p s b'" if "b' \<noteq> b" for s b'
    by (rule current_frame) (use that in simp_all)
  have "shows_current purl ?h p"
  proof (cases "phase_of g p = phase.Ready")
    case True
    then obtain r b' where r: "g_active g p = None" "l_result (g_lane g p) = Some r" "r_report r \<noteq> None" "g_report g p = r_report r"
      "g_base g p = Some b'" "current purl g p (r_signature r) b'" using assms(1) by (auto simp: lane_true_def shows_current_def)
    then have "b' \<noteq> b" using assms(2) by (auto simp: owns_base_def)
    then show ?thesis using True r c by (simp add: shows_current_def)
  qed (use assms(1) in \<open>simp add: lane_true_def shows_current_def\<close>)
  moreover have "waits purl ?h p"
    unfolding waits_def
  proof
    assume "phase_of ?h p = phase.Loading"
    then obtain w q where q: "holds g p w q" "w \<in> set (g_pending g)" "armed g p w q" "g_base g p = Some (q_base q)"
      "current purl g p (q_signature q) (q_base q)" using waiting [OF assms(1)] by auto
    then have "q_base q \<noteq> b" using assms(2) by (auto simp: owns_base_def armed_def holds_def)
    then show "\<exists>w q. holds ?h p w q \<and> w \<in> set (g_pending ?h) \<and> armed ?h p w q \<and> g_base ?h p = Some (q_base q) \<and>
        current purl ?h p (q_signature q) (q_base q)"
      using q c by (intro exI [of _ w] exI [of _ q]) (simp add: holds_def armed_def)
  qed
  ultimately show ?thesis by (simp add: lane_true_def)
qed

lemma owns_base_untouched:
  assumes "stored g" "untouched p g g'"
  shows "owns_base purl b p g' = owns_base purl b p g"
proof -
  have "Option.bind (g_active g' p) (g_requests g') = Option.bind (g_active g p) (g_requests g)"
    using assms active_request [OF assms(1), of p] by (cases "g_active g p") (auto simp: untouched_def)
  moreover have "readInput purl p g' = readInput purl p g" using assms(2) by (simp only: readInput_def untouched_def)
  moreover have "g_base g' p = g_base g p" using assms(2) by (simp add: untouched_def)
  ultimately show ?thesis by (simp only: owns_base_def)
qed

lemma owns_base_cong:
  "g_active g' p = g_active g p \<Longrightarrow> g_requests g' = g_requests g \<Longrightarrow> g_base g' p = g_base g p \<Longrightarrow>
    g_form g' p = g_form g p \<Longrightarrow> owns_base purl b p g' = owns_base purl b p g"
  by (simp only: owns_base_def readInput_def)

lemma owns_base_revision: "owns_base purl b p (g\<lparr>g_revision := r, g_indeterminate := xs\<rparr>) = owns_base purl b p g"
  by (rule owns_base_cong) simp_all

lemma invalidate_bases:
  assumes "stored g" "g_alive g" "\<And>p. \<not> owns_base purl b p g \<Longrightarrow> lane_true purl p g"
  shows "stored (invalidateCredentialBase purl b g)" "g_alive (invalidateCredentialBase purl b g)"
    "lane_true purl p (invalidateCredentialBase purl b g)"
proof -
  let ?f = "\<lambda>p g. if owns_base purl b p g then invalidate purl p g else g"
  have f: "stored (?f p' h) \<and> g_alive (?f p' h) \<and> lane_true purl p' (?f p' h)"
    if "stored h" "g_alive h" "\<not> owns_base purl b p' h \<Longrightarrow> lane_true purl p' h" for p' h
    using that invalidate_stored invalidate_true by simp
  let ?g = "?f Diagnostics g"
  note d = f [OF assms(1,2) assms(3), of Diagnostics]
  have u: "untouched Topology g ?g" using invalidate_untouched [OF assms(1), of Topology Diagnostics] by simp
  have "lane_true purl Topology ?g" if "\<not> owns_base purl b Topology ?g"
    using that untouched_true [OF u] assms(3) owns_base_untouched [OF assms(1) u] by simp
  then have t: "stored (?f Topology ?g) \<and> g_alive (?f Topology ?g) \<and> lane_true purl Topology (?f Topology ?g)"
    using f [of ?g Topology] d by blast
  have "untouched Diagnostics ?g (?f Topology ?g)" using invalidate_untouched [of ?g Diagnostics Topology] d by simp
  then have "lane_true purl Diagnostics (?f Topology ?g)" using untouched_true d by blast
  then show "stored (invalidateCredentialBase purl b g)" "g_alive (invalidateCredentialBase purl b g)"
    "lane_true purl p (invalidateCredentialBase purl b g)" using t by (cases p; simp add: invalidateCredentialBase_def)+
qed

lemma dead_invalidation: "\<not> g_alive g \<Longrightarrow> invalidateCredentialBase purl b g = g"
  by (simp add: invalidateCredentialBase_def invalidate_def)

lemma revision_ok:
  assumes "page_ok purl g" "int (g_revision g b) < MAX_SAFE"
  shows "page_ok purl (invalidateCredentialBase purl b (g\<lparr>g_revision := (g_revision g)(b := g_revision g b + 1), g_indeterminate := xs\<rparr>))"
proof -
  let ?h = "g\<lparr>g_revision := (g_revision g)(b := g_revision g b + 1), g_indeterminate := xs\<rparr>"
  have st: "stored ?h" using assms by (auto simp: page_ok_def stored_def tracked_def owners_numbered_def)
  show ?thesis
  proof (cases "g_alive g")
    case True
    have "lane_true purl p ?h" if "\<not> owns_base purl b p ?h" for p
      using that revision_true [of purl p g b] assms(1) True by (simp add: owns_base_revision page_ok_def)
    then show ?thesis using invalidate_bases [OF st] True by (simp add: page_ok_def)
  next
    case False
    then show ?thesis using st by (simp add: dead_invalidation page_ok_def)
  qed
qed

lemma credential_ok:
  assumes "page_ok purl g" "int (g_revision g b) < MAX_SAFE"
  shows "page_ok purl (applyCredential purl b clear bearer s g)"
  using revision_ok [OF assms] assms(1) by (simp add: applyCredential_def Let_def split: credential_effect.split)

lemma unloaded_true:
  assumes "stored g" "lane_true purl p g"
  shows "lane_true purl p (set_active p None (stop_active ByUnload p g))"
proof -
  let ?h = "set_active p None (stop_active ByUnload p g)"
  have c: "current purl ?h p s b = current purl g p s b" for s b by (rule current_frame) (simp_all add: set_active_def)
  have "shows_current purl ?h p" using assms(2) c
    by (auto simp: lane_true_def shows_current_def set_active_def split: if_splits)
  moreover have "waits purl ?h p"
    unfolding waits_def
  proof
    assume "phase_of ?h p = phase.Loading"
    then obtain w q where q: "holds g p w q" "w \<in> set (g_pending g)" "armed g p w q" "g_base g p = Some (q_base q)"
      "current purl g p (q_signature q) (q_base q)" using waiting [OF assms(2)] by (auto simp: set_active_def)
    let ?q = "if g_active g p = Some w then stop_request ByUnload q else q"
    have "holds ?h p w ?q" "armed ?h p w ?q" using q(1,3)
      by (auto simp: holds_def armed_def set_active_def stopped_request)
    then show "\<exists>w q. holds ?h p w q \<and> w \<in> set (g_pending ?h) \<and> armed ?h p w q \<and> g_base ?h p = Some (q_base q) \<and>
        current purl ?h p (q_signature q) (q_base q)"
      using q c by (intro exI [of _ w] exI [of _ ?q]) (simp add: set_active_def)
  qed
  ultimately show ?thesis by (simp add: lane_true_def)
qed

lemma stop_one:
  assumes "stored g"
  shows "stored (set_active p None (stop_active c p g))" "p' \<noteq> p \<Longrightarrow> untouched p' g (set_active p None (stop_active c p g))"
  using stored_stop [OF assms] stop_untouched(2) [OF assms] by simp_all

lemma unload_ok:
  assumes "page_ok purl g"
  shows "page_ok purl (unload g)"
proof (cases "g_alive g")
  case True
  let ?f = "\<lambda>p g. set_active p None (stop_active ByUnload p g)"
  have f: "page_ok purl (?f p h)" if "page_ok purl h" "g_alive h" for p h
    using that unloaded_true stop_one [of h]
    by (intro page_ok_other [OF that, of _ p]) (simp_all add: page_ok_def)
  have "page_ok purl (?f Topology (?f Diagnostics g))" by (intro f assms) (simp_all add: True)
  then show ?thesis using True by (simp add: unload_def)
qed (use assms in \<open>simp add: unload_def\<close>)

lemma destroy_ok: "page_ok purl g \<Longrightarrow> page_ok purl (destroy_page g)"
  using stop_one(1) by (simp add: destroy_page_def page_ok_def)

lemma cancelled_lane: "ownsRequest s (Some w) sig \<Longrightarrow>
    l_phase (lane_step (page_event ''REQUEST_CANCELLED'' (Some w) sig
      \<lparr>e_reason := Some (if navigation then js ''navigation'' else js ''user'')\<rparr>) s) = phase.Cancelled"
  by (simp add: lane_step_def transitionRequest_def settle_def reason_of_def)

lemma cancel_ok:
  assumes "page_ok purl g"
  shows "page_ok purl (cancel_request p navigation g)"
proof (cases "g_alive g \<and> g_active g p \<noteq> None")
  case True
  then obtain w where w: "g_alive g" "g_active g p = Some w" by auto
  have st: "stored g" and lt: "lane_true purl p g" using assms w by (simp_all add: page_ok_def)
  obtain q where q: "g_requests g w = Some q" "q_purpose q = p" using active_request [OF st w(2)] by blast
  define c where "c = (if navigation then ByNavigation else ByUser)"
  define h where "h = stop_active c p g"
  have h: "stored h" "g_alive h" "g_requests h w = Some (stop_request c q)" "g_lane h = g_lane g" "\<And>p'. p' \<noteq> p \<Longrightarrow> untouched p' g h"
    using stored_stop [OF st] stop_untouched(2) [OF st] w q by (simp_all add: h_def stopped_request)
  show ?thesis
  proof (cases "ownsRequest (g_lane g p) (Some w) (q_signature q)")
    case own: True
    let ?e = "page_event ''REQUEST_CANCELLED'' (Some w) (q_signature q)
      \<lparr>e_reason := Some (if navigation then js ''navigation'' else js ''user'')\<rparr>"
    have r: "cancel_request p navigation g = clearPurpose p (to_lane p (page_event ''REQUEST_FINALIZED'' (Some w) (q_signature q))
        (set_active p None (to_lane p ?e h)))"
      using w own h(3,4) by (simp add: cancel_request_def Let_def page_owns_request flip: c_def h_def)
    have "lane_true purl p (cancel_request p navigation g)" unfolding r
      using cancelled_lane [OF own] h(4) by (intro idle_true) (simp_all add: clearPurpose_def to_lane_def set_active_def)
    then show ?thesis using h unfolding r by (intro page_ok_other [OF assms w(1), of _ p]) simp_all
  next
    case False
    then have r: "cancel_request p navigation g = h"
      using w h(3,4) by (simp add: cancel_request_def Let_def page_owns_request flip: c_def h_def)
    have "phase_of g p \<noteq> phase.Loading"
    proof
      assume "phase_of g p = phase.Loading"
      then obtain w' q' where "holds g p w' q'" "armed g p w' q'" using waiting [OF lt] by blast
      then show False using w(2) q False by (auto simp: armed_def holds_def)
    qed
    moreover have "phase_of g p \<noteq> phase.Ready" using lt w(2) by (auto simp: lane_true_def shows_current_def)
    ultimately have "lane_true purl p h" using lt h(4)
      by (intro idle_true) (simp_all add: lane_true_def shows_current_def h_def)
    then show ?thesis unfolding r using h by (intro page_ok_other [OF assms w(1), of _ p]) simp_all
  qed
qed (use assms in \<open>auto simp: cancel_request_def\<close>)

definition fired :: "page \<Rightarrow> jstr \<Rightarrow> page_request \<Rightarrow> page_request" where
  "fired g w q = (if g_active g (q_purpose q) = Some w
    then q\<lparr>q_reason := Some ByTimeout, q_aborted := True, q_timer := False\<rparr> else q\<lparr>q_timer := False\<rparr>)"

lemma fired_keeps [simp]:
  "q_purpose (fired g w q) = q_purpose q" "q_signature (fired g w q) = q_signature q" "q_base (fired g w q) = q_base q"
  by (simp_all add: fired_def)

lemma timer_fired: "g_requests g w = Some q \<Longrightarrow>
    request_timeout w g = (if q_timer q then update_request w (fired g w) g else g)"
  by (simp add: request_timeout_def update_request_def fired_def)

lemma fired_armed: "armed g p w q \<Longrightarrow> q_purpose q = p \<Longrightarrow> armed (update_request w (fired g w) g) p w (fired g w q)"
  by (auto simp: armed_def fired_def)

lemma fired_true:
  assumes "lane_true purl p g"
  shows "lane_true purl p (update_request w (fired g w) g)"
proof -
  let ?h = "update_request w (fired g w) g"
  have c: "current purl ?h p s b = current purl g p s b" for s b by (rule current_frame) simp_all
  have "shows_current purl ?h p" using assms c by (auto simp: lane_true_def shows_current_def split: if_splits)
  moreover have "waits purl ?h p"
    unfolding waits_def
  proof
    assume "phase_of ?h p = phase.Loading"
    then obtain w' q where q: "holds g p w' q" "w' \<in> set (g_pending g)" "armed g p w' q" "g_base g p = Some (q_base q)"
      "current purl g p (q_signature q) (q_base q)" using waiting [OF assms] by auto
    let ?q = "if w' = w then fired g w q else q"
    have "holds ?h p w' ?q" using q(1) by (auto simp: holds_def)
    moreover have "armed ?h p w' ?q"
    proof (cases "w' = w")
      case True
      have "armed g p w q" "q_purpose q = p" using q(1,3) True by (simp_all add: holds_def)
      then have "armed ?h p w (fired g w q)" by (rule fired_armed)
      then show ?thesis by (simp add: True)
    qed (use q(3) in \<open>simp add: armed_def\<close>)
    ultimately show "\<exists>w q. holds ?h p w q \<and> w \<in> set (g_pending ?h) \<and> armed ?h p w q \<and> g_base ?h p = Some (q_base q) \<and>
        current purl ?h p (q_signature q) (q_base q)"
      using q c by (intro exI [of _ w'] exI [of _ ?q]) simp
  qed
  ultimately show ?thesis by (simp add: lane_true_def)
qed

lemma timer_ok:
  assumes "page_ok purl g"
  shows "page_ok purl (request_timeout w g)"
proof (cases "g_requests g w")
  case (Some q)
  have "page_ok purl (update_request w (fired g w) g)"
    using assms fired_true update_stored by (simp add: page_ok_def)
  then show ?thesis using assms by (simp add: timer_fired [OF Some])
qed (use assms in \<open>simp add: request_timeout_def\<close>)

section \<open>Every run\<close>

lemma page_step_ok:
  assumes "url_laws purl" "page_ok purl g" "possible g a"
  shows "page_ok purl (page_step purl a g)"
  using assms page_start_ok page_settle_ok type_ok credential_ok unload_ok destroy_ok cancel_ok timer_ok by (cases a) simp_all

lemma new_page_ok: "page_ok purl (new_page forms)"
  by (auto simp: page_ok_def stored_def tracked_def owners_numbered_def new_page_def MAX_SAFE_def createRequestLane_def intro!: idle_true)

lemma run_ok: "page_reaches purl g \<Longrightarrow> url_laws purl \<Longrightarrow> page_ok purl g"
  by (induction rule: page_reaches.induct) (simp_all add: new_page_ok page_step_ok)

end
