(* ===== verification/Plain_Url.thy ===== *)
theory Plain_Url
  imports Request_Input
begin

text \<open>
  A concrete URL parser for which the laws hold that the code relies on: the part of the URL standard that reads
  \<open>http\<close> and \<open>https\<close> texts of lower case letters, digits, dots, hyphens and slashes, the removal of dot
  segments from the path included.  The examples of the page run with it.
\<close>

section \<open>Paths\<close>

definition single_dot :: jstr where "single_dot = js ''.''"
definition double_dot :: jstr where "double_dot = js ''..''"

text \<open>The segments of a path, the last one first in \<open>acc\<close>: a double dot removes the segment before it, and a dot
  segment at the end leaves an empty one.\<close>

fun dot_segments :: "jstr list \<Rightarrow> jstr list \<Rightarrow> jstr list" where
  "dot_segments acc [] = rev acc"
| "dot_segments acc (s # rest) =
     (if s = double_dot then dot_segments ((if rest = [] then [[]] else []) @ tl acc) rest
      else if s = single_dot then dot_segments ((if rest = [] then [[]] else []) @ acc) rest
      else dot_segments (s # acc) rest)"

definition plain_path :: "jstr \<Rightarrow> jstr" where
  "plain_path r = cSlash # join [cSlash] (dot_segments [] (split_on cSlash (tl r)))"

definition dotless :: "jstr list \<Rightarrow> bool" where
  "dotless segs \<longleftrightarrow> single_dot \<notin> set segs \<and> double_dot \<notin> set segs"

lemma dots_nonempty: "single_dot \<noteq> []" "double_dot \<noteq> []"
  by (simp_all add: single_dot_def double_dot_def js_def)

lemma dotless_tl: "dotless acc \<Longrightarrow> dotless (tl acc)"
  by (cases acc) (simp_all add: dotless_def)

lemma dot_segments_dotless: "dotless acc \<Longrightarrow> dotless (dot_segments acc segs)"
proof (induction acc segs rule: dot_segments.induct)
  case (1 acc) then show ?case by (simp add: dotless_def)
next
  case (2 acc s rest)
  from 2(4) dotless_tl [OF 2(4)] dots_nonempty have "dotless ((if rest = [] then [[]] else []) @ tl acc)"
    "dotless ((if rest = [] then [[]] else []) @ acc)" by (simp_all add: dotless_def)
  with 2 show ?case by (simp add: dotless_def)
qed

lemma dot_segments_fixed: "dotless segs \<Longrightarrow> dot_segments acc segs = rev acc @ segs"
  by (induction segs arbitrary: acc) (auto simp: dotless_def)

lemma dot_segments_from: "set (dot_segments acc segs) \<subseteq> insert [] (set acc \<union> set segs)"
proof (induction acc segs rule: dot_segments.induct)
  case (2 acc s rest)
  have "set (tl acc) \<subseteq> set acc" by (cases acc) auto
  with 2 show ?case by (cases "s = double_dot"; cases "s = single_dot"; cases "rest = []") auto
qed auto

lemma split_snoc: "split_on c (xs @ [c]) = split_on c xs @ [[]]"
  by (induction xs) (auto split: list.splits)

lemma split_trailing: "split_on c (xs @ replicate n c) = split_on c xs @ replicate n []"
proof (induction n)
  case (Suc n)
  have "split_on c (xs @ replicate (Suc n) c) = split_on c ((xs @ replicate n c) @ [c])" by (simp add: replicate_append_same)
  then show ?case unfolding split_snoc Suc by (simp add: replicate_append_same)
qed simp

lemma strip_slashes_split: "\<exists>n. p = strip_slashes p @ replicate n cSlash"
proof -
  let ?w = "takeWhile (\<lambda>c. c = cSlash) (rev p)"
  have "rev (rev p) = rev (?w @ dropWhile (\<lambda>c. c = cSlash) (rev p))" by (simp only: takeWhile_dropWhile_id)
  then have "p = strip_slashes p @ rev ?w" unfolding strip_slashes_def by (simp only: rev_append rev_rev_ident)
  moreover have "rev ?w = replicate (length (rev ?w)) cSlash"
    by (rule replicate_length_same [symmetric]) (auto dest: set_takeWhileD)
  ultimately show ?thesis by metis
qed

lemma piece_units: "s \<in> set (split_on c xs) \<Longrightarrow> set s \<subseteq> set xs"
  by (induction xs arbitrary: s) (force split: if_splits list.splits)+

text \<open>A path without its last slashes is read as itself.\<close>

lemma plain_path_stripped:
  assumes "strip_slashes (plain_path r) \<noteq> []"
  shows "plain_path (strip_slashes (plain_path r)) = strip_slashes (plain_path r)"
proof -
  let ?segs = "dot_segments [] (split_on cSlash (tl r))" and ?p = "strip_slashes (plain_path r)"
  have segs: "split_on cSlash (join [cSlash] ?segs) = ?segs" if "?segs \<noteq> []"
  proof (rule split_on_join [OF that], rule ballI)
    fix s assume "s \<in> set ?segs"
    then have "s = [] \<or> s \<in> set (split_on cSlash (tl r))" using dot_segments_from [of "[]" "split_on cSlash (tl r)"] by auto
    then show "cSlash \<notin> set s" using split_on_pieces [of s cSlash "tl r"] by auto
  qed
  have free: "dotless (split_on cSlash (join [cSlash] ?segs))"
  proof (cases "?segs = []")
    case True
    then show ?thesis using dots_nonempty by (simp add: dotless_def)
  next
    case False
    then show ?thesis using segs dot_segments_dotless [of "[]"] by (simp add: dotless_def)
  qed
  obtain n where n: "plain_path r = ?p @ replicate n cSlash" using strip_slashes_split by blast
  obtain q where q: "?p = cSlash # q" using n assms by (cases ?p) (simp_all add: plain_path_def)
  have "plain_path r = cSlash # q @ replicate n cSlash" using n unfolding q by simp
  then have "join [cSlash] ?segs = q @ replicate n cSlash" by (simp add: plain_path_def)
  then have "dotless (split_on cSlash q)" using free by (auto simp: split_trailing dotless_def)
  then show ?thesis unfolding q by (simp add: plain_path_def dot_segments_fixed join_split_on)
qed

section \<open>The parser\<close>

definition url_unit :: "unit16 \<Rightarrow> bool" where
  "url_unit c \<longleftrightarrow> (97 \<le> c \<and> c \<le> 122) \<or> is_digit c \<or> c = cDot \<or> c = cMinus \<or> c = cSlash"

definition read_url :: "jstr \<Rightarrow> jstr \<Rightarrow> url option" where
  "read_url scheme r = (let h = takeWhile (\<lambda>c. c \<noteq> cSlash) r in
     if h = [] \<or> \<not> list_all url_unit r then None
     else Some \<lparr>protocol = scheme, username = [], password = [], host = h, pathname = plain_path (drop (length h) r),
       search = [], hash = [], marks = []\<rparr>)"

definition plain_parser :: url_parser where
  "plain_parser t = (if take 7 t = js ''http://'' then read_url (js ''http:'') (drop 7 t)
     else if take 8 t = js ''https://'' then read_url (js ''https:'') (drop 8 t) else None)"

lemma url_unit_space: "url_unit c \<Longrightarrow> \<not> is_space c"
  by (auto simp: url_unit_def is_space_def is_digit_def word_le_nat_alt word_less_nat_alt)

lemma plain_path_units:
  assumes "list_all url_unit r"
  shows "list_all url_unit (plain_path r)"
proof -
  have r: "url_unit c" if "c \<in> set (tl r)" for c using that assms by (cases r) (auto simp: list_all_iff)
  have "set s \<subseteq> set (tl r)" if "s \<in> set (dot_segments [] (split_on cSlash (tl r)))" for s
    using that dot_segments_from [of "[]" "split_on cSlash (tl r)"] piece_units [of s cSlash "tl r"] by (cases "s = []") auto
  then have "set (join [cSlash] (dot_segments [] (split_on cSlash (tl r)))) \<subseteq> insert cSlash (set (tl r))"
    using set_join [of cSlash "dot_segments [] (split_on cSlash (tl r))"] by blast
  with r show ?thesis by (auto simp: plain_path_def list_all_iff url_unit_def [of cSlash])
qed

lemma read_url_base:
  assumes "read_url scheme r = Some u"
  shows "list_all url_unit (drop (length scheme + 2) (base_text u)) \<and> take (length scheme + 2) (base_text u) = scheme @ js ''//'' \<and>
    read_url scheme (drop (length scheme + 2) (base_text u)) = Some (bare_url u)"
proof -
  define h where "h = takeWhile (\<lambda>c. c \<noteq> cSlash) r"
  define q where "q = plain_path (drop (length h) r)"
  let ?p = "strip_slashes q"
  have h: "h \<noteq> []" "list_all url_unit r" "cSlash \<notin> set h" and u: "u = \<lparr>protocol = scheme, username = [], password = [], host = h,
      pathname = q, search = [], hash = [], marks = []\<rparr>"
    using assms by (auto simp: read_url_def Let_def h_def q_def dest: set_takeWhileD split: if_splits)
  have parts: "list_all url_unit h" "list_all url_unit (drop (length h) r)"
    using h(2) by (auto simp: list_all_iff h_def dest: set_takeWhileD in_set_dropD)
  obtain n where n: "q = ?p @ replicate n cSlash" using strip_slashes_split by blast
  have pu: "list_all url_unit ?p" using plain_path_units [OF parts(2)] n by (metis q_def list_all_append)
  have p: "?p = [] \<or> hd ?p = cSlash" using n by (cases ?p) (auto simp: q_def plain_path_def)
  have "base_text u = scheme @ js ''//'' @ h @ ?p"
  proof (cases "?p = []")
    case True
    then show ?thesis by (simp add: base_text_def bare_url_def url_string_def u Let_def js_def butlast_append)
  next
    case False
    then show ?thesis using strip_slashes_bare [of q]
      by (simp add: base_text_def bare_url_def url_string_def u Let_def js_def)
  qed
  moreover have "takeWhile (\<lambda>c. c \<noteq> cSlash) (h @ ?p) = h"
    using h(3) p by (cases ?p) (auto simp: takeWhile_append takeWhile_eq_all_conv)
  moreover have "plain_path ?p = (if ?p = [] then js ''/'' else ?p)"
    using plain_path_stripped [of "drop (length h) r"] by (simp add: q_def [symmetric]) (simp add: plain_path_def js_def)
  ultimately show ?thesis using h(1) parts(1) pu
    by (simp add: read_url_def Let_def u bare_url_def js_def)
qed

lemma plain_parser_schemes:
  "plain_parser (js ''http:'' @ js ''//'' @ w) = read_url (js ''http:'') w"
  "plain_parser (js ''https:'' @ js ''//'' @ w) = read_url (js ''https:'') w"
  by (simp_all add: plain_parser_def js_def)

lemma plain_parser_laws: "url_laws plain_parser"
proof -
  have "trim (base_text u) = base_text u \<and> plain_parser (base_text u) = Some (bare_url u)" if t: "plain_parser t = Some u" for t u
  proof -
    obtain scheme r where r: "read_url scheme r = Some u" "scheme = js ''http:'' \<or> scheme = js ''https:''"
      using t unfolding plain_parser_def by (cases "take 7 t = js ''http://''"; cases "take 8 t = js ''https://''") simp_all
    note b = read_url_base [OF r(1)]
    define w where "w = drop (length scheme + 2) (base_text u)"
    have w: "base_text u = scheme @ js ''//'' @ w" "list_all url_unit w" "read_url scheme w = Some (bare_url u)"
      using b append_take_drop_id [of "length scheme + 2" "base_text u"] by (simp_all add: w_def)
    have "\<forall>c \<in> set (scheme @ js ''//''). \<not> is_space c" using r(2) by (auto simp: js_def is_space_def)
    then have "\<forall>c \<in> set (base_text u). \<not> is_space c" using w(2) url_unit_space by (auto simp: w(1) list_all_iff)
    then have "trim (base_text u) = base_text u" by (rule trim_no_space)
    moreover have "plain_parser (base_text u) = read_url scheme w" unfolding w(1) using r(2) plain_parser_schemes [of w] by metis
    ultimately show ?thesis using w(3) by simp
  qed
  then show ?thesis unfolding url_laws_def by blast
qed

text \<open>Dot segments do not survive, so the stripped base has none.\<close>

lemma plain_parser_example: "canonicalAPIBase plain_parser (js '' https://h/.a/../api/.//'') = Inr (js ''https://h/api'')"
  by code_simp

end
