(* ===== verification/Page_Runs.thy ===== *)
theory Page_Runs
  imports Page_Facts Context_Addresses Plain_Url
begin

text \<open>What the page promises over every run, and what a single operation may send.\<close>

section \<open>Sending\<close>

lemma sent_frame [simp]:
  "g_sent (to_lane p e g) = g_sent g" "g_sent (set_active p w g) = g_sent g" "g_sent (clearPurpose p g) = g_sent g"
  "g_sent (forget_input sig p g) = g_sent g" "g_sent (update_request v f g) = g_sent g"
  by (simp_all add: page_defs)

lemma sent_kept [simp]:
  "g_sent (finish_request w q g) = g_sent g" "g_sent (catch_rejection w q e g) = g_sent g"
  "g_sent (expired w g) = g_sent g" "g_sent (timed_request w g) = g_sent g" "g_sent (invalidate purl p g) = g_sent g"
  by (simp_all add: finish_request_def catch_rejection_def expired_def timed_request_def invalidate_def Let_def)

lemma reject_sent [simp]: "g_sent (reject_request w e g) = g_sent g"
  by (simp add: reject_request_def split: option.splits)

lemma answer_sent [simp]: "g_sent (answer_request w r presented completed g) = g_sent g"
  by (simp add: answer_request_def Let_def split: option.splits sum.splits)

lemma invalidate_bases_sent [simp]: "g_sent (invalidateCredentialBase purl b g) = g_sent g"
  by (simp add: invalidateCredentialBase_def)

lemma type_sent [simp]: "g_sent (type_into purl changes g) = g_sent g"
proof -
  have "g_sent (fold (\<lambda>(p, v) g. invalidate purl p g) changes h) = g_sent h" for h
    by (induction changes arbitrary: h) auto
  then show ?thesis by (simp add: type_into_def)
qed

lemma only_submit_sends:
  assumes "\<And>p rd. a \<noteq> Submit p rd"
  shows "g_sent (page_step purl a g) = g_sent g"
  using assms
  by (cases a) (auto simp: settle_request_def request_timeout_def cancel_request_def applyCredential_def unload_def
      destroy_page_def Let_def split: outcome.splits option.splits credential_effect.splits)

definition may_send :: "url_parser \<Rightarrow> canonical_input \<Rightarrow> start_reading \<Rightarrow> page \<Rightarrow> page \<Rightarrow> bool" where
  "may_send purl c rd g g' \<longleftrightarrow> g_sent g' = g_sent g \<or> g_sent g' = (input_base c, used_bearer c rd) # g_sent g \<and> \<not> unsent c g \<and>
     (used_bearer c rd \<noteq> [] \<longrightarrow> (\<exists>u. purl (input_base c) = Some u \<and> \<not> insecure_base u))"

lemma send_sends: "may_send purl c rd g (send_request purl w c limit rd g)"
  by (rule send_cases [of purl w c limit rd g]) (simp_all add: may_send_def)

lemma may_send_from: "g_sent h = g_sent g \<Longrightarrow> g_indeterminate h = g_indeterminate g \<Longrightarrow> may_send purl c rd h g' = may_send purl c rd g g'"
  by (simp add: may_send_def unsent_def)

lemma launch_sends [simp]: "g_sent (launch p w q l g) = g_sent g" "g_indeterminate (launch p w q l g) = g_indeterminate g"
  by (simp_all add: launch_def set_active_def)

lemma start_request_sends: "may_send purl c rd g (start_request purl p c sig limit rd g)"
proof -
  let ?w = "owner_id p (g_sequence g)"
  let ?q = "\<lparr>q_purpose = p, q_signature = sig, q_base = input_base c, q_reason = None, q_aborted = False, q_timer = False\<rparr>"
  let ?t = "transitionRequest (g_lane g p) (page_event ''REQUEST_STARTED'' (Some ?w) sig\<lparr>e_time := num (sd_started rd)\<rparr>)"
  show ?thesis
  proof (cases ?t)
    case (Inl x)
    have "start_request purl p c sig limit rd g = set_active p (Some ?w) g\<lparr>g_requests := (g_requests g)(?w := Some ?q),
        g_base := (g_base g)(p := Some (input_base c))\<rparr>"
      by (simp add: start_request_def Let_def set_active_def Inl)
    then have "g_sent (start_request purl p c sig limit rd g) = g_sent g" by (simp add: set_active_def)
    then show ?thesis unfolding may_send_def by blast
  next
    case (Inr l)
    have "start_request purl p c sig limit rd g = send_request purl ?w c limit rd (launch p ?w ?q l g)"
      by (simp add: start_request_def Let_def launch_def set_active_def Inr)
    moreover have "may_send purl c rd (launch p ?w ?q l g) (send_request purl ?w c limit rd (launch p ?w ?q l g))"
      by (rule send_sends)
    ultimately show ?thesis using may_send_from [OF launch_sends] by metis
  qed
qed

lemma cleared [simp]: "g_form (clearPurpose p g) = g_form g" "g_indeterminate (clearPurpose p g) = g_indeterminate g"
  by (simp_all add: clearPurpose_def)

lemma start_sends:
  assumes "g_sent (start purl p rd g) \<noteq> g_sent g"
  shows "g_alive g \<and> (\<exists>c. readInput purl p g = Some c \<and> may_send purl c rd g (start purl p rd g))"
proof -
  define h where "h = clearPurpose p (stop_active ByReplacement p g)"
  have h: "g_sent h = g_sent g" "g_indeterminate h = g_indeterminate g" by (simp_all add: h_def)
  have r: "readInput purl p h = readInput purl p g" by (rule readInput_form) (simp add: h_def)
  have "\<not> g_alive g \<Longrightarrow> start purl p rd g = g" by (simp only: start_def not_False_eq_True if_True)
  then have alive: "g_alive g" using assms by metis
  have s: "start purl p rd g = (case readInput purl p h of None \<Rightarrow> forget_input [] p h
     | Some c \<Rightarrow> (case input_signature purl p c h of None \<Rightarrow> h
       | Some sig \<Rightarrow> (case clientTimeoutMS (request_payload c) of None \<Rightarrow> h\<lparr>g_sequence := g_sequence h + 1\<rparr>
          | Some limit \<Rightarrow> start_request purl p c sig limit rd (h\<lparr>g_sequence := g_sequence h + 1\<rparr>))))"
    unfolding start_def Let_def h_def by (simp only: alive not_True_eq_False if_False)
  have n: "start purl p rd g \<noteq> forget_input [] p h" "start purl p rd g \<noteq> h"
    "start purl p rd g \<noteq> h\<lparr>g_sequence := g_sequence h + 1\<rparr>" using assms h(1) by auto
  have "readInput purl p h = None \<Longrightarrow> False" using n(1) by (simp only: s option.case simp_thms)
  then obtain c where c: "readInput purl p h = Some c" by blast
  have "input_signature purl p c h = None \<Longrightarrow> False" using n(2) by (simp only: s c option.case simp_thms)
  then obtain sig where sig: "input_signature purl p c h = Some sig" by blast
  have "clientTimeoutMS (request_payload c) = None \<Longrightarrow> False" using n(3) by (simp only: s c sig option.case simp_thms)
  then obtain limit where limit: "clientTimeoutMS (request_payload c) = Some limit" by blast
  have "start purl p rd g = start_request purl p c sig limit rd (h\<lparr>g_sequence := g_sequence h + 1\<rparr>)"
    by (simp only: s c sig limit option.case)
  then have "may_send purl c rd (h\<lparr>g_sequence := g_sequence h + 1\<rparr>) (start purl p rd g)"
    using start_request_sends by metis
  moreover have "g_sent (h\<lparr>g_sequence := g_sequence h + 1\<rparr>) = g_sent g"
    "g_indeterminate (h\<lparr>g_sequence := g_sequence h + 1\<rparr>) = g_indeterminate g" using h by simp_all
  ultimately have "may_send purl c rd g (start purl p rd g)" using may_send_from by metis
  then show ?thesis using c r alive by auto
qed

text \<open>C8: An operation that sends a request is the submission of a form of the living page; it sends what the form reads now.
  An input that asks for authentication is not sent to a base whose credential is indeterminate, and a credential
  only goes to a base whose URL is secure or local.\<close>

theorem credential_sent_securely:
  assumes "g_sent (page_step purl a g) \<noteq> g_sent g"
  shows "\<exists>p rd c bearer. a = Submit p rd \<and> g_alive g \<and> readInput purl p g = Some c \<and>
    g_sent (page_step purl a g) = (input_base c, bearer) # g_sent g \<and>
    (input_auth c \<longrightarrow> input_base c \<notin> set (g_indeterminate g)) \<and>
    (bearer \<noteq> [] \<longrightarrow> input_auth c \<and> bearer = sd_token rd \<and>
      (\<exists>u. purl (input_base c) = Some u \<and> \<not> insecure_base u))"
proof -
  obtain p rd where a: "a = Submit p rd" using assms only_submit_sends [of a purl g] by blast
  from start_sends [of purl p rd g] assms a obtain c where c: "g_alive g" "readInput purl p g = Some c"
    "may_send purl c rd g (start purl p rd g)" by auto
  then show ?thesis using assms
    by (intro exI [of _ p] exI [of _ rd] exI [of _ c] exI [of _ "used_bearer c rd"])
      (auto simp: a may_send_def unsent_def used_bearer_def split: if_splits)
qed

section \<open>Reports\<close>

text \<open>C1: Over every run of the living page, a report is held exactly by a ready lane, and then it is the report of the
  result of the lane, whose signature is the one of what the form reads now, credential revision included.  The URL parser
  reads back the bases the code builds of what it parses.\<close>

theorem ready_report_answers_form:
  assumes "url_laws purl" "page_reaches purl g" "g_alive g"
  shows "if l_phase (g_lane g p) = phase.Ready
    then g_report g p \<noteq> None \<and> (\<exists>r c. l_result (g_lane g p) = Some r \<and> g_report g p = r_report r \<and>
      readInput purl p g = Some c \<and> input_signature purl p c g = Some (r_signature r))
    else g_report g p = None"
proof -
  have "shows_current purl g p" using run_ok [OF assms(2,1)] assms(3) by (simp add: page_ok_def lane_true_def)
  then show ?thesis by (auto simp: shows_current_def current_def split: if_splits)
qed

section \<open>Requests\<close>

lemma settled_phase:
  assumes "g_alive g" "holds g p w q" "sound_reason q" "w \<in> set (g_pending g)"
  shows "l_phase (g_lane (settle_request w o' g) p) \<noteq> phase.Loading"
proof (cases o')
  case (RejectedWith e)
  then show ?thesis using reject_holder(1) [OF assms(1-3)] assms(4) by (simp add: settle_request_def)
next
  case (AnsweredWith r presented completed)
  have q: "g_requests g w = Some q" "q_purpose q = p" "ownsRequest (g_lane g p) (Some w) (q_signature q)"
    using assms(2) by (simp_all add: holds_def)
  have s: "settle_request w o' g = answer_request w r presented completed g"
    using assms(4) by (simp add: settle_request_def AnsweredWith)
  show ?thesis
  proof (rule answer_cases [OF q(1,2) assms(1) q(3), of r presented completed])
    fix e assume "answer_request w r presented completed g = reject_request w e g"
    then show ?thesis using reject_holder(1) [OF assms(1-3)] by (simp add: s)
  next
    fix l
    assume t: "transitionRequest (g_lane g p)
        (page_event ''REQUEST_SUCCEEDED'' (Some w) (q_signature q)\<lparr>e_report := Some r, e_time := num completed\<rparr>) = Inr l"
      and f: "answer_request w r presented completed g =
        finish_request w q (g\<lparr>g_lane := (g_lane g)(p := l), g_report := (g_report g)(p := Some r)\<rparr>)"
    show ?thesis using success_lane [OF q(3) t] by (auto simp: s f)
  qed
qed

lemma settle_alive: "g_alive (settle_request w o' g) = g_alive g"
proof -
  have "g_alive (reject_request w e g) = g_alive g" for e by (simp add: reject_request_def split: option.split)
  then show ?thesis by (simp add: settle_request_def answer_request_def Let_def split: outcome.split option.split sum.split)
qed

lemma timed_out:
  assumes "g_alive g" "holds g p w q" "w \<in> set (g_pending g)" "armed g p w q" "g_active g p = Some w"
  shows "\<exists>q'. g_requests (request_timeout w g) w = Some q' \<and> q_aborted q'"
    "l_phase (g_lane (settle_request w (RejectedWith e) (request_timeout w g)) p) = phase.Failed \<and>
     l_error (g_lane (settle_request w (RejectedWith e) (request_timeout w g)) p) =
       Some (normalizeRequestError (fst timeout_rejection) (snd timeout_rejection))"
proof -
  let ?q = "if q_timer q then fired g w q else q" and ?h = "request_timeout w g"
  have q: "g_requests g w = Some q" "q_purpose q = p" using assms(2) by (simp_all add: holds_def)
  have r: "q_reason ?q = Some ByTimeout \<and> q_aborted ?q" using assms(4,5) q(2) by (auto simp: armed_def fired_def)
  have h: "holds ?h p w ?q" "g_alive ?h" "w \<in> set (g_pending ?h)"
    using assms(1-3) by (simp_all add: holds_def timer_fired [OF q(1)])
  then show "\<exists>q'. g_requests ?h w = Some q' \<and> q_aborted q'" using r unfolding holds_def by blast
  have "sound_reason ?q" using r by (simp add: sound_reason_def)
  from reject_holder(1,3) [OF h(2,1) this] h(3) r
  show "l_phase (g_lane (settle_request w (RejectedWith e) ?h) p) = phase.Failed \<and>
     l_error (g_lane (settle_request w (RejectedWith e) ?h) p) =
       Some (normalizeRequestError (fst timeout_rejection) (snd timeout_rejection))" by (simp add: settle_request_def)
qed

text \<open>C9: Over every run of the living page, a loading lane waits for a pending request that owns it, and the lane stops
  loading when that request settles, however it settles.  When the timer of the request fires first, while the request is
  active, it aborts the request, and whatever that then rejects with, the lane fails with the error of a timeout.  The URL
  parser reads back the bases the code builds.\<close>

theorem loading_lane_settles:
  assumes "url_laws purl" "page_reaches purl g" "g_alive g" "l_phase (g_lane g p) = phase.Loading"
  shows "\<exists>w \<in> set (g_pending g). page_owns p w g \<and>
    (\<forall>o'. l_phase (g_lane (page_step purl (Settle w o') g) p) \<noteq> phase.Loading) \<and>
    (g_active g p = Some w \<longrightarrow> (let late = page_step purl (FireTimer w) g in
      (\<exists>q. g_requests late w = Some q \<and> q_aborted q) \<and>
      (\<forall>e. l_phase (g_lane (page_step purl (Settle w (RejectedWith e)) late) p) = phase.Failed \<and>
        l_error (g_lane (page_step purl (Settle w (RejectedWith e)) late) p) =
          Some (normalizeRequestError (fst timeout_rejection) (snd timeout_rejection)))))"
proof -
  have l: "lane_true purl p g" using run_ok [OF assms(2,1)] assms(3) by (simp add: page_ok_def)
  obtain w q where w: "holds g p w q" "w \<in> set (g_pending g)" "armed g p w q" using waiting [OF l assms(4)] by blast
  have "page_owns p w g" using w(1) by (auto simp: holds_def page_owns_request)
  then show ?thesis
    using settled_phase [OF assms(3) w(1) armed_sound [OF w(3)] w(2)] timed_out [OF assms(3) w(1,2,3)] w(2)
    by (intro bexI [of _ w]) (simp_all add: Let_def)
qed

section \<open>Submissions\<close>

lemma limit_long: "clientTimeoutMS payload = Some t \<Longrightarrow> 15100 \<le> t"
  using clientTimeoutMS_covers by blast

lemma send_goes:
  assumes "\<not> unsent c g" "sd_now rd - sd_started rd < limit" "0 < limit"
    "used_bearer c rd = [] \<or> (\<exists>u. purl (input_base c) = Some u \<and> \<not> insecure_base u)"
  shows "send_request purl w c limit rd g =
    timed_request w g\<lparr>g_sent := (input_base c, used_bearer c rd) # g_sent (timed_request w g)\<rparr>"
proof -
  have "max 0 (limit - max 0 (sd_now rd - sd_started rd)) \<noteq> 0" using assms(2,3) by simp
  then show ?thesis unfolding send_unfolded using assms(1,4) by auto
qed

lemma launch_parts:
  "g_alive (launch p w q l g) = g_alive g" "g_requests (launch p w q l g) w = Some q" "g_lane (launch p w q l g) p = l"
  "g_active (launch p w q l g) p = Some w" "w \<in> set (g_pending (launch p w q l g))"
  by (simp_all add: launch_def set_active_def)

lemma submitted:
  assumes "url_laws purl" "page_ok purl g" "g_alive g" "readInput purl p g = Some c"
    "0 \<le> sd_started rd" "sd_started rd \<le> MAX_SAFE" "sd_now rd - sd_started rd < 15100" "\<not> unsent c g"
    "used_bearer c rd = [] \<or> (\<exists>u. purl (input_base c) = Some u \<and> \<not> insecure_base u)"
  obtains q where "holds (start purl p rd g) p (owner_id p (g_sequence g + 1)) q" "q_reason q = None"
    "owner_id p (g_sequence g + 1) \<in> set (g_pending (start purl p rd g))" "g_alive (start purl p rd g)"
    "g_active (start purl p rd g) p = Some (owner_id p (g_sequence g + 1))"
    "g_sent (start purl p rd g) = (input_base c, used_bearer c rd) # g_sent g"
proof -
  let ?w = "owner_id p (g_sequence g + 1)"
  have st: "stored g" using assms(2) by (simp add: page_ok_def)
  obtain sig limit where s: "sig \<noteq> []" "clientTimeoutMS (request_payload c) = Some limit"
    "start purl p rd g = start_request purl p c sig limit rd (prepared p g)" using start_accepts [OF assms(1) st assms(3,4)] by metis
  obtain l q where l: "start purl p rd g = send_request purl ?w c limit rd (launch p ?w q l (prepared p g))"
    and q: "q_purpose q = p" "q_signature q = sig" "q_reason q = None" "ownsRequest l (Some ?w) sig"
    using start_request_launches [OF s(1) assms(5,6), where purl = purl and p = p and c = c and limit = limit and g = "prepared p g"]
    unfolding s(3) prepared_frame by blast
  let ?g = "launch p ?w q l (prepared p g)"
  have "\<not> unsent c ?g" using assms(8) by (simp add: unsent_def)
  moreover have "sd_now rd - sd_started rd < limit" "0 < limit" using limit_long [OF s(2)] assms(7) by simp_all
  ultimately have g: "start purl p rd g = timed_request ?w ?g\<lparr>g_sent := (input_base c, used_bearer c rd) # g_sent g\<rparr>"
    unfolding l using assms(9) by (simp add: send_goes)
  show thesis
  proof (rule that)
    show "holds (start purl p rd g) p ?w (q\<lparr>q_timer := True\<rparr>)"
      unfolding g using q by (simp add: holds_def timed_request_def launch_parts)
    show "?w \<in> set (g_pending (start purl p rd g))" "g_alive (start purl p rd g)" "g_active (start purl p rd g) p = Some ?w"
      "g_sent (start purl p rd g) = (input_base c, used_bearer c rd) # g_sent g"
      unfolding g using assms(3) by (simp_all add: timed_request_def launch_parts)
    show "q_reason (q\<lparr>q_timer := True\<rparr>) = None" using q by simp
  qed
qed

lemma answered:
  assumes "g_alive g" "holds g p w q" "w \<in> set (g_pending g)" "p = Diagnostics \<longrightarrow> validatePresentationContract (rp_analysis r) \<noteq> None"
    "0 \<le> completed" "completed \<le> MAX_SAFE"
  shows "l_phase (g_lane (settle_request w (AnsweredWith r None completed) g) p) = phase.Ready"
    "g_report (settle_request w (AnsweredWith r None completed) g) p = Some r"
proof -
  have q: "g_requests g w = Some q" "q_purpose q = p" "ownsRequest (g_lane g p) (Some w) (q_signature q)"
    using assms(2) by (simp_all add: holds_def)
  let ?e = "page_event ''REQUEST_SUCCEEDED'' (Some w) (q_signature q)\<lparr>e_report := Some r, e_time := num completed\<rparr>"
  have "event_time ?e = Some (jint completed)" using event_time_clock [OF assms(5,6)] .
  then obtain l where l: "transitionRequest (g_lane g p) ?e = Inr l" "l_phase l = phase.Ready"
    using q(3) by (simp add: transitionRequest_def settle_def)
  have "settle_request w (AnsweredWith r None completed) g =
      finish_request w q (g\<lparr>g_lane := (g_lane g)(p := l), g_report := (g_report g)(p := Some r)\<rparr>)"
    using assms(1,3,4) q l(1) by (auto simp: settle_request_def answer_request_def Let_def page_owns_request)
  with l(2) show "l_phase (g_lane (settle_request w (AnsweredWith r None completed) g) p) = phase.Ready"
    "g_report (settle_request w (AnsweredWith r None completed) g) p = Some r" by simp_all
qed

text \<open>C3: In every run of the living page, submitting a form that can be read sends exactly one request, to the base of the form
  and with its credential, unless the credential is indeterminate or its base insecure, or the clock ran past the time the
  request has; the lane then loads, and an answer that can be presented makes it ready and is the report of the page.  The
  URL parser reads back the bases the code builds.\<close>

theorem submitted_form_is_answered:
  assumes "url_laws purl" "page_reaches purl g" "g_alive g" "readInput purl p g = Some c"
    "0 \<le> sd_started rd" "sd_started rd \<le> MAX_SAFE" "sd_now rd - sd_started rd < 15100"
    "\<not> (input_auth c \<and> input_base c \<in> set (g_indeterminate g))"
    "bearer = (if input_auth c then sd_token rd else [])"
    "bearer = [] \<or> (\<exists>u. purl (input_base c) = Some u \<and> \<not> insecure_base u)"
  shows "let g' = page_step purl (Submit p rd) g; w = owner_id p (g_sequence g + 1) in
    g_sent g' = (input_base c, bearer) # g_sent g \<and> l_phase (g_lane g' p) = phase.Loading \<and> g_active g' p = Some w \<and>
    (\<forall>r completed. 0 \<le> completed \<and> completed \<le> MAX_SAFE \<and>
        (p = Diagnostics \<longrightarrow> validatePresentationContract (rp_analysis r) \<noteq> None) \<longrightarrow>
      (let g'' = page_step purl (Settle w (AnsweredWith r None completed)) g' in
        l_phase (g_lane g'' p) = phase.Ready \<and> g_report g'' p = Some r))"
proof -
  have b: "bearer = used_bearer c rd" "\<not> unsent c g" using assms(8,9) by (simp_all add: used_bearer_def unsent_def)
  obtain q where q: "holds (start purl p rd g) p (owner_id p (g_sequence g + 1)) q"
    "owner_id p (g_sequence g + 1) \<in> set (g_pending (start purl p rd g))" "g_alive (start purl p rd g)"
    "g_active (start purl p rd g) p = Some (owner_id p (g_sequence g + 1))"
    "g_sent (start purl p rd g) = (input_base c, used_bearer c rd) # g_sent g"
    using submitted [OF assms(1) run_ok [OF assms(2,1)] assms(3-7) b(2)] assms(10) b(1) by metis
  moreover have "l_phase (g_lane (start purl p rd g) p) = phase.Loading" using q(1) by (simp add: holds_def ownsRequest_def)
  ultimately show ?thesis using answered [OF q(3,1,2)] b(1) by (simp add: Let_def)
qed

section \<open>Examples\<close>

definition secure_url :: url where
  "secure_url = \<lparr>protocol = js ''https:'', username = [], password = [], host = js ''h'', pathname = js ''/api'', search = [],
     hash = [], marks = []\<rparr>"

definition signed_form :: jval where
  "signed_form = obj [(''apiBase'', str ''https://h/.a/../api//''), (''authEnabled'', JBool True), (''addresses'', arr [str ''a''])]"

definition signed_input :: canonical_input where
  "signed_input = TopologyInput \<lparr>ti_base = js ''https://h/api'', ti_addresses = [js ''a''], ti_attempts = 5, ti_timeout = 5000, ti_auth = True\<rparr>"

definition example_page :: page where
  "example_page = new_page (\<lambda>p. if p = Topology then signed_form else JUndef)"

definition example_start :: start_reading where
  "example_start = \<lparr>sd_started = 0, sd_now = 1, sd_token = js ''t''\<rparr>"

definition loading_page :: page where
  "loading_page = page_step plain_parser (Submit Topology example_start) example_page"

definition ready_page :: page where
  "ready_page = page_step plain_parser (Settle (owner_id Topology 1) (AnsweredWith example_report None 2)) loading_page"

lemma example_runs: "page_reaches plain_parser example_page" "page_reaches plain_parser loading_page"
  "page_reaches plain_parser ready_page"
proof -
  show e: "page_reaches plain_parser example_page" unfolding example_page_def by (rule opened)
  show l: "page_reaches plain_parser loading_page"
    unfolding loading_page_def by (rule stepped [OF e]) (simp add: example_start_def MAX_SAFE_def)
  show "page_reaches plain_parser ready_page" unfolding ready_page_def by (rule stepped [OF l]) simp
qed

lemma example_input: "readInput plain_parser Topology example_page = Some signed_input"
proof -
  have "\<not> no_addresses signed_form" "submitted_input plain_parser Topology signed_form = Some signed_input" by code_simp+
  then show ?thesis by (simp add: readInput_def example_page_def new_page_def)
qed

lemma example_alive: "g_alive example_page" "g_sequence example_page = 0" "g_indeterminate example_page = []" "g_sent example_page = []"
  by (simp_all add: example_page_def new_page_def)

lemma example_secure: "input_auth signed_input" "input_base signed_input = js ''https://h/api''" "sd_token example_start = js ''t''"
  "plain_parser (js ''https://h/api'') = Some secure_url" "\<not> insecure_base secure_url"
  "0 \<le> sd_started example_start" "sd_started example_start \<le> MAX_SAFE" "sd_now example_start - sd_started example_start < 15100"
  by code_simp+

lemma example_holds: obtains q where "holds loading_page Topology (owner_id Topology 1) q"
    "owner_id Topology 1 \<in> set (g_pending loading_page)" "g_alive loading_page"
    "g_sent loading_page = [(js ''https://h/api'', js ''t'')]"
proof -
  have "\<not> unsent signed_input example_page" by (simp add: unsent_def example_alive)
  moreover have "used_bearer signed_input example_start = js ''t''" by (simp add: used_bearer_def example_secure)
  ultimately show thesis using that example_secure
    by (rule_tac submitted [OF plain_parser_laws run_ok [OF example_runs(1) plain_parser_laws] example_alive(1) example_input, of example_start])
      (simp_all add: example_alive loading_page_def)
qed

lemma example_phases: "l_phase (g_lane loading_page Topology) = phase.Loading" "g_alive loading_page"
  "l_phase (g_lane ready_page Topology) = phase.Ready" "g_report ready_page Topology = Some example_report" "g_alive ready_page"
proof -
  obtain q where q: "holds loading_page Topology (owner_id Topology 1) q" "owner_id Topology 1 \<in> set (g_pending loading_page)"
    "g_alive loading_page" by (rule example_holds)
  then show "l_phase (g_lane loading_page Topology) = phase.Loading" "g_alive loading_page" "g_alive ready_page"
    by (simp_all add: holds_def ownsRequest_def ready_page_def settle_alive)
  show "l_phase (g_lane ready_page Topology) = phase.Ready" "g_report ready_page Topology = Some example_report"
    using answered [OF q(3,1,2), of example_report 2] by (simp_all add: ready_page_def MAX_SAFE_def)
qed

theorem submitted_form_is_answered_witness:
  "g_sent (page_step plain_parser (Submit Topology example_start) example_page) = [(js ''https://h/api'', js ''t'')]"
  using submitted_form_is_answered [OF plain_parser_laws example_runs(1) example_alive(1) example_input example_secure(6-8), of "js ''t''"]
  by (simp add: example_secure example_alive Let_def)

theorem loading_lane_settles_witness:
  "\<exists>w \<in> set (g_pending loading_page). page_owns Topology w loading_page \<and>
    l_phase (g_lane (page_step plain_parser (Settle w (AnsweredWith example_report None 2)) loading_page) Topology) \<noteq> phase.Loading"
  using loading_lane_settles [OF plain_parser_laws example_runs(2) example_phases(2,1)] by blast

theorem ready_report_answers_form_witness:
  "\<exists>r c. l_result (g_lane ready_page Topology) = Some r \<and> Some example_report = r_report r \<and>
    readInput plain_parser Topology ready_page = Some c \<and>
    input_signature plain_parser Topology c ready_page = Some (r_signature r)"
  using ready_report_answers_form [OF plain_parser_laws example_runs(3) example_phases(5), of Topology]
  by (simp add: example_phases)

theorem credential_sent_securely_witness:
  "\<exists>c. readInput plain_parser Topology example_page = Some c \<and> input_auth c \<and>
    (\<exists>u. plain_parser (input_base c) = Some u \<and> \<not> insecure_base u)"
proof -
  have s: "g_sent (page_step plain_parser (Submit Topology example_start) example_page) = [(js ''https://h/api'', js ''t'')]"
    using example_holds unfolding loading_page_def by metis
  then have "g_sent (page_step plain_parser (Submit Topology example_start) example_page) \<noteq> g_sent example_page"
    by (simp add: example_alive)
  from credential_sent_securely [OF this] s show ?thesis by (auto simp: example_alive js_def)
qed

end
