(* ===== verification/Spec2Isabelle.thy ===== *)
theory Spec2Isabelle
  imports Common_Prefix Json_Roundtrip Legacy_IP Presentation_Facts Legacy_Facts Render_Facts Controller_Progress
    Label_Facts Context_Addresses Contract_Facts Page_Runs
begin

text \<open>
  A verification development for the browser client of CheckNetwork (the JavaScript files of
  \<open>src/frontend\<close>).

  \<^bold>\<open>The program.\<close>  The page submits a form to the API, reads the response, and shows a report.  A form
  becomes a canonical input and a signature; a \<^emph>\<open>lane\<close> per purpose owns the one pending request and is the
  only way to a shown report.  The response is bounded, parsed and normalised: every object of a report is
  checked against a closed schema.  From the report the page makes the analysis it shows and exports, a
  topology model (from the compact topology, or by adapting the topologies of the results), the addresses
  that may be queried for more context, and a plan that says what is inserted into the document.  A
  coordinator inserts the plan in chunks, one per scheduled callback.  A controller fetches the context of
  one address at a time and caches it.  Beside that, the user keeps a table of labels, and a tool reduces
  addresses to their common prefix.

  \<^bold>\<open>Runtime.\<close>  \<open>Js_Prelude\<close> (texts as UTF-16 units, throwing computations as \<open>option\<close>, maps and sets in
  insertion order), \<open>Js_Values\<close> (values with property descriptors and the primitives of the validators in
  \<open>state.js\<close>), \<open>Js_Number\<close> (\<open>Number(text)\<close> and rounding), \<open>Js_Date\<close> (UTC timestamps), \<open>Json_Text\<close>
  (\<open>JSON.stringify\<close>; locale \<open>prefix_code\<close>), \<open>Ip_Text\<close> (parts of addresses; locale \<open>text_codec\<close>).

  \<^bold>\<open>Components, in the order of the code.\<close>
  \<^item> \<open>Common_Prefix\<close>: \<open>common-prefix.js\<close>.  The prefix is the longest common one, the block is exact, printed
    addresses read back, and every input is accounted for.
  \<^item> \<open>Request_Lane\<close>: \<open>createRequestLane\<close>, \<open>ownsRequest\<close>, \<open>transitionRequest\<close> and \<open>normalizeRequestError\<close> of
    \<open>state.js\<close>.  A step per event; the locale \<open>owned_machine\<close> states what an owner buys, once, for the lane
    and for the context controller.
  \<^item> \<open>Request_Input\<close>: \<open>canonicalDiagnosticsInput\<close>, \<open>canonicalTopologyInput\<close>, \<open>inputSignature\<close>,
    \<open>clientTimeoutMS\<close>, \<open>parseRetryAfter\<close>.  Signatures are injective on canonical inputs.
  \<^item> \<open>Api_Error\<close>: the strict scanner of error bodies and the registry of errors (\<open>parseFailure\<close>).
  \<^item> \<open>Json_Number\<close>, \<open>Context_JSON\<close>, \<open>Json_Roundtrip\<close>: \<open>contextNumber\<close>, \<open>exactGeoCount\<close>, \<open>contextJSON\<close> and
    \<open>JSON.parse\<close> as two policies of one reader; printing and reading are inverse (locale \<open>plain_reader\<close>).
  \<^item> \<open>Report_Parts\<close>, \<open>Report_Budget\<close>, \<open>Report_Details\<close>, \<open>Report_Result\<close>, \<open>Compact_Topology\<close>, \<open>Address_Class\<close>,
    \<open>Geo_Details\<close>, \<open>Geo_Scan\<close>, \<open>Report\<close>: \<open>normalizeReport\<close> and \<open>parseResponse\<close> with every validator they
    call.  \<open>Report_Budget\<close> proves the budget loop equivalent to one traversal of the value.
  \<^item> \<open>IP_Context\<close>, \<open>IP_Controller\<close>: \<open>parseIPContext\<close>, \<open>normalizeIPContext\<close> and \<open>createIPContextController\<close>.
    \<open>Context_Facts\<close>: what is parsed is stable.  \<open>Cache_Facts\<close>: the cache refines a map with times of use
    (locale \<open>implementation\<close>).  \<open>Controller_Facts\<close>: a ready view is the owner's, late segments of a revoked
    flight are silent.  \<open>Controller_Progress\<close>: loading ends, the slot is freed.
  \<^item> \<open>Legacy_IP\<close>, \<open>Legacy_Routes\<close>, \<open>Legacy_Adapter\<close>: \<open>canonicalIP\<close>, \<open>legacyRoutes\<close> and \<open>adaptLegacyTopology\<close> of
    \<open>topology-model.js\<close>.  \<open>Legacy_Facts\<close>: both loops end, the selection is closed.
  \<^item> \<open>Topology_View\<close>, \<open>Presentation\<close>, \<open>Dom_Plan\<close>: \<open>topologyModelFromReport\<close>, \<open>filterTopologyModel\<close>;
    \<open>presentTopology\<close> and \<open>annotateASN\<close> of \<open>topology-presentation.js\<close>; \<open>fairRouteOrder\<close>, \<open>planTopologyDOM\<close>
    and \<open>commitDOMChunk\<close>.  \<open>Plan_Facts\<close> and \<open>Plan_Growth\<close>: budgets, fair order, planned routes;
    \<open>Presentation_Facts\<close>: ids, connections, and the agreement of the budgets of planning and mounting.
  \<^item> \<open>Render\<close>: \<open>materializeTopologyItem\<close> and \<open>TopologyRenderCoordinator\<close> of \<open>topology-renderer.js\<close>.
    The organising of a panel (\<open>organizeCommittedDOM\<close>, locale \<open>adoption\<close>) after every chunk comes to the same as organising
    it once.  \<open>Render_Facts\<close>: an undisturbed rendering completes, a callback is confined to the panel its session holds.
  \<^item> \<open>IP_Labels\<close>: the label table of \<open>app.js\<close> (\<open>parseIPLabelImport\<close>, \<open>normalizeIPLabelRows\<close>,
    \<open>upsertIPLabels\<close>, \<open>loadIPLabels\<close>, the edits of the table).  \<open>Label_Facts\<close>: its bounds, the accounting of
    imports, the round trip of quoted lines.
  \<^item> \<open>Context_Addresses\<close>: \<open>eligibleIPContextAddresses\<close> of \<open>app.js\<close>, and that the controller takes what is offered.
  \<^item> \<open>Presentation_Contract\<close>: the registries, \<open>validatePresentationContract\<close>, the facts and \<open>humanReport\<close> of
    \<open>app.js\<close>.  \<open>Contract_Facts\<close>: nothing throws after the validation, every fact is printable.
  \<^item> \<open>Page_Requests\<close>: the requests of \<open>createApp\<close> in \<open>app.js\<close> (\<open>start\<close>, \<open>cancel\<close>, \<open>invalidate\<close>,
    \<open>invalidateCredentialBase\<close>, \<open>applyCredential\<close>, the timer, unloading, \<open>destroy\<close>) over the two lanes.
    \<open>Page_Facts\<close>: the invariant of a page and that every operation keeps it.  \<open>Page_Runs\<close>: a shown report answers
    the form as it is, loading ends, a submission is answered, a credential is only sent where it may be.

  \<^bold>\<open>Asynchrony.\<close>  The requests, the controller and the coordinator are cut at their \<open>await\<close>s and callbacks: an operation is
  one synchronous segment, and an interleaving is any list of operations.  The readings of a segment (the
  clocks, the answers of \<open>isCurrentOwner\<close> and \<open>ownsRequest\<close>) are arguments of its operation.  Callbacks into
  the page (\<open>onChange\<close>, \<open>onState\<close>) do not call back into the component.  A synchronous throw of
  \<open>body.cancel\<close> is the cancelled body followed by its closing.

  \<^bold>\<open>Bounds and fuel.\<close>  The walk of an attempt runs with the number of its nodes as fuel, and \<open>walk_ends\<close> shows
  that it never needs more.  The JSON readers recurse on levels: the code's own limit, or for \<open>JSON.parse\<close> the
  length of the text, which no nesting exceeds.  The selection loop and the budget loop are functions with
  termination proofs by a measure.

  \<^bold>\<open>Parameters.\<close>  What belongs to the platform, not to the language: which texts \<open>Date.parse\<close> accepts (\<open>dp\<close>), the
  \<open>URL\<close> parser and its host parser (\<open>purl\<close>, \<open>url6\<close>; \<open>url_laws\<close> says that it reads back the bases that
  \<open>canonicalAPIBase\<close> builds, and \<open>Plain_Url\<close> is a parser with dot segments for which the examples of \<open>Page_Runs\<close> hold), Unicode lower case (\<open>lower\<close>) and collation keys
  (\<open>collate\<close>), and the text of a property inherited from \<open>Object.prototype\<close> (\<open>native\<close>).

  \<^bold>\<open>Not modelled.\<close>  The rest of the page around these components (the DOM of the report, the accordion, the
  context panel, the views) is event handling and DOM construction.  \<open>sanitizeCredentialReflection\<close> and
  \<open>readResponseText\<close> rest on a case-insensitive regular expression and a streaming decoder of the platform.
  The texts in natural language and the tab order of the rendered elements and the canvas drawing of
  \<open>topology-renderer.js\<close> and \<open>topology-visualizer.js\<close>, and the map of \<open>geo-map.js\<close>, are layout and
  floating-point geometry.  The \<open>.cjs\<close> files are browser tests.  The Go service and the Android client are
  other programs in other languages.
\<close>

end
